(* ===== verification/Zote_Prelude.thy ===== *)
theory Zote_Prelude
  imports Main
begin

text \<open>
  Shared ground of the development: Go errors as values, the result type of every fallible
  function, the loop that stops at the first error, and Go maps.

  \<^item> An \<open>error\<close> is what \<^verbatim>\<open>fmt.Errorf\<close> builds. \<open>Errorf s\<close> is a fresh error with text \<open>s\<close>,
    \<open>Sentinel n\<close> a package-level error variable compared by identity (\<^verbatim>\<open>zorm.ErrNotFound\<close>),
    \<open>Wrap m e\<close> is \<^verbatim>\<open>fmt.Errorf("m: %w", e)\<close>. \<open>Panic s\<close> is a panic travelling up the stack: it
    is not wrapped on the way, and the deferred \<^verbatim>\<open>recover\<close> of the code turns it into an error.
  \<^item> A Go map is an association list with distinct keys. Go leaves the iteration order of
    \<^verbatim>\<open>range\<close> open; the order of the list is the order one run happens to use, so a theorem
    about an arbitrary list is a theorem about every iteration order.
\<close>

named_theorems res_simps "bind, wrap and loops over results"
named_theorems map_simps "Go maps"
named_theorems str_simps "strings"

section \<open>Errors\<close>

datatype error = Errorf string | Sentinel string | Wrap string error | Panic string

type_synonym 'a res = "error + 'a"

primrec is_sentinel :: "string \<Rightarrow> error \<Rightarrow> bool" where
  "is_sentinel n (Errorf s) = False"
| "is_sentinel n (Sentinel s) = (s = n)"
| "is_sentinel n (Wrap m e) = is_sentinel n e"
| "is_sentinel n (Panic s) = False"

primrec error_text :: "error \<Rightarrow> string" where
  "error_text (Errorf s) = s"
| "error_text (Sentinel s) = s"
| "error_text (Wrap m e) = m @ '': '' @ error_text e"
| "error_text (Panic s) = s"

primrec is_panic :: "error \<Rightarrow> bool" where
  "is_panic (Errorf s) = False"
| "is_panic (Sentinel s) = False"
| "is_panic (Wrap m e) = False"
| "is_panic (Panic s) = True"

definition bind_res :: "'a res \<Rightarrow> ('a \<Rightarrow> 'b res) \<Rightarrow> 'b res" where
  "bind_res r f = (case r of Inl e \<Rightarrow> Inl e | Inr x \<Rightarrow> f x)"

text \<open>\<^verbatim>\<open>if err != nil { return fmt.Errorf("m: %w", err) }\<close>; a panic passes through.\<close>

definition wrap_err :: "string \<Rightarrow> error \<Rightarrow> error" where
  "wrap_err m e = (if is_panic e then e else Wrap m e)"

definition wrap_res :: "string \<Rightarrow> 'a res \<Rightarrow> 'a res" where
  "wrap_res m r = (case r of Inl e \<Rightarrow> Inl (wrap_err m e) | Inr x \<Rightarrow> Inr x)"

definition is_ok :: "'a res \<Rightarrow> bool" where
  "is_ok r = (case r of Inl _ \<Rightarrow> False | Inr _ \<Rightarrow> True)"

lemma bind_res_simps [simp, res_simps]:
  "bind_res (Inl e) f = Inl e"
  "bind_res (Inr x) f = f x"
  by (simp_all add: bind_res_def)

lemma wrap_res_simps [simp, res_simps]:
  "wrap_res m (Inr x) = Inr x"
  "wrap_res m (Inl e) = Inl (wrap_err m e)"
  by (simp_all add: wrap_res_def)

lemma is_ok_simps [simp, res_simps]:
  "is_ok (Inr x) = True"
  "is_ok (Inl e) = False"
  by (simp_all add: is_ok_def)

lemma bind_res_Inr [res_simps]:
  "bind_res r f = Inr y \<longleftrightarrow> (\<exists>x. r = Inr x \<and> f x = Inr y)"
  by (cases r) auto

lemma bind_res_Inl [res_simps]:
  "bind_res r f = Inl e \<longleftrightarrow> r = Inl e \<or> (\<exists>x. r = Inr x \<and> f x = Inl e)"
  by (cases r) auto

lemma wrap_res_Inr [simp, res_simps]: "wrap_res m r = Inr x \<longleftrightarrow> r = Inr x"
  by (cases r) auto

lemma wrap_res_Inl [res_simps]: "wrap_res m r = Inl e \<longleftrightarrow> (\<exists>e'. r = Inl e' \<and> e = wrap_err m e')"
  by (cases r) auto

lemma is_ok_wrap [simp]: "is_ok (wrap_res m r) = is_ok r"
  by (cases r) auto

lemma is_ok_bind: "is_ok (bind_res r f) \<longleftrightarrow> (\<exists>x. r = Inr x \<and> is_ok (f x))"
  by (cases r) auto

lemma is_ok_iff: "is_ok r \<longleftrightarrow> (\<exists>x. r = Inr x)"
  by (cases r) auto

lemma is_sentinel_wrap_err [simp]: "is_sentinel n (wrap_err m e) = is_sentinel n e"
  by (cases e) (auto simp: wrap_err_def)

lemma bind_res_cong [fundef_cong]:
  "r = r' \<Longrightarrow> (\<And>x. r' = Inr x \<Longrightarrow> f x = f' x) \<Longrightarrow> bind_res r f = bind_res r' f'"
  by (cases r') auto

lemma wrap_res_cong [fundef_cong]: "m = m' \<Longrightarrow> r = r' \<Longrightarrow> wrap_res m r = wrap_res m' r'"
  by simp

section \<open>Loops that stop at the first error\<close>

text \<open>\<^verbatim>\<open>for _, x := range xs { y, err := f(x); if err != nil { return err }; ys = append(ys, y) }\<close>\<close>

fun map_res :: "('a \<Rightarrow> 'b res) \<Rightarrow> 'a list \<Rightarrow> 'b list res" where
  "map_res f [] = Inr []"
| "map_res f (x # xs) = bind_res (f x) (\<lambda>y. bind_res (map_res f xs) (\<lambda>ys. Inr (y # ys)))"

text \<open>\<^verbatim>\<open>for _, x := range xs { s, err = f(s, x); if err != nil { return err } }\<close>\<close>

fun fold_res :: "('s \<Rightarrow> 'a \<Rightarrow> 's res) \<Rightarrow> 's \<Rightarrow> 'a list \<Rightarrow> 's res" where
  "fold_res f s [] = Inr s"
| "fold_res f s (x # xs) = bind_res (f s x) (\<lambda>s'. fold_res f s' xs)"

lemma map_res_cong [fundef_cong]:
  "xs = ys \<Longrightarrow> (\<And>x. x \<in> set ys \<Longrightarrow> f x = g x) \<Longrightarrow> map_res f xs = map_res g ys"
  by (induction xs arbitrary: ys) auto

lemma map_res_Inr: "map_res f xs = Inr ys \<longleftrightarrow> list_all2 (\<lambda>x y. f x = Inr y) xs ys"
  by (induction xs arbitrary: ys) (auto simp: bind_res_Inr list_all2_Cons1)

lemma map_res_length: "map_res f xs = Inr ys \<Longrightarrow> length ys = length xs"
  by (simp add: map_res_Inr list_all2_lengthD)

lemma map_res_mem:
  "map_res f xs = Inr ys \<Longrightarrow> y \<in> set ys \<Longrightarrow> \<exists>x \<in> set xs. f x = Inr y"
  by (induction xs arbitrary: ys) (auto simp: bind_res_Inr)

lemma map_res_mem_rev:
  "map_res f xs = Inr ys \<Longrightarrow> x \<in> set xs \<Longrightarrow> \<exists>y \<in> set ys. f x = Inr y"
  by (induction xs arbitrary: ys) (auto simp: bind_res_Inr)

lemma map_res_Inr_map [simp]: "map_res (\<lambda>x. Inr (f x)) xs = Inr (map f xs)"
  by (induction xs) auto

text \<open>The error a loop returns is that of the first element that fails.\<close>

lemma map_res_first_error:
  "\<forall>u \<in> set us. is_ok (f u) \<Longrightarrow> f x = Inl e \<Longrightarrow> map_res f (us @ x # vs) = Inl e"
  by (induction us) (auto simp: is_ok_iff)

lemma map_res_InlD:
  "map_res f xs = Inl e \<Longrightarrow>
     \<exists>us x vs. xs = us @ x # vs \<and> (\<forall>u \<in> set us. is_ok (f u)) \<and> f x = Inl e"
proof (induction xs)
  case (Cons a xs)
  show ?case
  proof (cases "f a")
    case (Inl e')
    with Cons.prems show ?thesis by (intro exI [of _ "[]"]) simp
  next
    case (Inr y)
    with Cons obtain us x vs where "xs = us @ x # vs" "\<forall>u \<in> set us. is_ok (f u)" "f x = Inl e"
      by (auto simp: bind_res_Inl)
    with Inr show ?thesis by (intro exI [of _ "a # us"]) simp
  qed
qed simp

lemma fold_res_append:
  "fold_res f s (xs @ ys) = bind_res (fold_res f s xs) (\<lambda>s'. fold_res f s' ys)"
  by (induction xs arbitrary: s) (auto simp: bind_res_def split: sum.splits)

lemma fold_res_invariant:
  assumes step: "\<And>s x s'. x \<in> set xs \<Longrightarrow> P s \<Longrightarrow> f s x = Inr s' \<Longrightarrow> P s'"
    and "P s" and "fold_res f s xs = Inr t"
  shows "P t"
  using assms
proof (induction xs arbitrary: s)
  case (Cons a xs)
  then obtain s1 where s1: "f s a = Inr s1" "fold_res f s1 xs = Inr t"
    by (auto simp: bind_res_Inr)
  have "P s1" using Cons.prems(1) [of a s s1] Cons.prems(2) s1 by simp
  moreover have "P s'" if "x \<in> set xs" "P s" "f s x = Inr s'" for x s s'
    using Cons.prems(1) [of x s s'] that by simp
  ultimately show ?case using Cons.IH [of s1] s1(2) by blast
qed simp

section \<open>Operations with a state\<close>

text \<open>
  An operation that changes a state \<open>'s\<close> and may fail gives the state it leaves, on the error
  paths too, and a result: the pair is what an early \<^verbatim>\<open>return err\<close> leaves behind.
\<close>

definition run_then :: "'s \<times> 'a res \<Rightarrow> ('s \<Rightarrow> 'a \<Rightarrow> 's \<times> 'b res) \<Rightarrow> 's \<times> 'b res" where
  "run_then p f = (case snd p of Inl e \<Rightarrow> (fst p, Inl e) | Inr x \<Rightarrow> f (fst p) x)"

definition wrap_run :: "string \<Rightarrow> 's \<times> 'a res \<Rightarrow> 's \<times> 'a res" where
  "wrap_run m p = (fst p, wrap_res m (snd p))"

text \<open>\<^verbatim>\<open>for _, x := range xs { if err := f(x); err != nil { return err } }\<close>, \<^verbatim>\<open>f\<close> changing the state\<close>

fun fold_run :: "('s \<Rightarrow> 'a \<Rightarrow> 's \<times> unit res) \<Rightarrow> 's \<Rightarrow> 'a list \<Rightarrow> 's \<times> unit res" where
  "fold_run f s [] = (s, Inr ())"
| "fold_run f s (x # xs) = run_then (f s x) (\<lambda>s' _. fold_run f s' xs)"

lemma run_then_simps [simp, res_simps]:
  "run_then (s, Inl e) f = (s, Inl e)"
  "run_then (s, Inr x) f = f s x"
  by (simp_all add: run_then_def)

lemma wrap_run_simps [simp, res_simps]: "wrap_run m (s, r) = (s, wrap_res m r)"
  by (simp add: wrap_run_def)

lemma fst_wrap_run [simp]: "fst (wrap_run m p) = fst p"
  by (simp add: wrap_run_def)

lemma run_then_Inr [res_simps]:
  "run_then p f = (t, Inr y) \<longleftrightarrow> (\<exists>s x. p = (s, Inr x) \<and> f s x = (t, Inr y))"
  by (cases p; cases "snd p") auto

lemma run_then_Inl [res_simps]:
  "run_then p f = (t, Inl e) \<longleftrightarrow> p = (t, Inl e) \<or> (\<exists>s x. p = (s, Inr x) \<and> f s x = (t, Inl e))"
  by (cases p; cases "snd p") auto

lemma wrap_run_Inr [simp, res_simps]: "wrap_run m p = (s, Inr x) \<longleftrightarrow> p = (s, Inr x)"
  by (cases p) auto

lemma run_then_cong [fundef_cong]:
  "p = p' \<Longrightarrow> (\<And>s x. p' = (s, Inr x) \<Longrightarrow> f s x = f' s x) \<Longrightarrow> run_then p f = run_then p' f'"
  by (cases p'; cases "snd p'") auto

lemma run_then_state:
  assumes "I (fst p)" and "\<And>s x. p = (s, Inr x) \<Longrightarrow> I s \<Longrightarrow> I (fst (f s x))"
  shows "I (fst (run_then p f))"
  using assms by (cases p; cases "snd p") auto

lemma fold_run_state:
  assumes "I s" and "\<And>s x. x \<in> set xs \<Longrightarrow> I s \<Longrightarrow> I (fst (f s x))"
  shows "I (fst (fold_run f s xs))"
  using assms
proof (induction xs arbitrary: s)
  case (Cons a xs)
  then show ?case by (cases "f s a"; cases "snd (f s a)") (fastforce, fastforce)
qed simp

section \<open>Go maps\<close>

type_synonym ('k, 'v) gomap = "('k \<times> 'v) list"

text \<open>\<^verbatim>\<open>m[k] = v\<close>: the entry is replaced in place, a new key is added at the end.\<close>

fun map_put :: "'k \<Rightarrow> 'v \<Rightarrow> ('k, 'v) gomap \<Rightarrow> ('k, 'v) gomap" where
  "map_put k v [] = [(k, v)]"
| "map_put k v ((k', v') # m) = (if k' = k then (k, v) # m else (k', v') # map_put k v m)"

definition map_wf :: "('k, 'v) gomap \<Rightarrow> bool" where
  "map_wf m \<longleftrightarrow> distinct (map fst m)"

lemma map_of_map_put [simp, map_simps]: "map_of (map_put k v m) = (map_of m)(k \<mapsto> v)"
  by (induction k v m rule: map_put.induct) auto

lemma keys_map_put [map_simps]: "set (map fst (map_put k v m)) = insert k (set (map fst m))"
  by (induction k v m rule: map_put.induct) auto

lemma map_put_fresh: "map_of m k = None \<Longrightarrow> map_put k v m = m @ [(k, v)]"
  by (induction k v m rule: map_put.induct) (auto split: if_splits)

lemma map_wf_put [simp, intro]: "map_wf m \<Longrightarrow> map_wf (map_put k v m)"
proof (induction k v m rule: map_put.induct)
  case (2 k v k' v' m)
  show ?case
  proof (cases "k' = k")
    case True
    with "2.prems" show ?thesis by (simp add: map_wf_def)
  next
    case False
    then have "k' \<notin> set (map fst (map_put k v m))"
      using "2.prems" by (simp only: keys_map_put) (simp add: map_wf_def)
    with False "2" show ?thesis by (simp add: map_wf_def)
  qed
qed (simp add: map_wf_def)

lemma map_wf_Nil [simp, intro]: "map_wf []"
  by (simp add: map_wf_def)

lemma map_of_Some_mem: "map_wf m \<Longrightarrow> map_of m k = Some v \<longleftrightarrow> (k, v) \<in> set m"
  by (auto simp: map_wf_def)

text \<open>\<^verbatim>\<open>for k, v := range src { dst[k] = v }\<close>\<close>

definition map_merge :: "('k, 'v) gomap \<Rightarrow> ('k, 'v) gomap \<Rightarrow> ('k, 'v) gomap" where
  "map_merge dst src = fold (\<lambda>(k, v) m. map_put k v m) src dst"

lemma map_wf_merge [simp, intro]: "map_wf dst \<Longrightarrow> map_wf (map_merge dst src)"
proof (induction src arbitrary: dst)
  case (Cons p src)
  then show ?case by (cases p) (simp add: map_merge_def map_wf_put)
qed (simp add: map_merge_def)

lemma map_of_merge_last: "map_of (map_merge dst src) k =
    (case map_of (rev src) k of Some v \<Rightarrow> Some v | None \<Rightarrow> map_of dst k)"
proof (induction src arbitrary: dst)
  case Nil
  then show ?case by (simp add: map_merge_def)
next
  case (Cons p src)
  obtain a b where p: "p = (a, b)" by (cases p)
  have "map_of (map_merge dst (p # src)) k = map_of (map_merge (map_put a b dst) src) k"
    by (simp add: map_merge_def p)
  then show ?case
    using Cons.IH [of "map_put a b dst"] by (auto simp: p map_add_def split: option.splits)
qed

lemma map_of_rev_wf: "map_wf m \<Longrightarrow> map_of (rev m) = map_of m"
proof (rule ext)
  fix k
  assume wf: "map_wf m"
  then have "map_of (rev m) k = Some v \<longleftrightarrow> map_of m k = Some v" for v
    by (subst map_of_eq_Some_iff) (auto simp: map_wf_def rev_map [symmetric])
  then show "map_of (rev m) k = map_of m k"
    by (cases "map_of m k"; cases "map_of (rev m) k") auto
qed

lemma map_of_merge [map_simps]:
  "map_wf src \<Longrightarrow> map_of (map_merge dst src) = map_of dst ++ map_of src"
  by (rule ext) (simp add: map_of_merge_last map_of_rev_wf map_add_def)

end
