(* ===== verification/Go_Strings.thy ===== *)
theory Go_Strings
  imports Zote_Prelude "HOL-Library.Char_ord"
begin

text \<open>
  The part of Go's \<^verbatim>\<open>strings\<close>, \<^verbatim>\<open>strconv\<close> and \<^verbatim>\<open>fmt\<close> packages the code uses, on byte strings
  (a Go string is a byte sequence; \<open>char\<close> is a byte), with the laws the components rely on:
  splitting and joining are inverse, decimal rendering and parsing are inverse, and how
  each operation changes the number of occurrences of a byte.
\<close>

section \<open>Splitting, joining, searching\<close>

text \<open>\<^verbatim>\<open>strings.Join(xs, sep)\<close>\<close>

fun join :: "string \<Rightarrow> string list \<Rightarrow> string" where
  "join sep [] = []"
| "join sep [x] = x"
| "join sep (x # y # ys) = x @ sep @ join sep (y # ys)"

text \<open>\<^verbatim>\<open>strings.Split(s, c)\<close> for a separator of one byte: never empty.\<close>

fun split_on :: "char \<Rightarrow> string \<Rightarrow> string list" where
  "split_on c [] = [[]]"
| "split_on c (x # s) =
     (if x = c then [] # split_on c s
      else case split_on c s of [] \<Rightarrow> [[x]] | w # ws \<Rightarrow> (x # w) # ws)"

text \<open>\<^verbatim>\<open>strings.Trim(s, c)\<close>\<close>

definition trim_char :: "char \<Rightarrow> string \<Rightarrow> string" where
  "trim_char c s = rev (dropWhile (\<lambda>x. x = c) (rev (dropWhile (\<lambda>x. x = c) s)))"

definition is_space :: "char \<Rightarrow> bool" where
  "is_space c \<longleftrightarrow> c \<in> {CHR '' '', CHR 0x09, CHR 0x0A, CHR 0x0B, CHR 0x0C, CHR 0x0D}"

text \<open>\<^verbatim>\<open>strings.TrimSpace(s)\<close> on ASCII\<close>

definition trim_space :: "string \<Rightarrow> string" where
  "trim_space s = rev (dropWhile is_space (rev (dropWhile is_space s)))"

definition has_prefix :: "string \<Rightarrow> string \<Rightarrow> bool" where
  "has_prefix s p \<longleftrightarrow> take (length p) s = p"

text \<open>\<^verbatim>\<open>strings.Contains(s, sub)\<close>\<close>

fun contains :: "string \<Rightarrow> string \<Rightarrow> bool" where
  "contains [] sub = (sub = [])"
| "contains (x # s) sub = (has_prefix (x # s) sub \<or> contains s sub)"

text \<open>\<^verbatim>\<open>strings.Replace(s, old, new, 1)\<close> for a non-empty \<open>old\<close>\<close>

fun replace_first :: "string \<Rightarrow> string \<Rightarrow> string \<Rightarrow> string" where
  "replace_first [] old new = []"
| "replace_first (x # s) old new =
     (if has_prefix (x # s) old then new @ drop (length old) (x # s)
      else x # replace_first s old new)"

text \<open>\<^verbatim>\<open>strings.ReplaceAll(s, c, new)\<close> for a pattern of one byte\<close>

definition replace_char :: "string \<Rightarrow> char \<Rightarrow> string \<Rightarrow> string" where
  "replace_char s c new = concat (map (\<lambda>x. if x = c then new else [x]) s)"

definition to_lower :: "string \<Rightarrow> string" where
  "to_lower s = map (\<lambda>c. if CHR ''A'' \<le> c \<and> c \<le> CHR ''Z'' then char_of (of_char c + 32 :: nat) else c) s"

definition to_upper :: "string \<Rightarrow> string" where
  "to_upper s = map (\<lambda>c. if CHR ''a'' \<le> c \<and> c \<le> CHR ''z'' then char_of (of_char c - 32 :: nat) else c) s"

lemma split_on_not_Nil [simp]: "split_on c s \<noteq> []"
  by (induction s) (auto split: list.splits)

lemma split_on_no_sep: "w \<in> set (split_on c s) \<Longrightarrow> c \<notin> set w"
  by (induction s arbitrary: w) (auto split: list.splits if_splits)

lemma split_on_plain: "c \<notin> set s \<Longrightarrow> split_on c s = [s]"
  by (induction s) auto

lemma join_Cons: "xs \<noteq> [] \<Longrightarrow> join sep (x # xs) = x @ sep @ join sep xs"
  by (cases xs) auto

lemma join_split_on: "join [c] (split_on c s) = s"
proof (induction s)
  case (Cons x s)
  show ?case
  proof (cases "x = c")
    case True
    with Cons show ?thesis by (simp add: join_Cons)
  next
    case False
    obtain w ws where w: "split_on c s = w # ws" by (cases "split_on c s") auto
    have "join [c] ((x # w) # ws) = x # join [c] (w # ws)" by (cases ws) auto
    with Cons False w show ?thesis by simp
  qed
qed simp

lemma split_on_append:
  "c \<notin> set w \<Longrightarrow> split_on c (w @ c # s) = w # split_on c s"
  by (induction w) auto

lemma split_on_join:
  "xs \<noteq> [] \<Longrightarrow> \<forall>x \<in> set xs. c \<notin> set x \<Longrightarrow> split_on c (join [c] xs) = xs"
proof (induction xs)
  case (Cons x xs)
  then show ?case
    by (cases "xs = []") (auto simp: split_on_plain split_on_append join_Cons)
qed simp

text \<open>A separator byte that neither part before it contains fixes the parts.\<close>

lemma sep_unique_left:
  "c \<notin> set a \<Longrightarrow> c \<notin> set b \<Longrightarrow> a @ c # x = b @ c # y \<longleftrightarrow> a = b \<and> x = y"
proof (induction a arbitrary: b)
  case Nil
  then show ?case by (cases b) auto
next
  case (Cons d a)
  then show ?case by (cases b) auto
qed

lemma sep_unique_right:
  "c \<notin> set x \<Longrightarrow> c \<notin> set y \<Longrightarrow> a @ c # x = b @ c # y \<longleftrightarrow> a = b \<and> x = y"
  using sep_unique_left [of c "rev x" "rev y" "rev a" "rev b"]
  by (metis append.assoc append_Cons append_Nil rev.simps(2) rev_append rev_rev_ident set_rev)

lemma join_map_append: "join sep (xs @ [y]) = (if xs = [] then y else join sep xs @ sep @ y)"
  by (induction xs) (auto simp: join_Cons)

lemma contains_char: "contains s [c] \<longleftrightarrow> c \<in> set s"
  by (induction s) (auto simp: has_prefix_def)

lemma contains_append:
  "contains s sub \<longleftrightarrow> (\<exists>u v. s = u @ sub @ v)"
proof (induction s)
  case (Cons x s)
  have "has_prefix (x # s) sub \<longleftrightarrow> (\<exists>v. x # s = sub @ v)"
    unfolding has_prefix_def by (metis append_eq_conv_conj)
  moreover have "(\<exists>u v. x # s = u @ sub @ v) \<longleftrightarrow> (\<exists>v. x # s = sub @ v) \<or> (\<exists>u v. s = u @ sub @ v)"
  proof
    assume "\<exists>u v. x # s = u @ sub @ v"
    then obtain u v where "x # s = u @ sub @ v" by blast
    then show "(\<exists>v. x # s = sub @ v) \<or> (\<exists>u v. s = u @ sub @ v)" by (cases u) auto
  next
    assume "(\<exists>v. x # s = sub @ v) \<or> (\<exists>u v. s = u @ sub @ v)"
    then show "\<exists>u v. x # s = u @ sub @ v"
      by (metis append_Cons append_Nil)
  qed
  ultimately show ?case using Cons by simp
qed simp

section \<open>Counting bytes\<close>

text \<open>How many times a byte occurs: the measure the SQL lemmas use for the placeholder \<^verbatim>\<open>?\<close>.\<close>

definition count_char :: "char \<Rightarrow> string \<Rightarrow> nat" where
  "count_char c s = length (filter (\<lambda>x. x = c) s)"

lemma count_char_simps [simp, str_simps]:
  "count_char c [] = 0"
  "count_char c (x # s) = (if x = c then Suc (count_char c s) else count_char c s)"
  "count_char c (s @ t) = count_char c s + count_char c t"
  by (simp_all add: count_char_def)

lemma count_char_0: "count_char c s = 0 \<longleftrightarrow> c \<notin> set s"
  by (induction s) auto

lemma count_char_replace_char:
  "count_char c new = 0 \<Longrightarrow> c \<noteq> d \<Longrightarrow> count_char c (replace_char s d new) = count_char c s"
  by (induction s) (auto simp: replace_char_def)

lemma count_char_join: "count_char c (join sep xs) =
    sum_list (map (count_char c) xs) + (length xs - 1) * count_char c sep"
  by (induction sep xs rule: join.induct) auto

lemma has_prefix_eq: "has_prefix s p \<Longrightarrow> s = p @ drop (length p) s"
  by (metis has_prefix_def append_take_drop_id)

lemma count_char_replace_first:
  "contains s old \<Longrightarrow> old \<noteq> [] \<Longrightarrow>
     count_char c (replace_first s old new) + count_char c old = count_char c s + count_char c new"
proof (induction s)
  case (Cons x s)
  show ?case
  proof (cases "has_prefix (x # s) old")
    case True
    then have "count_char c (x # s) = count_char c old + count_char c (drop (length old) (x # s))"
      by (metis has_prefix_eq count_char_simps(3))
    with True show ?thesis by simp
  next
    case False
    with Cons show ?thesis by auto
  qed
qed simp

lemma dropWhile_space_count:
  "\<not> is_space c \<Longrightarrow> count_char c (dropWhile is_space s) = count_char c s"
  by (induction s) auto

lemma count_char_rev [simp]: "count_char c (rev s) = count_char c s"
  by (induction s) auto

lemma count_char_trim_space: "\<not> is_space c \<Longrightarrow> count_char c (trim_space s) = count_char c s"
  by (simp add: trim_space_def dropWhile_space_count)

section \<open>Decimal integers\<close>

text \<open>\<^verbatim>\<open>%d\<close>, \<^verbatim>\<open>strconv.FormatInt(i, 10)\<close>\<close>

fun nat_str :: "nat \<Rightarrow> string" where
  "nat_str n = (if n < 10 then [char_of (48 + n)] else nat_str (n div 10) @ [char_of (48 + n mod 10)])"

declare nat_str.simps [simp del]

definition int_str :: "int \<Rightarrow> string" where
  "int_str i = (if i < 0 then CHR ''-'' # nat_str (nat (- i)) else nat_str (nat i))"

definition is_digit :: "char \<Rightarrow> bool" where
  "is_digit c \<longleftrightarrow> 48 \<le> (of_char c :: nat) \<and> (of_char c :: nat) \<le> 57"

definition digits_val :: "nat \<Rightarrow> string \<Rightarrow> nat" where
  "digits_val a s = foldl (\<lambda>n c. 10 * n + (of_char c - 48)) a s"

definition parse_nat :: "string \<Rightarrow> nat option" where
  "parse_nat s = (if s \<noteq> [] \<and> (\<forall>c \<in> set s. is_digit c) then Some (digits_val 0 s) else None)"

text \<open>\<^verbatim>\<open>strconv.ParseInt(s, 10, 64)\<close>: an optional sign, digits, and the value must fit 64 bits.\<close>

definition parse_int64 :: "string \<Rightarrow> int option" where
  "parse_int64 s =
     (let (neg, ds) = (case s of [] \<Rightarrow> (False, [])
                       | c # t \<Rightarrow> if c = CHR ''-'' then (True, t)
                                  else if c = CHR ''+'' then (False, t) else (False, s))
      in case parse_nat ds of
           None \<Rightarrow> None
         | Some n \<Rightarrow> (let i = (if neg then - int n else int n)
                      in if - (2 ^ 63) \<le> i \<and> i < 2 ^ 63 then Some i else None))"

lemma digits_val_append: "digits_val a (s @ t) = digits_val (digits_val a s) t"
  by (simp add: digits_val_def)

lemma of_char_digit: "d < 10 \<Longrightarrow> (of_char (char_of (48 + d)) :: nat) = 48 + d"
  by simp

lemma nat_str_digits: "c \<in> set (nat_str n) \<Longrightarrow> is_digit c"
proof (induction n rule: nat_str.induct)
  case (1 n)
  have d: "is_digit (char_of (48 + d))" if "d < 10" for d :: nat
    using that by (simp add: is_digit_def)
  show ?case
    using "1" d [of n] d [of "n mod 10"] by (cases "n < 10") (auto simp: nat_str.simps [of n])
qed

lemma nat_str_not_Nil [simp]: "nat_str n \<noteq> []"
  by (subst nat_str.simps) simp

lemma digits_val_nat_str: "digits_val 0 (nat_str n) = n"
proof (induction n rule: nat_str.induct)
  case (1 n)
  have one: "digits_val a [char_of (48 + d)] = 10 * a + d" if "d < 10" for a d :: nat
    using that by (simp add: digits_val_def)
  show ?case
  proof (cases "n < 10")
    case True
    then show ?thesis using one [of n 0] by (simp add: nat_str.simps [of n])
  next
    case False
    then show ?thesis
      using "1" one [of "n mod 10" "n div 10"] by (simp add: nat_str.simps [of n] digits_val_append)
  qed
qed

lemma parse_nat_str [simp]: "parse_nat (nat_str n) = Some n"
  by (auto simp: parse_nat_def digits_val_nat_str intro: nat_str_digits)

lemma nat_str_hd: "nat_str n = c # t \<Longrightarrow> c \<noteq> CHR ''-'' \<and> c \<noteq> CHR ''+''"
proof -
  assume "nat_str n = c # t"
  then have "is_digit c" using nat_str_digits [of c n] by simp
  then show ?thesis by (auto simp: is_digit_def)
qed

lemma parse_int_str: "- (2 ^ 63) \<le> i \<Longrightarrow> i < 2 ^ 63 \<Longrightarrow> parse_int64 (int_str i) = Some i"
proof -
  assume b: "- (2 ^ 63) \<le> i" "i < 2 ^ 63"
  show ?thesis
  proof (cases "i < 0")
    case True
    with b show ?thesis by (simp add: parse_int64_def int_str_def)
  next
    case False
    obtain c t where ct: "nat_str (nat i) = c # t" by (cases "nat_str (nat i)") auto
    then have "parse_nat (c # t) = Some (nat i)" by (metis parse_nat_str)
    with False b nat_str_hd [OF ct] ct show ?thesis by (simp add: parse_int64_def int_str_def)
  qed
qed

lemma nat_str_no_char: "\<not> is_digit c \<Longrightarrow> c \<notin> set (nat_str n)"
  using nat_str_digits by blast

lemma count_char_int_str: "\<not> is_digit c \<Longrightarrow> c \<noteq> CHR ''-'' \<Longrightarrow> count_char c (int_str i) = 0"
  by (auto simp: int_str_def count_char_0 nat_str_no_char)

text \<open>The number of decimal digits of a positive number is the power of ten it lies below.\<close>

lemma length_nat_str_le: "n < 10 ^ k \<Longrightarrow> 0 < k \<Longrightarrow> length (nat_str n) \<le> k"
proof (induction n arbitrary: k rule: nat_str.induct)
  case (1 n)
  show ?case
  proof (cases "n < 10")
    case True
    with "1.prems" show ?thesis by (simp add: nat_str.simps [of n])
  next
    case False
    with "1.prems" obtain j where k: "k = Suc j" and j: "0 < j" by (cases k; cases "k - 1") auto
    with "1.prems" have "n div 10 < 10 ^ j" by (simp add: less_mult_imp_div_less mult.commute)
    with "1.IH" False j have "length (nat_str (n div 10)) \<le> j" by blast
    with False k show ?thesis by (simp add: nat_str.simps [of n])
  qed
qed

lemma length_nat_str_gt: "10 ^ k \<le> n \<Longrightarrow> k < length (nat_str n)"
proof (induction n arbitrary: k rule: nat_str.induct)
  case (1 n)
  show ?case
  proof (cases "n < 10")
    case True
    have "k = 0"
    proof (rule ccontr)
      assume "k \<noteq> 0"
      then have "(10 :: nat) ^ 1 \<le> 10 ^ k" by (intro power_increasing) auto
      with True "1.prems" show False by simp
    qed
    with True show ?thesis by (simp add: nat_str.simps [of n])
  next
    case False
    show ?thesis
    proof (cases k)
      case 0
      then show ?thesis by (simp add: nat_str.simps [of n])
    next
      case (Suc j)
      with "1.prems" have "10 ^ j \<le> n div 10"
        by (metis div_le_mono div_mult_self1_is_m power_Suc zero_less_numeral)
      with "1.IH" False have "j < length (nat_str (n div 10))" by blast
      with False Suc show ?thesis by (simp add: nat_str.simps [of n])
    qed
  qed
qed

end
