(* ===== verification/Zwarn.thy ===== *)
theory Zwarn
  imports Go_Strings
begin

text \<open>
  Package \<^verbatim>\<open>go/zwarn/warning.go\<close>: warnings, non-fatal errors returned beside a result.
  \<open>Warning msg wrn err\<close> is the struct \<^verbatim>\<open>warning\<close>, \<open>WarningMultiple\<close> the struct
  \<^verbatim>\<open>warningMultiple\<close>, \<open>Warnings\<close> the list type. The arguments of \<open>warnf\<close> are given by their
  dynamic type: the type switch of the code tries \<^verbatim>\<open>Warning\<close> first, so a value that is both a
  warning and an error counts as a warning. The formatted message is an argument.
\<close>

datatype warning =
    Warning (warn_msg: string) "warning option" "error option"
  | WarningMultiple (warn_msg: string) "warning list" "error list"
  | Warnings "warning list"

datatype warn_arg = ArgWarning warning | ArgError error | ArgOther

fun warning_text :: "warning \<Rightarrow> string" where
  "warning_text (Warning msg w e) = msg"
| "warning_text (WarningMultiple msg ws es) = msg"
| "warning_text (Warnings ws) = ''['' @ join '','' (map warning_text ws) @ '']''"

fun unwrapWarning :: "warning \<Rightarrow> warning option" where
  "unwrapWarning (Warning msg w e) = w"
| "unwrapWarning _ = None"

fun unwrapError :: "warning \<Rightarrow> error option" where
  "unwrapError (Warning msg w e) = e"
| "unwrapError _ = None"

fun unwrapWarnings :: "warning \<Rightarrow> warning list" where
  "unwrapWarnings (WarningMultiple msg ws es) = ws"
| "unwrapWarnings _ = []"

fun unwrapErrors :: "warning \<Rightarrow> error list" where
  "unwrapErrors (WarningMultiple msg ws es) = es"
| "unwrapErrors _ = []"

fun warnf_loop :: "warn_arg list \<Rightarrow> warning list \<Rightarrow> error list \<Rightarrow> warning list \<times> error list" where
  "warnf_loop [] wrns errs = (wrns, errs)"
| "warnf_loop (ArgWarning w # args) wrns errs = warnf_loop args (wrns @ [w]) errs"
| "warnf_loop (ArgError e # args) wrns errs = warnf_loop args wrns (errs @ [e])"
| "warnf_loop (ArgOther # args) wrns errs = warnf_loop args wrns errs"

text \<open>\<^verbatim>\<open>append(xs, nil)[0]\<close>: the first element, or nil\<close>

definition first_or_nil :: "'a list \<Rightarrow> 'a option" where
  "first_or_nil xs = hd (map Some xs @ [None])"

definition warnf :: "string \<Rightarrow> warn_arg list \<Rightarrow> warning" where
  "warnf msg args =
     (let (wrns, errs) = warnf_loop args [] [] in
      if length wrns \<le> 1 \<and> length errs \<le> 1
      then Warning msg (first_or_nil wrns) (first_or_nil errs)
      else WarningMultiple msg wrns errs)"

text \<open>The warnings and errors among the arguments, in order.\<close>

definition arg_warnings :: "warn_arg list \<Rightarrow> warning list" where
  "arg_warnings args = concat (map (\<lambda>a. case a of ArgWarning w \<Rightarrow> [w] | _ \<Rightarrow> []) args)"

definition arg_errors :: "warn_arg list \<Rightarrow> error list" where
  "arg_errors args = concat (map (\<lambda>a. case a of ArgError e \<Rightarrow> [e] | _ \<Rightarrow> []) args)"

text \<open>Everything a warning unwraps to, by the methods of its dynamic type.\<close>

definition unwrapped_warnings :: "warning \<Rightarrow> warning list" where
  "unwrapped_warnings w = (case unwrapWarning w of Some x \<Rightarrow> [x] | None \<Rightarrow> unwrapWarnings w)"

definition unwrapped_errors :: "warning \<Rightarrow> error list" where
  "unwrapped_errors w = (case unwrapError w of Some x \<Rightarrow> [x] | None \<Rightarrow> unwrapErrors w)"

lemma warnf_loop: "warnf_loop args wrns errs = (wrns @ arg_warnings args, errs @ arg_errors args)"
  by (induction args wrns errs rule: warnf_loop.induct) (auto simp: arg_warnings_def arg_errors_def)

lemma first_or_nil_simps [simp]:
  "first_or_nil [] = None" "first_or_nil (x # xs) = Some x"
  by (simp_all add: first_or_nil_def)

lemma short_list_cases: "length xs \<le> 1 \<Longrightarrow> xs = [] \<or> (\<exists>x. xs = [x])"
  by (cases xs) auto

lemma warnf_unwraps:
  "unwrapped_warnings (warnf msg args) = arg_warnings args \<and>
   unwrapped_errors (warnf msg args) = arg_errors args \<and> warning_text (warnf msg args) = msg"
proof (cases "length (arg_warnings args) \<le> 1 \<and> length (arg_errors args) \<le> 1")
  case True
  then show ?thesis
    using short_list_cases [of "arg_warnings args"] short_list_cases [of "arg_errors args"]
    by (auto simp: warnf_def warnf_loop unwrapped_warnings_def unwrapped_errors_def)
next
  case False
  then show ?thesis
    by (auto simp: warnf_def warnf_loop unwrapped_warnings_def unwrapped_errors_def)
qed

end
