(* ===== verification/Zfunc.thy ===== *)
theory Zfunc
  imports Zote_Prelude
begin

text \<open>
  Package \<^verbatim>\<open>go/zfunc\<close> (\<^verbatim>\<open>slices.go\<close>, \<^verbatim>\<open>maps.go\<close>): the functional helpers every other package
  calls. \<^verbatim>\<open>MapE\<close> is the prelude's loop \<open>map_res\<close>. The indexing helpers are folds that update a
  Go map, as the loops do; the lemmas say what the resulting map holds.
\<close>

definition zmap :: "('a \<Rightarrow> 'b) \<Rightarrow> 'a list \<Rightarrow> 'b list" where
  "zmap fn ts = map fn ts"

definition zmapE :: "('a \<Rightarrow> 'b res) \<Rightarrow> 'a list \<Rightarrow> 'b list res" where
  "zmapE fn ts = map_res fn ts"

definition pairs :: "('k, 'v) gomap \<Rightarrow> ('k \<times> 'v) list" where
  "pairs m = m"

fun makeSlice_loop :: "'a \<Rightarrow> nat \<Rightarrow> 'a list \<Rightarrow> 'a list" where
  "makeSlice_loop val 0 result = result"
| "makeSlice_loop val (Suc n) result = makeSlice_loop val n (result @ [val])"

text \<open>\<^verbatim>\<open>len\<close> is a Go int: the loop \<^verbatim>\<open>i < len\<close> does not run for a negative one, but the capacity
  given to \<^verbatim>\<open>make\<close> then panics.\<close>

definition makeSlice :: "'a \<Rightarrow> int \<Rightarrow> 'a list res" where
  "makeSlice val len =
     (if len < 0 then Inl (Panic ''runtime error: makeslice: cap out of range'')
      else Inr (makeSlice_loop val (nat len) []))"

fun select_loop :: "('a \<Rightarrow> bool) \<Rightarrow> 'a list \<Rightarrow> 'a list \<Rightarrow> 'a list" where
  "select_loop cb [] result = result"
| "select_loop cb (x # xs) result = select_loop cb xs (if cb x then result @ [x] else result)"

definition select :: "('a \<Rightarrow> bool) \<Rightarrow> 'a list \<Rightarrow> 'a list" where
  "select cb list = select_loop cb list []"

definition indexBy :: "('a \<Rightarrow> 'k) \<Rightarrow> 'a list \<Rightarrow> ('k, 'a) gomap" where
  "indexBy cb list = fold (\<lambda>e m. map_put (cb e) e m) list []"

definition map_append :: "'k \<Rightarrow> 'a \<Rightarrow> ('k, 'a list) gomap \<Rightarrow> ('k, 'a list) gomap" where
  "map_append k e m = map_put k ((case map_of m k of None \<Rightarrow> [] | Some es \<Rightarrow> es) @ [e]) m"

definition groupBy :: "('a \<Rightarrow> 'k) \<Rightarrow> 'a list \<Rightarrow> ('k, 'a list) gomap" where
  "groupBy cb list = fold (\<lambda>e m. map_append (cb e) e m) list []"

lemma makeSlice_loop: "makeSlice_loop val n result = result @ replicate n val"
  by (induction n arbitrary: result) (simp_all add: replicate_append_same flip: replicate_Suc)

lemma makeSlice_replicate: "0 \<le> len \<Longrightarrow> makeSlice val len = Inr (replicate (nat len) val)"
  by (simp add: makeSlice_def makeSlice_loop)

lemma select_loop: "select_loop cb xs result = result @ filter cb xs"
  by (induction cb xs result rule: select_loop.induct) auto

lemma select_filter: "select cb xs = filter cb xs"
  by (simp add: select_def select_loop)

lemma indexBy_fold: "map_wf m \<Longrightarrow> map_of (fold (\<lambda>e m. map_put (cb e) e m) xs m) k =
    (case filter (\<lambda>e. cb e = k) xs of [] \<Rightarrow> map_of m k | ys \<Rightarrow> Some (last ys))"
proof (induction xs arbitrary: m)
  case (Cons x xs)
  have "map_wf (map_put (cb x) x m)" using Cons.prems by simp
  from Cons.IH [OF this] show ?case
    by (auto split: list.splits)
qed simp

lemma indexBy_lookup:
  "map_of (indexBy cb xs) k = (case filter (\<lambda>e. cb e = k) xs of [] \<Rightarrow> None | ys \<Rightarrow> Some (last ys))"
  by (auto simp: indexBy_def indexBy_fold split: list.split)

lemma map_of_map_append [simp]:
  "map_of (map_append k e m) = (map_of m)(k \<mapsto> (case map_of m k of None \<Rightarrow> [] | Some es \<Rightarrow> es) @ [e])"
  by (simp add: map_append_def)

lemma groupBy_fold:
  "map_of (fold (\<lambda>e m. map_append (cb e) e m) xs m) k =
     (if filter (\<lambda>e. cb e = k) xs = [] then map_of m k
      else Some ((case map_of m k of None \<Rightarrow> [] | Some es \<Rightarrow> es) @ filter (\<lambda>e. cb e = k) xs))"
  by (induction xs arbitrary: m) auto

lemma groupBy_lookup:
  "map_of (groupBy cb xs) k = (let ys = filter (\<lambda>e. cb e = k) xs in if ys = [] then None else Some ys)"
  by (simp add: groupBy_def groupBy_fold Let_def)

lemma map_wf_groupBy: "map_wf (groupBy cb xs)"
proof -
  have "map_wf (fold (\<lambda>e m. map_append (cb e) e m) xs m)" if "map_wf m" for m
    using that by (induction xs arbitrary: m) (auto simp: map_append_def)
  then show ?thesis by (simp add: groupBy_def)
qed

end
