(* ===== verification/Go_Values.thy ===== *)
theory Go_Values
  imports Complex_Main Go_Strings
begin

text \<open>
  Go values and types as the reflection-based code sees them (package \<^verbatim>\<open>reflect\<close> and
  \<^verbatim>\<open>go/zreflect/zreflect.go\<close>). A \<open>gval\<close> is the tree of a value without sharing: a pointer
  is \<open>VPtr\<close> of what it points to, a struct is the list of its fields. Nil pointers, nil slices
  and nil interfaces are different constructors, as their kinds differ.
\<close>

section \<open>Types\<close>

text \<open>\<open>TInt w\<close> and \<open>TUint w\<close> carry the width in bits, 0 for \<^verbatim>\<open>int\<close> and \<^verbatim>\<open>uint\<close>; a named
  struct type carries its package path and its name.\<close>

datatype gotype =
    TString | TInt nat | TUint nat | TFloat nat | TBool | TTime
  | TStruct string string | TPtr gotype | TSlice gotype | TOther string

fun is_TPtr :: "gotype \<Rightarrow> bool" where
  "is_TPtr (TPtr t) = True"
| "is_TPtr _ = False"

fun is_TSlice :: "gotype \<Rightarrow> bool" where
  "is_TSlice (TSlice t) = True"
| "is_TSlice _ = False"

text \<open>\<^verbatim>\<open>t.Elem()\<close> for a pointer or a slice type\<close>

fun elem_type :: "gotype \<Rightarrow> gotype" where
  "elem_type (TPtr t) = t"
| "elem_type (TSlice t) = t"
| "elem_type t = t"

text \<open>\<^verbatim>\<open>t.PkgPath()\<close> and \<^verbatim>\<open>t.Name()\<close>: both empty for unnamed types\<close>

fun pkg_path :: "gotype \<Rightarrow> string" where
  "pkg_path (TStruct p n) = p"
| "pkg_path TTime = ''time''"
| "pkg_path _ = []"

fun type_name :: "gotype \<Rightarrow> string" where
  "type_name TString = ''string''"
| "type_name (TInt w) = ''int'' @ (if w = 0 then [] else nat_str w)"
| "type_name (TUint w) = ''uint'' @ (if w = 0 then [] else nat_str w)"
| "type_name (TFloat w) = ''float'' @ nat_str w"
| "type_name TBool = ''bool''"
| "type_name TTime = ''Time''"
| "type_name (TStruct p n) = n"
| "type_name (TPtr t) = []"
| "type_name (TSlice t) = []"
| "type_name (TOther n) = n"

text \<open>\<^verbatim>\<open>zreflect.TypeID\<close>: the key under which mappings are registered\<close>

definition typeID :: "gotype \<Rightarrow> string" where
  "typeID t =
     (let namePrefix = (if is_TPtr t then ''*'' else []);
          t' = (if is_TPtr t then elem_type t else t)
      in pkg_path t' @ ''.'' @ namePrefix @ type_name t')"

text \<open>\<^verbatim>\<open>zreflect.IsInt\<close>, \<^verbatim>\<open>zreflect.IsString\<close>\<close>

fun isInt :: "gotype \<Rightarrow> bool" where
  "isInt (TInt w) = True"
| "isInt (TUint w) = True"
| "isInt _ = False"

fun isString :: "gotype \<Rightarrow> bool" where
  "isString TString = True"
| "isString _ = False"

text \<open>Two registered struct types share an identifier only if they are the same type; a
  pointer type and its element type never do, for names that do not start with a star.\<close>

lemma typeID_ptr_struct_inj:
  assumes "typeID (TPtr (TStruct p n)) = typeID (TPtr (TStruct p' n'))"
    and "CHR ''*'' \<notin> set n" "CHR ''*'' \<notin> set n'"
  shows "p = p' \<and> n = n'"
proof -
  have eq: "(p @ ''.'') @ CHR ''*'' # n = (p' @ ''.'') @ CHR ''*'' # n'"
    using assms(1) by (simp add: typeID_def)
  then show ?thesis
    using sep_unique_right [OF assms(2,3), of "p @ ''.''" "p' @ ''.''"] by simp
qed

section \<open>Values\<close>

datatype gofloat = NaN | NegInf | Finite rat | PosInf

datatype gval =
    VNil
  | VStr string | VInt int | VUint int | VFloat gofloat | VBool bool
  | VTime int    \<comment> \<open>nanoseconds since the zero time of Go, 0001-01-01 UTC\<close>
  | VNilPtr | VPtr gval
  | VNilSlice | VSlice "gval list"
  | VStruct "(string \<times> gval) list"
  | VOther string

text \<open>\<^verbatim>\<open>reflect.Value.IsZero\<close>\<close>

fun is_zero :: "gval \<Rightarrow> bool" where
  "is_zero VNil = True"
| "is_zero (VStr s) = (s = [])"
| "is_zero (VInt i) = (i = 0)"
| "is_zero (VUint i) = (i = 0)"
| "is_zero (VFloat f) = (f = Finite 0)"
| "is_zero (VBool b) = (\<not> b)"
| "is_zero (VTime t) = (t = 0)"
| "is_zero VNilPtr = True"
| "is_zero (VPtr v) = False"
| "is_zero VNilSlice = True"
| "is_zero (VSlice vs) = False"
| "is_zero (VStruct fs) = list_all (\<lambda>p. is_zero (snd p)) fs"
| "is_zero (VOther s) = (s = [])"

text \<open>\<^verbatim>\<open>reflect.Zero(t)\<close>\<close>

fun zero_val :: "gotype \<Rightarrow> gval" where
  "zero_val TString = VStr []"
| "zero_val (TInt w) = VInt 0"
| "zero_val (TUint w) = VUint 0"
| "zero_val (TFloat w) = VFloat (Finite 0)"
| "zero_val TBool = VBool False"
| "zero_val TTime = VTime 0"
| "zero_val (TStruct p n) = VStruct []"
| "zero_val (TPtr t) = VNilPtr"
| "zero_val (TSlice t) = VNilSlice"
| "zero_val (TOther n) = VOther []"

lemma is_zero_zero_val [simp]: "is_zero (zero_val t)"
  by (cases t) auto

text \<open>\<^verbatim>\<open>MakeAddressableSliceOf\<close> of \<^verbatim>\<open>zreflect.go\<close>: a slice of zero values. A capacity is no part of a value; it
  only decides whether \<^verbatim>\<open>reflect.MakeSlice\<close> panics.\<close>

definition MakeAddressableSliceOf :: "gotype \<Rightarrow> int \<Rightarrow> int \<Rightarrow> gval res" where
  "MakeAddressableSliceOf valueType n capacity =
     (if n < 0 then Inl (Panic ''reflect.MakeSlice: negative len'')
      else if capacity < 0 then Inl (Panic ''reflect.MakeSlice: negative cap'')
      else if capacity < n then Inl (Panic ''reflect.MakeSlice: len > cap'')
      else Inr (VSlice (replicate (nat n) (zero_val valueType))))"

text \<open>The slice that \<^verbatim>\<open>Get\<close> and the loading of a relation start from, for any capacity they ask for\<close>

lemma empty_slice_made: "MakeAddressableSliceOf t 0 (int n) = Inr (VSlice [])"
  by (simp add: MakeAddressableSliceOf_def)

text \<open>Reading and writing a field of a struct value: \<^verbatim>\<open>v.FieldByName(f)\<close> gives an invalid
  value (\<open>None\<close>) for an unknown field; \<^verbatim>\<open>Set\<close> replaces the value of an existing field.\<close>

fun struct_get :: "gval \<Rightarrow> string \<Rightarrow> gval option" where
  "struct_get (VStruct fs) f = map_of fs f"
| "struct_get _ f = None"

fun fields_set :: "(string \<times> gval) list \<Rightarrow> string \<Rightarrow> gval \<Rightarrow> (string \<times> gval) list" where
  "fields_set [] f v = []"
| "fields_set ((g, w) # fs) f v = (if g = f then (g, v) # fs else (g, w) # fields_set fs f v)"

fun struct_set :: "gval \<Rightarrow> string \<Rightarrow> gval \<Rightarrow> gval" where
  "struct_set (VStruct fs) f v = VStruct (fields_set fs f v)"
| "struct_set x f v = x"

lemma map_of_fields_set:
  "map_of (fields_set fs f v) g = (if g = f \<and> map_of fs f \<noteq> None then Some v else map_of fs g)"
  by (induction fs f v rule: fields_set.induct) auto

lemma struct_get_set [simp]:
  "struct_get (struct_set x f v) g = (if g = f \<and> struct_get x f \<noteq> None then Some v else struct_get x g)"
  by (cases x) (auto simp: map_of_fields_set)

lemma fst_fields_set [simp]: "map fst (fields_set fs f v) = map fst fs"
  by (induction fs f v rule: fields_set.induct) auto

end
