(* ===== verification/Zelement.thy ===== *)
theory Zelement
  imports Go_Values
begin

text \<open>
  Package \<^verbatim>\<open>go/zelement\<close> and its subpackages \<^verbatim>\<open>zclause\<close>, \<^verbatim>\<open>zelem\<close> and \<^verbatim>\<open>zmethod\<close>: the abstract
  syntax of the query language. An \<open>element\<close> is an operand (a literal value, a field path or a
  method call), a \<open>clause\<close> a condition. The Go interfaces are closed: every type with an
  \<^verbatim>\<open>Accept\<close> method is a constructor, and a visitor becomes a recursive function, one equation
  per \<^verbatim>\<open>Visit\<close> method. An optional clause (nil, what \<^verbatim>\<open>zelem.Empty\<close> returns) is \<open>None\<close>.
  Constructors whose Go name is a constant of HOL end in E (elements) or C (clauses).
\<close>

section \<open>Elements, clauses and sorts\<close>

datatype element = ValueE gval | FieldE string | MethodE string "element list"

datatype clause =
    Eq element element | Neq element element
  | Gt element element | Gte element element
  | Lt element element | Lte element element
  | NotC clause
  | AndC "clause list" | OrC "clause list"
  | InC "element list" "element list list"
  | TruthyC element

text \<open>\<^verbatim>\<open>Direction\<close> is an int8; \<^verbatim>\<open>Asc\<close> is 0 and \<^verbatim>\<open>Desc\<close> is 1, any other value is possible.\<close>

type_synonym direction = int

definition Asc :: direction where "Asc = 0"
definition Desc :: direction where "Desc = 1"

record sort_by =
  srt_element :: element
  srt_direction :: direction

section \<open>Constructors of package zelem\<close>

definition elem_Field :: "string \<Rightarrow> element" where "elem_Field path = FieldE path"
definition elem_Value :: "gval \<Rightarrow> element" where "elem_Value v = ValueE v"
definition elem_And :: "clause list \<Rightarrow> clause" where "elem_And clauses = AndC clauses"
definition elem_Or :: "clause list \<Rightarrow> clause" where "elem_Or clauses = OrC clauses"
definition elem_Not :: "clause \<Rightarrow> clause" where "elem_Not c = NotC c"
definition elem_Truthy :: "element \<Rightarrow> clause" where "elem_Truthy e = TruthyC e"
definition elem_False :: "element \<Rightarrow> clause" where "elem_False e = NotC (TruthyC e)"
definition elem_Eq :: "element \<Rightarrow> element \<Rightarrow> clause" where "elem_Eq l r = Eq l r"
definition elem_Neq :: "element \<Rightarrow> element \<Rightarrow> clause" where "elem_Neq l r = Neq l r"
definition elem_Lte :: "element \<Rightarrow> element \<Rightarrow> clause" where "elem_Lte l r = Lte l r"
definition elem_Lt :: "element \<Rightarrow> element \<Rightarrow> clause" where "elem_Lt l r = Lt l r"
definition elem_Gte :: "element \<Rightarrow> element \<Rightarrow> clause" where "elem_Gte l r = Gte l r"
definition elem_Gt :: "element \<Rightarrow> element \<Rightarrow> clause" where "elem_Gt l r = Gt l r"
definition elem_Sorts :: "sort_by list \<Rightarrow> sort_by list" where "elem_Sorts sorts = sorts"
definition elem_In :: "element list \<Rightarrow> element list list \<Rightarrow> clause" where "elem_In l r = InC l r"

definition elem_Asc :: "element \<Rightarrow> sort_by" where
  "elem_Asc e = \<lparr>srt_element = e, srt_direction = Asc\<rparr>"

definition elem_Desc :: "element \<Rightarrow> sort_by" where
  "elem_Desc e = \<lparr>srt_element = e, srt_direction = Desc\<rparr>"

definition elem_Empty :: "clause option" where "elem_Empty = None"

section \<open>Methods and their validation (package zmethod)\<close>

definition Now :: string where "Now = ''now''"
definition Match :: string where "Match = ''match''"
definition Contains :: string where "Contains = ''contains''"
definition RegexpReplace :: string where "RegexpReplace = ''regexp_replace''"

definition newNow :: element where "newNow = MethodE Now []"

definition newMatch :: "string \<Rightarrow> gval \<Rightarrow> element" where
  "newMatch fieldName searchValue = MethodE Match [FieldE fieldName, ValueE searchValue]"

definition newContains :: "element \<Rightarrow> element \<Rightarrow> element" where
  "newContains lhs rhs = MethodE Contains [lhs, rhs]"

definition newRegexpReplace :: "element \<Rightarrow> element \<Rightarrow> element \<Rightarrow> element" where
  "newRegexpReplace subject pattern replacement = MethodE RegexpReplace [subject, pattern, replacement]"

text \<open>\<^verbatim>\<open>MethodNow\<close> and \<^verbatim>\<open>MethodMatch\<close> of package \<^verbatim>\<open>zelem\<close>\<close>

definition elem_MethodNow :: element where "elem_MethodNow = newNow"

definition elem_MethodMatch :: "string \<Rightarrow> string \<Rightarrow> element" where
  "elem_MethodMatch field search = newMatch field (VStr search)"

fun is_FieldE :: "element \<Rightarrow> bool" where
  "is_FieldE (FieldE f) = True"
| "is_FieldE _ = False"

fun is_ValueE :: "element \<Rightarrow> bool" where
  "is_ValueE (ValueE v) = True"
| "is_ValueE _ = False"

definition validate_now :: "element list \<Rightarrow> unit res" where
  "validate_now params =
     (if length params \<noteq> 0 then Inl (Errorf ''method 'now' does not support arguments'') else Inr ())"

definition validate_match :: "element list \<Rightarrow> unit res" where
  "validate_match params =
     (if length params \<noteq> 2 then Inl (Errorf ''method 'match' requires two arguments'')
      else if \<not> is_FieldE (params ! 0)
        then Inl (Errorf ''method 'match' requires a field in argument 1 of 2'')
      else if \<not> is_ValueE (params ! 1)
        then Inl (Errorf ''method 'match' requires a value in argument 2 of 2'')
      else Inr ())"

text \<open>The code tests for one parameter; its message says two.\<close>

definition validate_contains :: "element list \<Rightarrow> unit res" where
  "validate_contains params =
     (if length params \<noteq> 1 then Inl (Errorf ''method 'contains' requires exactly 2 arguments'')
      else Inr ())"

definition validate_regexp_replace :: "element list \<Rightarrow> unit res" where
  "validate_regexp_replace params =
     (if length params \<noteq> 3
      then Inl (Errorf ''method 'regexp_replace' requires exactly 3 arguments'') else Inr ())"

definition validators :: "(string, element list \<Rightarrow> unit res) gomap" where
  "validators =
     [(Now, validate_now), (Match, validate_match), (Contains, validate_contains),
      (RegexpReplace, validate_regexp_replace)]"

definition validateParams :: "string \<Rightarrow> element list \<Rightarrow> unit res" where
  "validateParams nm params =
     (case map_of validators nm of
        None \<Rightarrow> Inl (Errorf (''unknown method: '' @ nm))
      | Some validate \<Rightarrow> validate params)"

fun validate_element :: "element \<Rightarrow> unit res" where
  "validate_element (MethodE nm params) = validateParams nm params"
| "validate_element _ = Inr ()"

lemmas method_names = Now_def Match_def Contains_def RegexpReplace_def

lemma validate_constructors:
  "is_ok (validate_element newNow)"
  "is_ok (validate_element (newMatch f v))"
  "is_ok (validate_element (newRegexpReplace s p r))"
  by (simp_all add: newNow_def newMatch_def newRegexpReplace_def validateParams_def validators_def
      method_names validate_now_def validate_match_def validate_regexp_replace_def)

text \<open>what the constructors of \<^verbatim>\<open>zmethod\<close> build passes validation for \<^verbatim>\<open>now\<close>, \<^verbatim>\<open>match\<close> and
  \<^verbatim>\<open>regexp_replace\<close> and never for \<^verbatim>\<open>contains\<close>, whose validator asks for one parameter.\<close>

theorem constructors_validate:
  "is_ok (validate_element newNow) \<and> is_ok (validate_element (newMatch f v)) \<and>
   is_ok (validate_element (newRegexpReplace s p r)) \<and> \<not> is_ok (validate_element (newContains s p))"
  by (simp add: validate_constructors newContains_def validateParams_def validators_def
      method_names validate_contains_def)

end
