(* ===== verification/Zsort.thy ===== *)
theory Zsort
  imports Zelement "HOL-Library.List_Lexorder" "HOL-Library.Multiset"
begin

text \<open>
  Package \<^verbatim>\<open>go/zelement/zsort/zsort.go\<close>: in-memory sorting of structs by a list of sorts.
  \<open>compareValues\<close> and \<open>compareBySorts\<close> are the code's comparisons; a reflection failure is a
  \<open>Panic\<close>. \<^verbatim>\<open>sort.Slice\<close> is the parameter \<open>sort_slice\<close> of \<open>apply_sorts\<close>, with the contract of
  Go's documentation as the locale \<open>go_sort\<close>; the contract is discharged for the insertion sort
  Go runs on slices of up to twelve elements. The text \<^verbatim>\<open>fmt.Sprintf\<close> gives a value of any
  other kind is the parameter \<open>sprint\<close>.
\<close>

section \<open>Comparing two values\<close>

definition cmp_linear :: "'a::linorder \<Rightarrow> 'a \<Rightarrow> int" where
  "cmp_linear a b = (if a < b then -1 else if a > b then 1 else 0)"

text \<open>\<^verbatim>\<open><\<close> on floats is false whenever one side is NaN.\<close>

fun float_less :: "gofloat \<Rightarrow> gofloat \<Rightarrow> bool" where
  "float_less NaN _ = False"
| "float_less _ NaN = False"
| "float_less NegInf b = (b \<noteq> NegInf)"
| "float_less (Finite a) b = (case b of Finite b \<Rightarrow> a < b | PosInf \<Rightarrow> True | _ \<Rightarrow> False)"
| "float_less PosInf _ = False"

definition cmp_float :: "gofloat \<Rightarrow> gofloat \<Rightarrow> int" where
  "cmp_float a b = (if float_less a b then -1 else if float_less b a then 1 else 0)"

text \<open>\<^verbatim>\<open>v.String()\<close> of a value that is no string describes its type and does not panic; the
  other accessors panic on a value of another kind.\<close>

definition wrong_kind :: "string \<Rightarrow> 'a res" where
  "wrong_kind m = Inl (Panic (''reflect: call of reflect.Value.'' @ m @ '' on a value of another kind''))"

definition compareValues :: "(gval \<Rightarrow> string) \<Rightarrow> gval option \<Rightarrow> gval option \<Rightarrow> int res" where
  "compareValues sprint a b =
     (case a of
        None \<Rightarrow> Inr (if b = None then 0 else -1)
      | Some a \<Rightarrow> (case b of None \<Rightarrow> Inr 1 | Some b \<Rightarrow>
          (case a of
             VStr s \<Rightarrow> Inr (cmp_linear s (case b of VStr t \<Rightarrow> t | _ \<Rightarrow> ''<'' @ sprint b @ '' Value>''))
           | VInt i \<Rightarrow> (case b of VInt j \<Rightarrow> Inr (cmp_linear i j) | _ \<Rightarrow> wrong_kind ''Int'')
           | VUint i \<Rightarrow> (case b of VUint j \<Rightarrow> Inr (cmp_linear i j) | _ \<Rightarrow> wrong_kind ''Uint'')
           | VFloat x \<Rightarrow> (case b of VFloat y \<Rightarrow> Inr (cmp_float x y) | _ \<Rightarrow> wrong_kind ''Float'')
           | VBool x \<Rightarrow>
               (case b of
                  VBool y \<Rightarrow> Inr (if x = y then 0 else if \<not> x \<and> y then -1 else 1)
                | _ \<Rightarrow> wrong_kind ''Bool'')
           | _ \<Rightarrow> Inr (cmp_linear (sprint a) (sprint b)))))"

section \<open>Comparing two structs by a list of sorts\<close>

text \<open>\<^verbatim>\<open>if a.Kind() == reflect.Ptr { a = a.Elem() }\<close>; the element of a nil pointer is no struct.\<close>

fun deref :: "gval \<Rightarrow> gval" where
  "deref (VPtr v) = v"
| "deref VNilPtr = VNil"
| "deref v = v"

fun is_struct :: "gval \<Rightarrow> bool" where
  "is_struct (VStruct fs) = True"
| "is_struct _ = False"

fun extractFieldName :: "element \<Rightarrow> string res" where
  "extractFieldName (FieldE f) = Inr f"
| "extractFieldName _ = Inl (Panic ''element is not a field'')"

fun compare_loop :: "(gval \<Rightarrow> string) \<Rightarrow> gval \<Rightarrow> gval \<Rightarrow> sort_by list \<Rightarrow> bool res" where
  "compare_loop sprint a b [] = Inr False"
| "compare_loop sprint a b (s # sorts) =
     bind_res (extractFieldName (srt_element s)) (\<lambda>fieldName.
       if fieldName = [] then compare_loop sprint a b sorts
       else bind_res (compareValues sprint (struct_get a fieldName) (struct_get b fieldName)) (\<lambda>c.
         if c = 0 then compare_loop sprint a b sorts
         else if srt_direction s = Desc then Inr (c > 0)
         else Inr (c < 0)))"

definition compareBySorts :: "(gval \<Rightarrow> string) \<Rightarrow> sort_by list \<Rightarrow> gval \<Rightarrow> gval \<Rightarrow> bool res" where
  "compareBySorts sprint sorts a b =
     (if \<not> is_struct (deref a) then Inl (Panic ''value is not a struct'')
      else if \<not> is_struct (deref b) then Inl (Panic ''value is not a struct'')
      else compare_loop sprint (deref a) (deref b) sorts)"

section \<open>Sorting\<close>

type_synonym 'a less_res = "'a \<Rightarrow> 'a \<Rightarrow> bool res"

text \<open>\<^verbatim>\<open>Apply\<close>: nothing to do for fewer than two elements or no sort.\<close>

definition apply_sorts ::
  "(gval less_res \<Rightarrow> gval list \<Rightarrow> gval list res) \<Rightarrow> (gval \<Rightarrow> string) \<Rightarrow> gval list \<Rightarrow> sort_by list \<Rightarrow> gval list res" where
  "apply_sorts sort_slice sprint slice sorts =
     (if length slice < 2 \<or> sorts = [] then Inr slice
      else sort_slice (compareBySorts sprint sorts) slice)"

text \<open>\<^verbatim>\<open>ApplyToValue\<close>: the same on a value of any kind, with panics recovered as errors. A nil
  slice has length zero.\<close>

definition recover_panic :: "'a res \<Rightarrow> 'a res" where
  "recover_panic r = (case r of Inl (Panic p) \<Rightarrow> Inl (Errorf (''panic: '' @ p)) | _ \<Rightarrow> r)"

definition applyToValue ::
  "(gval less_res \<Rightarrow> gval list \<Rightarrow> gval list res) \<Rightarrow> (gval \<Rightarrow> string) \<Rightarrow> gval \<Rightarrow> sort_by list \<Rightarrow> gval res" where
  "applyToValue sort_slice sprint v sorts =
     (case v of
        VSlice slice \<Rightarrow>
          recover_panic
            (if length slice < 2 \<or> sorts = [] then Inr v
             else map_sum id VSlice (sort_slice (compareBySorts sprint sorts) slice))
      | VNilSlice \<Rightarrow> Inr VNilSlice
      | _ \<Rightarrow> Inl (Errorf ''value is not a slice''))"

section \<open>The contract of sort.Slice\<close>

text \<open>A strict weak ordering on the elements of a list, all comparisons returning: what the
  documentation of package \<^verbatim>\<open>sort\<close> asks of \<open>less\<close>.\<close>

definition swo_on :: "'a set \<Rightarrow> 'a less_res \<Rightarrow> bool" where
  "swo_on A lt \<longleftrightarrow>
     (\<forall>x\<in>A. \<forall>y\<in>A. is_ok (lt x y)) \<and>
     (\<forall>x\<in>A. lt x x = Inr False) \<and>
     (\<forall>x\<in>A. \<forall>y\<in>A. \<forall>z\<in>A. lt x y = Inr True \<longrightarrow> lt y z = Inr True \<longrightarrow> lt x z = Inr True) \<and>
     (\<forall>x\<in>A. \<forall>y\<in>A. \<forall>z\<in>A. lt x y = Inr False \<longrightarrow> lt y z = Inr False \<longrightarrow> lt x z = Inr False)"

definition in_order :: "'a less_res \<Rightarrow> 'a list \<Rightarrow> bool" where
  "in_order lt xs \<longleftrightarrow> sorted_wrt (\<lambda>x y. lt y x = Inr False) xs"

lemma swo_cases:
  assumes "swo_on A lt" "x \<in> A" "y \<in> A"
  obtains (T) "lt x y = Inr True" | (F) "lt x y = Inr False"
  using assms unfolding swo_on_def is_ok_iff by (metis (full_types))

lemma swo_refl: "swo_on A lt \<Longrightarrow> x \<in> A \<Longrightarrow> lt x x = Inr False"
  by (simp add: swo_on_def)

lemma swo_trans:
  "swo_on A lt \<Longrightarrow> x \<in> A \<Longrightarrow> y \<in> A \<Longrightarrow> z \<in> A \<Longrightarrow>
     lt x y = Inr True \<Longrightarrow> lt y z = Inr True \<Longrightarrow> lt x z = Inr True"
  unfolding swo_on_def by blast

lemma swo_neg_trans:
  "swo_on A lt \<Longrightarrow> x \<in> A \<Longrightarrow> y \<in> A \<Longrightarrow> z \<in> A \<Longrightarrow>
     lt x y = Inr False \<Longrightarrow> lt y z = Inr False \<Longrightarrow> lt x z = Inr False"
  unfolding swo_on_def by blast

lemma swo_asym:
  assumes "swo_on A lt" "x \<in> A" "y \<in> A" "lt x y = Inr True"
  shows "lt y x = Inr False"
  using assms(1,3,2)
proof (cases rule: swo_cases)
  case T
  then have "lt x x = Inr True" using swo_trans [OF assms(1,2,3,2,4)] by simp
  then show ?thesis using swo_refl [OF assms(1,2)] by simp
qed

locale go_sort =
  fixes sort_slice :: "'a less_res \<Rightarrow> 'a list \<Rightarrow> 'a list res"
  assumes sort_perm: "sort_slice lt xs = Inr ys \<Longrightarrow> mset ys = mset xs"
    and sort_sorts: "swo_on (set xs) lt \<Longrightarrow> \<exists>ys. sort_slice lt xs = Inr ys \<and> in_order lt ys"
begin

lemma sorts_ok:
  assumes "swo_on (set xs) lt"
  obtains ys where "sort_slice lt xs = Inr ys" "mset ys = mset xs" "in_order lt ys"
  using sort_sorts [OF assms] sort_perm by blast

lemma sort_set: "sort_slice lt xs = Inr ys \<Longrightarrow> set ys = set xs"
  by (metis sort_perm set_mset_mset)

end

text \<open>Go's insertion sort: the element at \<open>i\<close> is swapped to the left while it is less than its
  left neighbour. The prefix is kept reversed, nearest neighbour first.\<close>

fun insert_left :: "'a less_res \<Rightarrow> 'a \<Rightarrow> 'a list \<Rightarrow> 'a list res" where
  "insert_left lt x [] = Inr [x]"
| "insert_left lt x (p # ps) =
     bind_res (lt x p) (\<lambda>b.
       if b then bind_res (insert_left lt x ps) (\<lambda>qs. Inr (p # qs)) else Inr (x # p # ps))"

definition insertion_sort :: "'a less_res \<Rightarrow> 'a list \<Rightarrow> 'a list res" where
  "insertion_sort lt xs =
     bind_res (fold_res (\<lambda>pre x. insert_left lt x pre) [] xs) (\<lambda>pre. Inr (rev pre))"

lemma insert_left_mset: "insert_left lt x ps = Inr qs \<Longrightarrow> mset qs = add_mset x (mset ps)"
  by (induction lt x ps arbitrary: qs rule: insert_left.induct)
    (auto simp: bind_res_Inr split: if_splits)

lemma insert_left_sorted:
  assumes "swo_on A lt" "x \<in> A" "set ps \<subseteq> A" "in_order lt (rev ps)"
  shows "\<exists>qs. insert_left lt x ps = Inr qs \<and> in_order lt (rev qs)"
  using assms
proof (induction ps)
  case Nil
  then show ?case by (simp add: in_order_def)
next
  case (Cons p ps)
  note swo = Cons.prems(1) and xA = Cons.prems(2)
  have pA: "p \<in> A" and psA: "set ps \<subseteq> A" using Cons.prems(3) by auto
  have tail: "in_order lt (rev ps)" and hd: "\<And>q. q \<in> set ps \<Longrightarrow> lt p q = Inr False"
    using Cons.prems(4) by (auto simp: in_order_def sorted_wrt_append)
  from swo xA pA show ?case
  proof (cases rule: swo_cases)
    case T
    obtain qs where qs: "insert_left lt x ps = Inr qs" "in_order lt (rev qs)"
      using Cons.IH [OF swo xA psA tail] by blast
    have sq: "set qs = insert x (set ps)"
      using insert_left_mset [OF qs(1)] by (metis set_mset_add_mset_insert set_mset_mset)
    have "\<And>q. q \<in> set qs \<Longrightarrow> lt p q = Inr False"
      using sq hd swo_asym [OF swo xA pA T] by auto
    then show ?thesis
      using T qs by (simp add: in_order_def sorted_wrt_append)
  next
    case F
    have "\<And>q. q \<in> set ps \<Longrightarrow> lt x q = Inr False"
      using swo_neg_trans [OF swo xA pA _ F hd] psA by blast
    then show ?thesis
      using F tail hd by (auto simp: in_order_def sorted_wrt_append)
  qed
qed

lemma insertion_fold:
  assumes "swo_on A lt" "set xs \<subseteq> A" "set pre \<subseteq> A" "in_order lt (rev pre)"
  shows "\<exists>qs. fold_res (\<lambda>pre x. insert_left lt x pre) pre xs = Inr qs \<and> in_order lt (rev qs)"
  using assms(2-4)
proof (induction xs arbitrary: pre)
  case (Cons x xs)
  obtain qs where qs: "insert_left lt x pre = Inr qs" "in_order lt (rev qs)"
    using insert_left_sorted [OF assms(1), of x pre] Cons.prems by auto
  then have "set qs \<subseteq> A"
    using insert_left_mset [OF qs(1)] Cons.prems
    by (metis insert_subset list.simps(15) set_mset_add_mset_insert set_mset_mset)
  with Cons qs show ?case by simp
qed simp

lemma insertion_fold_mset:
  "fold_res (\<lambda>pre x. insert_left lt x pre) pre xs = Inr qs \<Longrightarrow> mset qs = mset pre + mset xs"
  by (induction xs arbitrary: pre) (auto simp: bind_res_Inr dest: insert_left_mset)

interpretation insertion: go_sort insertion_sort
proof unfold_locales
  fix lt :: "'a less_res" and xs ys
  assume "insertion_sort lt xs = Inr ys"
  then show "mset ys = mset xs"
    by (auto simp: insertion_sort_def bind_res_Inr dest!: insertion_fold_mset)
next
  fix lt :: "'a less_res" and xs
  assume "swo_on (set xs) lt"
  then show "\<exists>ys. insertion_sort lt xs = Inr ys \<and> in_order lt ys"
    using insertion_fold [of "set xs" lt xs "[]"]
    by (auto simp: insertion_sort_def bind_res_Inr in_order_def)
qed

section \<open>The comparison is a lexicographic order\<close>

text \<open>An abstract three-way comparison: antisymmetric in sign and transitive on a set.\<close>

definition weak_cmp :: "'a set \<Rightarrow> ('a \<Rightarrow> 'a \<Rightarrow> int) \<Rightarrow> bool" where
  "weak_cmp A c \<longleftrightarrow> (\<forall>x\<in>A. \<forall>y\<in>A. c y x = - c x y) \<and>
     (\<forall>x\<in>A. \<forall>y\<in>A. \<forall>z\<in>A. c x y \<le> 0 \<longrightarrow> c y z \<le> 0 \<longrightarrow> c x z \<le> 0)"

lemma weak_cmpI:
  assumes "\<And>x y. x \<in> A \<Longrightarrow> y \<in> A \<Longrightarrow> c y x = - c x y"
    and "\<And>x y z. x \<in> A \<Longrightarrow> y \<in> A \<Longrightarrow> z \<in> A \<Longrightarrow> c x y \<le> 0 \<Longrightarrow> c y z \<le> 0 \<Longrightarrow> c x z \<le> 0"
  shows "weak_cmp A c"
  using assms unfolding weak_cmp_def by blast

lemma weak_cmp_anti: "weak_cmp A c \<Longrightarrow> x \<in> A \<Longrightarrow> y \<in> A \<Longrightarrow> c y x = - c x y"
  unfolding weak_cmp_def by blast

lemma weak_cmp_trans:
  "weak_cmp A c \<Longrightarrow> x \<in> A \<Longrightarrow> y \<in> A \<Longrightarrow> z \<in> A \<Longrightarrow> c x y \<le> 0 \<Longrightarrow> c y z \<le> 0 \<Longrightarrow> c x z \<le> 0"
  unfolding weak_cmp_def by blast

lemma weak_cmp_cong:
  assumes "weak_cmp A c" and eq: "\<And>x y. x \<in> A \<Longrightarrow> y \<in> A \<Longrightarrow> d x y = c x y"
  shows "weak_cmp A d"
proof (rule weak_cmpI)
  fix x y assume A: "x \<in> A" "y \<in> A"
  show "d y x = - d x y" unfolding eq [OF A] eq [OF A(2,1)] by (rule weak_cmp_anti [OF assms(1) A])
next
  fix x y z assume A: "x \<in> A" "y \<in> A" "z \<in> A" and le: "d x y \<le> 0" "d y z \<le> 0"
  show "d x z \<le> 0"
    using weak_cmp_trans [OF assms(1) A] le eq [OF A(1,2)] eq [OF A(2,3)] eq [OF A(1,3)] by simp
qed

lemma weak_cmp_image: "weak_cmp (h ` A) c \<Longrightarrow> weak_cmp A (\<lambda>x y. c (h x) (h y))"
  by (rule weak_cmpI) (blast dest: weak_cmp_anti weak_cmp_trans)+

lemma weak_cmp_linear: "weak_cmp A (\<lambda>x y. cmp_linear (k x) (k y))"
  by (rule weak_cmpI) (auto simp: cmp_linear_def split: if_splits)

lemma weak_cmp_neg: "weak_cmp A c \<Longrightarrow> weak_cmp A (\<lambda>x y. - c x y)"
proof (rule weak_cmpI)
  fix x y assume w: "weak_cmp A c" and A: "x \<in> A" "y \<in> A"
  show "- c y x = - (- c x y)" using weak_cmp_anti [OF w A] by simp
next
  fix x y z
  assume w: "weak_cmp A c" and A: "x \<in> A" "y \<in> A" "z \<in> A" and le: "- c x y \<le> 0" "- c y z \<le> 0"
  have "c z y \<le> 0" "c y x \<le> 0"
    using le weak_cmp_anti [OF w A(1,2)] weak_cmp_anti [OF w A(2,3)] by linarith+
  then have "c z x \<le> 0" by (rule weak_cmp_trans [OF w A(3,2,1)])
  then show "- c x z \<le> 0" using weak_cmp_anti [OF w A(1,3)] by linarith
qed

lemma weak_cmp_const: "weak_cmp A (\<lambda>x y. 0)"
  by (rule weak_cmpI) auto

fun lex_cmp :: "('a \<Rightarrow> 'a \<Rightarrow> int) list \<Rightarrow> 'a \<Rightarrow> 'a \<Rightarrow> int" where
  "lex_cmp [] x y = 0"
| "lex_cmp (c # cs) x y = (if c x y = 0 then lex_cmp cs x y else c x y)"

lemma weak_cmp_lex: "\<forall>c \<in> set cs. weak_cmp A c \<Longrightarrow> weak_cmp A (lex_cmp cs)"
proof (induction cs)
  case Nil
  show ?case by (simp add: weak_cmp_def)
next
  case (Cons c cs)
  then have c: "weak_cmp A c" and cs: "weak_cmp A (lex_cmp cs)" by auto
  show ?case
  proof (rule weak_cmpI)
    fix x y assume A: "x \<in> A" "y \<in> A"
    then show "lex_cmp (c # cs) y x = - lex_cmp (c # cs) x y"
      using weak_cmp_anti [OF c A] weak_cmp_anti [OF cs A] by simp
  next
    fix x y z assume A: "x \<in> A" "y \<in> A" "z \<in> A"
      and le: "lex_cmp (c # cs) x y \<le> 0" "lex_cmp (c # cs) y z \<le> 0"
    have cle: "c x y \<le> 0" "c y z \<le> 0" using le by (auto split: if_splits)
    have cxz: "c x z \<le> 0" by (rule weak_cmp_trans [OF c A cle])
    show "lex_cmp (c # cs) x z \<le> 0"
    proof (cases "c x z = 0")
      case True
      have zx: "c z x \<le> 0" using True weak_cmp_anti [OF c A(1,3)] by simp
      have "c z y \<le> 0" "c y x \<le> 0"
        using weak_cmp_trans [OF c A(3,1,2) zx cle(1)] weak_cmp_trans [OF c A(2,3,1) cle(2) zx]
        by auto
      then have "c x y = 0" "c y z = 0"
        using cle weak_cmp_anti [OF c A(1,2)] weak_cmp_anti [OF c A(2,3)] by linarith+
      then show ?thesis
        using le True weak_cmp_trans [OF cs A] by simp
    next
      case False
      then show ?thesis using cxz by simp
    qed
  qed
qed

lemma swo_of_weak_cmp:
  assumes c: "weak_cmp A c" and lt: "\<And>x y. x \<in> A \<Longrightarrow> y \<in> A \<Longrightarrow> lt x y = Inr (c x y < 0)"
  shows "swo_on A lt"
proof -
  have irr: "c x x = 0" if "x \<in> A" for x
    using weak_cmp_anti [OF c that that] by simp
  have tr: "c x z < 0" if A: "x \<in> A" "y \<in> A" "z \<in> A" and xy: "c x y < 0" and yz: "c y z < 0" for x y z
  proof (rule ccontr)
    assume "\<not> c x z < 0"
    then have zx: "c z x \<le> 0" using weak_cmp_anti [OF c A(1,3)] by simp
    have "c y x \<le> 0" using weak_cmp_trans [OF c A(2,3,1) _ zx] yz by simp
    then show False using xy weak_cmp_anti [OF c A(1,2)] by simp
  qed
  have nt: "\<not> c x z < 0" if A: "x \<in> A" "y \<in> A" "z \<in> A" and "\<not> c x y < 0" "\<not> c y z < 0" for x y z
  proof -
    have "c z y \<le> 0" "c y x \<le> 0"
      using that weak_cmp_anti [OF c A(1,2)] weak_cmp_anti [OF c A(2,3)] by linarith+
    then have "c z x \<le> 0" by (rule weak_cmp_trans [OF c A(3,2,1)])
    then show ?thesis using weak_cmp_anti [OF c A(1,3)] by simp
  qed
  show ?thesis unfolding swo_on_def
    by (intro conjI ballI impI) (auto simp: lt irr intro: tr dest: nt)
qed

text \<open>Values of one kind; a NaN is excluded, since no order contains it.\<close>

fun value_tag :: "gval option \<Rightarrow> nat" where
  "value_tag None = 0"
| "value_tag (Some (VStr s)) = 1"
| "value_tag (Some (VInt i)) = 2"
| "value_tag (Some (VUint i)) = 3"
| "value_tag (Some (VFloat f)) = 4"
| "value_tag (Some (VBool b)) = 5"
| "value_tag (Some v) = 6"

definition one_kind :: "gval option set \<Rightarrow> bool" where
  "one_kind V \<longleftrightarrow> (\<forall>v\<in>V. \<forall>w\<in>V. value_tag v = value_tag w) \<and> Some (VFloat NaN) \<notin> V"

definition cmp_of :: "(gval \<Rightarrow> string) \<Rightarrow> gval option \<Rightarrow> gval option \<Rightarrow> int" where
  "cmp_of sprint a b = (case compareValues sprint a b of Inr c \<Rightarrow> c | Inl _ \<Rightarrow> 0)"

lemma weak_cmp_float: "NaN \<notin> F \<Longrightarrow> weak_cmp F cmp_float"
proof (rule weak_cmpI)
  fix x y assume "NaN \<notin> F" "x \<in> F" "y \<in> F"
  then have "x \<noteq> NaN" "y \<noteq> NaN" by auto
  then show "cmp_float y x = - cmp_float x y" by (cases x; cases y) (auto simp: cmp_float_def)
next
  fix x y z assume "NaN \<notin> F" "x \<in> F" "y \<in> F" "z \<in> F"
    and le: "cmp_float x y \<le> 0" "cmp_float y z \<le> 0"
  then have "x \<noteq> NaN" "y \<noteq> NaN" "z \<noteq> NaN" by auto
  then show "cmp_float x z \<le> 0"
    using le by (cases x; cases y; cases z) (auto simp: cmp_float_def split: if_splits)
qed

fun the_str :: "gval option \<Rightarrow> string" where
  "the_str (Some (VStr s)) = s"
| "the_str _ = []"

fun the_int :: "gval option \<Rightarrow> int" where
  "the_int (Some (VInt i)) = i"
| "the_int (Some (VUint i)) = i"
| "the_int (Some (VBool b)) = (if b then 1 else 0)"
| "the_int _ = 0"

fun the_float :: "gval option \<Rightarrow> gofloat" where
  "the_float (Some (VFloat f)) = f"
| "the_float _ = NegInf"

lemma value_tag_Some [simp]: "value_tag (Some v) \<noteq> 0" "0 \<noteq> value_tag (Some v)"
  by (cases v; simp)+

lemma compare_total:
  "value_tag a = value_tag b \<Longrightarrow> compareValues sprint a b = Inr (cmp_of sprint a b)"
  by (cases a; cases b) (auto simp: cmp_of_def compareValues_def split: gval.splits)

lemma cmp_of_by_tag:
  assumes "value_tag a = t" "value_tag b = t"
  shows "cmp_of sprint a b =
    (if t = 0 then 0 else if t = 1 then cmp_linear (the_str a) (the_str b)
     else if t < 4 then cmp_linear (the_int a) (the_int b)
     else if t = 4 then cmp_float (the_float a) (the_float b)
     else if t = 5 then cmp_linear (the_int a) (the_int b)
     else cmp_linear (sprint (the a)) (sprint (the b)))"
proof (cases a)
  case None
  then show ?thesis using assms by (cases b) (auto simp: cmp_of_def compareValues_def split: gval.splits)
next
  case (Some v)
  then obtain w where b: "b = Some w" using assms by (cases b; cases v) auto
  show ?thesis
    using assms unfolding Some b
    by (cases v; cases w) (simp_all add: cmp_of_def compareValues_def cmp_linear_def)
qed

lemma weak_cmp_one_kind:
  assumes "one_kind V"
  shows "weak_cmp V (cmp_of sprint)"
proof (cases "V = {}")
  case True
  then show ?thesis by (simp add: weak_cmp_def)
next
  case False
  then obtain t where t: "\<And>v. v \<in> V \<Longrightarrow> value_tag v = t"
    using assms by (metis all_not_in_conv one_kind_def)
  define g where "g = (if t = 0 then (\<lambda>a b. 0) else if t = 1 then (\<lambda>a b. cmp_linear (the_str a) (the_str b))
     else if t < 4 then (\<lambda>a b. cmp_linear (the_int a) (the_int b))
     else if t = 4 then (\<lambda>a b. cmp_float (the_float a) (the_float b))
     else if t = 5 then (\<lambda>a b. cmp_linear (the_int a) (the_int b))
     else (\<lambda>a b. cmp_linear (sprint (the a)) (sprint (the b))))"
  have nan: "t = 4 \<Longrightarrow> v \<in> V \<Longrightarrow> the_float v \<noteq> NaN" for v
    using assms t [of v] by (cases v rule: the_float.cases) (auto simp: one_kind_def)
  have "weak_cmp V (\<lambda>a b. cmp_float (the_float a) (the_float b))" if "t = 4"
    using nan [OF that] by (intro weak_cmp_image [where h = the_float] weak_cmp_float) force
  then have "weak_cmp V g"
    by (simp add: g_def weak_cmp_linear [where k = the_str] weak_cmp_linear [where k = the_int]
        weak_cmp_linear [where k = "\<lambda>a. sprint (the a)"] weak_cmp_const)
  moreover have "cmp_of sprint a b = g a b" if "a \<in> V" "b \<in> V" for a b
    using cmp_of_by_tag [OF t t] that by (simp add: g_def)
  ultimately show ?thesis by (rule weak_cmp_cong)
qed

section \<open>Apply sorts\<close>

text \<open>The comparison one sort contributes, on struct values.\<close>

definition sort_cmp :: "(gval \<Rightarrow> string) \<Rightarrow> sort_by \<Rightarrow> gval \<Rightarrow> gval \<Rightarrow> int" where
  "sort_cmp sprint s a b =
     (case srt_element s of
        FieldE f \<Rightarrow>
          (if f = [] then 0
           else let c = cmp_of sprint (struct_get a f) (struct_get b f)
                in if srt_direction s = Desc then - c else c)
      | _ \<Rightarrow> 0)"

text \<open>Sorts that apply to a list: every sort names a field, and each named field has values of
  one kind over the list.\<close>

definition sortable :: "sort_by list \<Rightarrow> gval list \<Rightarrow> bool" where
  "sortable sorts xs \<longleftrightarrow>
     (\<forall>x\<in>set xs. is_struct (deref x)) \<and>
     (\<forall>s\<in>set sorts. \<exists>f. srt_element s = FieldE f \<and> one_kind ((\<lambda>x. struct_get (deref x) f) ` set xs))"

lemma compare_loop_lex:
  assumes "\<forall>s\<in>set sorts. \<exists>f. srt_element s = FieldE f \<and> value_tag (struct_get a f) = value_tag (struct_get b f)"
  shows "compare_loop sprint a b sorts = Inr (lex_cmp (map (sort_cmp sprint) sorts) a b < 0)"
  using assms
proof (induction sorts)
  case (Cons s sorts)
  then obtain f where f: "srt_element s = FieldE f"
    and tag: "value_tag (struct_get a f) = value_tag (struct_get b f)" by auto
  show ?case
    using Cons f compare_total [OF tag, of sprint] by (auto simp: sort_cmp_def Let_def)
qed simp

lemma sortable_weak_cmp:
  assumes "sortable sorts xs" "s \<in> set sorts"
  shows "weak_cmp (set xs) (\<lambda>x y. sort_cmp sprint s (deref x) (deref y))"
proof -
  obtain f where f: "srt_element s = FieldE f" "one_kind ((\<lambda>x. struct_get (deref x) f) ` set xs)"
    using assms by (auto simp: sortable_def)
  have "weak_cmp (set xs) (\<lambda>x y. cmp_of sprint (struct_get (deref x) f) (struct_get (deref y) f))"
    by (rule weak_cmp_image [OF weak_cmp_one_kind [OF f(2)]])
  then show ?thesis
    using weak_cmp_neg weak_cmp_const
    by (cases "f = []"; cases "srt_direction s = Desc") (simp_all add: sort_cmp_def f(1) Let_def)
qed

lemma lex_cmp_map: "lex_cmp (map (\<lambda>s x y. g s (h x) (h y)) sorts) x y = lex_cmp (map g sorts) (h x) (h y)"
  by (induction sorts) auto

lemma compareBySorts_swo:
  assumes "sortable sorts xs"
  shows "swo_on (set xs) (compareBySorts sprint sorts)"
    and "x \<in> set xs \<Longrightarrow> y \<in> set xs \<Longrightarrow>
      compareBySorts sprint sorts x y = Inr (lex_cmp (map (sort_cmp sprint) sorts) (deref x) (deref y) < 0)"
proof -
  have eq: "compareBySorts sprint sorts x y = Inr (lex_cmp (map (sort_cmp sprint) sorts) (deref x) (deref y) < 0)"
    if "x \<in> set xs" "y \<in> set xs" for x y
  proof -
    have "compare_loop sprint (deref x) (deref y) sorts =
        Inr (lex_cmp (map (sort_cmp sprint) sorts) (deref x) (deref y) < 0)"
      using assms that by (intro compare_loop_lex) (fastforce simp: sortable_def one_kind_def)
    then show ?thesis using assms that by (simp add: compareBySorts_def sortable_def)
  qed
  have "weak_cmp (set xs) (lex_cmp (map (\<lambda>s x y. sort_cmp sprint s (deref x) (deref y)) sorts))"
    using sortable_weak_cmp [OF assms] by (intro weak_cmp_lex) auto
  moreover have "lex_cmp (map (\<lambda>s x y. sort_cmp sprint s (deref x) (deref y)) sorts) =
      (\<lambda>x y. lex_cmp (map (sort_cmp sprint) sorts) (deref x) (deref y))"
    by (intro ext) (rule lex_cmp_map)
  ultimately have "weak_cmp (set xs) (\<lambda>x y. lex_cmp (map (sort_cmp sprint) sorts) (deref x) (deref y))"
    by simp
  then show "swo_on (set xs) (compareBySorts sprint sorts)"
    by (rule swo_of_weak_cmp) (rule eq)
  show "x \<in> set xs \<Longrightarrow> y \<in> set xs \<Longrightarrow>
      compareBySorts sprint sorts x y = Inr (lex_cmp (map (sort_cmp sprint) sorts) (deref x) (deref y) < 0)"
    by (rule eq)
qed

context go_sort
begin

lemma sort_by_sorts:
  assumes "swo_on (set xs) lt" and lt: "\<And>x y. x \<in> set xs \<Longrightarrow> y \<in> set xs \<Longrightarrow> lt x y = Inr (c x y < (0 :: int))"
  obtains ys where "sort_slice lt xs = Inr ys" "mset ys = mset xs" "sorted_wrt (\<lambda>x y. 0 \<le> c y x) ys"
proof -
  obtain ys where ys: "sort_slice lt xs = Inr ys" "mset ys = mset xs" "in_order lt ys"
    by (rule sorts_ok [OF assms(1)])
  have "sorted_wrt (\<lambda>x y. 0 \<le> c y x) ys"
    using ys(3) unfolding in_order_def
    by (rule sorted_wrt_mono_rel [rotated]) (simp add: sort_set [OF ys(1)] lt linorder_not_less)
  then show thesis by (rule that [OF ys(1,2)])
qed

end

text \<open>C35: on structs whose sort fields each hold one kind of value, sorting by any list of sorts
  with a function that meets the contract of \<^verbatim>\<open>sort.Slice\<close> returns a rearrangement in which
  no element comes after one it precedes lexicographically, Desc sorts reversed.\<close>

theorem apply_sorts_sorted:
  assumes srt: "go_sort srt" and able: "sortable sorts xs"
  shows "\<exists>ys. apply_sorts srt sprint xs sorts = Inr ys \<and> mset ys = mset xs \<and>
      sorted_wrt (\<lambda>x y. 0 \<le> lex_cmp (map (sort_cmp sprint) sorts) (deref y) (deref x)) ys"
proof (cases "length xs < 2 \<or> sorts = []")
  case True
  then have "sorted_wrt (\<lambda>x y. 0 \<le> lex_cmp (map (sort_cmp sprint) sorts) (deref y) (deref x)) xs"
    by (cases xs; cases "tl xs") (auto simp: sorted_wrt_iff_nth_less)
  with True show ?thesis by (simp add: apply_sorts_def)
next
  case False
  obtain ys where "srt (compareBySorts sprint sorts) xs = Inr ys" "mset ys = mset xs"
    "sorted_wrt (\<lambda>x y. 0 \<le> lex_cmp (map (sort_cmp sprint) sorts) (deref y) (deref x)) ys"
    by (rule go_sort.sort_by_sorts [OF srt compareBySorts_swo [OF able]])
  with False show ?thesis by (simp add: apply_sorts_def)
qed

definition rec_age :: "int \<Rightarrow> gval" where
  "rec_age n = VPtr (VStruct [(''Age'', VInt n)])"

theorem apply_sorts_sorted_witness:
  "go_sort (insertion_sort :: gval less_res \<Rightarrow> gval list \<Rightarrow> gval list res) \<and>
   sortable [elem_Desc (FieldE ''Age'')] [rec_age 1, rec_age 2] \<and>
   (\<exists>ys. apply_sorts insertion_sort (\<lambda>_. []) [rec_age 1, rec_age 2] [elem_Desc (FieldE ''Age'')] = Inr ys \<and>
      mset ys = mset [rec_age 1, rec_age 2] \<and>
      sorted_wrt (\<lambda>x y. 0 \<le> lex_cmp (map (sort_cmp (\<lambda>_. [])) [elem_Desc (FieldE ''Age'')]) (deref y) (deref x)) ys)"
proof -
  have srt: "go_sort (insertion_sort :: gval less_res \<Rightarrow> gval list \<Rightarrow> gval list res)"
    by (rule insertion.go_sort_axioms)
  have able: "sortable [elem_Desc (FieldE ''Age'')] [rec_age 1, rec_age 2]"
    by (simp add: sortable_def rec_age_def elem_Desc_def one_kind_def)
  show ?thesis
    using srt able apply_sorts_sorted [OF srt able, of "\<lambda>_. []"] by blast
qed

text \<open>Sorting a value through reflection never panics: every panic of the comparison comes
  back as an error, and a value that is no slice is an error.\<close>

theorem applyToValue_no_panic: "applyToValue srt sprint v sorts \<noteq> Inl (Panic p)"
  by (auto simp: applyToValue_def recover_panic_def split: gval.splits sum.splits error.splits)

end
