(* ===== verification/Zcache.thy ===== *)
theory Zcache
  imports Zwarn
begin

text \<open>
  Packages \<^verbatim>\<open>go/zcache\<close> (\<^verbatim>\<open>zcache.go\<close>) and \<^verbatim>\<open>go/zcache/zcacheredis\<close> (\<^verbatim>\<open>zcacheredis.go\<close>).

  A cache is the record of its three operations over a state \<open>'s\<close> (the interface \<^verbatim>\<open>Cache\<close>);
  the channel \<^verbatim>\<open>Get\<close> returns carries one value or is closed empty, an option here. The loader is
  an operation on the world as well, so that \<open>readThrough\<close> threads one state through every
  call it makes, in order. Contexts and their timeouts are outside the model: an expired
  timeout is an error the cache returns. The redis client is third-party code: it is the
  record \<open>redis_client\<close>, whose documented laws are the locale \<open>redis\<close>.
\<close>

type_synonym bytes = string

record 's cache =
  cache_set :: "'s \<Rightarrow> string \<Rightarrow> string \<Rightarrow> int \<Rightarrow> bytes \<Rightarrow> 's \<times> unit res"
  cache_get :: "'s \<Rightarrow> string \<Rightarrow> string \<Rightarrow> 's \<times> bytes option res"
  cache_clear :: "'s \<Rightarrow> string \<Rightarrow> string \<Rightarrow> 's \<times> unit res"

section \<open>Read-through\<close>

text \<open>The result: the value, the warnings (none is nil), and an error or not. On an error the code
  returns the loader's value beside it.\<close>

type_synonym 't read_result = "'t \<times> warning list \<times> error option"

text \<open>The first part: the cache lookup. \<open>unmarshal\<close> gives a value even when it fails.\<close>

definition rt_lookup ::
  "'s cache \<Rightarrow> 's \<Rightarrow> string \<Rightarrow> string \<Rightarrow> (bytes \<Rightarrow> 't \<times> error option) \<Rightarrow> 's \<times> 't option \<times> warning list" where
  "rt_lookup c s namespace key unmarshal =
     (let (s', r) = cache_get c s namespace key in
      case r of
        Inl e \<Rightarrow> (s', None, [warnf (''loading read-through cached data: '' @ error_text e) [ArgError e]])
      | Inr None \<Rightarrow> (s', None, [])
      | Inr (Some data) \<Rightarrow>
          (case unmarshal data of
             (result, Some e) \<Rightarrow>
               (s', None, [warnf (''parsing read-through cached data: '' @ error_text e) [ArgError e]])
           | (result, None) \<Rightarrow> (s', Some result, [])))"

text \<open>The second part: storing what the loader returned; every failure is a warning.\<close>

definition rt_store ::
  "'s cache \<Rightarrow> 's \<Rightarrow> string \<Rightarrow> string \<Rightarrow> int \<Rightarrow> ('t \<Rightarrow> bytes res) \<Rightarrow> 't \<Rightarrow> 's \<times> warning list" where
  "rt_store c s namespace key expiration marshal result =
     (case marshal result of
        Inl e \<Rightarrow> (s, [warnf (''caching read-through data from source: '' @ error_text e) [ArgError e]])
      | Inr data \<Rightarrow>
          (let (s', r) = cache_set c s namespace key expiration data in
           case r of
             Inl e \<Rightarrow> (s', [warnf (''caching read-through data from source: '' @ error_text e) [ArgError e]])
           | Inr _ \<Rightarrow> (s', [])))"

definition readThrough ::
  "'s cache \<Rightarrow> 's \<Rightarrow> string \<Rightarrow> string \<Rightarrow> int \<Rightarrow> ('s \<Rightarrow> 's \<times> 't \<times> error option) \<Rightarrow>
   ('t \<Rightarrow> bytes res) \<Rightarrow> (bytes \<Rightarrow> 't \<times> error option) \<Rightarrow> 's \<times> 't read_result" where
  "readThrough c s namespace key expiration loader marshal unmarshal =
     (let (s1, cached, warnings) = rt_lookup c s namespace key unmarshal in
      case cached of
        Some result \<Rightarrow> (s1, result, warnings, None)
      | None \<Rightarrow>
          (let (s2, result, err) = loader s1 in
           case err of
             Some e \<Rightarrow> (s2, result, warnings, Some (wrap_err ''fetching read-through from source'' e))
           | None \<Rightarrow>
               (let (s3, more) = rt_store c s2 namespace key expiration marshal result
                in (s3, result, warnings @ more, None))))"

section \<open>The contract of a cache\<close>

text \<open>
  \<open>keys_ok\<close> says for which namespaces and keys the cache keeps entries apart. Expiry is the
  environment's move: \<open>holds\<close> reads what the cache would return now.
\<close>

locale cache_contract =
  fixes c :: "'s cache" and holds :: "'s \<Rightarrow> string \<times> string \<Rightarrow> bytes option"
    and keys_ok :: "string \<Rightarrow> bool"
  assumes get_reads: "snd (cache_get c s ns k) = Inr v \<Longrightarrow> v = holds s (ns, k)"
    and get_keeps: "holds (fst (cache_get c s ns k)) = holds s"
    and set_stores: "snd (cache_set c s ns k ex d) = Inr u \<Longrightarrow>
        holds (fst (cache_set c s ns k ex d)) (ns, k) = Some d"
    and set_keeps: "keys_ok ns \<Longrightarrow> keys_ok ns' \<Longrightarrow> (ns', k') \<noteq> (ns, k) \<Longrightarrow>
        holds (fst (cache_set c s ns k ex d)) (ns', k') = holds s (ns', k')"
    and clear_removes: "snd (cache_clear c s ns k) = Inr u \<Longrightarrow>
        holds (fst (cache_clear c s ns k)) (ns, k) = None"
begin

lemma lookup_hit:
  assumes "rt_lookup c s ns k unmarshal = (s1, Some v, ws)"
  shows "\<exists>d. holds s (ns, k) = Some d \<and> unmarshal d = (v, None) \<and> ws = []"
proof -
  obtain r where r: "cache_get c s ns k = (s1, r)"
    using assms by (cases "cache_get c s ns k")
      (auto simp: rt_lookup_def split: sum.splits option.splits prod.splits)
  then have "r = Inr (holds s (ns, k))" if "is_ok r"
    using that get_reads [of s ns k] by (auto simp: is_ok_iff)
  then show ?thesis
    using assms r by (cases "unmarshal (the (holds s (ns, k)))")
      (auto simp: rt_lookup_def split: sum.splits option.splits prod.splits)
qed

lemma lookup_keeps: "rt_lookup c s ns k unmarshal = (s1, v, ws) \<Longrightarrow> holds s1 = holds s"
  using get_keeps [of s ns k]
  by (cases "cache_get c s ns k") (auto simp: rt_lookup_def split: sum.splits option.splits prod.splits)

lemma lookup_warns: "rt_lookup c s ns k unmarshal = (s1, None, []) \<Longrightarrow> holds s (ns, k) = None"
  using get_reads [of s ns k]
  by (cases "cache_get c s ns k") (auto simp: rt_lookup_def split: sum.splits option.splits prod.splits)

lemma store_ok:
  assumes "rt_store c s ns k ex marshal v = (s', [])"
  shows "\<exists>d. marshal v = Inr d \<and> holds s' (ns, k) = Some d"
  using assms set_stores [of s ns k ex "projr (marshal v)" "()"]
  by (cases "marshal v"; cases "cache_set c s ns k ex (projr (marshal v))")
    (auto simp: rt_store_def split: sum.splits)

text \<open>A value served without error comes from the cache or from the loader; a second read after
  a read with no warning is served from the cache, whatever the loader does.\<close>

lemma read_source:
  assumes "readThrough c s ns k ex loader marshal unmarshal = (s', v, ws, None)"
  shows "(\<exists>d. holds s (ns, k) = Some d \<and> unmarshal d = (v, None)) \<or>
      (\<exists>s1 s2. holds s1 = holds s \<and> loader s1 = (s2, v, None))"
proof -
  obtain s1 cached ws1 where l: "rt_lookup c s ns k unmarshal = (s1, cached, ws1)"
    by (metis prod_cases3)
  show ?thesis
  proof (cases cached)
    case (Some u)
    then show ?thesis using assms l lookup_hit [of s ns k unmarshal s1 u ws1]
      by (auto simp: readThrough_def)
  next
    case None
    then show ?thesis using assms l lookup_keeps [OF l]
      by (auto simp: readThrough_def split: prod.splits option.splits)
  qed
qed

lemma read_fills:
  assumes "readThrough c s ns k ex loader marshal unmarshal = (s', v, [], None)"
    and rt: "\<And>x d. marshal x = Inr d \<Longrightarrow> unmarshal d = (x, None)"
  shows "\<exists>d. holds s' (ns, k) = Some d \<and> unmarshal d = (v, None)"
proof -
  obtain s1 cached ws1 where l: "rt_lookup c s ns k unmarshal = (s1, cached, ws1)"
    by (metis prod_cases3)
  show ?thesis
  proof (cases cached)
    case (Some u)
    then show ?thesis using assms(1) l lookup_hit [of s ns k unmarshal s1 u ws1] lookup_keeps [OF l]
      by (auto simp: readThrough_def)
  next
    case None
    obtain s2 where ld: "loader s1 = (s2, v, None)" and st: "rt_store c s2 ns k ex marshal v = (s', [])"
      using assms(1) l None by (auto simp: readThrough_def split: prod.splits option.splits)
    from store_ok [OF st] rt show ?thesis by blast
  qed
qed

lemma read_hit:
  assumes "holds s (ns, k) = Some d" "unmarshal d = (v, None)" "is_ok (snd (cache_get c s ns k))"
  shows "readThrough c s ns k ex loader marshal unmarshal = (fst (cache_get c s ns k), v, [], None)"
proof -
  obtain s1 r where r: "cache_get c s ns k = (s1, r)" by (cases "cache_get c s ns k")
  then have "r = Inr (Some d)"
    using assms get_reads [of s ns k] by (auto simp: is_ok_iff)
  with r assms show ?thesis by (simp add: readThrough_def rt_lookup_def)
qed

end

text \<open>Whatever the cache does, an error of \<open>readThrough\<close> is the loader's.\<close>

lemma readThrough_error:
  "readThrough c s ns k ex loader marshal unmarshal = (s', v, ws, Some e) \<Longrightarrow>
     \<exists>s1 s2 e'. loader s1 = (s2, v, Some e') \<and> e = wrap_err ''fetching read-through from source'' e'"
  by (auto simp: readThrough_def Let_def split: prod.splits option.splits)

section \<open>The redis cache\<close>

text \<open>The commands the code sends: \<^verbatim>\<open>SETEX\<close>, \<^verbatim>\<open>GET\<close> (no such key is \<^verbatim>\<open>redis.Nil\<close>) and \<^verbatim>\<open>DEL\<close>.\<close>

record 's redis_client =
  r_setex :: "'s \<Rightarrow> string \<Rightarrow> bytes \<Rightarrow> int \<Rightarrow> 's \<times> unit res"
  r_get :: "'s \<Rightarrow> string \<Rightarrow> 's \<times> bytes res"
  r_del :: "'s \<Rightarrow> string \<Rightarrow> 's \<times> unit res"

definition redis_Nil :: error where "redis_Nil = Sentinel ''redis: nil''"

definition attr :: "string \<Rightarrow> string \<Rightarrow> string" where
  "attr namespace key = namespace @ '':'' @ key"

definition redis_set :: "'s redis_client \<Rightarrow> 's \<Rightarrow> string \<Rightarrow> string \<Rightarrow> int \<Rightarrow> bytes \<Rightarrow> 's \<times> unit res" where
  "redis_set cl s namespace key expiration value =
     map_prod id (wrap_res ''setting redis cache entry'') (r_setex cl s (attr namespace key) value expiration)"

definition redis_get :: "'s redis_client \<Rightarrow> 's \<Rightarrow> string \<Rightarrow> string \<Rightarrow> 's \<times> bytes option res" where
  "redis_get cl s namespace key =
     (let (s', r) = r_get cl s (attr namespace key) in
      case r of
        Inl e \<Rightarrow> (s', if e \<noteq> redis_Nil then Inl (wrap_err ''getting redis cache entry'' e) else Inr None)
      | Inr val \<Rightarrow> (s', Inr (Some val)))"

definition redis_clear :: "'s redis_client \<Rightarrow> 's \<Rightarrow> string \<Rightarrow> string \<Rightarrow> 's \<times> unit res" where
  "redis_clear cl s namespace key =
     map_prod id (wrap_res ''clearing redis cache entry'') (r_del cl s (attr namespace key))"

definition newRedisCache :: "'s redis_client \<Rightarrow> 's cache" where
  "newRedisCache cl = \<lparr>cache_set = redis_set cl, cache_get = redis_get cl, cache_clear = redis_clear cl\<rparr>"

text \<open>The key of an entry determines its namespace and key when the namespace has no colon; two
  namespaces with colons can share an entry.\<close>

lemma attr_inj:
  "CHR '':'' \<notin> set ns \<Longrightarrow> CHR '':'' \<notin> set ns' \<Longrightarrow> attr ns k = attr ns' k' \<longleftrightarrow> ns = ns' \<and> k = k'"
  by (simp add: attr_def sep_unique_left)

locale redis =
  fixes cl :: "'s redis_client" and store :: "'s \<Rightarrow> string \<Rightarrow> bytes option"
  assumes get_present: "snd (r_get cl s key) = Inr v \<Longrightarrow> store s key = Some v"
    and get_absent: "snd (r_get cl s key) = Inl redis_Nil \<Longrightarrow> store s key = None"
    and get_store: "store (fst (r_get cl s key)) = store s"
    and setex_ok: "snd (r_setex cl s key v ex) = Inr u \<Longrightarrow> store (fst (r_setex cl s key v ex)) key = Some v"
    and setex_frame: "key' \<noteq> key \<Longrightarrow> store (fst (r_setex cl s key v ex)) key' = store s key'"
    and del_ok: "snd (r_del cl s key) = Inr u \<Longrightarrow> store (fst (r_del cl s key)) key = None"

definition redis_holds :: "('s \<Rightarrow> string \<Rightarrow> bytes option) \<Rightarrow> 's \<Rightarrow> string \<times> string \<Rightarrow> bytes option" where
  "redis_holds store s p = store s (attr (fst p) (snd p))"

lemmas redis_ops = newRedisCache_def redis_get_def redis_set_def redis_clear_def

sublocale redis \<subseteq> cache_contract "newRedisCache cl" "redis_holds store" "\<lambda>ns. CHR '':'' \<notin> set ns"
proof unfold_locales
  fix s ns k v
  assume "snd (cache_get (newRedisCache cl) s ns k) = Inr v"
  then show "v = redis_holds store s (ns, k)"
    using get_present [of s "attr ns k"] get_absent [of s "attr ns k"]
    by (cases "r_get cl s (attr ns k)") (auto simp: redis_ops redis_holds_def split: sum.splits if_splits)
next
  fix s ns k
  have "fst (cache_get (newRedisCache cl) s ns k) = fst (r_get cl s (attr ns k))"
    by (cases "r_get cl s (attr ns k)") (simp add: redis_ops split: sum.split)
  then show "redis_holds store (fst (cache_get (newRedisCache cl) s ns k)) = redis_holds store s"
    by (simp add: redis_holds_def fun_eq_iff get_store)
next
  fix s ns k ex d u
  assume "snd (cache_set (newRedisCache cl) s ns k ex d) = Inr u"
  then show "redis_holds store (fst (cache_set (newRedisCache cl) s ns k ex d)) (ns, k) = Some d"
    by (simp add: redis_ops redis_holds_def setex_ok)
next
  fix s ns ns' ex d and k k' :: string
  assume "CHR '':'' \<notin> set ns" "CHR '':'' \<notin> set ns'" "(ns', k') \<noteq> (ns, k)"
  then have "attr ns' k' \<noteq> attr ns k" by (auto simp: attr_inj)
  then show "redis_holds store (fst (cache_set (newRedisCache cl) s ns k ex d)) (ns', k') = redis_holds store s (ns', k')"
    by (simp add: redis_ops redis_holds_def setex_frame)
next
  fix s ns k u
  assume "snd (cache_clear (newRedisCache cl) s ns k) = Inr u"
  then show "redis_holds store (fst (cache_clear (newRedisCache cl) s ns k)) (ns, k) = None"
    by (simp add: redis_ops redis_holds_def del_ok)
qed

context redis
begin

lemmas redis_contract = cache_contract_axioms

lemma redis_read_source:
  "readThrough (newRedisCache cl) s ns k ex loader marshal unmarshal = (s', v, ws, None) \<Longrightarrow>
    (\<exists>d. store s (attr ns k) = Some d \<and> unmarshal d = (v, None)) \<or>
    (\<exists>s1 s2. store s1 (attr ns k) = store s (attr ns k) \<and> loader s1 = (s2, v, None))"
  using read_source [of s ns k ex loader marshal unmarshal s' v ws]
  by (auto simp: redis_holds_def fun_eq_iff)

lemma redis_read_again:
  assumes "readThrough (newRedisCache cl) s ns k ex loader marshal unmarshal = (s', v, [], None)"
    and "\<And>x d. marshal x = Inr d \<Longrightarrow> unmarshal d = (x, None)"
    and "is_ok (snd (r_get cl s' (attr ns k)))"
  shows "readThrough (newRedisCache cl) s' ns k ex' loader' marshal' unmarshal =
    (fst (r_get cl s' (attr ns k)), v, [], None)"
proof -
  obtain d where "redis_holds store s' (ns, k) = Some d" "unmarshal d = (v, None)"
    using read_fills [OF assms(1,2)] by blast
  moreover have "is_ok (snd (cache_get (newRedisCache cl) s' ns k))"
    and "fst (cache_get (newRedisCache cl) s' ns k) = fst (r_get cl s' (attr ns k))"
    using assms(3) by (cases "r_get cl s' (attr ns k)"; auto simp: redis_ops is_ok_iff)+
  ultimately show ?thesis using read_hit [of s' ns k d unmarshal v] by simp
qed

end

text \<open>A server that keeps its keys in a map and is always reachable meets the laws.\<close>

definition map_redis :: "(string \<rightharpoonup> bytes) redis_client" where
  "map_redis =
     \<lparr>r_setex = \<lambda>s key v ex. (s(key \<mapsto> v), Inr ()),
      r_get = \<lambda>s key. (s, case s key of None \<Rightarrow> Inl redis_Nil | Some v \<Rightarrow> Inr v),
      r_del = \<lambda>s key. (s(key := None), Inr ())\<rparr>"

interpretation map_redis: redis map_redis "\<lambda>s. s"
  by unfold_locales (auto simp: map_redis_def split: option.splits)


definition one_char_codec :: "bytes \<Rightarrow> string \<times> error option" where
  "one_char_codec d = (d, None)"

definition miss_then_load :: "(string \<rightharpoonup> bytes) \<Rightarrow> (string \<rightharpoonup> bytes) \<times> string \<times> error option" where
  "miss_then_load s = (s, ''v'', None)"


text \<open>A read without warnings leaves the cache able to answer: whatever loader comes next,
  reading the same key again returns the same value without a warning and without an error,
  if the server answers and the codec round-trips.\<close>

theorem readThrough_twice:
  assumes "redis cl store"
    and "readThrough (newRedisCache cl) s ns k ex loader marshal unmarshal = (s', v, [], None)"
    and "\<And>x d. marshal x = Inr d \<Longrightarrow> unmarshal d = (x, None)"
    and "is_ok (snd (r_get cl s' (attr ns k)))"
  shows "readThrough (newRedisCache cl) s' ns k ex' loader' marshal' unmarshal =
    (fst (r_get cl s' (attr ns k)), v, [], None)"
  by (rule redis.redis_read_again [OF assms])

theorem readThrough_twice_witness:
  "readThrough (newRedisCache map_redis) [''users:7'' \<mapsto> ''v''] ''users'' ''7'' 60
      (\<lambda>s. (s, ''other'', Some redis_Nil)) Inr one_char_codec = ([''users:7'' \<mapsto> ''v''], ''v'', [], None)"
proof -
  have e: "readThrough (newRedisCache map_redis) Map.empty ''users'' ''7'' 60 miss_then_load Inr one_char_codec =
     ([''users:7'' \<mapsto> ''v''], ''v'', [], None)"
    by (simp add: readThrough_def rt_lookup_def rt_store_def redis_ops map_redis_def miss_then_load_def attr_def)
  have g: "is_ok (snd (r_get map_redis [''users:7'' \<mapsto> ''v''] (attr ''users'' ''7'')))"
    by (simp add: map_redis_def attr_def)
  show ?thesis
    using readThrough_twice [OF map_redis.redis_axioms e _ g, of 60 "\<lambda>s. (s, ''other'', Some redis_Nil)" Inr]
    by (simp add: one_char_codec_def map_redis_def)
qed

text \<open>an error of \<^verbatim>\<open>ReadThrough\<close> is the error of the loader, wrapped once; no failure of the
  cache, of the encoder or of the decoder is fatal.\<close>

theorem readThrough_error_is_loaders:
  assumes "readThrough c s ns k ex loader marshal unmarshal = (s', v, ws, Some e)"
  shows "\<exists>s1 s2 e'. loader s1 = (s2, v, Some e') \<and> e = wrap_err ''fetching read-through from source'' e'"
  by (rule readThrough_error [OF assms])

theorem readThrough_error_is_loaders_witness:
  "\<exists>s1 s2 e'. (\<lambda>s :: string \<rightharpoonup> bytes. (s, ''x'', Some redis_Nil)) s1 = (s2, ''x'', Some e') \<and>
     Wrap ''fetching read-through from source'' redis_Nil = wrap_err ''fetching read-through from source'' e'"
proof -
  have "readThrough (newRedisCache map_redis) Map.empty ''users'' ''7'' 60
      (\<lambda>s. (s, ''x'', Some redis_Nil)) Inr one_char_codec =
     (Map.empty, ''x'', [], Some (Wrap ''fetching read-through from source'' redis_Nil))"
    by (simp add: readThrough_def rt_lookup_def redis_ops map_redis_def attr_def wrap_err_def redis_Nil_def)
  from readThrough_error_is_loaders [OF this] show ?thesis .
qed

text \<open>Entries of namespaces without a colon never share a redis key; namespaces with one can.\<close>

theorem attr_separates:
  "(\<forall>ns ns' k k'. CHR '':'' \<notin> set ns \<and> CHR '':'' \<notin> set ns' \<longrightarrow>
      (attr ns k = attr ns' k') = (ns = ns' \<and> k = k')) \<and>
   (\<exists>ns ns' k k'. (ns, k) \<noteq> (ns', k') \<and> attr ns k = attr ns' k')"
proof -
  have "attr ''a'' ''b:c'' = attr ''a:b'' ''c''" by (simp add: attr_def)
  then have "\<exists>ns ns' k k'. (ns, k) \<noteq> (ns', k') \<and> attr ns k = attr ns' k'" by blast
  then show ?thesis by (auto simp: attr_inj)
qed

theorem attr_separates_witness: "attr ''users'' ''7'' \<noteq> attr ''groups'' ''7''"
proof -
  have "attr ''users'' ''7'' = attr ''groups'' ''7'' \<longleftrightarrow> ''users'' = ''groups'' \<and> ''7'' = ''7''"
    using attr_separates by (auto simp del: list.inject)
  then show ?thesis by simp
qed

end
