(* ===== verification/Zorm.thy ===== *)
theory Zorm
  imports Zelement
begin

text \<open>
  Package \<^verbatim>\<open>go/zorm\<close> (\<^verbatim>\<open>zorm.go\<close>, \<^verbatim>\<open>find_all.go\<close>, \<^verbatim>\<open>get_all.go\<close>): the options of the
  repository operations, the field lists with their negation, and the two helpers that page
  through a repository. The repository is an interface: its \<^verbatim>\<open>Find\<close> and \<^verbatim>\<open>Get\<close> are arguments of
  the helpers. Both helpers loop under the control of a page size the caller chooses, so they
  are \<^theory_text>\<open>partial_function (option)\<close> and \<open>None\<close> is a call that does not return.
\<close>

definition ErrNotFound :: error where "ErrNotFound = Sentinel ''not found''"
definition ErrConflict :: error where "ErrConflict = Sentinel ''conflict''"

section \<open>Options\<close>

type_synonym fields = "string list"

datatype include_opts =
    Include (inc_fields: fields) (inc_relations: "(string \<times> relation_opts) list")
and relation_opts =
    RelationOpts (rel_include: include_opts) (rel_where: "clause option") (rel_sort: "sort_by list")

definition isEmpty :: "include_opts \<Rightarrow> bool" where
  "isEmpty i \<longleftrightarrow> length (inc_fields i) = 0 \<and> length (inc_relations i) = 0"

record find_options =
  fo_include :: include_opts
  fo_sort :: "sort_by list"
  fo_where :: "clause option"
  fo_offset :: int

section \<open>Field lists\<close>

definition isNegated :: "fields \<Rightarrow> bool" where
  "isNegated f \<longleftrightarrow> f \<noteq> [] \<and> hd f \<noteq> [] \<and> hd (hd f) = CHR ''-''"

text \<open>
  Removing an element appends the tail onto the head \<^emph>\<open>in the same array\<close>:
  \<^verbatim>\<open>*f = append((*f)[:i], (*f)[i+1:]...)\<close>. A Go slice here is its array and its length; the
  slice of the caller shares the array and keeps the old length.
\<close>

type_synonym slice = "string list \<times> nat"

definition view :: "slice \<Rightarrow> fields" where
  "view s = take (snd s) (fst s)"

definition cut :: "nat \<Rightarrow> slice \<Rightarrow> slice" where
  "cut i s = (take i (fst s) @ drop (Suc i) (take (snd s) (fst s)) @ drop (snd s - 1) (fst s), snd s - 1)"

fun index_of :: "'a \<Rightarrow> 'a list \<Rightarrow> nat option" where
  "index_of x [] = None"
| "index_of x (y # ys) = (if y = x then Some 0 else map_option Suc (index_of x ys))"

fun remove_negated :: "string list \<Rightarrow> slice \<Rightarrow> slice" where
  "remove_negated [] s = s"
| "remove_negated (newField # fs) s =
     remove_negated fs
       (case index_of (CHR ''-'' # newField) (view s) of None \<Rightarrow> s | Some i \<Rightarrow> cut i s)"

fun add_missing :: "string list \<Rightarrow> fields \<Rightarrow> fields" where
  "add_missing [] f = f"
| "add_missing (newField # fs) f =
     add_missing fs (if newField \<in> set f then f else f @ [newField])"

text \<open>\<^verbatim>\<open>Fields.Add\<close>: the new list, and the list as a caller sees it who still holds the old slice.\<close>

definition fields_add :: "string list \<Rightarrow> fields \<Rightarrow> fields \<times> fields" where
  "fields_add fs f =
     (if isNegated f then let s = remove_negated fs (f, length f) in (view s, fst s)
      else (add_missing fs f, f))"

definition resolve :: "fields \<Rightarrow> fields \<Rightarrow> fields" where
  "resolve f allFields =
     (if length f = 0 then allFields
      else if \<not> isNegated f then f
      else let excluded = map tl (filter (\<lambda>g. g \<noteq> [] \<and> hd g = CHR ''-'') f)
           in filter (\<lambda>g. g \<notin> set excluded) allFields)"

lemma index_of_Some: "index_of x ys = Some i \<Longrightarrow> i < length ys \<and> ys ! i = x \<and> remove1 x ys = take i ys @ drop (Suc i) ys"
  by (induction ys arbitrary: i) (auto split: if_splits)

lemma index_of_None: "index_of x ys = None \<longleftrightarrow> x \<notin> set ys"
  by (induction ys) auto

lemma view_cut:
  "i < snd s \<Longrightarrow> snd s \<le> length (fst s) \<Longrightarrow> view (cut i s) = take i (view s) @ drop (Suc i) (view s)"
proof -
  assume "i < snd s" "snd s \<le> length (fst s)"
  moreover from this have "min (snd s - 1) i = i" by simp
  ultimately show ?thesis by (cases s) (simp add: view_def cut_def)
qed

lemma cut_length: "i < snd s \<Longrightarrow> snd s \<le> length (fst s) \<Longrightarrow>
    length (fst (cut i s)) = length (fst s) \<and> snd (cut i s) \<le> length (fst (cut i s))"
  by (cases s) (auto simp: cut_def min_def)

lemma view_remove_negated:
  "snd s \<le> length (fst s) \<Longrightarrow>
     view (remove_negated fs s) = fold remove1 (map (Cons (CHR ''-'')) fs) (view s) \<and>
     length (fst (remove_negated fs s)) = length (fst s)"
proof (induction fs s rule: remove_negated.induct)
  case (2 newField fs s)
  show ?case
  proof (cases "index_of (CHR ''-'' # newField) (view s)")
    case None
    then have "remove1 (CHR ''-'' # newField) (view s) = view s"
      by (simp add: index_of_None remove1_idem)
    with 2 None show ?thesis by simp
  next
    case (Some i)
    from index_of_Some [OF this] have i: "i < snd s"
      and r: "remove1 (CHR ''-'' # newField) (view s) = take i (view s) @ drop (Suc i) (view s)"
      using "2.prems" by (auto simp: view_def)
    show ?thesis
      using 2 Some r view_cut [OF i "2.prems"] cut_length [OF i "2.prems"] by simp
  qed
qed simp

lemma fields_add_negated:
  "isNegated f \<Longrightarrow> fst (fields_add fs f) = fold remove1 (map (Cons (CHR ''-'')) fs) f"
  using view_remove_negated [of "(f, length f)" fs] by (simp add: fields_add_def Let_def view_def)

lemma add_missing_set: "set (add_missing fs f) = set f \<union> set fs"
  by (induction fs f rule: add_missing.induct) auto

lemma add_missing_prefix: "\<exists>g. add_missing fs f = f @ g"
  by (induction fs f rule: add_missing.induct) (auto split: if_splits)

lemma add_missing_distinct: "distinct f \<Longrightarrow> distinct (add_missing fs f)"
  by (induction fs f rule: add_missing.induct) auto

lemma fold_remove1_distinct:
  "distinct f \<Longrightarrow> set (fold remove1 xs f) = set f - set xs \<and> distinct (fold remove1 xs f)"
proof (induction xs arbitrary: f)
  case (Cons x xs)
  then have "distinct (remove1 x f)" "set (remove1 x f) = set f - {x}" by auto
  with Cons.IH [of "remove1 x f"] show ?case by auto
qed simp

lemma excluded_iff:
  "g \<in> set (map tl (filter (\<lambda>h. h \<noteq> [] \<and> hd h = c) f)) \<longleftrightarrow> c # g \<in> set f"
proof (induction f)
  case (Cons h f)
  then show ?case by (cases h) auto
qed simp

lemma resolve_negated:
  assumes "isNegated f"
  shows "set (resolve f allFields) = {g \<in> set allFields. CHR ''-'' # g \<notin> set f}"
proof -
  have "resolve f allFields =
      filter (\<lambda>g. g \<notin> set (map tl (filter (\<lambda>h. h \<noteq> [] \<and> hd h = CHR ''-'') f))) allFields"
    using assms by (simp add: resolve_def Let_def)
  then show ?thesis by (simp only: excluded_iff set_filter)
qed

text \<open>All fields of a list name a field or all are negated: the lists whose meaning is defined.\<close>

definition all_negated :: "fields \<Rightarrow> bool" where
  "all_negated f \<longleftrightarrow> (\<forall>g\<in>set f. g \<noteq> [] \<and> hd g = CHR ''-'')"

text \<open>after \<^verbatim>\<open>Add\<close> the resolved list holds the added fields besides what it held: for an
  affirmative list whatever \<open>allFields\<close> is, for a negated list without duplicates the fields
  among \<open>allFields\<close>, unless the last exclusion goes and the list becomes empty, when all are meant.\<close>

theorem add_then_resolve:
  assumes "f \<noteq> []" and "distinct f" and "isNegated f \<Longrightarrow> all_negated f"
  shows "set (resolve (fst (fields_add fs f)) allFields) =
    (if isNegated f then set (resolve f allFields) \<union> {g \<in> set fs. g \<in> set allFields}
     else set (resolve f allFields) \<union> set fs)"
proof (cases "isNegated f")
  case True
  let ?f' = "fold remove1 (map (Cons (CHR ''-'')) fs) f"
  have f': "set ?f' = set f - set (map (Cons (CHR ''-'')) fs)"
    using fold_remove1_distinct [OF assms(2)] by blast
  have "set (resolve ?f' allFields) = {g \<in> set allFields. CHR ''-'' # g \<notin> set ?f'}"
  proof (cases "?f' = []")
    case True
    then show ?thesis by (simp add: resolve_def)
  next
    case False
    then have "hd ?f' \<in> set f" using f' hd_in_set by blast
    then have "isNegated ?f'"
      using assms(3) [OF True] False unfolding isNegated_def all_negated_def by blast
    then show ?thesis by (rule resolve_negated)
  qed
  then show ?thesis
    by (simp only: fields_add_negated [OF True] f' resolve_negated [OF True] if_P [OF True]) auto
next
  case False
  obtain g where g: "add_missing fs f = f @ g" using add_missing_prefix by blast
  then have "\<not> isNegated (add_missing fs f)"
    using False assms(1) by (auto simp: isNegated_def)
  then show ?thesis
    using False assms(1) g add_missing_set [of fs f] by (simp add: fields_add_def resolve_def)
qed

theorem add_then_resolve_witness:
  "set (resolve (fst (fields_add [''ID''] [''-ID'', ''-Name''])) [''ID'', ''Name'', ''Age'']) = {''ID'', ''Age''}"
proof -
  have "set (resolve (fst (fields_add [''ID''] [''-ID'', ''-Name''])) [''ID'', ''Name'', ''Age'']) =
    (if isNegated [''-ID'', ''-Name'']
     then set (resolve [''-ID'', ''-Name''] [''ID'', ''Name'', ''Age'']) \<union>
       {g \<in> set [''ID'']. g \<in> set [''ID'', ''Name'', ''Age'']}
     else set (resolve [''-ID'', ''-Name''] [''ID'', ''Name'', ''Age'']) \<union> set [''ID''])"
    by (rule add_then_resolve) (simp_all add: all_negated_def)
  also have "\<dots> = {''ID'', ''Age''}"
    by (auto simp: isNegated_def resolve_def)
  finally show ?thesis .
qed

text \<open>\<^verbatim>\<open>Add\<close> on a negated list writes into the caller's array: a caller that holds the same
  slice sees its first exclusion gone and the last one twice.\<close>

theorem add_clobbers_caller:
  "fields_add [''ID''] [''-ID'', ''-Name'', ''-Age''] =
     ([''-Name'', ''-Age''], [''-Name'', ''-Age'', ''-Age''])"
  by (simp add: fields_add_def isNegated_def view_def cut_def Let_def)

section \<open>FindAll\<close>

text \<open>The callback runs on each row of a page until it fails.\<close>

fun each_row :: "('s \<Rightarrow> 'a \<Rightarrow> 's \<times> error option) \<Rightarrow> nat \<Rightarrow> nat \<Rightarrow> 's \<Rightarrow> 'a list \<Rightarrow> 's \<times> error option" where
  "each_row cb page i s [] = (s, None)"
| "each_row cb page i s (x # xs) =
     (case cb s x of
        (s', None) \<Rightarrow> each_row cb page (Suc i) s' xs
      | (s', Some e) \<Rightarrow>
          (s', Some (wrap_err (''from callback all on page '' @ nat_str page @ '', record '' @ nat_str i) e)))"

partial_function (option) findAll_loop ::
  "('s \<Rightarrow> int \<Rightarrow> 'a list res) \<Rightarrow> int \<Rightarrow> ('s \<Rightarrow> 'a \<Rightarrow> 's \<times> error option) \<Rightarrow> int \<Rightarrow> nat \<Rightarrow> 's \<Rightarrow>
   ('s \<times> error option) option" where
  "findAll_loop find_page pageSize cb offset page s =
     (case find_page s offset of
        Inl e \<Rightarrow> Some (s, Some (wrap_err (''finding all on page '' @ nat_str page) e))
      | Inr rows \<Rightarrow>
          (case each_row cb page 0 s rows of
             (s', Some e) \<Rightarrow> Some (s', Some e)
           | (s', None) \<Rightarrow>
               if int (length rows) < pageSize then Some (s', None)
               else findAll_loop find_page pageSize cb (offset + pageSize) (Suc page) s'))"

text \<open>\<^verbatim>\<open>make([]*T, 0, pageSize)\<close> panics for a negative page size. The page a repository returns
  depends on the offset and on the capacity of the slice, the page size.\<close>

definition findAll ::
  "('s \<Rightarrow> int \<Rightarrow> int \<Rightarrow> 'a list res) \<Rightarrow> int \<Rightarrow> ('s \<Rightarrow> 'a \<Rightarrow> 's \<times> error option) \<Rightarrow> 's \<Rightarrow>
   ('s \<times> error option) option" where
  "findAll find_rows pageSize cb s =
     (if pageSize < 0 then Some (s, Some (Panic ''runtime error: makeslice: cap out of range''))
      else findAll_loop (\<lambda>s. find_rows s pageSize) pageSize cb 0 0 s)"

text \<open>A repository whose rows do not change while they are read.\<close>

locale paged_rows =
  fixes find_rows :: "'s \<Rightarrow> int \<Rightarrow> int \<Rightarrow> 'a list res" and rows :: "'a list"
  assumes page: "0 \<le> cap \<Longrightarrow> 0 \<le> offset \<Longrightarrow> find_rows s cap offset = Inr (take (nat cap) (drop (nat offset) rows))"
begin

lemma each_row_ok:
  "(\<And>s x. cb s x = (g s x, None)) \<Longrightarrow> each_row cb p i s xs = (foldl g s xs, None)"
  by (induction xs arbitrary: s i) auto

lemma findAll_loop_ok:
  assumes cb: "\<And>s x. cb s x = (g s x, None)" and n: "0 < n"
  shows "findAll_loop (\<lambda>s. find_rows s (int n)) (int n) cb (int off) p s = Some (foldl g s (drop off rows), None)"
proof (induction "length rows - off" arbitrary: off p s rule: less_induct)
  case less
  let ?pg = "take n (drop off rows)"
  have pg: "find_rows s (int n) (int off) = Inr ?pg" by (simp add: page)
  have split: "foldl g s (drop off rows) = foldl g (foldl g s ?pg) (drop (off + n) rows)"
    by (metis append_take_drop_id foldl_append drop_drop add.commute)
  show ?case
  proof (cases "length ?pg < n")
    case True
    then have "length rows - off < n" by auto
    moreover from this have "drop (off + n) rows = []" by auto
    ultimately show ?thesis using split
      by (subst findAll_loop.simps) (simp add: pg each_row_ok [OF cb] del: drop_eq_Nil)
  next
    case False
    then have "off < length rows" "off + n \<le> length rows" using n by auto
    then have "length rows - (off + n) < length rows - off" using n by simp
    from less [OF this] have
      "findAll_loop (\<lambda>s. find_rows s (int n)) (int n) cb (int (off + n)) (Suc p) (foldl g s ?pg) =
        Some (foldl g (foldl g s ?pg) (drop (off + n) rows), None)" .
    with False split show ?thesis
      by (subst findAll_loop.simps) (simp add: pg each_row_ok [OF cb])
  qed
qed

lemma findAll_visits_all:
  "(\<And>s x. cb s x = (g s x, None)) \<Longrightarrow> 0 < n \<Longrightarrow> findAll find_rows n cb s = Some (foldl g s rows, None)"
  using findAll_loop_ok [of cb g "nat n" 0 0 s] by (simp add: findAll_def)

end

text \<open>A repository over a fixed list of rows pages as the contract says.\<close>

definition list_rows :: "'a list \<Rightarrow> 's \<Rightarrow> int \<Rightarrow> int \<Rightarrow> 'a list res" where
  "list_rows rows s cap offset = Inr (take (nat cap) (drop (nat offset) rows))"

interpretation list_rows: paged_rows "list_rows rows" rows
  by unfold_locales (simp add: list_rows_def)

lemma findAll_zero_diverges:
  assumes "\<And>s off. find_rows s off = Inr []"
  shows "findAll_loop find_rows 0 cb off p s = None"
proof -
  have False if r: "findAll_loop find_rows 0 cb off p s = Some r" for r
  proof -
    have "find_rows = (\<lambda>s off. Inr []) \<longrightarrow> (0 :: int) \<noteq> 0"
    proof (rule findAll_loop.raw_induct [where P = "\<lambda>f n cb off p s r. f = (\<lambda>s off. Inr []) \<longrightarrow> n \<noteq> 0", OF _ r])
      fix loop and f :: "'a \<Rightarrow> int \<Rightarrow> 'b list res" and n :: int and cb off p s r
      assume IH: "\<And>f n cb off p s r. loop f n cb off p s = Some r \<Longrightarrow> f = (\<lambda>s off. Inr []) \<longrightarrow> n \<noteq> 0"
        and eq: "(case f s off of
           Inl e \<Rightarrow> Some (s, Some (wrap_err (''finding all on page '' @ nat_str p) e))
         | Inr rows \<Rightarrow>
             (case each_row cb p 0 s rows of
                (s', Some e) \<Rightarrow> Some (s', Some e)
              | (s', None) \<Rightarrow> if int (length rows) < n then Some (s', None)
                  else loop f n cb (off + n) (Suc p) s')) = Some r"
      show "f = (\<lambda>s off. Inr []) \<longrightarrow> n \<noteq> 0"
        using IH [of f n cb "off + n" "Suc p" s r] eq by auto
    qed
    moreover have "find_rows = (\<lambda>s off. Inr [])" using assms by auto
    ultimately show False by simp
  qed
  then show ?thesis by (cases "findAll_loop find_rows 0 cb off p s") auto
qed



text \<open>with page size zero every page is empty and full at once: \<^verbatim>\<open>FindAll\<close> never returns.\<close>

theorem findAll_page_size_zero: "findAll (list_rows rows) 0 cb s = None"
  by (simp add: findAll_def list_rows_def findAll_zero_diverges)

section \<open>GetChunked\<close>

partial_function (option) getChunked_loop ::
  "('s \<Rightarrow> 'a list \<Rightarrow> 's \<times> error option) \<Rightarrow> 'a list \<Rightarrow> int \<Rightarrow> int \<Rightarrow> 's \<Rightarrow> ('s \<times> error option) option" where
  "getChunked_loop get_list xs pageSize start s =
     (if int (length xs) \<le> start then Some (s, None)
      else let stop = min (start + pageSize) (int (length xs)) in
        if start < 0 \<or> stop < start then Some (s, Some (Panic ''runtime error: slice bounds out of range''))
        else (case get_list s (take (nat (stop - start)) (drop (nat start) xs)) of
                (s', Some e) \<Rightarrow>
                  Some (s', Some (wrap_err (''getting chunked at index '' @ int_str start @ ''-'' @ int_str stop @
                    '' out of '' @ nat_str (length xs)) e))
              | (s', None) \<Rightarrow> getChunked_loop get_list xs pageSize (start + pageSize) s'))"

definition getChunked ::
  "('s \<Rightarrow> 'a list \<Rightarrow> 's \<times> error option) \<Rightarrow> 'a list \<Rightarrow> int \<Rightarrow> 's \<Rightarrow> ('s \<times> error option) option" where
  "getChunked get_list xs pageSize s =
     (if length xs = 0 then Some (s, None) else getChunked_loop get_list xs pageSize 0 s)"

text \<open>The chunks of a list: its successive segments of \<open>n\<close> elements.\<close>

fun chunks :: "nat \<Rightarrow> 'a list \<Rightarrow> 'a list list" where
  "chunks n [] = []"
| "chunks n (x # xs) = (x # take (n - 1) xs) # chunks n (drop (n - 1) xs)"

lemma concat_chunks: "concat (chunks n xs) = xs"
  by (induction n xs rule: chunks.induct) auto

lemma chunks_bounds: "0 < n \<Longrightarrow> c \<in> set (chunks n xs) \<Longrightarrow> c \<noteq> [] \<and> length c \<le> n"
  by (induction n xs rule: chunks.induct) auto

lemma chunks_unfold: "0 < n \<Longrightarrow> xs \<noteq> [] \<Longrightarrow> chunks n xs = take n xs # chunks n (drop n xs)"
  by (cases xs; cases n) auto

lemma getChunked_loop_ok:
  assumes get: "\<And>s c. get_list s c = (g s c, None)" and n: "0 < n"
  shows "getChunked_loop get_list xs (int n) (int k) s = Some (foldl g s (chunks n (drop k xs)), None)"
proof (induction "length xs - k" arbitrary: k s rule: less_induct)
  case less
  show ?case
  proof (cases "length xs \<le> k")
    case True
    then show ?thesis by (subst getChunked_loop.simps) simp
  next
    case False
    let ?c = "take n (drop k xs)"
    define stop where "stop = min (int k + int n) (int (length xs))"
    have ge: "int k \<le> stop" "\<not> int (length xs) \<le> int k" using False by (auto simp: stop_def)
    have c: "take (nat (stop - int k)) (drop k xs) = ?c"
    proof (cases "k + n \<le> length xs")
      case True
      then have "stop - int k = int n" by (simp add: stop_def)
      then show ?thesis by simp
    next
      case f: False
      then have "stop - int k = int (length xs - k)" using False by (simp add: stop_def)
      with f show ?thesis by simp
    qed
    have "length xs - (k + n) < length xs - k" using False n by simp
    from less [OF this] have
      "getChunked_loop get_list xs (int n) (int (k + n)) (g s ?c) =
        Some (foldl g (g s ?c) (chunks n (drop (k + n) xs)), None)" .
    moreover have "chunks n (drop k xs) = ?c # chunks n (drop (k + n) xs)"
      using chunks_unfold [OF n, of "drop k xs"] False by (simp add: add.commute)
    moreover have "getChunked_loop get_list xs (int n) (int k) s =
        getChunked_loop get_list xs (int n) (int (k + n)) (g s ?c)"
      unfolding getChunked_loop.simps [of _ _ _ "int k"] Let_def stop_def [symmetric]
      using ge c by (simp add: get)
    ultimately show ?thesis by simp
  qed
qed



end
