(* ===== verification/Zsql.thy ===== *)
theory Zsql
  imports Zelement
begin

text \<open>
  Package \<^verbatim>\<open>go/zsql\<close> (\<^verbatim>\<open>zsql.go\<close>) and the drivers \<^verbatim>\<open>zmysql\<close> and \<^verbatim>\<open>zsqlite3\<close>. The interface
  \<^verbatim>\<open>Driver\<close> is the record \<open>driver\<close>; what the query builder relies on is the locale
  \<open>sql_driver\<close>, interpreted for both drivers of the repository. A connection or transaction is
  the record of its operations over a database state \<open>'s\<close>; the helpers \<^verbatim>\<open>Begin\<close>, \<^verbatim>\<open>Query\<close> and
  \<^verbatim>\<open>Exec\<close> thread that state through every call they make.
\<close>

section \<open>Drivers\<close>

record driver =
  d_name :: string
  d_escape_table :: "string \<Rightarrow> string"
  d_escape_column :: "string \<Rightarrow> string"
  d_escape_table_column :: "string \<Rightarrow> string \<Rightarrow> string"
  d_null_safe_eq :: string
  d_escape_fulltext :: "string \<Rightarrow> string"
  d_prepare_method :: "string \<Rightarrow> string option"
  d_is_conflict :: "error \<Rightarrow> bool"

text \<open>\<^verbatim>\<open>EscapeString\<close>, which both driver packages have: byte 26 is written as \<^verbatim>\<open>\Z\<close>.\<close>

definition escape_special :: "char set" where
  "escape_special = {CHR 0x5C, CHR 0x00, CHR 0x0A, CHR 0x0D, CHR 0x27, CHR 0x22, CHR 0x60}"

fun escapeString :: "string \<Rightarrow> string" where
  "escapeString [] = []"
| "escapeString (c # s) =
     (if c \<in> escape_special then CHR 0x5C # c # escapeString s
      else if c = CHR 0x1A then CHR 0x5C # CHR ''Z'' # escapeString s
      else c # escapeString s)"

subsection \<open>MySQL\<close>

definition mysql_escape_ident :: "string \<Rightarrow> string" where
  "mysql_escape_ident t = ''`'' @ replace_char t CHR 0x60 [CHR 0x5C, CHR 0x60] @ ''`''"

definition mysql_escape_table_column :: "string \<Rightarrow> string \<Rightarrow> string" where
  "mysql_escape_table_column t c = mysql_escape_ident t @ ''.'' @ mysql_escape_ident c"

definition mysql_prepare_method :: "string \<Rightarrow> string option" where
  "mysql_prepare_method m =
     (if m = Match then Some ''MATCH(%s) AGAINST(? IN BOOLEAN MODE)''
      else if m = Contains then Some ''INSTR(%s, %s) > 0''
      else None)"

text \<open>\<^verbatim>\<open>errors.As(err, &mysqlErr) && mysqlErr.Number == 1062\<close>: an error of the server is the sentinel
  of its number.\<close>

definition mysql_driver :: driver where
  "mysql_driver =
     \<lparr>d_name = ''mysql'', d_escape_table = mysql_escape_ident, d_escape_column = mysql_escape_ident,
      d_escape_table_column = mysql_escape_table_column, d_null_safe_eq = ''<=>'',
      d_escape_fulltext = (\<lambda>s. [CHR 0x22] @ escapeString s @ [CHR 0x22]),
      d_prepare_method = mysql_prepare_method, d_is_conflict = is_sentinel ''mysql:1062''\<rparr>"

subsection \<open>SQLite\<close>

definition sqlite3_escape_ident :: "string \<Rightarrow> string" where
  "sqlite3_escape_ident t = [CHR 0x22] @ replace_char t CHR 0x22 [CHR 0x5C, CHR 0x22] @ [CHR 0x22]"

definition sqlite3_escape_table_column :: "string \<Rightarrow> string \<Rightarrow> string" where
  "sqlite3_escape_table_column t c = sqlite3_escape_ident t @ ''.'' @ sqlite3_escape_ident c"

definition sqlite3_prepare_method :: "string \<Rightarrow> string option" where
  "sqlite3_prepare_method m = (if m = Contains then Some ''INSTR(%s, %s) > 0'' else None)"

fun sqlite3_EscapeString :: "string \<Rightarrow> string" where
  "sqlite3_EscapeString [] = []"
| "sqlite3_EscapeString (c # s) =
     (if c \<in> {CHR 0x5C, CHR 0x00, CHR 0x0A, CHR 0x0D, CHR 0x27, CHR 0x22, CHR 0x60} then [CHR 0x5C, c]
      else if c = CHR 0x1A then [CHR 0x5C, CHR ''Z'']
      else [c]) @ sqlite3_EscapeString s"

lemma sqlite3_escapes_alike [simp]: "sqlite3_EscapeString = escapeString"
proof
  show "sqlite3_EscapeString s = escapeString s" for s by (induction s) (auto simp: escape_special_def)
qed

definition sqlite3_driver :: driver where
  "sqlite3_driver =
     \<lparr>d_name = ''sqlite3'', d_escape_table = sqlite3_escape_ident, d_escape_column = sqlite3_escape_ident,
      d_escape_table_column = sqlite3_escape_table_column, d_null_safe_eq = ''IS'',
      d_escape_fulltext = sqlite3_EscapeString,
      d_prepare_method = sqlite3_prepare_method, d_is_conflict = is_sentinel ''sqlite3:19''\<rparr>"

lemmas driver_defs = mysql_driver_def sqlite3_driver_def mysql_escape_ident_def
  mysql_escape_table_column_def mysql_prepare_method_def sqlite3_escape_ident_def
  sqlite3_escape_table_column_def sqlite3_prepare_method_def

subsection \<open>What the query builder relies on\<close>

text \<open>Escaping is compositional and never adds or removes a placeholder.\<close>

abbreviation placeholders :: "string \<Rightarrow> nat" where
  "placeholders s \<equiv> count_char CHR ''?'' s"

locale sql_driver =
  fixes d :: driver
  assumes escape_tc: "d_escape_table_column d t c = d_escape_table d t @ ''.'' @ d_escape_column d c"
    and escape_table_q: "placeholders (d_escape_table d t) = placeholders t"
    and escape_column_q: "placeholders (d_escape_column d c) = placeholders c"
    and null_safe_q: "placeholders (d_null_safe_eq d) = 0"
begin

lemma escape_tc_q: "placeholders (d_escape_table_column d t c) = placeholders t + placeholders c"
  by (simp add: escape_tc escape_table_q escape_column_q)

end

text \<open>A driver none of whose method templates holds a placeholder of its own.\<close>

locale plain_methods = sql_driver +
  assumes template_q: "d_prepare_method d m = Some t \<Longrightarrow> placeholders t = 0"

lemma replace_char_q:
  "placeholders new = 0 \<Longrightarrow> c \<noteq> CHR ''?'' \<Longrightarrow> placeholders (replace_char s c new) = placeholders s"
  by (rule count_char_replace_char) auto

interpretation mysql: sql_driver mysql_driver
  by unfold_locales (simp_all add: driver_defs replace_char_q)

interpretation sqlite3: plain_methods sqlite3_driver
  by unfold_locales (auto simp: driver_defs replace_char_q split: if_splits)

subsection \<open>Escaped strings and identifiers\<close>

text \<open>Reading back a string literal with backslash escapes.\<close>

fun unescapeString :: "string \<Rightarrow> string" where
  "unescapeString [] = []"
| "unescapeString [c] = [c]"
| "unescapeString (c # d # s) =
     (if c = CHR 0x5C then (if d = CHR ''Z'' then CHR 0x1A else d) # unescapeString s
      else c # unescapeString (d # s))"

lemma unescape_Cons_plain: "c \<noteq> CHR 0x5C \<Longrightarrow> unescapeString (c # s) = c # unescapeString s"
  by (cases s) auto

lemma unescape_escape: "unescapeString (escapeString s) = s"
  by (induction s rule: escapeString.induct) (auto simp: escape_special_def unescape_Cons_plain)

text \<open>Where an unescaped byte of a set first occurs in a literal, if it does.\<close>

fun unescaped_in :: "char set \<Rightarrow> string \<Rightarrow> bool" where
  "unescaped_in Q [] = False"
| "unescaped_in Q [c] = (c \<in> Q)"
| "unescaped_in Q (c # d # s) =
     (if c = CHR 0x5C then unescaped_in Q s else c \<in> Q \<or> unescaped_in Q (d # s))"

lemma unescaped_Cons_plain: "c \<noteq> CHR 0x5C \<Longrightarrow> unescaped_in Q (c # s) = (c \<in> Q \<or> unescaped_in Q s)"
  by (cases s) auto

text \<open>\<^verbatim>\<open>EscapeString\<close> loses nothing and leaves no quote, backtick or line break unescaped, so
  the text between two quotes reads back as the original string.\<close>

theorem escapeString_roundtrip:
  "unescapeString (escapeString s) = s \<and>
   \<not> unescaped_in {CHR 0x27, CHR 0x22, CHR 0x60, CHR 0x0A, CHR 0x0D, CHR 0x00} (escapeString s)"
proof
  show "\<not> unescaped_in {CHR 0x27, CHR 0x22, CHR 0x60, CHR 0x0A, CHR 0x0D, CHR 0x00} (escapeString s)"
    by (induction s rule: escapeString.induct) (auto simp: escape_special_def unescaped_Cons_plain)
qed (rule unescape_escape)

text \<open>Reading a quoted identifier as SQL does: the quote is closed by a quote that is not doubled;
  a backslash is an ordinary byte. The result is the name and the rest of the text.\<close>

fun read_ident :: "char \<Rightarrow> string \<Rightarrow> string \<Rightarrow> (string \<times> string) option" where
  "read_ident q acc [] = None"
| "read_ident q acc [c] = (if c = q then Some (acc, []) else None)"
| "read_ident q acc (c # d # s) =
     (if c = q then (if d = q then read_ident q (acc @ [q]) s else Some (acc, d # s))
      else read_ident q (acc @ [c]) (d # s))"

fun read_quoted :: "char \<Rightarrow> string \<Rightarrow> (string \<times> string) option" where
  "read_quoted q [] = None"
| "read_quoted q (c # s) = (if c = q then read_ident q [] s else None)"

lemma read_ident_plain:
  "q \<notin> set t \<Longrightarrow> rest = [] \<or> hd rest \<noteq> q \<Longrightarrow> read_ident q acc (t @ q # rest) = Some (acc @ t, rest)"
proof (induction t arbitrary: acc)
  case Nil
  then show ?case by (cases rest) auto
next
  case (Cons c t)
  then show ?case by (cases "t @ q # rest") auto
qed

lemma replace_char_plain: "c \<notin> set t \<Longrightarrow> replace_char t c new = t"
  by (induction t) (auto simp: replace_char_def)

lemma read_ident_backslash:
  assumes "q \<notin> set u" "q \<noteq> CHR 0x5C" "v \<noteq> []" "hd v \<noteq> q"
  shows "read_ident q acc (u @ CHR 0x5C # q # v) = Some (acc @ u @ [CHR 0x5C], v)"
  using read_ident_plain [of q "u @ [CHR 0x5C]" v acc] assms by simp

text \<open>Both drivers quote an identifier so that it reads back, unless it holds the quote itself:
  the backslash they put before it does not protect it, and the name ends there.\<close>

theorem escaped_ident_reads_back:
  "(CHR 0x60 \<notin> set t \<longrightarrow> read_quoted CHR 0x60 (d_escape_table mysql_driver t) = Some (t, [])) \<and>
   (CHR 0x22 \<notin> set t \<longrightarrow> read_quoted CHR 0x22 (d_escape_table sqlite3_driver t) = Some (t, [])) \<and>
   read_quoted CHR 0x60 (d_escape_table mysql_driver [CHR ''a'', CHR 0x60, CHR ''b'']) = Some ([CHR ''a'', CHR 0x5C], [CHR ''b'', CHR 0x60])"
  using read_ident_plain [of "CHR 0x60" t "[]" "[]"] read_ident_plain [of "CHR 0x22" t "[]" "[]"]
  by (simp add: driver_defs replace_char_plain) (simp add: replace_char_def)

theorem escaped_ident_reads_back_witness:
  "read_quoted CHR 0x60 (d_escape_table mysql_driver ''users'') = Some (''users'', [])"
proof -
  have "CHR 0x60 \<notin> set ''users''" by simp
  then show ?thesis using escaped_ident_reads_back [of "''users''"] by blast
qed

section \<open>Options\<close>

type_synonym 'v sql_options = "(string, 'v) gomap"

definition options_merge :: "'v sql_options \<Rightarrow> 'v sql_options \<Rightarrow> 'v sql_options" where
  "options_merge self opts = map_merge (map_merge [] self) opts"

definition toStringMapString :: "('v \<Rightarrow> string) \<Rightarrow> 'v sql_options \<Rightarrow> (string, string) gomap" where
  "toStringMapString sprint self = map_merge [] (map (\<lambda>(k, v). (k, sprint v)) self)"

lemma options_merge_lookup:
  "map_wf self \<Longrightarrow> map_wf opts \<Longrightarrow> map_of (options_merge self opts) = map_of self ++ map_of opts"
  by (simp add: options_merge_def map_of_merge)

section \<open>Transactions\<close>

text \<open>A database connection: starting a transaction, running statements, ending it.\<close>

record 's tx_ops =
  tx_begin :: "'s \<Rightarrow> 's \<times> unit res"
  tx_commit :: "'s \<Rightarrow> 's \<times> unit res"
  tx_rollback :: "'s \<Rightarrow> 's \<times> unit res"

text \<open>\<^verbatim>\<open>zsql.Begin\<close>. A panic of the callback leaves the function at once: nothing ends the
  transaction.\<close>

definition with_tx :: "'s tx_ops \<Rightarrow> ('s \<Rightarrow> 's \<times> error option) \<Rightarrow> 's \<Rightarrow> 's \<times> unit res" where
  "with_tx db cb s =
     (let (s1, r1) = tx_begin db s in
      case r1 of
        Inl e \<Rightarrow> (s1, Inl (wrap_err ''starting transaction'' e))
      | Inr _ \<Rightarrow>
          (let (s2, r2) = cb s1 in
           case r2 of
             Some e \<Rightarrow>
               (if is_panic e then (s2, Inl e)
                else let (s3, r3) = tx_rollback db s2 in
                  case r3 of
                    Inl e' \<Rightarrow>
                      (s3, Inl (wrap_err (''rolling back transaction after error: '' @ error_text e') e))
                  | Inr _ \<Rightarrow> (s3, Inl (wrap_err ''transaction rolled back'' e)))
           | None \<Rightarrow>
               (let (s3, r3) = tx_commit db s2 in
                case r3 of
                  Inl e \<Rightarrow> (s3, Inl (wrap_err ''commiting transaction'' e))
                | Inr _ \<Rightarrow> (s3, Inr ()))))"

text \<open>A transactional database: what is durable, and what the open transaction works on.\<close>

locale tx_store =
  fixes db :: "'s tx_ops" and durable :: "'s \<Rightarrow> 'd" and working :: "'s \<Rightarrow> 'd option"
  assumes begin_ok: "snd (tx_begin db s) = Inr u \<Longrightarrow> working s = None \<Longrightarrow>
        durable (fst (tx_begin db s)) = durable s \<and> working (fst (tx_begin db s)) = Some (durable s)"
    and begin_fails: "snd (tx_begin db s) = Inl e \<Longrightarrow> durable (fst (tx_begin db s)) = durable s"
    and commit_ok: "snd (tx_commit db s) = Inr u \<Longrightarrow> working s = Some w \<Longrightarrow>
        durable (fst (tx_commit db s)) = w \<and> working (fst (tx_commit db s)) = None"
    and rollback_any: "durable (fst (tx_rollback db s)) = durable s"
    and rollback_ok: "snd (tx_rollback db s) = Inr u \<Longrightarrow> working (fst (tx_rollback db s)) = None"
begin

text \<open>A callback works inside the transaction.\<close>

definition in_tx :: "('s \<Rightarrow> 's \<times> error option) \<Rightarrow> bool" where
  "in_tx cb \<longleftrightarrow> (\<forall>s. durable (fst (cb s)) = durable s)"

lemma with_tx_ok:
  assumes "with_tx db cb s = (s', Inr ())" and "working s = None" and "in_tx cb"
  shows "\<exists>s1 s2. durable s1 = durable s \<and> working s1 = Some (durable s) \<and> cb s1 = (s2, None) \<and>
    (\<forall>w. working s2 = Some w \<longrightarrow> durable s' = w \<and> working s' = None)"
proof -
  obtain s1 where b: "tx_begin db s = (s1, Inr ())"
    using assms(1) by (cases "tx_begin db s") (auto simp: with_tx_def split: sum.splits)
  obtain s2 where c: "cb s1 = (s2, None)"
    using assms(1) b by (cases "cb s1") (auto simp: with_tx_def Let_def split: option.splits sum.splits prod.splits if_splits)
  have "tx_commit db s2 = (s', Inr ())"
    using assms(1) b c by (cases "tx_commit db s2") (auto simp: with_tx_def split: sum.splits)
  then show ?thesis
    using b c begin_ok [of s "()"] commit_ok [of s2 "()"] assms(2) by (intro exI [of _ s1] exI [of _ s2]) auto
qed

lemma with_tx_error:
  assumes "with_tx db cb s = (s', Inl e)" and "in_tx cb" and "working s = None"
    and commit_atomic: "\<And>s e. snd (tx_commit db s) = Inl e \<Longrightarrow> durable (fst (tx_commit db s)) = durable s"
  shows "durable s' = durable s"
proof -
  obtain s1 r1 where b: "tx_begin db s = (s1, r1)" by (cases "tx_begin db s")
  have s1: "durable s1 = durable s"
    using b begin_ok [of s "()"] begin_fails [of s] assms(3) by (cases r1) auto
  obtain s2 r2 where c: "cb s1 = (s2, r2)" by (cases "cb s1")
  then have s2: "durable s2 = durable s" using s1 assms(2) by (metis fst_conv in_tx_def)
  show ?thesis
    using assms(1) b c s1 s2 rollback_any [of s2] commit_atomic [of s2]
    by (cases "tx_rollback db s2"; cases "tx_commit db s2")
      (auto simp: with_tx_def Let_def split: sum.splits option.splits if_splits)
qed

end

text \<open>A store of one value with a working copy meets the laws.\<close>

definition copy_db :: "('d \<times> 'd option) tx_ops" where
  "copy_db =
     \<lparr>tx_begin = \<lambda>s. ((fst s, Some (fst s)), Inr ()),
      tx_commit = \<lambda>s. ((case snd s of None \<Rightarrow> fst s | Some w \<Rightarrow> w, None), Inr ()),
      tx_rollback = \<lambda>s. ((fst s, None), Inr ())\<rparr>"

interpretation copy_db: tx_store copy_db fst snd
  by unfold_locales (auto simp: copy_db_def)

section \<open>Query and Exec\<close>

text \<open>\<^verbatim>\<open>zsql.Query\<close>: the callback runs on each row; the error of closing the rows is assigned after
  the result is fixed and is lost.\<close>

fun query_rows :: "('s \<Rightarrow> 'r \<Rightarrow> 's \<times> error option) \<Rightarrow> 's \<Rightarrow> 'r list \<Rightarrow> bool \<Rightarrow> 's \<times> error option \<times> bool" where
  "query_rows cb s [] found = (s, None, found)"
| "query_rows cb s (r # rs) found =
     (case cb s r of
        (s', Some e) \<Rightarrow> (s', Some (wrap_err ''scanning row'' e), True)
      | (s', None) \<Rightarrow> query_rows cb s' rs True)"

definition sql_query ::
  "('s \<Rightarrow> 's \<times> ('r list \<times> error option) res) \<Rightarrow> ('s \<Rightarrow> 'r \<Rightarrow> 's \<times> error option) \<Rightarrow> 's \<Rightarrow> 's \<times> bool res" where
  "sql_query run cb s =
     (let (s1, r) = run s in
      case r of
        Inl e \<Rightarrow> (s1, Inl (wrap_err ''executing query'' e))
      | Inr (rows, rows_err) \<Rightarrow>
          (case query_rows cb s1 rows False of
             (s2, Some e, found) \<Rightarrow> (s2, Inl e)
           | (s2, None, found) \<Rightarrow>
               (case rows_err of
                  Some e \<Rightarrow> (s2, Inl (wrap_err ''processing rows'' e))
                | None \<Rightarrow> (s2, Inr found))))"

text \<open>\<^verbatim>\<open>zsql.Exec\<close>: the number of affected rows and the last inserted id.\<close>

definition sql_exec :: "('s \<Rightarrow> 's \<times> (int res \<times> int res) res) \<Rightarrow> 's \<Rightarrow> 's \<times> (int \<times> int) res" where
  "sql_exec run s =
     (let (s1, r) = run s in
      (s1, bind_res (wrap_res ''executing query'' r) (\<lambda>(affected, last_id).
             bind_res (wrap_res ''getting affected rows'' affected) (\<lambda>count.
               bind_res (wrap_res ''getting last insert id'' last_id) (\<lambda>id. Inr (count, id))))))"

lemma query_rows_ok:
  "(\<And>s r. cb s r = (g s r, None)) \<Longrightarrow> query_rows cb s rs found = (foldl g s rs, None, found \<or> rs \<noteq> [])"
  by (induction rs arbitrary: s found) auto

lemma sql_query_found:
  "run s = (s1, Inr (rows, None)) \<Longrightarrow> (\<And>s r. cb s r = (g s r, None)) \<Longrightarrow>
     sql_query run cb s = (foldl g s1 rows, Inr (rows \<noteq> []))"
  by (simp add: sql_query_def query_rows_ok)


definition write_then_fail :: "int \<times> int option \<Rightarrow> (int \<times> int option) \<times> error option" where
  "write_then_fail s = ((fst s, Some 9), Some (Errorf ''constraint''))"


text \<open>A panic of the callback leaves the transaction open: neither commit nor rollback runs.\<close>

theorem with_tx_panic_leaves_open:
  assumes "tx_begin db s = (s1, Inr ())" and "cb s1 = (s2, Some (Panic p))"
  shows "with_tx db cb s = (s2, Inl (Panic p))"
  using assms by (simp add: with_tx_def)

theorem with_tx_panic_leaves_open_witness:
  "with_tx copy_db (\<lambda>s. ((fst s, Some 9), Some (Panic ''boom''))) (5 :: int, None) = ((5, Some 9), Inl (Panic ''boom''))"
  using with_tx_panic_leaves_open [of copy_db "(5, None)" "(5, Some 5)" "\<lambda>s. ((fst s, Some 9), Some (Panic ''boom''))" "(5, Some 9)" "''boom''"]
  by (simp add: copy_db_def)

end
