(* ===== verification/Zapi.thy ===== *)
theory Zapi
  imports Go_Strings Zfunc
begin

text \<open>
  Package \<^verbatim>\<open>go/zapi\<close>: routes, the tree they are mounted in, dispatch of a request, middleware and
  the writing of the response (\<^verbatim>\<open>server.go\<close>, \<^verbatim>\<open>middleware.go\<close>, \<^verbatim>\<open>request.go\<close>, \<^verbatim>\<open>response.go\<close>,
  \<^verbatim>\<open>util.go\<close>, \<^verbatim>\<open>zroute/health.go\<close>).

  \<^item> A handler returns a response, nil (\<open>None\<close>) or panics (\<open>Inl\<close>). The route stored in a request
    is never read and is left out of it.
  \<^item> A body is nil, its bytes, or a reader that fails.
  \<^item> Logging and statistics have no influence on the response and are left out.
\<close>

section \<open>Headers and messages (net/http)\<close>

type_synonym headers = "(string, string list) gomap"

text \<open>\<^verbatim>\<open>textproto.CanonicalMIMEHeaderKey\<close> for valid header names\<close>

fun canonical_from :: "bool \<Rightarrow> string \<Rightarrow> string" where
  "canonical_from up [] = []"
| "canonical_from up (c # s) = (if up then to_upper [c] else to_lower [c]) @ canonical_from (c = CHR ''-'') s"

definition canonical_key :: "string \<Rightarrow> string" where
  "canonical_key k = canonical_from True k"

definition header_values :: "headers \<Rightarrow> string \<Rightarrow> string list" where
  "header_values h k = (case map_of h (canonical_key k) of None \<Rightarrow> [] | Some vs \<Rightarrow> vs)"

definition header_get :: "headers \<Rightarrow> string \<Rightarrow> string" where
  "header_get h k = (case header_values h k of [] \<Rightarrow> [] | v # _ \<Rightarrow> v)"

definition header_add :: "string \<Rightarrow> string \<Rightarrow> headers \<Rightarrow> headers" where
  "header_add k v h = map_put (canonical_key k) (header_values h k @ [v]) h"

datatype body = NoBody | Bytes string | Broken error

record response =
  rp_status :: int
  rp_headers :: "headers option"
  rp_body :: body

record http_request =
  hr_method :: string
  hr_path :: string
  hr_scheme :: string
  hr_host :: string
  hr_remote :: string
  hr_headers :: headers
  hr_query :: "(string, string list) gomap"
  hr_body :: "string res"

record request =
  rq_http :: http_request
  rq_params :: "(string, string list) gomap"
  rq_bodyCache :: "string option"

type_synonym handle_func = "request \<Rightarrow> response option res"
type_synonym middleware = "request \<Rightarrow> handle_func \<Rightarrow> response option res"

record route =
  rt_name :: string
  rt_path :: string
  rt_methods :: "(string, handle_func) gomap"
  rt_authorize :: "handle_func option"

section \<open>Responses (response.go)\<close>

definition resp_Headers :: "response \<Rightarrow> headers" where
  "resp_Headers r = (case rp_headers r of None \<Rightarrow> [] | Some h \<Rightarrow> h)"

definition BasicResponse :: "int \<Rightarrow> headers \<Rightarrow> string \<Rightarrow> response" where
  "BasicResponse status headers content = \<lparr>rp_status = status, rp_headers = Some headers, rp_body = Bytes content\<rparr>"

definition BasicResponseReader :: "int \<Rightarrow> headers \<Rightarrow> body \<Rightarrow> response" where
  "BasicResponseReader status headers content = \<lparr>rp_status = status, rp_headers = Some headers, rp_body = content\<rparr>"

definition simple_response :: "int \<Rightarrow> response" where
  "simple_response status = \<lparr>rp_status = status, rp_headers = None, rp_body = NoBody\<rparr>"

definition Response200OK :: response where "Response200OK = simple_response 200"
definition Response400BadRequest :: response where "Response400BadRequest = simple_response 400"
definition Response401Unauthorized :: response where "Response401Unauthorized = simple_response 401"
definition Response403Forbidden :: response where "Response403Forbidden = simple_response 403"
definition Response404NotFound :: response where "Response404NotFound = simple_response 404"
definition Response405MethodNotAllowed :: response where "Response405MethodNotAllowed = simple_response 405"
definition Response500InternalServerError :: response where "Response500InternalServerError = simple_response 500"

section \<open>Requests (request.go)\<close>

fun defaultString :: "string list \<Rightarrow> string" where
  "defaultString [] = []"
| "defaultString (s # ss) = (if s \<noteq> [] then s else defaultString ss)"

record source_info =
  so_scheme :: string
  so_host :: string
  so_remote :: string
  so_root :: string

definition req_Source :: "request \<Rightarrow> source_info" where
  "req_Source r =
     (let h = rq_http r; get = header_get (hr_headers h) in
      \<lparr>so_scheme = defaultString [get ''X-Forwarded-Proto'', hr_scheme h],
       so_host = defaultString [get ''X-Forwarded-Host'', hr_host h],
       so_remote = defaultString [get ''X-Forwarded-For'', hr_remote h],
       so_root = defaultString [get ''X-Forwarded-Root'', ''/'']\<rparr>)"

definition req_Header :: "request \<Rightarrow> headers" where
  "req_Header r = hr_headers (rq_http r)"

definition req_Method :: "request \<Rightarrow> string" where
  "req_Method r = to_upper (hr_method (rq_http r))"

text \<open>\<^verbatim>\<open>Body\<close>: the result and the request with its cache. The cache is set to the empty slice before
  the body is read.\<close>

definition req_Body :: "request \<Rightarrow> string res \<times> request" where
  "req_Body r =
     (case rq_bodyCache r of
        Some b \<Rightarrow> (Inr b, r)
      | None \<Rightarrow>
          (case hr_body (rq_http r) of
             Inl e \<Rightarrow> (Inl (wrap_err ''error reading request body'' e), r\<lparr>rq_bodyCache := Some []\<rparr>)
           | Inr data \<Rightarrow> (Inr data, r\<lparr>rq_bodyCache := Some data\<rparr>)))"

definition req_Query :: "request \<Rightarrow> string \<Rightarrow> string res" where
  "req_Query r key =
     (case map_of (hr_query (rq_http r)) key of
        None \<Rightarrow> Inr []
      | Some vals \<Rightarrow> (if vals = [] then Inl (Panic ''index out of range [-1]'') else Inr (last vals)))"

definition req_Param :: "request \<Rightarrow> string \<Rightarrow> string" where
  "req_Param r p =
     (case map_of (rq_params r) p of
        None \<Rightarrow> []
      | Some vals \<Rightarrow> (if length vals = 1 then hd vals else []))"

section \<open>The route tree (server.go)\<close>

datatype handler =
  Handler (h_part: string) (h_param: "string option") (h_route: route) (h_children: "(string \<times> handler) list")

definition isParam :: "string \<Rightarrow> string option" where
  "isParam p =
     (if length p < 3 then None
      else if hd p \<noteq> CHR ''{'' \<or> last p \<noteq> CHR ''}'' then None
      else let name = butlast (tl p) in
        if list_ex (\<lambda>c. c = CHR ''{'' \<or> c = CHR ''}'') name then None else Some name)"

definition segment :: "string \<Rightarrow> string" where
  "segment part = (if isParam part = None then part else [])"

text \<open>The loop of \<^verbatim>\<open>handlerTree.add\<close> below the root, on the parts that are left.\<close>

fun add_at :: "route \<Rightarrow> string list \<Rightarrow> handler \<Rightarrow> handler res" where
  "add_at rt [] h = Inr h"
| "add_at rt [lastPart] (Handler part param r children) =
     (let k = segment lastPart in
      case map_of children k of
        Some _ \<Rightarrow> Inl (Errorf (''dynamic child already set on parent, route '' @ [CHR 0x27] @ rt_path rt @ [CHR 0x27] @
                       '' cannot be added''))
      | None \<Rightarrow> Inr (Handler part param r (map_put k (Handler k (isParam lastPart) rt []) children)))"
| "add_at rt (p # q # ps) (Handler part param r children) =
     (let k = segment p in
      case map_of children k of
        None \<Rightarrow> Inl (Errorf (''parent route for '' @ [CHR 0x27] @ rt_path rt @ [CHR 0x27] @
                  '' not found; mount parents before children''))
      | Some child \<Rightarrow>
          bind_res (add_at rt (q # ps) child) (\<lambda>child'.
            Inr (Handler part param r (map_put k child' children))))"

definition tree_add :: "handler option \<Rightarrow> route \<Rightarrow> handler option res" where
  "tree_add root rt =
     (let path = trim_char CHR ''/'' (rt_path rt) in
      if path = [] then Inr (Some (Handler [] None rt []))
      else case root of
        None \<Rightarrow> Inl (Errorf ''root route not yet mounted, mount the root route first, then children after'')
      | Some h \<Rightarrow> bind_res (add_at rt (split_on CHR ''/'' path) h) (\<lambda>h'. Inr (Some h')))"

text \<open>The walk of \<^verbatim>\<open>ServeHTTP\<close>: the routes passed, the node reached and the parameters collected,
  or \<open>None\<close> where a part matches nothing.\<close>

fun walk :: "string list \<Rightarrow> handler \<Rightarrow> route list \<Rightarrow> (string, string list) gomap \<Rightarrow>
    (route list \<times> handler \<times> (string, string list) gomap) option" where
  "walk [] current parents params = Some (parents, current, params)"
| "walk (part # parts) current parents params =
     (case (case map_of (h_children current) part of
              Some child \<Rightarrow> Some child
            | None \<Rightarrow> map_of (h_children current) []) of
        None \<Rightarrow> None
      | Some child \<Rightarrow>
          walk parts child (parents @ [h_route child])
            (case h_param child of
               None \<Rightarrow> params
             | Some param \<Rightarrow>
                 map_put param ((case map_of params param of None \<Rightarrow> [] | Some vs \<Rightarrow> vs) @ [part]) params))"

section \<open>Server\<close>

record server =
  sv_root :: "handler option"
  sv_middleware :: "middleware list"
  sv_optionsRequest :: handle_func
  sv_methodNotAllowed :: handle_func
  sv_notFound :: response
  sv_internalServerError :: response

definition mount :: "handler option \<Rightarrow> route \<Rightarrow> handler option res" where
  "mount root rt = wrap_res ''mounting route'' (tree_add root rt)"

text \<open>\<^verbatim>\<open>NewServer\<close>; an option is a function on the server.\<close>

definition NewServer :: "route list \<Rightarrow> (server \<Rightarrow> server) list \<Rightarrow> server res" where
  "NewServer routes options =
     bind_res (wrap_res ''error mounting route(s)'' (fold_res mount None routes)) (\<lambda>root.
       Inr (fold (\<lambda>opt s. opt s) options
         \<lparr>sv_root = root, sv_middleware = [],
          sv_optionsRequest = (\<lambda>req. Inr (Some Response405MethodNotAllowed)),
          sv_methodNotAllowed = (\<lambda>req. Inr (Some Response405MethodNotAllowed)),
          sv_notFound = Response404NotFound,
          sv_internalServerError = Response500InternalServerError\<rparr>))"

definition ServerOptionDefaultOptionsRequest :: "handle_func \<Rightarrow> server \<Rightarrow> server" where
  "ServerOptionDefaultOptionsRequest f s = s\<lparr>sv_optionsRequest := f\<rparr>"

definition AddMiddleware :: "server \<Rightarrow> middleware \<Rightarrow> server" where
  "AddMiddleware s m = s\<lparr>sv_middleware := sv_middleware s @ [m]\<rparr>"

definition middlewareChain :: "middleware list \<Rightarrow> handle_func \<Rightarrow> handle_func" where
  "middlewareChain ms handle =
     (let reversed = fold (\<lambda>m acc. [m] @ acc) ms [];
          target = fold (\<lambda>m next. (\<lambda>req. m req next)) reversed handle
      in (\<lambda>req. target req))"

text \<open>Every authorizing route on the path is asked; a refusal replaces the handler.\<close>

fun authorize_all :: "route list \<Rightarrow> request \<Rightarrow> handle_func \<Rightarrow> handle_func res" where
  "authorize_all [] req handle = Inr handle"
| "authorize_all (rt # rts) req handle =
     (case rt_authorize rt of
        None \<Rightarrow> authorize_all rts req handle
      | Some auth \<Rightarrow>
          bind_res (auth req) (\<lambda>authResp.
            authorize_all rts req (case authResp of None \<Rightarrow> handle | Some r \<Rightarrow> (\<lambda>_. Inr (Some r)))))"

text \<open>The closure \<^verbatim>\<open>execute\<close>. The handler it builds calls the route's handler on the request made
  here, whatever request a middleware passes on.\<close>

definition execute :: "server \<Rightarrow> http_request \<Rightarrow> route list \<Rightarrow> route \<Rightarrow> (string, string list) gomap \<Rightarrow> response option res" where
  "execute s r allRoutes targetRoute params =
     (let req = \<lparr>rq_http = r, rq_params = params, rq_bodyCache = None\<rparr> in
      bind_res
        (case map_of (rt_methods targetRoute) (hr_method r) of
           None \<Rightarrow> Inr (if hr_method r = ''OPTIONS'' then sv_optionsRequest s else sv_methodNotAllowed s)
         | Some h \<Rightarrow> authorize_all allRoutes req (\<lambda>_. h req))
        (\<lambda>handle. middlewareChain (sv_middleware s) handle req))"

definition dispatch :: "server \<Rightarrow> http_request \<Rightarrow> response option res" where
  "dispatch s r =
     (let parts = split_on CHR ''/'' (trim_char CHR ''/'' (hr_path r)) in
      case sv_root s of
        None \<Rightarrow> Inl (Panic ''invalid memory address or nil pointer dereference'')
      | Some root \<Rightarrow>
          (if length parts = 1 \<and> parts ! 0 = [] then execute s r [] (h_route root) []
           else case walk parts root [h_route root] [] of
             None \<Rightarrow> Inr (Some (sv_notFound s))
           | Some (parents, current, params) \<Rightarrow> execute s r parents (h_route current) params))"

text \<open>What reaches the client. \<^verbatim>\<open>WriteHeader\<close> panics on a status outside 100 to 999.\<close>

record written =
  wr_status :: int
  wr_headers :: headers
  wr_body :: string
  wr_len :: nat

definition write_body :: "response \<Rightarrow> string \<Rightarrow> written res" where
  "write_body resp content =
     (let headers = header_add ''Content-Length'' (nat_str (length content)) (resp_Headers resp);
          status = rp_status resp
      in if status < 100 \<or> 999 < status then Inl (Panic ''invalid WriteHeader code'')
         else Inr (if status = 204 then \<lparr>wr_status = status, wr_headers = headers, wr_body = [], wr_len = 0\<rparr>
                   else \<lparr>wr_status = status, wr_headers = headers, wr_body = content, wr_len = length content\<rparr>))"

definition write_response :: "server \<Rightarrow> response \<Rightarrow> written res" where
  "write_response s resp =
     (case rp_body resp of
        NoBody \<Rightarrow> write_body resp []
      | Bytes b \<Rightarrow> write_body resp b
      | Broken e \<Rightarrow>
          (case rp_body (sv_internalServerError s) of
             NoBody \<Rightarrow> write_body (sv_internalServerError s) []
           | Bytes b \<Rightarrow> write_body (sv_internalServerError s) b
           | Broken e' \<Rightarrow> write_body (sv_internalServerError s) []))"

text \<open>\<^verbatim>\<open>ServeHTTP\<close>: the deferred function recovers a panic of the dispatch and writes the response.\<close>

definition serve :: "server \<Rightarrow> http_request \<Rightarrow> written res" where
  "serve s r =
     write_response s (case dispatch s r of Inr (Some resp) \<Rightarrow> resp | _ \<Rightarrow> sv_internalServerError s)"

section \<open>Middleware (middleware.go)\<close>

definition NewCORSMiddleware :: middleware where
  "NewCORSMiddleware req next =
     bind_res (next req) (\<lambda>resp.
       case resp of
         None \<Rightarrow> Inl (Panic ''invalid memory address or nil pointer dereference'')
       | Some resp \<Rightarrow>
           Inr (Some (BasicResponseReader (rp_status resp)
             (header_add ''Access-Control-Allow-Headers'' ''*''
               (header_add ''Access-Control-Allow-Methods'' ''*''
                 (header_add ''Access-Control-Allow-Origin'' ''*'' (resp_Headers resp))))
             (rp_body resp))))"

fun slice_index :: "string list \<Rightarrow> string \<Rightarrow> int" where
  "slice_index [] x = -1"
| "slice_index (y # ys) x = (if y = x then 0 else (let i = slice_index ys x in if i = -1 then -1 else i + 1))"

text \<open>A compressor maps the bytes of the body; a body that fails to be read fails after compression.\<close>

definition compressed :: "(string \<Rightarrow> string) \<Rightarrow> body \<Rightarrow> body" where
  "compressed f b = (case b of Bytes s \<Rightarrow> Bytes (f s) | _ \<Rightarrow> b)"

definition NewCompressionMiddleware :: "(string \<Rightarrow> string) \<Rightarrow> (string \<Rightarrow> string) \<Rightarrow> middleware" where
  "NewCompressionMiddleware gzip deflate req next =
     bind_res (next req) (\<lambda>resp.
       case resp of
         None \<Rightarrow> Inl (Panic ''invalid memory address or nil pointer dereference'')
       | Some resp \<Rightarrow>
           (let headers = resp_Headers resp; body = rp_body resp in
            if header_get headers ''Content-Encoding'' \<noteq> [] then Inr (Some resp)
            else if body = NoBody then Inr (Some resp)
            else
              let encodings = map trim_space (split_on CHR '','' (header_get (req_Header req) ''Accept-Encoding''));
                  indexGzip = slice_index encodings ''gzip'';
                  indexDeflate = slice_index encodings ''deflate'';
                  indexes = filter (\<lambda>i. i \<noteq> -1) [indexGzip, indexDeflate]
              in if indexes = [] then Inr (Some resp)
                 else let first = Min (set indexes);
                          cb = (if first = indexGzip then (''gzip'', compressed gzip body)
                                else (''deflate'', compressed deflate body))
                      in Inr (Some (BasicResponseReader (rp_status resp)
                           (header_add ''Content-Encoding'' (fst cb) headers) (snd cb)))))"

section \<open>Helpers (util.go) and the health route (zroute/health.go)\<close>

definition AppendRoutes :: "route list list \<Rightarrow> route list" where
  "AppendRoutes routelists = fold (\<lambda>routes result. result @ routes) routelists []"

text \<open>\<^verbatim>\<open>fmt.Sprintf\<close> of a template whose only verb is \<^verbatim>\<open>%s\<close>, with as many arguments.\<close>

fun sprintf_s :: "string \<Rightarrow> string list \<Rightarrow> string" where
  "sprintf_s [] args = []"
| "sprintf_s [c] args = [c]"
| "sprintf_s (c # c' # s) args =
     (if c = CHR ''%'' \<and> c' = CHR ''s'' then
        (case args of [] \<Rightarrow> ''%!s(MISSING)'' @ sprintf_s s [] | a # as \<Rightarrow> a @ sprintf_s s as)
      else c # sprintf_s (c' # s) args)"

definition Pathf :: "string \<Rightarrow> string list \<Rightarrow> string" where
  "Pathf template params = sprintf_s template (map (\<lambda>p. ''{'' @ p @ ''}'') params)"

text \<open>The build version and \<^verbatim>\<open>json.Marshal\<close> of it are arguments.\<close>

definition health_handler :: "string \<Rightarrow> handle_func" where
  "health_handler json req = Inr (Some (BasicResponse 200 [] json))"

definition NewHealth :: "string \<Rightarrow> string \<Rightarrow> route" where
  "NewHealth path json =
     \<lparr>rt_name = ''_health'', rt_path = path,
      rt_methods = [(''GET'', health_handler json), (''HEAD'', health_handler json), (''OPTIONS'', health_handler json)],
      rt_authorize = None\<rparr>"

end
