(* ===== verification/Zapi_Laws.thy ===== *)
theory Zapi_Laws
  imports Zapi
begin

text \<open>
  Laws of \<^verbatim>\<open>go/zapi\<close>: the tree of handlers refines a table of mounted paths; dispatch, middleware,
  authorization and the response written.
\<close>

section \<open>The tree as a table of mounted paths\<close>

fun node_at :: "string list \<Rightarrow> handler \<Rightarrow> handler option" where
  "node_at [] h = Some h"
| "node_at (k # ks) h = (case map_of (h_children h) k of None \<Rightarrow> None | Some c \<Rightarrow> node_at ks c)"

definition table_of :: "handler \<Rightarrow> string list \<Rightarrow> (route \<times> string option) option" where
  "table_of h q = map_option (\<lambda>n. (h_route n, h_param n)) (node_at q h)"

lemma node_at_append: "node_at (p @ q) h = (case node_at p h of None \<Rightarrow> None | Some n \<Rightarrow> node_at q n)"
  by (induction p h rule: node_at.induct) (auto split: option.splits)

lemma table_of_simps [simp]:
  "table_of h [] = Some (h_route h, h_param h)"
  "table_of h (k # ks) = (case map_of (h_children h) k of None \<Rightarrow> None | Some c \<Rightarrow> table_of c ks)"
  by (auto simp: table_of_def split: option.splits)

lemma add_at_ok:
  "add_at rt ps h = Inr h' \<Longrightarrow> ps \<noteq> [] \<Longrightarrow>
     table_of h (map segment (butlast ps)) \<noteq> None \<and> table_of h (map segment ps) = None \<and>
     table_of h' = (table_of h)(map segment ps \<mapsto> (rt, isParam (last ps)))"
proof (induction rt ps h arbitrary: h' rule: add_at.induct)
  case (2 rt lastPart part param r children)
  then have fresh: "map_of children (segment lastPart) = None"
    and h': "h' = Handler part param r (map_put (segment lastPart) (Handler (segment lastPart) (isParam lastPart) rt []) children)"
    by (auto simp: Let_def split: option.splits)
  have "table_of h' w = ((table_of (Handler part param r children))([segment lastPart] \<mapsto> (rt, isParam lastPart))) w" for w
  proof (cases w)
    case (Cons k ks)
    with fresh show ?thesis by (cases ks) (auto simp: h')
  qed (simp add: h')
  then show ?case using fresh by (auto simp: fun_eq_iff)
next
  case (3 rt p q ps part param r children)
  then obtain child child' where child: "map_of children (segment p) = Some child"
    and c': "add_at rt (q # ps) child = Inr child'"
    and h': "h' = Handler part param r (map_put (segment p) child' children)"
    by (auto simp: Let_def bind_res_Inr split: option.splits)
  from "3.IH" [OF refl child c'] have IH:
    "table_of child (map segment (butlast (q # ps))) \<noteq> None" "table_of child (map segment (q # ps)) = None"
    "table_of child' = (table_of child)(map segment (q # ps) \<mapsto> (rt, isParam (last (q # ps))))" by blast+
  have "table_of h' w = ((table_of (Handler part param r children))(map segment (p # q # ps) \<mapsto> (rt, isParam (last (p # q # ps))))) w" for w
  proof (cases w)
    case (Cons k ks)
    show ?thesis
    proof (cases "k = segment p")
      case True
      have "table_of h' w = table_of child' ks" by (simp add: h' Cons True)
      also have "\<dots> = ((table_of child)(map segment (q # ps) \<mapsto> (rt, isParam (last (q # ps))))) ks"
        by (simp only: IH(3))
      also have "\<dots> = ((table_of (Handler part param r children))(map segment (p # q # ps) \<mapsto> (rt, isParam (last (p # q # ps))))) w"
        using child by (simp add: Cons True)
      finally show ?thesis .
    qed (simp add: h' Cons)
  qed (simp add: h')
  moreover have "butlast (p # q # ps) = p # butlast (q # ps)" by simp
  ultimately show ?case using IH(1,2) child by (simp only: fun_eq_iff list.map table_of_simps handler.sel option.case simp_thms)
qed simp

lemma add_at_err:
  "add_at rt ps h = Inl e \<Longrightarrow> table_of h (map segment (butlast ps)) = None \<or> table_of h (map segment ps) \<noteq> None"
proof (induction rt ps h rule: add_at.induct)
  case (3 rt p q ps part param r children)
  show ?case
  proof (cases "map_of children (segment p)")
    case (Some child)
    with "3.prems" have "add_at rt (q # ps) child = Inl e" by (auto simp: Let_def bind_res_Inl)
    from "3.IH" [OF refl Some this] have "table_of child (map segment (butlast (q # ps))) = None \<or>
      table_of child (map segment (q # ps)) \<noteq> None" .
    moreover have "butlast (p # q # ps) = p # butlast (q # ps)" by simp
    ultimately show ?thesis
      using Some by (simp only: list.map table_of_simps handler.sel option.case simp_thms)
  qed simp
qed (auto simp: Let_def split: option.splits)

text \<open>C36: Mounting a route below the root succeeds exactly when its parent is mounted and its own place is
  free, and then changes the table of mounted paths in that one place.\<close>

theorem mount_updates_table:
  assumes "rt_path rt = path" "trim_char CHR ''/'' path \<noteq> []"
    and "ps = split_on CHR ''/'' (trim_char CHR ''/'' path)"
  shows "case tree_add (Some root) rt of
           Inr (Some root') \<Rightarrow>
             table_of root (map segment (butlast ps)) \<noteq> None \<and> table_of root (map segment ps) = None \<and>
             table_of root' = (table_of root)(map segment ps \<mapsto> (rt, isParam (last ps)))
         | Inr None \<Rightarrow> False
         | Inl e \<Rightarrow> table_of root (map segment (butlast ps)) = None \<or> table_of root (map segment ps) \<noteq> None"
proof -
  have "ps \<noteq> []" by (simp add: assms(3))
  then show ?thesis
    using add_at_ok [of rt ps root] add_at_err [of rt ps root] assms
    by (cases "add_at rt ps root") (auto simp: tree_add_def Let_def)
qed

section \<open>Dispatch over the table\<close>

definition table_child :: "(string list \<Rightarrow> (route \<times> string option) option) \<Rightarrow> string list \<Rightarrow> string \<Rightarrow> string list" where
  "table_child T here part = (if T (here @ [part]) \<noteq> None then here @ [part] else here @ [[]])"

fun table_walk :: "(string list \<Rightarrow> (route \<times> string option) option) \<Rightarrow> string list \<Rightarrow> string list \<Rightarrow> route \<Rightarrow> route list \<Rightarrow>
    (string, string list) gomap \<Rightarrow> (route list \<times> route \<times> (string, string list) gomap) option" where
  "table_walk T [] here cur parents params = Some (parents, cur, params)"
| "table_walk T (part # parts) here cur parents params =
     (case T (table_child T here part) of
        None \<Rightarrow> None
      | Some (rt, param) \<Rightarrow>
          table_walk T parts (table_child T here part) rt (parents @ [rt])
            (case param of
               None \<Rightarrow> params
             | Some p \<Rightarrow> map_put p ((case map_of params p of None \<Rightarrow> [] | Some vs \<Rightarrow> vs) @ [part]) params))"

lemma table_child_node:
  assumes "node_at here root = Some h"
  shows "(case map_of (h_children h) part of Some c \<Rightarrow> Some c | None \<Rightarrow> map_of (h_children h) []) =
      node_at (table_child (table_of root) here part) root"
proof -
  have "node_at (here @ [k]) root = map_of (h_children h) k" for k
    by (simp add: node_at_append assms split: option.splits)
  then show ?thesis by (auto simp: table_child_def table_of_def split: option.splits)
qed

lemma walk_table:
  "node_at here root = Some h \<Longrightarrow>
     map_option (\<lambda>(ps, n, pr). (ps, h_route n, pr)) (walk parts h parents params) =
     table_walk (table_of root) parts here (h_route h) parents params"
proof (induction parts arbitrary: here h parents params)
  case (Cons part parts)
  let ?at = "table_child (table_of root) here part"
  show ?case
  proof (cases "node_at ?at root")
    case None
    then have "table_of root ?at = None" by (simp add: table_of_def)
    then show ?thesis using None by (simp add: table_child_node [OF Cons.prems])
  next
    case (Some c)
    then have "table_of root ?at = Some (h_route c, h_param c)" by (simp add: table_of_def)
    then show ?thesis using Some Cons.IH [OF Some] by (simp add: table_child_node [OF Cons.prems])
  qed
qed simp

text \<open>C22: A request is dispatched by walking the table of mounted paths, one segment at a time, a literal
  segment before a parameter, collecting parameters and the routes passed; the tree the code keeps
  does not matter beyond the table it stands for.\<close>

theorem dispatch_by_table:
  assumes "sv_root s = Some root"
  shows "dispatch s r =
     (let parts = split_on CHR ''/'' (trim_char CHR ''/'' (hr_path r)) in
      if parts = [[]] then execute s r [] (h_route root) []
      else case table_walk (table_of root) parts [] (h_route root) [h_route root] [] of
        None \<Rightarrow> Inr (Some (sv_notFound s))
      | Some (parents, rt, params) \<Rightarrow> execute s r parents rt params)"
proof -
  let ?parts = "split_on CHR ''/'' (trim_char CHR ''/'' (hr_path r))"
  have one: "length ?parts = 1 \<and> ?parts ! 0 = [] \<longleftrightarrow> ?parts = [[]]"
    by (cases ?parts; cases "tl ?parts") auto
  note w = walk_table [of "[]" root root ?parts "[h_route root]" "[]", simplified, symmetric]
  show ?thesis unfolding dispatch_def Let_def assms option.case one w
    by (auto split: option.splits)
qed

section \<open>Middleware and authorization\<close>

text \<open>The middleware wrap the handler in the order they were added, the first one outermost.\<close>

theorem middlewareChain_outermost_first:
  "middlewareChain ms handle = foldr (\<lambda>m next req. m req next) ms handle"
  by (simp add: middlewareChain_def fold_Cons_rev foldr_conv_fold)

definition refuses :: "request \<Rightarrow> route \<Rightarrow> bool" where
  "refuses req rt \<longleftrightarrow> (case rt_authorize rt of None \<Rightarrow> False | Some auth \<Rightarrow> (\<exists>r. auth req = Inr (Some r)))"

lemma authorize_all_handle:
  "authorize_all rts req h = Inr h' \<Longrightarrow>
     h' = h \<and> (\<forall>rt \<in> set rts. \<not> refuses req rt) \<or>
     (\<exists>rt auth r. rt \<in> set rts \<and> rt_authorize rt = Some auth \<and> auth req = Inr (Some r) \<and> h' = (\<lambda>_. Inr (Some r)))"
proof (induction rts arbitrary: h)
  case (Cons rt rts)
  show ?case
  proof (cases "rt_authorize rt")
    case None
    then have "\<not> refuses req rt" "authorize_all rts req h = Inr h'" using Cons.prems by (simp_all add: refuses_def)
    with Cons.IH [of h] show ?thesis by auto
  next
    case (Some auth)
    with Cons.prems obtain a where a: "auth req = Inr a"
      and rest: "authorize_all rts req (case a of None \<Rightarrow> h | Some r \<Rightarrow> (\<lambda>_. Inr (Some r))) = Inr h'"
      by (auto simp: bind_res_Inr)
    show ?thesis
    proof (cases a)
      case None
      then have "\<not> refuses req rt" using Some a by (simp add: refuses_def)
      with Cons.IH [OF rest] None show ?thesis by auto
    next
      case (Some r)
      from Cons.IH [OF rest] show ?thesis using Some a \<open>rt_authorize rt = Some auth\<close> by auto
    qed
  qed
qed simp

text \<open>C21: If any route passed on the way refuses a request, the route's handler is not called: what the
  middleware see and return is a refusal of one of those routes.\<close>

theorem refusal_blocks_the_handler:
  assumes "map_of (rt_methods target) (hr_method r) = Some h"
    and "rt \<in> set allRoutes" "refuses \<lparr>rq_http = r, rq_params = params, rq_bodyCache = None\<rparr> rt"
    and "execute s r allRoutes target params = Inr resp"
  shows "\<exists>refusing refusal auth. refusing \<in> set allRoutes \<and> rt_authorize refusing = Some auth \<and>
     auth \<lparr>rq_http = r, rq_params = params, rq_bodyCache = None\<rparr> = Inr (Some refusal) \<and>
     middlewareChain (sv_middleware s) (\<lambda>_. Inr (Some refusal))
       \<lparr>rq_http = r, rq_params = params, rq_bodyCache = None\<rparr> = Inr resp"
proof -
  let ?req = "\<lparr>rq_http = r, rq_params = params, rq_bodyCache = None\<rparr>"
  from assms(1,4) obtain h' where h': "authorize_all allRoutes ?req (\<lambda>_. h ?req) = Inr h'"
    and resp: "middlewareChain (sv_middleware s) h' ?req = Inr resp"
    by (auto simp: execute_def Let_def bind_res_Inr)
  from authorize_all_handle [OF h'] assms(2,3) obtain refusing auth refusal where
    "refusing \<in> set allRoutes" "rt_authorize refusing = Some auth" "auth ?req = Inr (Some refusal)"
    and h: "h' = (\<lambda>_. Inr (Some refusal))" by auto
  with resp [unfolded h] show ?thesis by blast
qed

text \<open>a request for the root resource runs the root route's handler without asking its \<^verbatim>\<open>Authorize\<close>.\<close>

theorem root_request_is_not_authorized:
  assumes "sv_root s = Some root" "split_on CHR ''/'' (trim_char CHR ''/'' (hr_path r)) = [[]]"
    and "map_of (rt_methods (h_route root)) (hr_method r) = Some h"
  shows "dispatch s r = middlewareChain (sv_middleware s)
     (\<lambda>_. h \<lparr>rq_http = r, rq_params = [], rq_bodyCache = None\<rparr>) \<lparr>rq_http = r, rq_params = [], rq_bodyCache = None\<rparr>"
  using assms by (simp add: dispatch_def execute_def Let_def)

section \<open>The response written\<close>

lemma header_values_add: "header_values (header_add k v h) k = header_values h k @ [v]"
  by (simp add: header_values_def header_add_def)

lemma write_body_length:
  "write_body resp content = Inr w \<Longrightarrow>
     last (header_values (wr_headers w) ''Content-Length'') = nat_str (length content) \<and> wr_status w = rp_status resp \<and>
     (if rp_status resp = 204 then wr_body w = [] else wr_body w = content)"
  by (auto simp: write_body_def Let_def header_values_add split: if_splits)

definition status_ok :: "response \<Rightarrow> bool" where
  "status_ok r \<longleftrightarrow> 100 \<le> rp_status r \<and> rp_status r \<le> 999"


section \<open>Path parameters\<close>

text \<open>a parameter that \<^verbatim>\<open>Pathf\<close> writes into a path is read back by \<^verbatim>\<open>isParam\<close>, unless it is empty or
  holds a brace.\<close>

theorem isParam_Pathf:
  "isParam (Pathf ''%s'' [p]) = (if p \<noteq> [] \<and> CHR ''{'' \<notin> set p \<and> CHR ''}'' \<notin> set p then Some p else None)"
  by (cases p) (auto simp: isParam_def Pathf_def Let_def list_ex_iff)

text \<open>After a failed read a second call of \<^verbatim>\<open>Body\<close> returns an empty body and no error.\<close>

lemma body_error_is_forgotten:
  assumes "rq_bodyCache r = None" "hr_body (rq_http r) = Inl e"
  shows "fst (req_Body r) = Inl (wrap_err ''error reading request body'' e) \<and>
     fst (req_Body (snd (req_Body r))) = Inr []"
  using assms by (simp add: req_Body_def)

section \<open>An example server\<close>

definition ok_handler :: handle_func where
  "ok_handler req = Inr (Some Response200OK)"

definition deny :: handle_func where
  "deny req = Inr (Some Response401Unauthorized)"

definition ex_route :: "string \<Rightarrow> handle_func option \<Rightarrow> route" where
  "ex_route path auth = \<lparr>rt_name = path, rt_path = path, rt_methods = [(''GET'', ok_handler)], rt_authorize = auth\<rparr>"

definition ex_tree :: handler where
  "ex_tree = Handler [] None (ex_route ''/'' (Some deny))
     [(''users'', Handler ''users'' None (ex_route ''/users'' None)
        [([], Handler [] (Some ''id'') (ex_route ''/users/{id}'' None) [])])]"

definition ex_server :: server where
  "ex_server = \<lparr>sv_root = Some ex_tree, sv_middleware = [NewCORSMiddleware],
     sv_optionsRequest = (\<lambda>req. Inr (Some Response405MethodNotAllowed)),
     sv_methodNotAllowed = (\<lambda>req. Inr (Some Response405MethodNotAllowed)),
     sv_notFound = Response404NotFound, sv_internalServerError = Response500InternalServerError\<rparr>"

definition ex_get :: "string \<Rightarrow> http_request" where
  "ex_get path = \<lparr>hr_method = ''GET'', hr_path = path, hr_scheme = ''https'', hr_host = ''h'', hr_remote = ''r'',
     hr_headers = [], hr_query = [], hr_body = Inr []\<rparr>"

lemmas ex_api_defs = ex_tree_def ex_route_def ex_server_def ex_get_def ok_handler_def deny_def
  Response200OK_def Response401Unauthorized_def simple_response_def

lemma ex_tree_mounted:
  "map_sum id sv_root (NewServer [ex_route ''/'' (Some deny), ex_route ''/users'' None, ex_route ''/users/{id}'' None] []) =
     Inr (Some ex_tree)"
  by (simp add: NewServer_def mount_def tree_add_def ex_route_def ex_tree_def trim_char_def segment_def isParam_def Let_def)

theorem mount_updates_table_witness:
  "\<exists>tree. tree_add (Some ex_tree) (ex_route ''/users/{id}/posts'' None) = Inr (Some tree) \<and>
     table_of tree [''users'', [], ''posts''] = Some (ex_route ''/users/{id}/posts'' None, None)"
proof -
  let ?rt = "ex_route ''/users/{id}/posts'' None"
  have ps: "[''users'', ''{id}'', ''posts''] = split_on CHR ''/'' (trim_char CHR ''/'' ''/users/{id}/posts'')"
    and ne: "trim_char CHR ''/'' ''/users/{id}/posts'' \<noteq> []" by (simp_all add: trim_char_def)
  have "is_ok (tree_add (Some ex_tree) ?rt)"
    by (simp add: tree_add_def ex_route_def ex_tree_def trim_char_def segment_def isParam_def Let_def)
  then obtain t where t: "tree_add (Some ex_tree) ?rt = Inr t" by (auto simp: is_ok_iff)
  have path: "rt_path ?rt = ''/users/{id}/posts''" by (simp add: ex_route_def)
  from mount_updates_table [OF path ne ps, of ex_tree] t obtain tree where
    tree: "t = Some tree" and tb: "table_of tree =
      (table_of ex_tree)(map segment [''users'', ''{id}'', ''posts''] \<mapsto> (?rt, isParam (last [''users'', ''{id}'', ''posts''])))"
    by (cases t) auto
  have "table_of tree [''users'', [], ''posts''] = Some (?rt, None)"
    unfolding tb by (simp add: segment_def isParam_def del: table_of_simps)
  with t tree show ?thesis by blast
qed

theorem dispatch_by_table_witness:
  "dispatch ex_server (ex_get ''/users/7'') =
     execute ex_server (ex_get ''/users/7'') [ex_route ''/'' (Some deny), ex_route ''/users'' None, ex_route ''/users/{id}'' None]
       (ex_route ''/users/{id}'' None) [(''id'', [''7''])]"
proof -
  have root: "sv_root ex_server = Some ex_tree" by (simp add: ex_server_def)
  show ?thesis unfolding dispatch_by_table [OF root]
    by (simp add: ex_get_def ex_tree_def trim_char_def table_child_def Let_def)
qed

theorem refusal_blocks_the_handler_witness:
  "\<exists>auth refusal. auth \<lparr>rq_http = ex_get ''/users'', rq_params = [], rq_bodyCache = None\<rparr> = Inr (Some refusal) \<and>
     middlewareChain [NewCORSMiddleware] (\<lambda>_. Inr (Some refusal)) \<lparr>rq_http = ex_get ''/users'', rq_params = [], rq_bodyCache = None\<rparr> =
     execute ex_server (ex_get ''/users'') [ex_route ''/'' (Some deny), ex_route ''/users'' None] (ex_route ''/users'' None) []"
proof -
  let ?r = "ex_get ''/users''" and ?t = "ex_route ''/users'' None" and ?all = "[ex_route ''/'' (Some deny), ex_route ''/users'' None]"
  have m: "map_of (rt_methods ?t) (hr_method ?r) = Some ok_handler" by (simp add: ex_api_defs)
  have a: "ex_route ''/'' (Some deny) \<in> set ?all" by simp
  have f: "refuses \<lparr>rq_http = ?r, rq_params = [], rq_bodyCache = None\<rparr> (ex_route ''/'' (Some deny))"
    by (simp add: refuses_def ex_route_def deny_def)
  have "is_ok (execute ex_server ?r ?all ?t [])"
    by (simp add: execute_def ex_api_defs middlewareChain_def NewCORSMiddleware_def Let_def)
  then obtain resp where e: "execute ex_server ?r ?all ?t [] = Inr resp" by (auto simp: is_ok_iff)
  from refusal_blocks_the_handler [OF m a f e] e show ?thesis by (auto simp: ex_server_def)
qed

theorem root_request_is_not_authorized_witness:
  "\<exists>resp. dispatch ex_server (ex_get ''/'') = Inr (Some resp) \<and> rp_status resp = 200"
proof -
  have p: "sv_root ex_server = Some ex_tree" "split_on CHR ''/'' (trim_char CHR ''/'' (hr_path (ex_get ''/''))) = [[]]"
    "map_of (rt_methods (h_route ex_tree)) (hr_method (ex_get ''/'')) = Some ok_handler"
    by (simp_all add: ex_api_defs trim_char_def)
  show ?thesis unfolding root_request_is_not_authorized [OF p]
    by (simp add: ex_api_defs middlewareChain_def NewCORSMiddleware_def BasicResponseReader_def)
qed


end
