(* ===== verification/Zormsql_Mapping.thy ===== *)
theory Zormsql_Mapping
  imports Zorm Zsql Zfunc
begin

text \<open>
  Package \<^verbatim>\<open>go/zorm/zormsql\<close>: \<^verbatim>\<open>primitives.go\<close>, \<^verbatim>\<open>mapping.go\<close>, the scan targets of
  \<^verbatim>\<open>helpers.go\<close> and the registration of mappings in \<^verbatim>\<open>repo.go\<close>. A mapping describes how a struct
  type is stored; \<open>mapStructure\<close> turns a mapping, a field list and a tree of requested
  relations into the tree of columns and scan targets a select needs.

  \<^item> Reflection on \<^verbatim>\<open>m.PtrType\<close> is the struct description \<open>m_ptr\<close>: package, name and fields.
  \<^item> A mapping reaches the other mappings through \<^verbatim>\<open>m.repo.cfg\<close>, one shared configuration,
    here the argument \<open>cfg\<close>.
  \<^item> The three containers of \<^verbatim>\<open>structure\<close> for relations (the list of names in order and the
    two maps by kind) are one list of name and joined structure, the kind being \<open>js_many\<close>.
\<close>

section \<open>Tables and columns (primitives.go)\<close>

record table =
  t_name :: string
  t_alias :: string

record column =
  c_table :: table
  c_name :: string
  c_alias :: string

definition table_escaped :: "driver \<Rightarrow> table \<Rightarrow> string" where
  "table_escaped d t = d_escape_table d (t_name t)"

definition table_escapedAlias :: "driver \<Rightarrow> table \<Rightarrow> string" where
  "table_escapedAlias d t =
     (if t_alias t = [] then table_escaped d t else d_escape_table d (t_alias t))"

definition column_escaped :: "driver \<Rightarrow> column \<Rightarrow> string" where
  "column_escaped d c =
     (if t_alias (c_table c) = [] then d_escape_column d (c_name c)
      else d_escape_table_column d (t_alias (c_table c)) (c_name c))"

definition column_escapedAlias :: "driver \<Rightarrow> column \<Rightarrow> string" where
  "column_escapedAlias d c =
     (if c_alias c = [] then column_escaped d c
      else if t_alias (c_table c) = [] then d_escape_column d (c_alias c)
      else d_escape_table_column d (t_alias (c_table c)) (c_alias c))"

section \<open>Mappings (mapping.go)\<close>

record col_map =
  cm_name :: string
  cm_field :: string
  cm_noInsert :: bool
  cm_noUpdate :: bool

record relation =
  r_table :: string
  r_columns :: "(string, string) gomap"
  r_field :: string

record struct_def =
  sd_pkg :: string
  sd_name :: string
  sd_fields :: "(string \<times> gotype) list"

record mapping =
  m_ptr :: struct_def
  m_table :: string
  m_primaryKey :: "string list"
  m_uniqueKeys :: "string list list"
  m_columns :: "col_map list"
  m_relations :: "relation list"

record config =
  cfg_name :: string
  cfg_mappings :: "(string, mapping) gomap"

definition ptr_type :: "mapping \<Rightarrow> gotype" where
  "ptr_type m = TPtr (TStruct (sd_pkg (m_ptr m)) (sd_name (m_ptr m)))"

text \<open>\<^verbatim>\<open>reflect.TypeOf(m.PtrType).Elem().FieldByName(f)\<close>\<close>

definition struct_field :: "mapping \<Rightarrow> string \<Rightarrow> gotype option" where
  "struct_field m f = map_of (sd_fields (m_ptr m)) f"

text \<open>\<^verbatim>\<open>fmt\<close>'s \<^verbatim>\<open>%T\<close> of the pointer\<close>

definition show_type :: "mapping \<Rightarrow> string" where
  "show_type m = ''*'' @ last (split_on CHR ''/'' (sd_pkg (m_ptr m))) @ ''.'' @ sd_name (m_ptr m)"

text \<open>\<^verbatim>\<open>AddMapping\<close> panics on a second mapping of a type.\<close>

definition addMapping :: "config \<Rightarrow> mapping \<Rightarrow> config res" where
  "addMapping cfg m =
     (let key = typeID (ptr_type m) in
      case map_of (cfg_mappings cfg) key of
        Some _ \<Rightarrow> Inl (Panic (''Duplicate sql mapping for type '' @ key))
      | None \<Rightarrow> Inr (cfg\<lparr>cfg_mappings := map_put key m (cfg_mappings cfg)\<rparr>))"

definition relationByField :: "mapping \<Rightarrow> string \<Rightarrow> relation option" where
  "relationByField m f = find (\<lambda>r. r_field r = f) (m_relations m)"

definition columnsMatchPrimaryKey :: "mapping \<Rightarrow> string list \<Rightarrow> bool" where
  "columnsMatchPrimaryKey m columnNames =
     (length columnNames = length (m_primaryKey m) \<and>
      list_all (\<lambda>col. col \<in> set (m_primaryKey m)) columnNames)"

definition foreignKeyIsLocal :: "mapping \<Rightarrow> relation \<Rightarrow> bool" where
  "foreignKeyIsLocal m rel = (\<not> columnsMatchPrimaryKey m (map fst (r_columns rel)))"

definition allFields :: "mapping \<Rightarrow> fields" where
  "allFields m = map cm_field (m_columns m)"

definition insertFields :: "mapping \<Rightarrow> fields \<Rightarrow> string list \<times> column list" where
  "insertFields m requestedFields =
     (let allInsertableFields = map cm_field (filter (\<lambda>c. \<not> cm_noInsert c) (m_columns m));
          resolvedFields = resolve requestedFields allInsertableFields;
          picked = concat (map (\<lambda>f. filter (\<lambda>c. f = cm_field c \<and> \<not> cm_noInsert c) (m_columns m)) resolvedFields)
      in (map cm_field picked,
          map (\<lambda>c. \<lparr>c_table = \<lparr>t_name = m_table m, t_alias = []\<rparr>, c_name = cm_name c, c_alias = []\<rparr>) picked))"

definition updateFields :: "mapping \<Rightarrow> fields \<Rightarrow> string list" where
  "updateFields m requestedFields =
     (let allUpdatableFields = map cm_field (filter (\<lambda>c. \<not> cm_noUpdate c) (m_columns m));
          resolvedFields = resolve requestedFields allUpdatableFields
      in concat (map (\<lambda>f. map cm_field (filter (\<lambda>c. f = cm_field c \<and> \<not> cm_noUpdate c) (m_columns m))) resolvedFields))"

text \<open>A column name without a mapped column adds nothing; the lengths then differ.\<close>

definition columnNamesToFields :: "mapping \<Rightarrow> string list \<Rightarrow> string list res" where
  "columnNamesToFields m columnNames =
     (let result = concat (map (\<lambda>colName. case find (\<lambda>c. colName = cm_name c) (m_columns m) of
                      None \<Rightarrow> [] | Some c \<Rightarrow> [cm_field c]) columnNames)
      in if length result \<noteq> length columnNames
         then Inl (Errorf (''columns not fully mapped for '' @ show_type m)) else Inr result)"

definition primaryKeyFields :: "mapping \<Rightarrow> string list res" where
  "primaryKeyFields m = columnNamesToFields m (m_primaryKey m)"

definition keyColumnsCanInsert :: "mapping \<Rightarrow> string list \<Rightarrow> bool" where
  "keyColumnsCanInsert m columnNames =
     list_all (\<lambda>keyCol. case find (\<lambda>c. keyCol = cm_name c) (m_columns m) of
        None \<Rightarrow> True | Some c \<Rightarrow> \<not> cm_noInsert c) columnNames"

section \<open>Scan targets (helpers.go)\<close>

text \<open>What a column is scanned into: a nullable wrapper of \<^verbatim>\<open>database/sql\<close> or a plain pointer.\<close>

datatype scan_target = NullString | NullInt64 | NullFloat64 | NullBool | NullTime | PtrTo gotype

fun createNullableScanTarget_of :: "gotype \<Rightarrow> gotype \<Rightarrow> scan_target" where
  "createNullableScanTarget_of TString ft = NullString"
| "createNullableScanTarget_of (TInt w) ft = NullInt64"
| "createNullableScanTarget_of (TUint w) ft = NullInt64"
| "createNullableScanTarget_of (TFloat w) ft = NullFloat64"
| "createNullableScanTarget_of TBool ft = NullBool"
| "createNullableScanTarget_of TTime ft = NullTime"
| "createNullableScanTarget_of _ ft = PtrTo ft"

definition createNullableScanTarget :: "gotype \<Rightarrow> scan_target" where
  "createNullableScanTarget fieldType =
     createNullableScanTarget_of (if is_TPtr fieldType then elem_type fieldType else fieldType) fieldType"

definition mapField :: "mapping \<Rightarrow> table \<Rightarrow> string \<Rightarrow> string \<Rightarrow> (column \<times> scan_target) res" where
  "mapField m tbl columnAliasPrefix f =
     (case find (\<lambda>c. f = cm_field c) (m_columns m) of
        None \<Rightarrow> Inl (Errorf (''field '' @ f @ '' is not mapped''))
      | Some c \<Rightarrow>
          (let col = (if columnAliasPrefix \<noteq> [] then columnAliasPrefix @ ''_'' @ cm_name c else cm_name c) in
           case struct_field m f of
             None \<Rightarrow> Inl (Errorf (''mapping field: getting struct field '' @ f @ '' on '' @ show_type m))
           | Some ty \<Rightarrow> Inr (\<lparr>c_table = tbl, c_name = cm_name c, c_alias = col\<rparr>, PtrTo ty)))"

section \<open>Structures\<close>

datatype qstructure =
    Structure (st_table: table)
      (st_columns: "column list") (st_fields: "string list") (st_target: "scan_target list")
      (st_primaryKey: "column list") (st_primaryKeyFields: "string list") (st_primaryKeyTarget: "scan_target list")
      (st_relations: "(string \<times> join_structure) list")
and join_structure =
    JoinStructure (js_many: bool) (js_onPairs: "(column \<times> column) list") (js_onWhere: "clause option")
      (js_sort: "sort_by list") (js_structure: qstructure) (js_mapping: mapping)

fun fullColumns :: "qstructure \<Rightarrow> column list"
and fullColumns_rels :: "(string \<times> join_structure) list \<Rightarrow> column list" where
  "fullColumns (Structure tbl cols fs ts pk pkfs pkts rels) = pk @ cols @ fullColumns_rels rels"
| "fullColumns_rels [] = []"
| "fullColumns_rels ((f, JoinStructure many ps w srt s m) # rels) = fullColumns s @ fullColumns_rels rels"

fun fullTarget :: "qstructure \<Rightarrow> scan_target list"
and fullTarget_rels :: "(string \<times> join_structure) list \<Rightarrow> scan_target list" where
  "fullTarget (Structure tbl cols fs ts pk pkfs pkts rels) = pkts @ ts @ fullTarget_rels rels"
| "fullTarget_rels [] = []"
| "fullTarget_rels ((f, JoinStructure many ps w srt s m) # rels) = fullTarget s @ fullTarget_rels rels"

definition getRelation :: "qstructure \<Rightarrow> string \<Rightarrow> join_structure option" where
  "getRelation s name = map_of (st_relations s) name"

text \<open>\<^verbatim>\<open>colMap[c.Field] = c.Name\<close> over the columns: the last column of a field wins.\<close>

definition colMap :: "mapping \<Rightarrow> (string, string) gomap" where
  "colMap m = fold (\<lambda>c cm. map_put (cm_field c) (cm_name c) cm) (m_columns m) []"

definition mapStructure_field :: "mapping \<Rightarrow> table \<Rightarrow> string \<Rightarrow> string \<Rightarrow> (column \<times> scan_target) res" where
  "mapStructure_field m tbl columnAliasPrefix f =
     (case map_of (colMap m) f of
        None \<Rightarrow> Inl (Errorf (''field '' @ [CHR 0x27] @ f @ [CHR 0x27] @ '' is not mapped''))
      | Some col \<Rightarrow>
          (case struct_field m f of
             None \<Rightarrow> Inl (Errorf (''mapping fields: getting struct field '' @ f @ '' on '' @ show_type m))
           | Some ty \<Rightarrow>
               Inr (\<lparr>c_table = tbl, c_name = col,
                     c_alias = (if columnAliasPrefix \<noteq> [] then columnAliasPrefix @ ''_'' @ col else col)\<rparr>,
                    if columnAliasPrefix \<noteq> [] then createNullableScanTarget ty else PtrTo ty)))"

function (sequential) mapStructure ::
  "config \<Rightarrow> mapping \<Rightarrow> table \<Rightarrow> string \<Rightarrow> fields \<Rightarrow> (string \<times> relation_opts) list \<Rightarrow> qstructure res"
and mapStructure_rels ::
  "config \<Rightarrow> mapping \<Rightarrow> table \<Rightarrow> string \<Rightarrow> (string \<times> relation_opts) list \<Rightarrow> (string \<times> join_structure) list res" where
  "mapStructure cfg m tbl columnAliasPrefix requestedFields rels =
     (let fields = resolve requestedFields (allFields m) in
      bind_res (wrap_res ''cannot locate primary key fields'' (primaryKeyFields m)) (\<lambda>pkf.
      bind_res (map_res (mapStructure_field m tbl columnAliasPrefix) (pkf @ fields)) (\<lambda>cols.
      bind_res (mapStructure_rels cfg m tbl columnAliasPrefix rels) (\<lambda>joined.
        let n = length pkf; columns = map fst cols; target = map snd cols; names = pkf @ fields in
        Inr (Structure tbl (drop n columns) (drop n names) (drop n target)
               (take n columns) (take n names) (take n target) joined)))))"
| "mapStructure_rels cfg m tbl columnAliasPrefix [] = Inr []"
| "mapStructure_rels cfg m tbl columnAliasPrefix ((f, RelationOpts (Include fs rs) w srt) # rels) =
     (case struct_field m f of
        None \<Rightarrow> Inl (Errorf (''mapping relations: getting struct field '' @ f @ '' on '' @ show_type m))
      | Some ty \<Rightarrow>
          (if \<not> is_TPtr ty \<and> \<not> is_TSlice ty
           then Inl (Errorf (''mapping relations: invalid struct field type '' @ f @ '' on '' @ show_type m))
           else
             let subject = (if is_TPtr ty then ty else elem_type ty) in
             case map_of (cfg_mappings cfg) (typeID subject) of
               None \<Rightarrow> Inl (Errorf (''no mapping available for field '' @ f @ '' on '' @ show_type m))
             | Some otherMapping \<Rightarrow>
                 (case relationByField m f of
                    None \<Rightarrow> Inl (Errorf (''unrecognized relation for field '' @ f @ '' on '' @ show_type m))
                  | Some relMapping \<Rightarrow>
                      (let rightAlias = (if columnAliasPrefix \<noteq> [] then columnAliasPrefix @ ''_'' @ f else f);
                           rightTbl = \<lparr>t_name = m_table otherMapping, t_alias = rightAlias\<rparr>
                       in bind_res (wrap_res (''mapping structure failed for field '' @ f @ '' on '' @ show_type m)
                               (mapStructure cfg otherMapping rightTbl rightAlias fs rs)) (\<lambda>relStructure.
                          bind_res (mapStructure_rels cfg m tbl columnAliasPrefix rels) (\<lambda>more.
                            Inr ((f, JoinStructure (is_TSlice ty)
                                   (map (\<lambda>p. (\<lparr>c_table = tbl, c_name = fst p, c_alias = []\<rparr>,
                                              \<lparr>c_table = rightTbl, c_name = snd p, c_alias = []\<rparr>)) (r_columns relMapping))
                                   w srt relStructure otherMapping) # more)))))))"
  by pat_completeness auto
termination
  by (relation "measure (\<lambda>x. case x of
        Inl (cfg, m, tbl, p, fs, rels) \<Rightarrow> Suc (size_list (size_prod (\<lambda>_. 0) size) rels)
      | Inr (cfg, m, tbl, p, rels) \<Rightarrow> size_list (size_prod (\<lambda>_. 0) size) rels)") auto


section \<open>Lookup keys (mapping.go)\<close>

text \<open>\<^verbatim>\<open>objPtr.Elem().FieldByName(f)\<close>; an unknown field is the zero \<^verbatim>\<open>reflect.Value\<close>, on which
  every use panics.\<close>

definition field_of :: "gval \<Rightarrow> string \<Rightarrow> gval res" where
  "field_of x f = (case struct_get x f of
     None \<Rightarrow> Inl (Panic ''reflect: call on zero Value'') | Some v \<Rightarrow> Inr v)"

fun hasValues :: "gval \<Rightarrow> string list \<Rightarrow> bool res" where
  "hasValues x [] = Inr True"
| "hasValues x (f # fs) = bind_res (field_of x f) (\<lambda>v. if is_zero v then Inr False else hasValues x fs)"

definition extractFields :: "string list \<Rightarrow> gval \<Rightarrow> gval list res" where
  "extractFields fs x = map_res (field_of x) fs"

text \<open>\<^verbatim>\<open>copyFields(dst, src, fields)\<close>: fields unknown to either side are skipped.\<close>

fun copyFields :: "gval \<Rightarrow> gval \<Rightarrow> string list \<Rightarrow> gval" where
  "copyFields dst src [] = dst"
| "copyFields dst src (f # fs) =
     copyFields (case struct_get src f of
        None \<Rightarrow> dst
      | Some v \<Rightarrow> (if struct_get dst f = None then dst else struct_set dst f v)) src fs"

record lookup_key =
  lk_columns :: "string list"
  lk_fields :: "string list"
  lk_values :: "gval list"
  lk_canInsert :: bool
  lk_groupKey :: string
  lk_valuesKey :: string

text \<open>\<^verbatim>\<open>encoding/json\<close> on the values of a key is a parameter: it may refuse a value. A list of
  strings it always encodes.\<close>

record json_encoder =
  js_values :: "gval list \<Rightarrow> string res"
  js_strings :: "string list \<Rightarrow> string"

definition newLookupKey ::
    "json_encoder \<Rightarrow> string list \<Rightarrow> string list \<Rightarrow> gval list \<Rightarrow> bool \<Rightarrow> lookup_key res" where
  "newLookupKey js columnNames fieldNames vs canInsert =
     bind_res (wrap_res ''marshaling values for values key'' (js_values js vs)) (\<lambda>vk.
       Inr \<lparr>lk_columns = columnNames, lk_fields = fieldNames, lk_values = vs,
            lk_canInsert = canInsert, lk_groupKey = js_strings js fieldNames, lk_valuesKey = vk\<rparr>)"

fun find_unique_key :: "json_encoder \<Rightarrow> mapping \<Rightarrow> gval \<Rightarrow> string list list \<Rightarrow> lookup_key option res" where
  "find_unique_key js m x [] = Inr None"
| "find_unique_key js m x (ukCols # uks) =
     bind_res (wrap_res ''getting unique key fields'' (columnNamesToFields m ukCols)) (\<lambda>ukFields.
     bind_res (hasValues x ukFields) (\<lambda>has.
       if has then
         bind_res (extractFields ukFields x) (\<lambda>vs.
         bind_res (wrap_res ''creating unique key lookup''
             (newLookupKey js ukCols ukFields vs (keyColumnsCanInsert m ukCols))) (\<lambda>key. Inr (Some key)))
       else find_unique_key js m x uks))"

definition findPopulatedLookupKey :: "json_encoder \<Rightarrow> mapping \<Rightarrow> gval \<Rightarrow> lookup_key option res" where
  "findPopulatedLookupKey js m x =
     bind_res (wrap_res ''getting primary key fields'' (primaryKeyFields m)) (\<lambda>pkFields.
     bind_res (hasValues x pkFields) (\<lambda>has.
       if has then
         bind_res (extractFields pkFields x) (\<lambda>vs.
         bind_res (wrap_res ''creating primary key lookup''
             (newLookupKey js (m_primaryKey m) pkFields vs (keyColumnsCanInsert m (m_primaryKey m))))
           (\<lambda>key. Inr (Some key)))
       else find_unique_key js m x (m_uniqueKeys m)))"

section \<open>Relations of a cascading put (mapping.go)\<close>

record rel_info =
  ri_fieldName :: string
  ri_relation :: relation
  ri_parent :: mapping
  ri_related :: mapping
  ri_fkIsLocal :: bool
  ri_opts :: relation_opts

definition relInfo_of :: "config \<Rightarrow> mapping \<Rightarrow> string \<times> relation_opts \<Rightarrow> rel_info res" where
  "relInfo_of cfg m fr =
     (let fieldName = fst fr in
      case relationByField m fieldName of
        None \<Rightarrow> Inl (Errorf (''relation '' @ fieldName @ '' not found in mapping''))
      | Some rel \<Rightarrow>
     (case struct_field m fieldName of
        None \<Rightarrow> Inl (Errorf (''field '' @ fieldName @ '' not found on struct''))
      | Some ty \<Rightarrow>
     (if \<not> is_TPtr ty \<and> \<not> is_TSlice ty
      then Inl (Errorf (''relation field '' @ fieldName @ '' must be pointer or slice''))
      else let related = (if is_TPtr ty then ty else elem_type ty) in
      case map_of (cfg_mappings cfg) (typeID related) of
        None \<Rightarrow> Inl (Errorf (''mapping unavailable for related type '' @ typeID related))
      | Some rm \<Rightarrow> Inr \<lparr>ri_fieldName = fieldName, ri_relation = rel, ri_parent = m, ri_related = rm,
                         ri_fkIsLocal = foreignKeyIsLocal m rel, ri_opts = snd fr\<rparr>)))"

fun categorize_loop :: "config \<Rightarrow> mapping \<Rightarrow> (string \<times> relation_opts) list \<Rightarrow>
    rel_info list \<times> rel_info list \<Rightarrow> (rel_info list \<times> rel_info list) res" where
  "categorize_loop cfg m [] acc = Inr acc"
| "categorize_loop cfg m (fr # rels) acc =
     bind_res (relInfo_of cfg m fr) (\<lambda>info.
       categorize_loop cfg m rels
         (if ri_fkIsLocal info then (fst acc @ [info], snd acc) else (fst acc, snd acc @ [info])))"

definition categorizeRelationsForPut ::
    "config \<Rightarrow> mapping \<Rightarrow> (string \<times> relation_opts) list \<Rightarrow> (rel_info list \<times> rel_info list) res" where
  "categorizeRelationsForPut cfg m relations = categorize_loop cfg m relations ([], [])"

text \<open>\<^verbatim>\<open>copyFKValues\<close>: the pair of parent and related object, updated. \<^verbatim>\<open>Set\<close> panics when the
  types of the two fields differ; the model copies the value.\<close>

definition copyFK_pair :: "rel_info \<Rightarrow> gval \<times> gval \<Rightarrow> string \<times> string \<Rightarrow> (gval \<times> gval) res" where
  "copyFK_pair r objs col =
     bind_res (wrap_res (''mapping local column '' @ fst col) (columnNamesToFields (ri_parent r) [fst col])) (\<lambda>lfs.
     bind_res (wrap_res (''mapping remote column '' @ snd col) (columnNamesToFields (ri_related r) [snd col])) (\<lambda>rfs.
     bind_res (field_of (fst objs) (lfs ! 0)) (\<lambda>lv.
     bind_res (field_of (snd objs) (rfs ! 0)) (\<lambda>rv.
       if ri_fkIsLocal r
       then Inr (if \<not> is_zero rv \<and> is_zero lv then (struct_set (fst objs) (lfs ! 0) rv, snd objs) else objs)
       else Inr (if \<not> is_zero lv \<and> is_zero rv then (fst objs, struct_set (snd objs) (rfs ! 0) lv) else objs)))))"

definition copyFKValues :: "rel_info \<Rightarrow> gval \<Rightarrow> gval \<Rightarrow> (gval \<times> gval) res" where
  "copyFKValues r parentVal relatedVal =
     fold_res (copyFK_pair r) (parentVal, relatedVal) (r_columns (ri_relation r))"

end
