(* ===== verification/Zormtest_Models.thy ===== *)
theory Zormtest_Models
  imports Zormsql_Mapping
begin

text \<open>
  The models of \<^verbatim>\<open>go/zorm/zormtest/models.go\<close> and their mappings in
  \<^verbatim>\<open>go/zorm/zormsql/driver/zormsqlite3/zormsqlite3_test/mappers.go\<close>: accounts, users,
  authentications and addresses, with relations in both directions. The theories that follow
  use this configuration wherever they show a property at work on a concrete mapping.
\<close>

definition zormtest_pkg :: string where
  "zormtest_pkg = ''github.com/milagre/zote/go/zorm/zormtest''"

section \<open>Models\<close>

definition Account_struct :: struct_def where
  "Account_struct = \<lparr>sd_pkg = zormtest_pkg, sd_name = ''Account'', sd_fields =
     [(''ID'', TString),
      (''Created'', TTime),
      (''Modified'', TPtr TTime),
      (''Company'', TString),
      (''ContactEmail'', TString),
      (''Users'', TSlice (TPtr (TStruct zormtest_pkg ''User'')))]\<rparr>"

definition User_struct :: struct_def where
  "User_struct = \<lparr>sd_pkg = zormtest_pkg, sd_name = ''User'', sd_fields =
     [(''ID'', TString),
      (''Created'', TTime),
      (''Modified'', TPtr TTime),
      (''AccountID'', TString),
      (''Account'', TPtr (TStruct zormtest_pkg ''Account'')),
      (''AddressID'', TPtr TString),
      (''Address'', TPtr (TStruct zormtest_pkg ''UserAddress'')),
      (''Auths'', TSlice (TPtr (TStruct zormtest_pkg ''UserAuth''))),
      (''FirstName'', TString)]\<rparr>"

definition UserAuth_struct :: struct_def where
  "UserAuth_struct = \<lparr>sd_pkg = zormtest_pkg, sd_name = ''UserAuth'', sd_fields =
     [(''ID'', TString),
      (''Created'', TTime),
      (''Modified'', TPtr TTime),
      (''UserID'', TString),
      (''User'', TPtr (TStruct zormtest_pkg ''User'')),
      (''Provider'', TString),
      (''Data'', TString)]\<rparr>"

definition UserAddress_struct :: struct_def where
  "UserAddress_struct = \<lparr>sd_pkg = zormtest_pkg, sd_name = ''UserAddress'', sd_fields =
     [(''ID'', TString),
      (''Created'', TTime),
      (''Modified'', TPtr TTime),
      (''Street'', TString),
      (''City'', TString),
      (''State'', TString)]\<rparr>"

section \<open>Mappings\<close>

definition AccountMapping :: mapping where
  "AccountMapping =
     \<lparr>m_ptr = Account_struct, m_table = ''accounts'', m_primaryKey = [''id''], m_uniqueKeys = [[''company'']],
      m_columns =
        [\<lparr>cm_name = ''id'', cm_field = ''ID'', cm_noInsert = True, cm_noUpdate = True\<rparr>,
         \<lparr>cm_name = ''created'', cm_field = ''Created'', cm_noInsert = True, cm_noUpdate = True\<rparr>,
         \<lparr>cm_name = ''modified'', cm_field = ''Modified'', cm_noInsert = True, cm_noUpdate = True\<rparr>,
         \<lparr>cm_name = ''company'', cm_field = ''Company'', cm_noInsert = False, cm_noUpdate = False\<rparr>,
         \<lparr>cm_name = ''contact_email'', cm_field = ''ContactEmail'', cm_noInsert = False, cm_noUpdate = False\<rparr>],
      m_relations =
        [\<lparr>r_table = ''users'', r_columns = [(''id'', ''account_id'')], r_field = ''Users''\<rparr>]\<rparr>"

definition UserAddressMapping :: mapping where
  "UserAddressMapping =
     \<lparr>m_ptr = UserAddress_struct, m_table = ''user_addresses'', m_primaryKey = [''id''], m_uniqueKeys = [],
      m_columns =
        [\<lparr>cm_name = ''id'', cm_field = ''ID'', cm_noInsert = True, cm_noUpdate = True\<rparr>,
         \<lparr>cm_name = ''created'', cm_field = ''Created'', cm_noInsert = True, cm_noUpdate = True\<rparr>,
         \<lparr>cm_name = ''modified'', cm_field = ''Modified'', cm_noInsert = True, cm_noUpdate = True\<rparr>,
         \<lparr>cm_name = ''street'', cm_field = ''Street'', cm_noInsert = False, cm_noUpdate = False\<rparr>,
         \<lparr>cm_name = ''city'', cm_field = ''City'', cm_noInsert = False, cm_noUpdate = False\<rparr>,
         \<lparr>cm_name = ''state'', cm_field = ''State'', cm_noInsert = False, cm_noUpdate = False\<rparr>],
      m_relations =
        []\<rparr>"

definition UserMapping :: mapping where
  "UserMapping =
     \<lparr>m_ptr = User_struct, m_table = ''users'', m_primaryKey = [''id''], m_uniqueKeys = [],
      m_columns =
        [\<lparr>cm_name = ''id'', cm_field = ''ID'', cm_noInsert = True, cm_noUpdate = True\<rparr>,
         \<lparr>cm_name = ''created'', cm_field = ''Created'', cm_noInsert = True, cm_noUpdate = True\<rparr>,
         \<lparr>cm_name = ''modified'', cm_field = ''Modified'', cm_noInsert = True, cm_noUpdate = True\<rparr>,
         \<lparr>cm_name = ''account_id'', cm_field = ''AccountID'', cm_noInsert = False, cm_noUpdate = False\<rparr>,
         \<lparr>cm_name = ''user_address_id'', cm_field = ''AddressID'', cm_noInsert = False, cm_noUpdate = False\<rparr>,
         \<lparr>cm_name = ''first_name'', cm_field = ''FirstName'', cm_noInsert = False, cm_noUpdate = False\<rparr>],
      m_relations =
        [\<lparr>r_table = ''accounts'', r_columns = [(''account_id'', ''id'')], r_field = ''Account''\<rparr>,
         \<lparr>r_table = ''user_auths'', r_columns = [(''id'', ''user_id'')], r_field = ''Auths''\<rparr>,
         \<lparr>r_table = ''user_addresses'', r_columns = [(''user_address_id'', ''id'')], r_field = ''Address''\<rparr>]\<rparr>"

definition UserAuthMapping :: mapping where
  "UserAuthMapping =
     \<lparr>m_ptr = UserAuth_struct, m_table = ''user_auths'', m_primaryKey = [''id''], m_uniqueKeys = [],
      m_columns =
        [\<lparr>cm_name = ''id'', cm_field = ''ID'', cm_noInsert = True, cm_noUpdate = True\<rparr>,
         \<lparr>cm_name = ''created'', cm_field = ''Created'', cm_noInsert = True, cm_noUpdate = True\<rparr>,
         \<lparr>cm_name = ''modified'', cm_field = ''Modified'', cm_noInsert = True, cm_noUpdate = True\<rparr>,
         \<lparr>cm_name = ''user_id'', cm_field = ''UserID'', cm_noInsert = False, cm_noUpdate = False\<rparr>,
         \<lparr>cm_name = ''provider'', cm_field = ''Provider'', cm_noInsert = False, cm_noUpdate = False\<rparr>,
         \<lparr>cm_name = ''data'', cm_field = ''Data'', cm_noInsert = False, cm_noUpdate = False\<rparr>],
      m_relations =
        [\<lparr>r_table = ''users'', r_columns = [(''user_id'', ''id'')], r_field = ''User''\<rparr>]\<rparr>"

text \<open>The configuration after \<^verbatim>\<open>AddMapping\<close> of all four.\<close>

definition zormtest_cfg :: config where
  "zormtest_cfg =
     \<lparr>cfg_name = ''test'', cfg_mappings =
       map (\<lambda>m. (typeID (ptr_type m), m)) [AccountMapping, UserAddressMapping, UserMapping, UserAuthMapping]\<rparr>"

lemmas zormtest_defs = zormtest_cfg_def AccountMapping_def UserMapping_def UserAddressMapping_def
  UserAuthMapping_def Account_struct_def User_struct_def UserAuth_struct_def UserAddress_struct_def
  zormtest_pkg_def

lemma zormtest_registered:
  "fold_res addMapping \<lparr>cfg_name = ''test'', cfg_mappings = []\<rparr>
     [AccountMapping, UserAddressMapping, UserMapping, UserAuthMapping] = Inr zormtest_cfg"
  by (simp add: addMapping_def zormtest_defs ptr_type_def typeID_def Let_def)

text \<open>\<^verbatim>\<open>ValidateMapping\<close> of \<^verbatim>\<open>zormsqltest.go\<close>. A \<^verbatim>\<open>PtrType\<close> is a pointer to a struct here and never zero.\<close>

definition ValidateMapping :: "mapping \<Rightarrow> bool" where
  "ValidateMapping m \<longleftrightarrow>
     m_table m \<noteq> [] \<and> m_primaryKey m \<noteq> [] \<and> 0 < length (m_primaryKey m) \<and>
     m_columns m \<noteq> [] \<and> 0 < length (m_columns m)"

lemma zormtest_validated: "\<forall>(t, m) \<in> set (cfg_mappings zormtest_cfg). ValidateMapping m"
  by (simp add: ValidateMapping_def zormtest_defs)

lemma zormtest_mapping:
  "map_of (cfg_mappings zormtest_cfg) (typeID (TPtr (TStruct zormtest_pkg ''Account''))) = Some AccountMapping"
  "map_of (cfg_mappings zormtest_cfg) (typeID (TPtr (TStruct zormtest_pkg ''User''))) = Some UserMapping"
  "map_of (cfg_mappings zormtest_cfg) (typeID (TPtr (TStruct zormtest_pkg ''UserAuth''))) = Some UserAuthMapping"
  "map_of (cfg_mappings zormtest_cfg) (typeID (TPtr (TStruct zormtest_pkg ''UserAddress''))) = Some UserAddressMapping"
  by (simp_all add: zormtest_defs ptr_type_def typeID_def Let_def)

end
