(* ===== verification/Zormsql_Mapping_Laws.thy ===== *)
theory Zormsql_Mapping_Laws
  imports Zormtest_Models
begin

text \<open>
  Laws of \<^verbatim>\<open>mapping.go\<close>: which columns an insert or update touches, the shape of the structure a
  select is built from, the order of a cascading put, foreign keys and lookup keys. The concrete
  instances use the mappings of \<^verbatim>\<open>zormtest\<close>.
\<close>

section \<open>Insertable and updatable columns\<close>

definition picked :: "(col_map \<Rightarrow> bool) \<Rightarrow> mapping \<Rightarrow> string list \<Rightarrow> col_map list" where
  "picked ok m fs = concat (map (\<lambda>f. filter (\<lambda>c. f = cm_field c \<and> ok c) (m_columns m)) fs)"

lemma filter_field_distinct:
  "distinct (map cm_field cs) \<Longrightarrow> map cm_field (filter (\<lambda>c. f = cm_field c \<and> ok c) cs) =
     (if f \<in> cm_field ` set (filter ok cs) then [f] else [])"
proof (induction cs)
  case (Cons c cs)
  show ?case
  proof (cases "f = cm_field c")
    case True
    with Cons.prems have "f \<notin> cm_field ` set cs" by simp
    then have "filter (\<lambda>c. f = cm_field c \<and> ok c) cs = []" "f \<notin> cm_field ` set (filter ok cs)"
      by (auto simp: filter_empty_conv)
    with True show ?thesis by simp
  next
    case False
    with Cons show ?thesis by auto
  qed
qed simp

lemma picked_fields:
  assumes "distinct (allFields m)"
  shows "map cm_field (picked ok m fs) = filter (\<lambda>f. f \<in> cm_field ` set (filter ok (m_columns m))) fs"
  using filter_field_distinct [OF assms [unfolded allFields_def], of _ ok]
  by (induction fs) (simp_all add: picked_def)

lemma picked_sound: "c \<in> set (picked ok m fs) \<Longrightarrow> c \<in> set (m_columns m) \<and> ok c \<and> cm_field c \<in> set fs"
  by (auto simp: picked_def)

lemma insertFields_picked:
  "insertFields m fs =
     (let p = picked (\<lambda>c. \<not> cm_noInsert c) m (resolve fs (map cm_field (filter (\<lambda>c. \<not> cm_noInsert c) (m_columns m))))
      in (map cm_field p, map (\<lambda>c. \<lparr>c_table = \<lparr>t_name = m_table m, t_alias = []\<rparr>, c_name = cm_name c, c_alias = []\<rparr>) p))"
  by (simp add: insertFields_def picked_def Let_def)

lemma updateFields_picked:
  "updateFields m fs =
     map cm_field (picked (\<lambda>c. \<not> cm_noUpdate c) m (resolve fs (map cm_field (filter (\<lambda>c. \<not> cm_noUpdate c) (m_columns m)))))"
  by (simp add: updateFields_def picked_def Let_def map_concat comp_def)

text \<open>for a mapping with one column per field, \<^verbatim>\<open>insertFields\<close> returns exactly the requested fields
  whose column may be inserted, in the order of the request, each next to its own column; a column
  marked \<^verbatim>\<open>NoInsert\<close> never reaches an INSERT.\<close>

theorem insertFields_exact:
  assumes "distinct (allFields m)"
  shows "fst (insertFields m fs) =
           filter (\<lambda>f. \<exists>c \<in> set (m_columns m). cm_field c = f \<and> \<not> cm_noInsert c)
             (resolve fs (map cm_field (filter (\<lambda>c. \<not> cm_noInsert c) (m_columns m)))) \<and>
         list_all2 (\<lambda>f col. \<exists>c \<in> set (m_columns m). cm_field c = f \<and> \<not> cm_noInsert c \<and>
              c_name col = cm_name c \<and> c_table col = \<lparr>t_name = m_table m, t_alias = []\<rparr>)
           (fst (insertFields m fs)) (snd (insertFields m fs))"
proof -
  let ?all = "map cm_field (filter (\<lambda>c. \<not> cm_noInsert c) (m_columns m))"
  let ?p = "picked (\<lambda>c. \<not> cm_noInsert c) m (resolve fs ?all)"
  have iff: "(f \<in> cm_field ` set (filter (\<lambda>c. \<not> cm_noInsert c) (m_columns m))) =
      (\<exists>c \<in> set (m_columns m). cm_field c = f \<and> \<not> cm_noInsert c)" for f by auto
  have "list_all2 (\<lambda>f col. \<exists>c \<in> set (m_columns m). cm_field c = f \<and> \<not> cm_noInsert c \<and>
              c_name col = cm_name c \<and> c_table col = \<lparr>t_name = m_table m, t_alias = []\<rparr>)
      (map cm_field ?p)
      (map (\<lambda>c. \<lparr>c_table = \<lparr>t_name = m_table m, t_alias = []\<rparr>, c_name = cm_name c, c_alias = []\<rparr>) ?p)"
    by (auto simp: list_all2_map1 list_all2_map2 list.rel_refl_strong intro!: list.rel_refl_strong dest!: picked_sound)
  then show ?thesis
    using picked_fields [OF assms, of "\<lambda>c. \<not> cm_noInsert c" "resolve fs ?all"]
    unfolding insertFields_picked Let_def iff by simp
qed

text \<open>the same for \<^verbatim>\<open>updateFields\<close>: an UPDATE sets the requested fields whose column may be
  updated and no other.\<close>

theorem updateFields_exact:
  assumes "distinct (allFields m)"
  shows "updateFields m fs =
           filter (\<lambda>f. \<exists>c \<in> set (m_columns m). cm_field c = f \<and> \<not> cm_noUpdate c)
             (resolve fs (map cm_field (filter (\<lambda>c. \<not> cm_noUpdate c) (m_columns m))))"
proof -
  have iff: "(f \<in> cm_field ` set (filter (\<lambda>c. \<not> cm_noUpdate c) (m_columns m))) =
      (\<exists>c \<in> set (m_columns m). cm_field c = f \<and> \<not> cm_noUpdate c)" for f by auto
  show ?thesis unfolding updateFields_picked picked_fields [OF assms] iff ..
qed

theorem insertFields_exact_witness:
  "fst (insertFields UserMapping [''-FirstName'']) = [''AccountID'', ''AddressID''] \<and>
   length (snd (insertFields UserMapping [''-FirstName''])) = 2"
proof -
  have "distinct (allFields UserMapping)" by (simp add: allFields_def zormtest_defs)
  from insertFields_exact [OF this, of "[''-FirstName'']"]
  show ?thesis by (auto simp: zormtest_defs resolve_def isNegated_def dest: list_all2_lengthD)
qed

theorem updateFields_exact_witness:
  "updateFields UserMapping [''ID'', ''FirstName''] = [''FirstName'']"
proof -
  have "distinct (allFields UserMapping)" by (simp add: allFields_def zormtest_defs)
  from updateFields_exact [OF this, of "[''ID'', ''FirstName'']"]
  show ?thesis by (simp add: zormtest_defs resolve_def isNegated_def)
qed

section \<open>Alignment of columns and scan targets\<close>

text \<open>A structure is aligned when, at every level, columns, field names and scan targets of the
  primary key and of the other fields have the same number, and all columns are of the table.\<close>

fun aligned :: "qstructure \<Rightarrow> bool"
and aligned_rels :: "table \<Rightarrow> (string \<times> join_structure) list \<Rightarrow> bool" where
  "aligned (Structure tbl cols fs ts pk pkfs pkts rels) \<longleftrightarrow>
     length cols = length fs \<and> length ts = length fs \<and> length pk = length pkfs \<and> length pkts = length pkfs \<and>
     list_all (\<lambda>c. c_table c = tbl) (pk @ cols) \<and> aligned_rels tbl rels"
| "aligned_rels tbl [] = True"
| "aligned_rels tbl ((f, JoinStructure many ps w srt s m) # rels) \<longleftrightarrow>
     aligned s \<and> list_all (\<lambda>p. c_table (fst p) = tbl \<and> c_table (snd p) = st_table s) ps \<and> aligned_rels tbl rels"

lemma full_lengths:
  "aligned s \<Longrightarrow> length (fullColumns s) = length (fullTarget s)"
  "aligned_rels tbl rels \<Longrightarrow> length (fullColumns_rels rels) = length (fullTarget_rels rels)"
  by (induction s and tbl rels rule: aligned_aligned_rels.induct) auto

text \<open>What a successful step over a relation went through.\<close>

lemma mapStructure_rels_ConsE:
  assumes "mapStructure_rels cfg m tbl p ((f, RelationOpts (Include fs rs) w srt) # rels) = Inr out"
  obtains ty om rm s more where "struct_field m f = Some ty"
    "is_TPtr ty \<or> is_TSlice ty"
    "map_of (cfg_mappings cfg) (typeID (if is_TPtr ty then ty else elem_type ty)) = Some om"
    "relationByField m f = Some rm"
    "mapStructure cfg om \<lparr>t_name = m_table om, t_alias = (if p \<noteq> [] then p @ ''_'' @ f else f)\<rparr>
       (if p \<noteq> [] then p @ ''_'' @ f else f) fs rs = Inr s"
    "mapStructure_rels cfg m tbl p rels = Inr more"
    "out = (f, JoinStructure (is_TSlice ty)
        (map (\<lambda>q. (\<lparr>c_table = tbl, c_name = fst q, c_alias = []\<rparr>,
                   \<lparr>c_table = \<lparr>t_name = m_table om, t_alias = (if p \<noteq> [] then p @ ''_'' @ f else f)\<rparr>,
                    c_name = snd q, c_alias = []\<rparr>)) (r_columns rm)) w srt s om) # more"
  using assms unfolding mapStructure_rels.simps Let_def
  by (auto simp: bind_res_Inr simp del: mapStructure.simps mapStructure_rels.simps
      split: option.splits if_split_asm)

lemma mapStructure_field_table: "mapStructure_field m tbl p f = Inr ct \<Longrightarrow> c_table (fst ct) = tbl"
  by (auto simp: mapStructure_field_def split: option.splits if_splits)

lemma map_res_fields_tables:
  "map_res (mapStructure_field m tbl p) fs = Inr cts \<Longrightarrow> list_all (\<lambda>ct. c_table (fst ct) = tbl) cts"
  unfolding map_res_Inr
  by (induction fs cts rule: list_all2_induct) (auto dest: mapStructure_field_table)

lemma mapStructure_table: "mapStructure cfg m tbl p fs rels = Inr s \<Longrightarrow> st_table s = tbl"
  by (auto simp: bind_res_Inr Let_def)

lemma mapStructure_is_aligned:
  "mapStructure cfg m tbl p fs rels = Inr s \<Longrightarrow> aligned s"
  "mapStructure_rels cfg m tbl p rels = Inr out \<Longrightarrow> aligned_rels tbl out"
proof (induction cfg m tbl p fs rels and cfg m tbl p rels arbitrary: s and out
    rule: mapStructure_mapStructure_rels.induct)
  case (1 cfg m tbl p fs rels)
  from "1.prems" obtain pkf cts joined where
    pkf: "primaryKeyFields m = Inr pkf"
    and cts: "map_res (mapStructure_field m tbl p) (pkf @ resolve fs (allFields m)) = Inr cts"
    and j: "mapStructure_rels cfg m tbl p rels = Inr joined"
    and s: "s = Structure tbl (drop (length pkf) (map fst cts)) (drop (length pkf) (pkf @ resolve fs (allFields m)))
        (drop (length pkf) (map snd cts)) (take (length pkf) (map fst cts))
        (take (length pkf) (pkf @ resolve fs (allFields m))) (take (length pkf) (map snd cts)) joined"
    by (auto simp: bind_res_Inr Let_def)
  have "aligned_rels tbl joined" using "1.IH" pkf cts j by auto
  moreover have "length cts = length pkf + length (resolve fs (allFields m))"
    using map_res_length [OF cts] by simp
  moreover have "list_all (\<lambda>c. c_table c = tbl) (map fst cts)"
    using map_res_fields_tables [OF cts] by (simp add: list_all_iff)
  ultimately show ?case by (simp add: s list_all_iff)
next
  case (2 cfg m tbl p)
  then show ?case by simp
next
  case (3 cfg m tbl p f fs rs w srt rels)
  from "3.prems" obtain ty om rm s more where step: "struct_field m f = Some ty"
    "is_TPtr ty \<or> is_TSlice ty"
    "map_of (cfg_mappings cfg) (typeID (if is_TPtr ty then ty else elem_type ty)) = Some om"
    "relationByField m f = Some rm"
    and s: "mapStructure cfg om \<lparr>t_name = m_table om, t_alias = (if p \<noteq> [] then p @ ''_'' @ f else f)\<rparr>
       (if p \<noteq> [] then p @ ''_'' @ f else f) fs rs = Inr s"
    and more: "mapStructure_rels cfg m tbl p rels = Inr more"
    and out: "out = (f, JoinStructure (is_TSlice ty)
        (map (\<lambda>q. (\<lparr>c_table = tbl, c_name = fst q, c_alias = []\<rparr>,
                   \<lparr>c_table = \<lparr>t_name = m_table om, t_alias = (if p \<noteq> [] then p @ ''_'' @ f else f)\<rparr>,
                    c_name = snd q, c_alias = []\<rparr>)) (r_columns rm)) w srt s om) # more"
    by (rule mapStructure_rels_ConsE)
  have "\<not> (\<not> is_TPtr ty \<and> \<not> is_TSlice ty)" using step(2) by blast
  note IH = "3.IH"(1) [OF step(1) this refl step(3,4) refl refl s]
    "3.IH"(2) [OF step(1) this refl step(3,4) refl refl, of s, OF _ more]
  have "aligned s" by (rule IH(1))
  moreover have "aligned_rels tbl more" by (rule IH(2)) (use s in \<open>simp only: wrap_res_Inr\<close>)
  ultimately show ?case using mapStructure_table [OF s] by (simp add: out list_all_iff)
qed


section \<open>Table aliases\<close>

fun rel_aliases :: "qstructure \<Rightarrow> string list"
and rel_aliases_rels :: "(string \<times> join_structure) list \<Rightarrow> string list" where
  "rel_aliases (Structure tbl cols fs ts pk pkfs pkts rels) = rel_aliases_rels rels"
| "rel_aliases_rels [] = []"
| "rel_aliases_rels ((f, JoinStructure many ps w srt s m) # rels) =
     t_alias (st_table s) # rel_aliases s @ rel_aliases_rels rels"

text \<open>The relation paths of a request, outermost name first.\<close>

fun rel_paths :: "string list \<Rightarrow> (string \<times> relation_opts) list \<Rightarrow> string list list" where
  "rel_paths pre [] = []"
| "rel_paths pre ((f, RelationOpts (Include fs rs) w srt) # rels) =
     (pre @ [f]) # rel_paths (pre @ [f]) rs @ rel_paths pre rels"

text \<open>A request as a Go map of maps: distinct names at every level, each an identifier without an
  underscore.\<close>

fun plain_names :: "(string \<times> relation_opts) list \<Rightarrow> bool" where
  "plain_names [] = True"
| "plain_names ((f, RelationOpts (Include fs rs) w srt) # rels) \<longleftrightarrow>
     f \<noteq> [] \<and> CHR ''_'' \<notin> set f \<and> f \<notin> fst ` set rels \<and> plain_names rs \<and> plain_names rels"

lemma join_eq_Nil: "[] \<notin> set ws \<Longrightarrow> join sep ws = [] \<longleftrightarrow> ws = []"
  by (cases ws; cases "tl ws") auto

lemma mapStructure_aliases_paths:
  "mapStructure cfg m tbl (join ''_'' pre) fs rels = Inr s \<Longrightarrow> [] \<notin> set pre \<Longrightarrow> plain_names rels \<Longrightarrow>
     rel_aliases s = map (join ''_'') (rel_paths pre rels)"
  "mapStructure_rels cfg m tbl (join ''_'' pre) rels = Inr out \<Longrightarrow> [] \<notin> set pre \<Longrightarrow> plain_names rels \<Longrightarrow>
     rel_aliases_rels out = map (join ''_'') (rel_paths pre rels)"
proof (induction cfg m tbl "join ''_'' pre" fs rels and cfg m tbl "join ''_'' pre" rels arbitrary: pre s and pre out
    rule: mapStructure_mapStructure_rels.induct)
  case (1 cfg m tbl fs rels pre s)
  then show ?case by (auto simp: bind_res_Inr Let_def simp del: mapStructure_rels.simps)
next
  case (2 cfg m tbl)
  then show ?case by simp
next
  case (3 cfg m tbl f fs rs w srt rels pre out)
  let ?al = "if join ''_'' pre \<noteq> [] then join ''_'' pre @ ''_'' @ f else f"
  from "3.prems"(1) obtain ty om rm s more where step: "struct_field m f = Some ty"
    "is_TPtr ty \<or> is_TSlice ty"
    "map_of (cfg_mappings cfg) (typeID (if is_TPtr ty then ty else elem_type ty)) = Some om"
    "relationByField m f = Some rm"
    and s: "mapStructure cfg om \<lparr>t_name = m_table om, t_alias = ?al\<rparr> ?al fs rs = Inr s"
    and more: "mapStructure_rels cfg m tbl (join ''_'' pre) rels = Inr more"
    and out: "out = (f, JoinStructure (is_TSlice ty)
        (map (\<lambda>q. (\<lparr>c_table = tbl, c_name = fst q, c_alias = []\<rparr>,
                   \<lparr>c_table = \<lparr>t_name = m_table om, t_alias = ?al\<rparr>,
                    c_name = snd q, c_alias = []\<rparr>)) (r_columns rm)) w srt s om) # more"
    by (rule mapStructure_rels_ConsE)
  have kind: "\<not> (\<not> is_TPtr ty \<and> \<not> is_TSlice ty)" using step(2) by blast
  have al: "?al = join ''_'' (pre @ [f])"
    using join_eq_Nil [OF "3.prems"(2)] by (simp add: join_map_append)
  have "rel_aliases s = map (join ''_'') (rel_paths (pre @ [f]) rs)"
    using "3.hyps"(1) [OF step(1) kind refl step(3,4) al [symmetric] refl s [unfolded al]] "3.prems"(2,3)
    by (auto simp del: mapStructure.simps mapStructure_rels.simps)
  moreover have "rel_aliases_rels more = map (join ''_'') (rel_paths pre rels)"
    by (rule "3.hyps"(2) [OF step(1) kind refl step(3,4) refl refl, of s])
      (use s more "3.prems"(2,3) in \<open>auto simp del: mapStructure.simps mapStructure_rels.simps\<close>)
  ultimately show ?case using mapStructure_table [OF s] al by (simp add: out)
qed

lemma rel_paths_prefix: "p \<in> set (rel_paths pre rels) \<Longrightarrow> \<exists>f q. p = pre @ f # q \<and> f \<in> fst ` set rels"
proof (induction pre rels rule: rel_paths.induct)
  case (2 pre f fs rs w srt rels)
  from "2.prems" consider "p = pre @ [f]" | "p \<in> set (rel_paths (pre @ [f]) rs)" | "p \<in> set (rel_paths pre rels)"
    by auto
  then show ?case
  proof cases
    case 1
    then show ?thesis by auto
  next
    case 2
    from "2.IH"(1) [OF 2] show ?thesis by auto
  next
    case 3
    from "2.IH"(2) [OF 3] show ?thesis by auto
  qed
qed simp

lemma rel_paths_words: "plain_names rels \<Longrightarrow> p \<in> set (rel_paths pre rels) \<Longrightarrow> w \<in> set p \<Longrightarrow>
    w \<in> set pre \<or> w \<noteq> [] \<and> CHR ''_'' \<notin> set w"
  by (induction pre rels rule: rel_paths.induct) auto

lemma rel_paths_distinct: "plain_names rels \<Longrightarrow> distinct (rel_paths pre rels)"
proof (induction pre rels rule: rel_paths.induct)
  case (2 pre f fs rs w srt rels)
  have "pre @ [f] \<notin> set (rel_paths (pre @ [f]) rs)"
    using rel_paths_prefix [of "pre @ [f]" "pre @ [f]" rs] by auto
  moreover have "\<not> (p \<in> set (rel_paths pre rels) \<and> (p = pre @ [f] \<or> p \<in> set (rel_paths (pre @ [f]) rs)))" for p
    using rel_paths_prefix [of p pre rels] rel_paths_prefix [of p "pre @ [f]" rs] "2.prems" by force
  ultimately show ?case using 2 by auto
qed simp

lemma join_underscore_inj:
  "\<forall>w \<in> set p. CHR ''_'' \<notin> set w \<Longrightarrow> \<forall>w \<in> set q. CHR ''_'' \<notin> set w \<Longrightarrow> p \<noteq> [] \<Longrightarrow> q \<noteq> [] \<Longrightarrow>
     join ''_'' p = join ''_'' q \<Longrightarrow> p = q"
  by (metis split_on_join)

text \<open>In a select over a request without underscores in its relation names, the aliases of the
  joined tables are the relation paths joined by underscores, and no two joins share an alias.\<close>

theorem mapStructure_aliases_distinct:
  assumes "mapStructure cfg m tbl [] fs rels = Inr s" "plain_names rels"
  shows "rel_aliases s = map (join ''_'') (rel_paths [] rels) \<and> distinct (rel_aliases s)"
proof -
  have eq: "rel_aliases s = map (join ''_'') (rel_paths [] rels)"
    using mapStructure_aliases_paths(1) [of cfg m tbl "[]"] assms by simp
  have words: "p \<noteq> [] \<and> (\<forall>w \<in> set p. CHR ''_'' \<notin> set w)" if "p \<in> set (rel_paths [] rels)" for p
    using rel_paths_prefix [OF that] rel_paths_words [OF assms(2) that] by auto
  have "inj_on (join ''_'') (set (rel_paths [] rels))"
    by (rule inj_onI, rule join_underscore_inj) (use words in blast)+
  with eq rel_paths_distinct [OF assms(2)] show ?thesis by (simp add: distinct_map)
qed

definition ex_rels :: "(string \<times> relation_opts) list" where
  "ex_rels = [(''Account'', RelationOpts (Include [''Company''] [(''Users'', RelationOpts (Include [] []) None [])]) None []),
              (''Auths'', RelationOpts (Include [] []) None [])]"

lemma ex_rels_mapped:
  "is_ok (mapStructure zormtest_cfg UserMapping \<lparr>t_name = ''users'', t_alias = ''$''\<rparr> [] [''FirstName''] ex_rels)"
  by code_simp

lemma ex_rels_plain: "plain_names ex_rels"
  by (simp add: ex_rels_def)


theorem mapStructure_aliases_distinct_witness:
  "\<exists>s. mapStructure zormtest_cfg UserMapping \<lparr>t_name = ''users'', t_alias = ''$''\<rparr> [] [''FirstName''] ex_rels = Inr s \<and>
       rel_aliases s = [''Account'', ''Account_Users'', ''Auths'']"
proof -
  obtain s where s: "mapStructure zormtest_cfg UserMapping \<lparr>t_name = ''users'', t_alias = ''$''\<rparr> [] [''FirstName''] ex_rels = Inr s"
    using ex_rels_mapped unfolding is_ok_iff by blast
  from mapStructure_aliases_distinct [OF s ex_rels_plain] s show ?thesis
    by (simp add: ex_rels_def del: mapStructure.simps)
qed

section \<open>Foreign keys\<close>

lemma columnsMatchPrimaryKey_iff:
  "distinct cs \<Longrightarrow> distinct (m_primaryKey m) \<Longrightarrow>
     columnsMatchPrimaryKey m cs \<longleftrightarrow> set cs = set (m_primaryKey m)"
  unfolding columnsMatchPrimaryKey_def list_all_iff
  by (metis card_subset_eq distinct_card finite_set subsetI)

lemma relInfo_of_local: "relInfo_of cfg m fr = Inr i \<Longrightarrow> ri_fkIsLocal i = foreignKeyIsLocal m (ri_relation i)"
  by (auto simp: relInfo_of_def Let_def split: option.splits if_splits)

lemma categorize_loop_eq:
  "categorize_loop cfg m rels acc =
     bind_res (map_res (relInfo_of cfg m) rels) (\<lambda>infos.
       Inr (fst acc @ filter ri_fkIsLocal infos, snd acc @ filter (\<lambda>i. \<not> ri_fkIsLocal i) infos))"
proof (induction rels arbitrary: acc)
  case (Cons fr rels)
  show ?case
    by (cases "relInfo_of cfg m fr"; cases "map_res (relInfo_of cfg m) rels") (simp_all add: Cons)
qed simp


text \<open>What one object keeps: fields that held a value keep it, an empty field stays or takes a
  value of the other object.\<close>

definition fills_from :: "gval \<Rightarrow> gval \<Rightarrow> gval \<Rightarrow> bool" where
  "fills_from y x x' \<longleftrightarrow>
     (\<forall>f. struct_get x' f = struct_get x f \<or>
        (\<exists>g u v. struct_get x f = Some u \<and> is_zero u \<and> struct_get y g = Some v \<and> \<not> is_zero v \<and>
           struct_get x' f = Some v))"

lemma fills_from_refl [simp]: "fills_from y x x"
  by (simp add: fills_from_def)

lemma fills_from_set:
  "fills_from y x x' \<Longrightarrow> struct_get x' f = Some u \<Longrightarrow> is_zero u \<Longrightarrow> struct_get y g = Some v \<Longrightarrow> \<not> is_zero v \<Longrightarrow>
     fills_from y x (struct_set x' f v)"
  unfolding fills_from_def struct_get_set by (metis option.inject option.distinct(1))

lemma field_of_Inr [simp]: "field_of x f = Inr v \<longleftrightarrow> struct_get x f = Some v"
  by (auto simp: field_of_def split: option.splits)

definition fk_inv :: "rel_info \<Rightarrow> gval \<Rightarrow> gval \<Rightarrow> gval \<times> gval \<Rightarrow> bool" where
  "fk_inv r p q s \<longleftrightarrow> (if ri_fkIsLocal r then snd s = q \<and> fills_from q p (fst s)
                    else fst s = p \<and> fills_from p q (snd s))"

lemma copyFK_pair_inv: "fk_inv r p q s \<Longrightarrow> copyFK_pair r s col = Inr s' \<Longrightarrow> fk_inv r p q s'"
  by (cases s) (auto simp: fk_inv_def copyFK_pair_def bind_res_Inr intro: fills_from_set split: if_splits)

lemma copyFK_fold_inv: "fold_res (copyFK_pair r) s cols = Inr s' \<Longrightarrow> fk_inv r p q s \<Longrightarrow> fk_inv r p q s'"
  by (rule fold_res_invariant [of cols "fk_inv r p q" "copyFK_pair r" s]) (auto intro: copyFK_pair_inv)

definition non_empty :: "gval \<Rightarrow> string \<Rightarrow> bool" where
  "non_empty x f \<longleftrightarrow> (\<exists>v. struct_get x f = Some v \<and> \<not> is_zero v)"

lemma fills_from_non_empty: "fills_from y x x' \<Longrightarrow> struct_get x f = Some v \<Longrightarrow> \<not> is_zero v \<Longrightarrow> struct_get x' f = Some v"
  unfolding fills_from_def by (metis option.inject)

lemma copyFK_pair_fills:
  assumes "copyFK_pair r s (lc, rc) = Inr s'"
    and "columnNamesToFields (ri_parent r) [lc] = Inr [lf]" "columnNamesToFields (ri_related r) [rc] = Inr [rf]"
  shows "if ri_fkIsLocal r then non_empty (snd s) rf \<longrightarrow> non_empty (fst s') lf
         else non_empty (fst s) lf \<longrightarrow> non_empty (snd s') rf"
proof -
  from assms obtain lv rv where v: "struct_get (fst s) lf = Some lv" "struct_get (snd s) rf = Some rv"
    and s': "s' = (if ri_fkIsLocal r
        then if \<not> is_zero rv \<and> is_zero lv then (struct_set (fst s) lf rv, snd s) else s
        else if \<not> is_zero lv \<and> is_zero rv then (fst s, struct_set (snd s) rf lv) else s)"
    by (cases "ri_fkIsLocal r") (auto simp: copyFK_pair_def bind_res_Inr)
  show ?thesis unfolding s' non_empty_def using v by auto
qed

lemma copyFK_effect:
  assumes ok: "copyFKValues r p q = Inr (p', q')"
    and col: "(lc, rc) \<in> set (r_columns (ri_relation r))"
    and lf: "columnNamesToFields (ri_parent r) [lc] = Inr [lf]"
    and rf: "columnNamesToFields (ri_related r) [rc] = Inr [rf]"
  shows "if ri_fkIsLocal r
         then q' = q \<and> (\<forall>f v. struct_get p f = Some v \<and> \<not> is_zero v \<longrightarrow> struct_get p' f = Some v) \<and>
              (non_empty q rf \<longrightarrow> non_empty p' lf)
         else p' = p \<and> (\<forall>f v. struct_get q f = Some v \<and> \<not> is_zero v \<longrightarrow> struct_get q' f = Some v) \<and>
              (non_empty p lf \<longrightarrow> non_empty q' rf)"
proof -
  obtain us vs where split: "r_columns (ri_relation r) = us @ (lc, rc) # vs"
    using split_list [OF col] by blast
  with ok obtain s1 s2 where
    a: "fold_res (copyFK_pair r) (p, q) us = Inr s1"
    and b: "copyFK_pair r s1 (lc, rc) = Inr s2"
    and c: "fold_res (copyFK_pair r) s2 vs = Inr (p', q')"
    by (auto simp: copyFKValues_def fold_res_append bind_res_Inr)
  have i0: "fk_inv r p q (p, q)" by (simp add: fk_inv_def)
  have i1: "fk_inv r p q s1" using copyFK_fold_inv [OF a i0] .
  have i3: "fk_inv r p q (p', q')" using copyFK_fold_inv [OF c copyFK_pair_inv [OF i1 b]] .
  have i4: "fk_inv r (fst s2) (snd s2) (p', q')"
    by (rule copyFK_fold_inv [OF c]) (simp add: fk_inv_def)
  show ?thesis
    using i1 i3 i4 copyFK_pair_fills [OF b lf rf] fills_from_non_empty
    unfolding fk_inv_def non_empty_def by (auto split: if_splits)
qed

definition ex_user :: gval where
  "ex_user = VStruct [(''ID'', VStr []), (''AccountID'', VStr []), (''FirstName'', VStr ''Ann'')]"

definition ex_account :: gval where
  "ex_account = VStruct [(''ID'', VStr ''7''), (''Company'', VStr ''Acme'')]"

text \<open>\<^verbatim>\<open>copyFKValues\<close> changes only the side that holds the foreign key, never overwrites a value that
  side already has, and leaves every foreign key field of a relation column set if the key it
  refers to is.\<close>

theorem copyFK_fills_key:
  assumes ok: "copyFKValues r p q = Inr (p', q')"
    and col: "(lc, rc) \<in> set (r_columns (ri_relation r))"
    and lf: "columnNamesToFields (ri_parent r) [lc] = Inr [lf]"
    and rf: "columnNamesToFields (ri_related r) [rc] = Inr [rf]"
  shows "if ri_fkIsLocal r
         then q' = q \<and> (\<forall>f v. struct_get p f = Some v \<and> \<not> is_zero v \<longrightarrow> struct_get p' f = Some v) \<and>
              (non_empty q rf \<longrightarrow> non_empty p' lf)
         else p' = p \<and> (\<forall>f v. struct_get q f = Some v \<and> \<not> is_zero v \<longrightarrow> struct_get q' f = Some v) \<and>
              (non_empty p lf \<longrightarrow> non_empty q' rf)"
  by (rule copyFK_effect [OF assms])

definition ex_relInfo :: rel_info where
  "ex_relInfo = \<lparr>ri_fieldName = ''Account'', ri_relation = m_relations UserMapping ! 0,
     ri_parent = UserMapping, ri_related = AccountMapping, ri_fkIsLocal = True,
     ri_opts = RelationOpts (Include [] []) None []\<rparr>"

theorem copyFK_fills_key_witness:
  "non_empty (struct_set ex_user ''AccountID'' (VStr ''7'')) ''AccountID'' \<and>
   copyFKValues ex_relInfo ex_user ex_account = Inr (struct_set ex_user ''AccountID'' (VStr ''7''), ex_account)"
proof -
  have ok: "copyFKValues ex_relInfo ex_user ex_account = Inr (struct_set ex_user ''AccountID'' (VStr ''7''), ex_account)"
    by code_simp
  have col: "(''account_id'', ''id'') \<in> set (r_columns (ri_relation ex_relInfo))"
    and f: "columnNamesToFields (ri_parent ex_relInfo) [''account_id''] = Inr [''AccountID'']"
      "columnNamesToFields (ri_related ex_relInfo) [''id''] = Inr [''ID'']"
      "ri_fkIsLocal ex_relInfo" "non_empty ex_account ''ID''"
    by (simp_all add: ex_relInfo_def zormtest_defs columnNamesToFields_def ex_account_def non_empty_def Let_def)
  from copyFK_fills_key [OF ok col f(1,2)] f(3,4) ok show ?thesis by simp
qed

section \<open>Lookup keys\<close>

lemma hasValues_iff: "hasValues x fs = Inr True \<longleftrightarrow> (\<forall>f \<in> set fs. non_empty x f)"
  by (induction fs) (auto simp: bind_res_Inr non_empty_def split: if_splits)

lemma extractFields_Inr: "extractFields fs x = Inr vs \<longleftrightarrow> map (struct_get x) fs = map Some vs"
  by (simp add: extractFields_def map_res_Inr list_all2_conv_all_nth list_eq_iff_nth_eq)
     (metis (no_types, lifting) length_map nth_map)

definition usable :: "mapping \<Rightarrow> gval \<Rightarrow> string list \<Rightarrow> bool" where
  "usable m x cols \<longleftrightarrow> (\<exists>fs. columnNamesToFields m cols = Inr fs \<and> (\<forall>f \<in> set fs. non_empty x f))"

definition key_of :: "mapping \<Rightarrow> gval \<Rightarrow> lookup_key \<Rightarrow> bool" where
  "key_of m x k \<longleftrightarrow>
     columnNamesToFields m (lk_columns k) = Inr (lk_fields k) \<and>
     map (struct_get x) (lk_fields k) = map Some (lk_values k) \<and> (\<forall>v \<in> set (lk_values k). \<not> is_zero v) \<and>
     lk_canInsert k = keyColumnsCanInsert m (lk_columns k)"

lemma newLookupKey_key_of:
  assumes "columnNamesToFields m cols = Inr fs" "hasValues x fs = Inr True" "extractFields fs x = Inr vs"
    and "newLookupKey js cols fs vs (keyColumnsCanInsert m cols) = Inr k"
  shows "key_of m x k \<and> lk_columns k = cols"
proof -
  have "\<forall>v \<in> set vs. \<not> is_zero v"
  proof
    fix v assume "v \<in> set vs"
    then have "Some v \<in> set (map (struct_get x) fs)" using assms(3) by (simp add: extractFields_Inr)
    then show "\<not> is_zero v" using assms(2) by (force simp: hasValues_iff non_empty_def)
  qed
  with assms show ?thesis
    by (auto simp: key_of_def newLookupKey_def bind_res_Inr extractFields_Inr)
qed

lemma find_unique_key_first:
  assumes "find_unique_key js m x uks = Inr r"
  shows "case r of None \<Rightarrow> \<forall>u \<in> set uks. \<not> usable m x u
         | Some k \<Rightarrow> key_of m x k \<and> (\<exists>us vs. uks = us @ lk_columns k # vs \<and> (\<forall>u \<in> set us. \<not> usable m x u))"
  using assms
proof (induction uks)
  case (Cons c uks)
  from Cons.prems obtain fs has where fs: "columnNamesToFields m c = Inr fs" and has: "hasValues x fs = Inr has"
    by (auto simp: bind_res_Inr)
  show ?case
  proof (cases has)
    case True
    with Cons.prems fs has obtain vs k where "extractFields fs x = Inr vs"
      "newLookupKey js c fs vs (keyColumnsCanInsert m c) = Inr k" "r = Some k"
      by (auto simp: bind_res_Inr)
    moreover from this newLookupKey_key_of [OF fs] has True have "key_of m x k" "lk_columns k = c" by auto
    ultimately show ?thesis by (auto intro: exI [of _ "[]"])
  next
    case False
    with has have "hasValues x fs \<noteq> Inr True" by simp
    then have nu: "\<not> usable m x c" using fs by (auto simp: usable_def hasValues_iff)
    from False Cons.prems fs has have "find_unique_key js m x uks = Inr r" by simp
    from Cons.IH [OF this] nu show ?thesis
      by (auto split: option.splits) (metis append_Cons set_ConsD)
  qed
qed simp

text \<open>\<^verbatim>\<open>findPopulatedLookupKey\<close> returns the first of the primary key and the unique keys, in order, all
  of whose fields hold a value, with those values; it finds none only if no key is complete.\<close>

theorem lookup_key_is_first_usable:
  assumes "findPopulatedLookupKey js m x = Inr r"
  shows "case r of
           None \<Rightarrow> \<forall>c \<in> set (m_primaryKey m # m_uniqueKeys m). \<not> usable m x c
         | Some k \<Rightarrow> key_of m x k \<and>
             (\<exists>us vs. m_primaryKey m # m_uniqueKeys m = us @ lk_columns k # vs \<and> (\<forall>u \<in> set us. \<not> usable m x u))"
proof -
  from assms obtain fs has where fs: "columnNamesToFields m (m_primaryKey m) = Inr fs"
    and has: "hasValues x fs = Inr has"
    by (auto simp: findPopulatedLookupKey_def primaryKeyFields_def bind_res_Inr)
  show ?thesis
  proof (cases has)
    case True
    with assms fs has obtain vs k where "extractFields fs x = Inr vs"
      "newLookupKey js (m_primaryKey m) fs vs (keyColumnsCanInsert m (m_primaryKey m)) = Inr k" "r = Some k"
      by (auto simp: findPopulatedLookupKey_def primaryKeyFields_def bind_res_Inr)
    moreover from this newLookupKey_key_of [OF fs] has True
    have "key_of m x k" "lk_columns k = m_primaryKey m" by auto
    ultimately show ?thesis by (auto intro: exI [of _ "[]"])
  next
    case False
    with has have "hasValues x fs \<noteq> Inr True" by simp
    then have nu: "\<not> usable m x (m_primaryKey m)" using fs by (auto simp: usable_def hasValues_iff)
    from False assms fs has have "find_unique_key js m x (m_uniqueKeys m) = Inr r"
      by (simp add: findPopulatedLookupKey_def primaryKeyFields_def)
    from find_unique_key_first [OF this] nu show ?thesis
      by (auto split: option.splits) (metis append_Cons set_ConsD)
  qed
qed

definition ex_json :: json_encoder where
  "ex_json = \<lparr>js_values = (\<lambda>vs. Inr (concat (map (\<lambda>v. case v of VStr s \<Rightarrow> s @ '';'' | _ \<Rightarrow> ''?'') vs))),
     js_strings = join '',''\<rparr>"

theorem lookup_key_is_first_usable_witness:
  "\<exists>k. findPopulatedLookupKey ex_json AccountMapping (struct_set ex_account ''ID'' (VStr [])) = Inr (Some k) \<and>
       lk_columns k = [''company''] \<and> lk_values k = [VStr ''Acme'']"
proof -
  let ?x = "struct_set ex_account ''ID'' (VStr [])"
  obtain k where k: "findPopulatedLookupKey ex_json AccountMapping ?x = Inr (Some k)" "lk_columns k = [''company'']"
    "lk_fields k = [''Company'']"
    by (simp add: findPopulatedLookupKey_def primaryKeyFields_def columnNamesToFields_def zormtest_defs
        ex_account_def field_of_def newLookupKey_def ex_json_def extractFields_def)
  with lookup_key_is_first_usable [OF k(1)] have "map (struct_get ?x) [''Company''] = map Some (lk_values k)"
    by (simp add: key_of_def)
  then have "lk_values k = [VStr ''Acme'']" by (auto simp: ex_account_def)
  with k show ?thesis by blast
qed

end
