(* ===== verification/Zormsql_Resolver.thy ===== *)
theory Zormsql_Resolver
  imports Zormtest_Models
begin

text \<open>
  \<^verbatim>\<open>go/zorm/zormsql/field_resolver.go\<close> and \<^verbatim>\<open>field_path_extractor.go\<close>: following a dotted field
  path such as \<^verbatim>\<open>Account.Users.FirstName\<close> through the relations of the mappings, and collecting the
  paths of a clause. \<^verbatim>\<open>navigateRelationPath\<close> calls back for every step; the state its callbacks
  capture is threaded through as \<open>'s\<close>.
\<close>

section \<open>Following a path\<close>

definition isSimpleField :: "string \<Rightarrow> bool" where
  "isSimpleField path = (\<not> contains path ''.'')"

record relation_step =
  rs_relationName :: string
  rs_relMapping :: relation
  rs_relationMapping :: mapping
  rs_leftTable :: table
  rs_rightTable :: table
  rs_pathAlias :: string

text \<open>\<^verbatim>\<open>%s\<close> of a \<^verbatim>\<open>reflect.Type\<close>\<close>

fun show_gotype :: "gotype \<Rightarrow> string" where
  "show_gotype (TPtr t) = ''*'' @ show_gotype t"
| "show_gotype (TSlice t) = ''[]'' @ show_gotype t"
| "show_gotype (TStruct p n) = last (split_on CHR ''/'' p) @ ''.'' @ n"
| "show_gotype TTime = ''time.Time''"
| "show_gotype t = type_name t"

text \<open>One iteration of the loop: what the callback is given.\<close>

definition relation_step_of :: "config \<Rightarrow> mapping \<Rightarrow> table \<Rightarrow> string list \<Rightarrow> string \<Rightarrow> relation_step res" where
  "relation_step_of cfg currentMapping currentTable pathParts relationName =
     (let pathAlias = join ''_'' (pathParts @ [relationName]) in
      case relationByField currentMapping relationName of
        None \<Rightarrow> Inl (Errorf (''relation '' @ relationName @ '' not found in mapping''))
      | Some relMapping \<Rightarrow>
     (case struct_field currentMapping relationName of
        None \<Rightarrow> Inl (Errorf (''field '' @ relationName @ '' not found in type '' @ show_type currentMapping))
      | Some ty \<Rightarrow>
     (if \<not> is_TPtr ty \<and> \<not> is_TSlice ty
      then Inl (Errorf (''invalid relation type for field '' @ relationName))
      else let relationType = (if is_TPtr ty then ty else elem_type ty) in
      case map_of (cfg_mappings cfg) (typeID relationType) of
        None \<Rightarrow> Inl (Errorf (''mapping not found for relation type '' @ show_gotype relationType))
      | Some relationMapping \<Rightarrow>
          Inr \<lparr>rs_relationName = relationName, rs_relMapping = relMapping,
               rs_relationMapping = relationMapping, rs_leftTable = currentTable,
               rs_rightTable = \<lparr>t_name = m_table relationMapping, t_alias = pathAlias\<rparr>,
               rs_pathAlias = pathAlias\<rparr>)))"

fun navigate_loop :: "config \<Rightarrow> mapping \<Rightarrow> table \<Rightarrow> string list \<Rightarrow> string list \<Rightarrow>
    ('s \<Rightarrow> relation_step \<Rightarrow> 's res) \<Rightarrow> 's \<Rightarrow> 's res" where
  "navigate_loop cfg currentMapping currentTable pathParts [] callback s = Inr s"
| "navigate_loop cfg currentMapping currentTable pathParts (relationName # parts) callback s =
     bind_res (relation_step_of cfg currentMapping currentTable pathParts relationName) (\<lambda>step.
     bind_res (callback s step) (\<lambda>s'.
       navigate_loop cfg (rs_relationMapping step) (rs_rightTable step) (pathParts @ [relationName]) parts
         callback s'))"

definition navigateRelationPath :: "config \<Rightarrow> mapping \<Rightarrow> table \<Rightarrow> string \<Rightarrow>
    ('s \<Rightarrow> relation_step \<Rightarrow> 's res) \<Rightarrow> 's \<Rightarrow> 's res" where
  "navigateRelationPath cfg m startTable path callback s =
     (let parts = split_on CHR ''.'' path in
      if length parts < 2 then Inl (Errorf (''invalid dot-delimited field path: '' @ path))
      else navigate_loop cfg m startTable [] (butlast parts) callback s)"

text \<open>\<^verbatim>\<open>path[strings.LastIndex(path, ".")+1:]\<close>\<close>

definition after_last_dot :: "string \<Rightarrow> string" where
  "after_last_dot path = rev (takeWhile (\<lambda>c. c \<noteq> CHR ''.'') (rev path))"

text \<open>The callback keeps the table and the mapping of the last step; before it they are the zero
  values, which no path with a dot leaves in place.\<close>

definition keep_step :: "(table \<times> mapping) option \<Rightarrow> relation_step \<Rightarrow> (table \<times> mapping) option res" where
  "keep_step s step = Inr (Some (rs_rightTable step, rs_relationMapping step))"

definition resolveDotDelimitedField :: "config \<Rightarrow> mapping \<Rightarrow> table \<Rightarrow> string \<Rightarrow> column res" where
  "resolveDotDelimitedField cfg m startTable path =
     (if isSimpleField path then Inl (Errorf (''invalid dot-delimited field path: '' @ path))
      else let fieldName = after_last_dot path in
      bind_res (navigateRelationPath cfg m startTable path keep_step None) (\<lambda>final.
        case final of
          None \<Rightarrow> Inl (Panic ''reflect: Type.Elem of nil'')
        | Some (finalTable, finalMapping) \<Rightarrow>
            bind_res (wrap_res (''field '' @ fieldName @ '' not found in relation mapping'')
                (mapField finalMapping finalTable [] fieldName)) (\<lambda>ct. Inr (fst ct))))"

section \<open>Collecting paths\<close>

fun elem_paths :: "element \<Rightarrow> string list" where
  "elem_paths (ValueE v) = []"
| "elem_paths (FieldE f) = [f]"
| "elem_paths (MethodE n ps) = concat (map elem_paths ps)"

fun clause_paths :: "clause \<Rightarrow> string list" where
  "clause_paths (Eq l r) = elem_paths l @ elem_paths r"
| "clause_paths (Neq l r) = elem_paths l @ elem_paths r"
| "clause_paths (Gt l r) = elem_paths l @ elem_paths r"
| "clause_paths (Gte l r) = elem_paths l @ elem_paths r"
| "clause_paths (Lt l r) = elem_paths l @ elem_paths r"
| "clause_paths (Lte l r) = elem_paths l @ elem_paths r"
| "clause_paths (NotC c) = clause_paths c"
| "clause_paths (AndC cs) = concat (map clause_paths cs)"
| "clause_paths (OrC cs) = concat (map clause_paths cs)"
| "clause_paths (InC ls rs) = concat (map elem_paths ls) @ concat (map (\<lambda>r. concat (map elem_paths r)) rs)"
| "clause_paths (TruthyC e) = elem_paths e"

definition extractFieldPaths :: "clause \<Rightarrow> string list" where
  "extractFieldPaths c = clause_paths c"

definition extractFieldPathsFromSorts :: "sort_by list \<Rightarrow> string list" where
  "extractFieldPathsFromSorts sorts = concat (map (\<lambda>s. elem_paths (srt_element s)) sorts)"

section \<open>Paths\<close>

lemma isSimpleField_iff: "isSimpleField path \<longleftrightarrow> CHR ''.'' \<notin> set path"
  by (simp add: isSimpleField_def contains_char)

lemma split_on_length: "length (split_on c s) = Suc (count_char c s)"
proof (induction s)
  case (Cons x s)
  then show ?case by (cases "split_on c s") simp_all
qed simp

lemma isSimpleField_parts: "isSimpleField path \<longleftrightarrow> length (split_on CHR ''.'' path) < 2"
  using count_char_0 [of "CHR ''.''" path] by (auto simp: isSimpleField_iff split_on_length)

lemma join_last: "ws \<noteq> [] \<Longrightarrow> 2 \<le> length ws \<Longrightarrow> join sep ws = join sep (butlast ws) @ sep @ last ws"
proof -
  assume ws: "ws \<noteq> []" "2 \<le> length ws"
  then have "butlast ws \<noteq> []" by (cases ws) auto
  with join_map_append [of sep "butlast ws" "last ws"] show ?thesis
    unfolding append_butlast_last_id [OF ws(1)] by simp
qed

lemma after_last_dot_eq: "after_last_dot path = last (split_on CHR ''.'' path)"
proof (cases "isSimpleField path")
  case True
  then have "CHR ''.'' \<notin> set path" by (simp add: isSimpleField_iff)
  moreover from this have tw: "takeWhile (\<lambda>c. c \<noteq> CHR ''.'') (rev path) = rev path"
    by (subst takeWhile_eq_all_conv) auto
  ultimately show ?thesis unfolding after_last_dot_def tw by (simp add: split_on_plain)
next
  case False
  let ?ws = "split_on CHR ''.'' path"
  have "2 \<le> length ?ws" using False by (simp add: isSimpleField_parts)
  then have path: "path = join ''.'' (butlast ?ws) @ ''.'' @ last ?ws"
    using join_last [of ?ws "''.''"] by (simp add: join_split_on)
  have "CHR ''.'' \<notin> set (last ?ws)" using split_on_no_sep [of "last ?ws" "CHR ''.''" path] by simp
  then have "takeWhile (\<lambda>c. c \<noteq> CHR ''.'') (rev path) = rev (last ?ws)"
    by (subst path) (simp add: takeWhile_append takeWhile_eq_all_conv)
  then show ?thesis by (simp add: after_last_dot_def)
qed

section \<open>The trail of a path\<close>

text \<open>The steps a path takes: what the callback is given, one after the other.\<close>

fun trail :: "config \<Rightarrow> mapping \<Rightarrow> table \<Rightarrow> string list \<Rightarrow> string list \<Rightarrow> relation_step list res" where
  "trail cfg m tbl pre [] = Inr []"
| "trail cfg m tbl pre (n # ns) =
     bind_res (relation_step_of cfg m tbl pre n) (\<lambda>step.
     bind_res (trail cfg (rs_relationMapping step) (rs_rightTable step) (pre @ [n]) ns) (\<lambda>steps.
       Inr (step # steps)))"

definition path_trail :: "config \<Rightarrow> mapping \<Rightarrow> table \<Rightarrow> string \<Rightarrow> relation_step list res" where
  "path_trail cfg m tbl path = trail cfg m tbl [] (butlast (split_on CHR ''.'' path))"

text \<open>A navigation that succeeds is a fold of its callback over the trail.\<close>

lemma navigate_loop_trail:
  "navigate_loop cfg m tbl pre ns cb s = Inr t \<longleftrightarrow>
     (\<exists>steps. trail cfg m tbl pre ns = Inr steps \<and> fold_res cb s steps = Inr t)"
proof (induction cfg m tbl pre ns cb s arbitrary: t rule: navigate_loop.induct)
  case (2 cfg m tbl pre n ns cb s)
  show ?case
  proof (cases "relation_step_of cfg m tbl pre n")
    case (Inr step)
    show ?thesis
    proof (cases "cb s step")
      case (Inl e)
      with Inr show ?thesis by (auto simp: bind_res_Inr)
    next
      case s': (Inr s')
      from "2.IH" [OF Inr s'] Inr s' show ?thesis by (auto simp: bind_res_Inr)
    qed
  qed simp
qed simp

lemma navigate_trail:
  assumes "\<not> isSimpleField path"
  shows "navigateRelationPath cfg m tbl path cb s = Inr t \<longleftrightarrow>
     (\<exists>steps. path_trail cfg m tbl path = Inr steps \<and> fold_res cb s steps = Inr t)"
  using assms by (simp add: navigateRelationPath_def path_trail_def isSimpleField_parts Let_def navigate_loop_trail)

lemma trail_length: "trail cfg m tbl pre ns = Inr steps \<Longrightarrow> length steps = length ns"
  by (induction cfg m tbl pre ns arbitrary: steps rule: trail.induct) (auto simp: bind_res_Inr)

lemma relation_step_of_fields:
  "relation_step_of cfg m tbl pre n = Inr step \<Longrightarrow>
     rs_relationName step = n \<and> rs_leftTable step = tbl \<and> rs_pathAlias step = join ''_'' (pre @ [n]) \<and>
     rs_rightTable step = \<lparr>t_name = m_table (rs_relationMapping step), t_alias = join ''_'' (pre @ [n])\<rparr> \<and>
     relationByField m n = Some (rs_relMapping step) \<and>
     rs_relationMapping step \<in> snd ` set (cfg_mappings cfg)"
  by (auto simp: relation_step_of_def Let_def image_iff dest: map_of_SomeD split: option.splits if_splits)
    (metis map_of_SomeD snd_conv)+

lemma keep_step_fold: "steps \<noteq> [] \<Longrightarrow>
   fold_res keep_step s steps = Inr (Some (rs_rightTable (last steps), rs_relationMapping (last steps)))"
  by (induction steps arbitrary: s) (auto simp: keep_step_def)

lemma resolve_trail:
  "resolveDotDelimitedField cfg m tbl path = Inr col \<longleftrightarrow>
     (\<exists>steps ty. \<not> isSimpleField path \<and> path_trail cfg m tbl path = Inr steps \<and>
        mapField (rs_relationMapping (last steps)) (rs_rightTable (last steps)) []
          (last (split_on CHR ''.'' path)) = Inr (col, ty))"
proof (cases "isSimpleField path")
  case True
  then show ?thesis by (simp add: resolveDotDelimitedField_def)
next
  case False
  have ne: "steps \<noteq> []" if "path_trail cfg m tbl path = Inr steps" for steps
  proof -
    have "length (butlast (split_on CHR ''.'' path)) \<noteq> 0"
      using False by (simp add: isSimpleField_parts)
    with that show ?thesis by (auto simp: path_trail_def dest: trail_length)
  qed
  show ?thesis
    unfolding resolveDotDelimitedField_def Let_def after_last_dot_eq
    using False ne
    by (auto simp: bind_res_Inr navigate_trail keep_step_fold)
qed

text \<open>A dotted field resolves exactly when its trail exists and the field is mapped at its end,
  and then it is that field's column in the table the trail ends at; the error or success does not
  depend on the state the code threads through its callbacks.\<close>

theorem resolveDotDelimitedField_trail:
  "resolveDotDelimitedField cfg m tbl path = Inr col \<longleftrightarrow>
     (\<exists>steps ty. \<not> isSimpleField path \<and> path_trail cfg m tbl path = Inr steps \<and>
        mapField (rs_relationMapping (last steps)) (rs_rightTable (last steps)) []
          (last (split_on CHR ''.'' path)) = Inr (col, ty))"
  by (rule resolve_trail)

end
