(* ===== verification/Zormsql_Visitors.thy ===== *)
theory Zormsql_Visitors
  imports Zormsql_Resolver
begin

text \<open>
  \<^verbatim>\<open>go/zorm/zormsql/where_visitor.go\<close>, \<^verbatim>\<open>elem_visitor.go\<close> and \<^verbatim>\<open>sort_visitor.go\<close>: rendering clauses,
  elements and sorts to SQL. The visitors append to \<^verbatim>\<open>v.result\<close> and \<^verbatim>\<open>v.values\<close>; here a visit
  returns what it appends to both, a \<open>piece\<close>. On an error the Go code discards both.
\<close>

section \<open>Pieces of SQL\<close>

type_synonym piece = "string \<times> gval list"

definition sql_text :: "string \<Rightarrow> piece" where
  "sql_text s = (s, [])"

definition piece_add :: "piece \<Rightarrow> piece \<Rightarrow> piece" where
  "piece_add p q = (fst p @ fst q, snd p @ snd q)"

definition then_visit :: "piece res \<Rightarrow> piece res \<Rightarrow> piece res" where
  "then_visit a b = bind_res a (\<lambda>p. bind_res b (\<lambda>q. Inr (piece_add p q)))"

lemma then_visit_cong [fundef_cong]:
  "a = a' \<Longrightarrow> b = b' \<Longrightarrow> then_visit a b = then_visit a' b'"
  by simp

text \<open>What both visitors carry: the driver, the table and the mapping the plain fields belong to.\<close>

record visit_env =
  ve_driver :: driver
  ve_table :: table
  ve_prefix :: string
  ve_mapping :: mapping
  ve_cfg :: config

section \<open>The where visitor\<close>

definition where_visitDotDelimitedField :: "visit_env \<Rightarrow> string \<Rightarrow> string res" where
  "where_visitDotDelimitedField env path =
     bind_res (resolveDotDelimitedField (ve_cfg env) (ve_mapping env) (ve_table env) path) (\<lambda>col.
       Inr (column_escaped (ve_driver env) col))"

definition where_visitField :: "visit_env \<Rightarrow> string \<Rightarrow> string res" where
  "where_visitField env f =
     (if contains f ''.'' then where_visitDotDelimitedField env f
      else bind_res (mapField (ve_mapping env) (ve_table env) (ve_prefix env) f) (\<lambda>ct.
        Inr (column_escapedAlias (ve_driver env) (fst ct))))"

definition method_error :: "string \<Rightarrow> nat \<Rightarrow> string" where
  "method_error n i = ''visiting element in method '' @ [CHR 0x27] @ n @ [CHR 0x27] @ '' at param '' @ nat_str i"

definition fill_template :: "string \<Rightarrow> string \<Rightarrow> string" where
  "fill_template tmpl s = (if contains tmpl ''%s'' then replace_first tmpl ''%s'' s else tmpl @ s)"

text \<open>\<open>visit_template\<close> is the loop of \<^verbatim>\<open>VisitMethod\<close> for a method the driver has a template for:
  every rendered parameter replaces the next \<^verbatim>\<open>%s\<close>, or is appended when none is left.
  \<open>visit_args\<close> renders the parameters of any other method.\<close>

fun visit_elem :: "visit_env \<Rightarrow> element \<Rightarrow> piece res"
and visit_template :: "visit_env \<Rightarrow> string \<Rightarrow> nat \<Rightarrow> string \<Rightarrow> element list \<Rightarrow> piece res"
and visit_args :: "visit_env \<Rightarrow> string \<Rightarrow> nat \<Rightarrow> element list \<Rightarrow> piece res" where
  "visit_elem env (ValueE v) = Inr (''?'', [v])"
| "visit_elem env (FieldE f) =
     bind_res (wrap_res ''visiting field'' (where_visitField env f)) (\<lambda>s. Inr (sql_text s))"
| "visit_elem env (MethodE n ps) =
     (case d_prepare_method (ve_driver env) n of
        Some strp \<Rightarrow> visit_template env n 0 strp ps
      | None \<Rightarrow> then_visit (Inr (sql_text (n @ ''('')))
                 (then_visit (visit_args env n 0 ps) (Inr (sql_text '')''))))"
| "visit_template env n i tmpl [] = Inr (sql_text tmpl)"
| "visit_template env n i tmpl (p # ps) =
     bind_res (wrap_res (method_error n i) (visit_elem env p)) (\<lambda>sub.
     bind_res (visit_template env n (Suc i) (fill_template tmpl (fst sub)) ps) (\<lambda>rest.
       Inr (fst rest, snd sub @ snd rest)))"
| "visit_args env n i [] = Inr (sql_text [])"
| "visit_args env n i (p # ps) =
     then_visit (wrap_res (method_error n i) (visit_elem env p))
       (then_visit (Inr (sql_text (if ps \<noteq> [] then '', '' else []))) (visit_args env n (Suc i) ps))"

definition visitBinaryLeaf :: "visit_env \<Rightarrow> string \<Rightarrow> element \<Rightarrow> element \<Rightarrow> piece res" where
  "visitBinaryLeaf env operator l r =
     then_visit (wrap_res ''visiting binary leaf left side'' (visit_elem env l))
       (then_visit (Inr (sql_text ('' '' @ operator @ '' '')))
         (wrap_res ''visiting binary leaf right side'' (visit_elem env r)))"

text \<open>The left side of an IN is written without separators; the lists of the right side with commas.\<close>

fun in_left :: "visit_env \<Rightarrow> element list \<Rightarrow> piece res" where
  "in_left env [] = Inr (sql_text [])"
| "in_left env (e # es) =
     then_visit (wrap_res ''visiting left side of in clause'' (visit_elem env e)) (in_left env es)"

fun in_tuple :: "visit_env \<Rightarrow> element list \<Rightarrow> piece res" where
  "in_tuple env [] = Inr (sql_text [])"
| "in_tuple env (e # es) =
     then_visit (wrap_res ''visiting right side of in clause'' (visit_elem env e))
       (then_visit (Inr (sql_text (if es \<noteq> [] then '','' else []))) (in_tuple env es))"

fun in_right :: "visit_env \<Rightarrow> element list list \<Rightarrow> piece res" where
  "in_right env [] = Inr (sql_text [])"
| "in_right env (r # rs) =
     then_visit (Inr (sql_text ''(''))
       (then_visit (in_tuple env r)
         (then_visit (Inr (sql_text ('')'' @ (if rs \<noteq> [] then '','' else [])))) (in_right env rs)))"

definition visitIn :: "visit_env \<Rightarrow> element list \<Rightarrow> element list list \<Rightarrow> piece res" where
  "visitIn env ls rs =
     (if length rs = 0 then Inr (sql_text ''FALSE /* empty IN clause */'')
      else if list_ex (\<lambda>r. length r \<noteq> length ls) rs
      then Inl (Errorf ''cannot visit in clause with mismatched left and right lengths'')
      else then_visit (Inr (sql_text ''(''))
        (then_visit (in_left env ls)
          (then_visit (Inr (sql_text '') IN (''))
            (then_visit (in_right env rs) (Inr (sql_text '')''))))))"

definition visitNot :: "piece res \<Rightarrow> piece res" where
  "visitNot inner =
     then_visit (Inr (sql_text ''NOT (''))
       (then_visit (wrap_res ''visiting not clause'' inner) (Inr (sql_text '')'')))"

fun node_body :: "string \<Rightarrow> piece res list \<Rightarrow> piece res" where
  "node_body joiner [] = Inr (sql_text [])"
| "node_body joiner (c # cs) =
     then_visit (wrap_res ''visiting not clause'' c)
       (then_visit (Inr (sql_text (if cs \<noteq> [] then '' '' @ joiner @ '' '' else []))) (node_body joiner cs))"

definition visitNode :: "string \<Rightarrow> piece res list \<Rightarrow> piece res" where
  "visitNode joiner children =
     (if length children = 0 then Inr (sql_text [])
      else then_visit (Inr (sql_text ''('')) (then_visit (node_body joiner children) (Inr (sql_text '')''))))"

fun where_clause :: "visit_env \<Rightarrow> clause \<Rightarrow> piece res" where
  "where_clause env (Eq l r) = visitBinaryLeaf env (d_null_safe_eq (ve_driver env)) l r"
| "where_clause env (Neq l r) = visitNot (visitBinaryLeaf env (d_null_safe_eq (ve_driver env)) l r)"
| "where_clause env (Gt l r) = visitBinaryLeaf env ''>'' l r"
| "where_clause env (Gte l r) = visitBinaryLeaf env ''>='' l r"
| "where_clause env (Lt l r) = visitBinaryLeaf env ''<'' l r"
| "where_clause env (Lte l r) = visitBinaryLeaf env ''<='' l r"
| "where_clause env (NotC c) = visitNot (where_clause env c)"
| "where_clause env (AndC cs) =
     visitNode ''AND'' (map (where_clause env) cs)"
| "where_clause env (OrC cs) =
     visitNode ''OR'' (map (where_clause env) cs)"
| "where_clause env (InC ls rs) = visitIn env ls rs"
| "where_clause env (TruthyC e) = visit_elem env e"

text \<open>\<^verbatim>\<open>whereVisitor.Visit\<close>\<close>

definition where_Visit :: "visit_env \<Rightarrow> clause \<Rightarrow> piece res" where
  "where_Visit env c =
     bind_res (wrap_res ''visiting clauses'' (where_clause env c)) (\<lambda>p. Inr (trim_space (fst p), snd p))"

section \<open>The element and sort visitors\<close>

text \<open>The text of the first error of \<open>sort_Visit\<close> also prints the element; it is left out.\<close>

definition elem_visitField :: "visit_env \<Rightarrow> string \<Rightarrow> string res" where
  "elem_visitField env f =
     (if contains f ''.'' then
        bind_res (resolveDotDelimitedField (ve_cfg env) (ve_mapping env) (ve_table env) f) (\<lambda>col.
          Inr (column_escaped (ve_driver env) col))
      else bind_res (wrap_res ''visiting field'' (mapField (ve_mapping env) (ve_table env) (ve_prefix env) f)) (\<lambda>ct.
        Inr (column_escaped (ve_driver env) (fst ct))))"

fun elem_accept :: "visit_env \<Rightarrow> element \<Rightarrow> piece res" where
  "elem_accept env (ValueE v) = Inr (''?'', [v])"
| "elem_accept env (FieldE f) =
     bind_res (wrap_res ''visiting field'' (elem_visitField env f)) (\<lambda>s. Inr (sql_text s))"
| "elem_accept env (MethodE n ps) = Inl (Errorf ''methods not supported'')"

definition elem_Visit :: "visit_env \<Rightarrow> element \<Rightarrow> piece res" where
  "elem_Visit env e = wrap_res ''visiting element'' (elem_accept env e)"

definition sort_Visit :: "visit_env \<Rightarrow> sort_by \<Rightarrow> piece res" where
  "sort_Visit env s =
     bind_res (wrap_res ''visiting sort element'' (elem_Visit env (srt_element s))) (\<lambda>p.
       if srt_direction s = Asc then Inr (fst p @ '' '' @ ''ASC'', snd p)
       else if srt_direction s = Desc then Inr (fst p @ '' '' @ ''DESC'', snd p)
       else Inl (Errorf (''invalid sort: '' @ int_str (srt_direction s))))"

end
