(* ===== verification/Zormsql_Visitors_Laws.thy ===== *)
theory Zormsql_Visitors_Laws
  imports Zormsql_Visitors
begin

text \<open>
  Laws of the visitors: values never reach the SQL text; one placeholder per value, in order; when
  rendering succeeds; the two sides of an IN. The placeholder count is proved once, in the locale
  \<open>quiet_rendering\<close> over the driver contract \<open>sql_driver\<close>, which both drivers of the repository
  fulfil.
\<close>

section \<open>Values stay out of the text\<close>

fun elem_map :: "(gval \<Rightarrow> gval) \<Rightarrow> element \<Rightarrow> element" where
  "elem_map g (ValueE v) = ValueE (g v)"
| "elem_map g (FieldE f) = FieldE f"
| "elem_map g (MethodE n ps) = MethodE n (map (elem_map g) ps)"

fun clause_map :: "(gval \<Rightarrow> gval) \<Rightarrow> clause \<Rightarrow> clause" where
  "clause_map g (Eq l r) = Eq (elem_map g l) (elem_map g r)"
| "clause_map g (Neq l r) = Neq (elem_map g l) (elem_map g r)"
| "clause_map g (Gt l r) = Gt (elem_map g l) (elem_map g r)"
| "clause_map g (Gte l r) = Gte (elem_map g l) (elem_map g r)"
| "clause_map g (Lt l r) = Lt (elem_map g l) (elem_map g r)"
| "clause_map g (Lte l r) = Lte (elem_map g l) (elem_map g r)"
| "clause_map g (NotC c) = NotC (clause_map g c)"
| "clause_map g (AndC cs) = AndC (map (clause_map g) cs)"
| "clause_map g (OrC cs) = OrC (map (clause_map g) cs)"
| "clause_map g (InC ls rs) = InC (map (elem_map g) ls) (map (map (elem_map g)) rs)"
| "clause_map g (TruthyC e) = TruthyC (elem_map g e)"

definition piece_map :: "(gval \<Rightarrow> gval) \<Rightarrow> piece res \<Rightarrow> piece res" where
  "piece_map g r = bind_res r (\<lambda>p. Inr (fst p, map g (snd p)))"

lemma piece_map_simps [simp]:
  "piece_map g (Inl e) = Inl e"
  "piece_map g (Inr (s, vs)) = Inr (s, map g vs)"
  "piece_map g (Inr (sql_text s)) = Inr (sql_text s)"
  by (simp_all add: piece_map_def sql_text_def)

lemma piece_map_then [simp]: "piece_map g (then_visit a b) = then_visit (piece_map g a) (piece_map g b)"
  by (cases a; cases b) (auto simp: piece_map_def then_visit_def piece_add_def)

lemma piece_map_wrap [simp]: "piece_map g (wrap_res m a) = wrap_res m (piece_map g a)"
  by (cases a) (auto simp: piece_map_def)

lemma piece_map_sql [simp]: "piece_map g (bind_res r (\<lambda>s. Inr (sql_text s))) = bind_res r (\<lambda>s. Inr (sql_text s))"
  by (cases r) (auto simp: piece_map_def sql_text_def)

lemma visit_elem_map:
  "visit_elem env (elem_map g e) = piece_map g (visit_elem env e)"
  "visit_template env n i tmpl (map (elem_map g) ps) = piece_map g (visit_template env n i tmpl ps)"
  "visit_args env n i (map (elem_map g) ps) = piece_map g (visit_args env n i ps)"
proof (induction env e and env n i tmpl ps and env n i ps rule: visit_elem_visit_template_visit_args.induct)
  case (5 env n i tmpl p ps)
  show ?case
  proof (cases "visit_elem env p")
    case (Inl e)
    with 5 show ?thesis by simp
  next
    case (Inr q)
    let ?t = "fill_template tmpl (fst q)"
    have e: "visit_elem env (elem_map g p) = Inr (fst q, map g (snd q))"
      using "5.IH"(1) Inr by (simp add: piece_map_def)
    have "visit_template env n (Suc i) ?t (map (elem_map g) ps) = piece_map g (visit_template env n (Suc i) ?t ps)"
      using "5.IH"(2) Inr by simp
    with e Inr show ?thesis
      by (cases "visit_template env n (Suc i) ?t ps") (simp_all add: piece_map_def)
  qed
qed (auto split: option.splits)

lemma in_left_map [simp]: "in_left env (map (elem_map g) es) = piece_map g (in_left env es)"
  by (induction es) (auto simp: visit_elem_map)

lemma in_tuple_map [simp]: "in_tuple env (map (elem_map g) es) = piece_map g (in_tuple env es)"
  by (induction es) (auto simp: visit_elem_map)

lemma in_right_map [simp]: "in_right env (map (map (elem_map g)) rs) = piece_map g (in_right env rs)"
  by (induction rs) auto

lemma node_body_map: "\<forall>c \<in> set cs. where_clause env (clause_map g c) = piece_map g (where_clause env c) \<Longrightarrow>
   node_body j (map (where_clause env \<circ> clause_map g) cs) = piece_map g (node_body j (map (where_clause env) cs))"
  by (induction cs) auto

lemma where_clause_map: "where_clause env (clause_map g c) = piece_map g (where_clause env c)"
  by (induction env c rule: where_clause.induct)
    (auto simp: visitBinaryLeaf_def visitNot_def visitIn_def visitNode_def visit_elem_map node_body_map
      list_ex_iff)

text \<open>C1: No value of a clause reaches the SQL text: replacing every value by another one leaves the
  rendered text, and whether rendering fails and how, unchanged, and replaces the bound values
  accordingly.\<close>

theorem where_text_independent_of_values:
  "where_Visit env (clause_map g c) =
     bind_res (where_Visit env c) (\<lambda>p. Inr (fst p, map g (snd p)))"
  by (cases "where_clause env c") (auto simp: where_Visit_def where_clause_map piece_map_def)

section \<open>The values, in order\<close>

fun elem_vals :: "element \<Rightarrow> gval list" where
  "elem_vals (ValueE v) = [v]"
| "elem_vals (FieldE f) = []"
| "elem_vals (MethodE n ps) = concat (map elem_vals ps)"

text \<open>An IN with an empty right side is a constant: its left side is not rendered.\<close>

fun clause_vals :: "clause \<Rightarrow> gval list" where
  "clause_vals (Eq l r) = elem_vals l @ elem_vals r"
| "clause_vals (Neq l r) = elem_vals l @ elem_vals r"
| "clause_vals (Gt l r) = elem_vals l @ elem_vals r"
| "clause_vals (Gte l r) = elem_vals l @ elem_vals r"
| "clause_vals (Lt l r) = elem_vals l @ elem_vals r"
| "clause_vals (Lte l r) = elem_vals l @ elem_vals r"
| "clause_vals (NotC c) = clause_vals c"
| "clause_vals (AndC cs) = concat (map clause_vals cs)"
| "clause_vals (OrC cs) = concat (map clause_vals cs)"
| "clause_vals (InC ls rs) =
     (if rs = [] then [] else concat (map elem_vals ls) @ concat (map (\<lambda>r. concat (map elem_vals r)) rs))"
| "clause_vals (TruthyC e) = elem_vals e"

lemma then_visit_Inr: "then_visit a b = Inr (s, vs) \<longleftrightarrow>
   (\<exists>s1 v1 s2 v2. a = Inr (s1, v1) \<and> b = Inr (s2, v2) \<and> s = s1 @ s2 \<and> vs = v1 @ v2)"
  by (auto simp: then_visit_def bind_res_Inr piece_add_def)

lemma sql_text_Inr [simp]: "sql_text t = (s, vs) \<longleftrightarrow> s = t \<and> vs = []"
  by (auto simp: sql_text_def)

lemma visit_elem_values:
  "visit_elem env e = Inr (s, vs) \<Longrightarrow> vs = elem_vals e"
  "visit_template env n i tmpl ps = Inr (s, vs) \<Longrightarrow> vs = concat (map elem_vals ps)"
  "visit_args env n i ps = Inr (s, vs) \<Longrightarrow> vs = concat (map elem_vals ps)"
proof (induction env e and env n i tmpl ps and env n i ps arbitrary: s vs and s vs and s vs
    rule: visit_elem_visit_template_visit_args.induct)
  case (5 env n i tmpl p ps)
  then show ?case by (auto simp: bind_res_Inr)
qed (auto simp: bind_res_Inr then_visit_Inr split: option.splits)

lemma in_values:
  "in_left env es = Inr (s, vs) \<Longrightarrow> vs = concat (map elem_vals es)"
  "in_tuple env es = Inr (s, vs) \<Longrightarrow> vs = concat (map elem_vals es)"
  by (induction es arbitrary: s vs) (auto simp: then_visit_Inr dest: visit_elem_values(1))

lemma in_right_values: "in_right env rs = Inr (s, vs) \<Longrightarrow> vs = concat (map (\<lambda>r. concat (map elem_vals r)) rs)"
  by (induction rs arbitrary: s vs) (auto simp: then_visit_Inr dest: in_values(2))

lemma node_body_values:
  "node_body j (map (where_clause env) cs) = Inr (s, vs) \<Longrightarrow>
   (\<And>c s vs. c \<in> set cs \<Longrightarrow> where_clause env c = Inr (s, vs) \<Longrightarrow> vs = clause_vals c) \<Longrightarrow>
   vs = concat (map clause_vals cs)"
proof (induction cs arbitrary: s vs)
  case (Cons c cs)
  from Cons.prems(1) obtain s1 v1 s2 v2 where c: "where_clause env c = Inr (s1, v1)"
    and r: "node_body j (map (where_clause env) cs) = Inr (s2, v2)" and vs: "vs = v1 @ v2"
    by (auto simp: then_visit_Inr)
  have "v1 = clause_vals c" using Cons.prems(2) [OF _ c] by simp
  moreover have "v2 = concat (map clause_vals cs)" by (rule Cons.IH [OF r]) (rule Cons.prems(2), simp)
  ultimately show ?case by (simp add: vs)
qed simp

lemma where_clause_values: "where_clause env c = Inr (s, vs) \<Longrightarrow> vs = clause_vals c"
proof (induction env c arbitrary: s vs rule: where_clause.induct)
  case (8 env cs)
  then show ?case by (auto simp: visitNode_def then_visit_Inr split: if_splits intro: node_body_values)
next
  case (9 env cs)
  then show ?case by (auto simp: visitNode_def then_visit_Inr split: if_splits intro: node_body_values)
qed (auto simp: visitBinaryLeaf_def visitNot_def visitIn_def then_visit_Inr split: if_splits
    dest: visit_elem_values(1) in_values(1) in_right_values)

section \<open>One placeholder per value\<close>

text \<open>Names that hold no question mark of their own.\<close>

definition quiet_mapping :: "mapping \<Rightarrow> bool" where
  "quiet_mapping m \<longleftrightarrow> list_all (\<lambda>c. placeholders (cm_name c) = 0) (m_columns m) \<and>
     list_all (\<lambda>r. placeholders (r_field r) = 0) (m_relations m)"

definition quiet_env :: "visit_env \<Rightarrow> bool" where
  "quiet_env env \<longleftrightarrow> placeholders (t_alias (ve_table env)) = 0 \<and> placeholders (ve_prefix env) = 0 \<and>
     quiet_mapping (ve_mapping env) \<and> list_all (\<lambda>p. quiet_mapping (snd p)) (cfg_mappings (ve_cfg env))"

fun quiet_elem :: "driver \<Rightarrow> element \<Rightarrow> bool" where
  "quiet_elem d (MethodE n ps) \<longleftrightarrow> placeholders n = 0 \<and>
     (case d_prepare_method d n of None \<Rightarrow> True | Some t \<Rightarrow> placeholders t = 0) \<and> list_all (quiet_elem d) ps"
| "quiet_elem d _ \<longleftrightarrow> True"

fun quiet_clause :: "driver \<Rightarrow> clause \<Rightarrow> bool" where
  "quiet_clause d (Eq l r) \<longleftrightarrow> quiet_elem d l \<and> quiet_elem d r"
| "quiet_clause d (Neq l r) \<longleftrightarrow> quiet_elem d l \<and> quiet_elem d r"
| "quiet_clause d (Gt l r) \<longleftrightarrow> quiet_elem d l \<and> quiet_elem d r"
| "quiet_clause d (Gte l r) \<longleftrightarrow> quiet_elem d l \<and> quiet_elem d r"
| "quiet_clause d (Lt l r) \<longleftrightarrow> quiet_elem d l \<and> quiet_elem d r"
| "quiet_clause d (Lte l r) \<longleftrightarrow> quiet_elem d l \<and> quiet_elem d r"
| "quiet_clause d (NotC c) \<longleftrightarrow> quiet_clause d c"
| "quiet_clause d (AndC cs) \<longleftrightarrow> list_all (quiet_clause d) cs"
| "quiet_clause d (OrC cs) \<longleftrightarrow> list_all (quiet_clause d) cs"
| "quiet_clause d (InC ls rs) \<longleftrightarrow> list_all (quiet_elem d) ls \<and> list_all (list_all (quiet_elem d)) rs"
| "quiet_clause d (TruthyC e) \<longleftrightarrow> quiet_elem d e"

lemma find_Some_D: "find P xs = Some x \<Longrightarrow> x \<in> set xs \<and> P x"
  by (induction xs) (auto split: if_splits)

text \<open>The names of the methods a clause calls.\<close>

fun elem_methods :: "element \<Rightarrow> string list" where
  "elem_methods (MethodE n ps) = n # concat (map elem_methods ps)"
| "elem_methods _ = []"

lemma mapField_quiet:
  "mapField m tbl p f = Inr (c, t) \<Longrightarrow> quiet_mapping m \<Longrightarrow> placeholders p = 0 \<Longrightarrow>
     placeholders (c_name c) = 0 \<and> placeholders (c_alias c) = 0 \<and> c_table c = tbl"
  by (auto simp: mapField_def quiet_mapping_def list_all_iff Let_def split: option.splits dest!: find_Some_D)

lemma trail_quiet:
  "trail cfg m tbl pre ns = Inr steps \<Longrightarrow> quiet_mapping m \<Longrightarrow>
   list_all (\<lambda>p. quiet_mapping (snd p)) (cfg_mappings cfg) \<Longrightarrow> list_all (\<lambda>w. placeholders w = 0) pre \<Longrightarrow>
   \<forall>s \<in> set steps. placeholders (t_alias (rs_rightTable s)) = 0 \<and> quiet_mapping (rs_relationMapping s)"
proof (induction cfg m tbl pre ns arbitrary: steps rule: trail.induct)
  case (2 cfg m tbl pre n ns)
  from "2.prems"(1) obtain s ss where s: "relation_step_of cfg m tbl pre n = Inr s"
    and ss: "trail cfg (rs_relationMapping s) (rs_rightTable s) (pre @ [n]) ns = Inr ss" and steps: "steps = s # ss"
    by (auto simp: bind_res_Inr)
  note f = relation_step_of_fields [OF s]
  have n: "placeholders n = 0"
    using f "2.prems"(2) by (auto simp: relationByField_def quiet_mapping_def list_all_iff dest!: find_Some_D)
  have m: "quiet_mapping (rs_relationMapping s)" using f "2.prems"(3) by (auto simp: list_all_iff)
  have a: "placeholders (join ''_'' (pre @ [n])) = 0"
    using n "2.prems"(4) by (simp add: count_char_join list_all_iff)
  show ?case using "2.IH" [OF s ss m "2.prems"(3)] n "2.prems"(4) f a m by (simp add: steps)
qed simp

text \<open>Rendering with a driver that keeps its contract, in an environment of quiet names.\<close>

locale quiet_rendering = sql_driver "ve_driver env" for env :: visit_env +
  assumes quiet: "quiet_env env"
begin

lemma column_escaped_q:
  "placeholders (c_name c) = 0 \<Longrightarrow> placeholders (t_alias (c_table c)) = 0 \<Longrightarrow> placeholders (column_escaped (ve_driver env) c) = 0"
  by (simp add: column_escaped_def escape_column_q escape_tc_q)

lemma column_escapedAlias_q:
  "placeholders (c_name c) = 0 \<Longrightarrow> placeholders (c_alias c) = 0 \<Longrightarrow> placeholders (t_alias (c_table c)) = 0 \<Longrightarrow>
     placeholders (column_escapedAlias (ve_driver env) c) = 0"
  by (simp add: column_escapedAlias_def column_escaped_q escape_column_q escape_tc_q)

lemma resolved_q:
  assumes "resolveDotDelimitedField (ve_cfg env) (ve_mapping env) (ve_table env) f = Inr c"
  shows "placeholders (column_escaped (ve_driver env) c) = 0"
proof -
  from assms(1) obtain steps ty where ns: "\<not> isSimpleField f"
    and st: "path_trail (ve_cfg env) (ve_mapping env) (ve_table env) f = Inr steps"
    and mf: "mapField (rs_relationMapping (last steps)) (rs_rightTable (last steps)) []
          (last (split_on CHR ''.'' f)) = Inr (c, ty)"
    unfolding resolve_trail by blast
  have "length (butlast (split_on CHR ''.'' f)) \<noteq> 0" using ns by (simp add: isSimpleField_parts)
  then have "steps \<noteq> []" using st by (auto simp: path_trail_def dest: trail_length)
  then have "placeholders (t_alias (rs_rightTable (last steps))) = 0 \<and> quiet_mapping (rs_relationMapping (last steps))"
    using trail_quiet [OF st [unfolded path_trail_def]] quiet by (simp add: quiet_env_def)
  then show ?thesis using mapField_quiet [OF mf] by (simp add: column_escaped_q)
qed

lemma where_visitField_q:
  assumes "where_visitField env f = Inr s"
  shows "placeholders s = 0"
proof (cases "contains f ''.''")
  case True
  then show ?thesis using assms resolved_q
    by (auto simp: where_visitField_def where_visitDotDelimitedField_def bind_res_Inr)
next
  case False
  then show ?thesis using assms quiet
    by (auto simp: where_visitField_def bind_res_Inr quiet_env_def dest: mapField_quiet intro!: column_escapedAlias_q)
qed

lemma fill_template_q: "placeholders (fill_template t s) = placeholders t + placeholders s"
  using count_char_replace_first [of t "''%s''" "CHR ''?''" s] by (simp add: fill_template_def)

lemma visit_template_q:
  "visit_template env n i tmpl ps = Inr (s, vs) \<Longrightarrow>
   (\<And>p s vs. p \<in> set ps \<Longrightarrow> visit_elem env p = Inr (s, vs) \<Longrightarrow> placeholders s = length vs) \<Longrightarrow>
   placeholders s = placeholders tmpl + length vs"
proof (induction ps arbitrary: i tmpl s vs)
  case (Cons p ps)
  from Cons.prems(1) obtain t v w where p: "visit_elem env p = Inr (t, v)"
    and r: "visit_template env n (Suc i) (fill_template tmpl t) ps = Inr (s, w)" and vs: "vs = v @ w"
    by (auto simp: bind_res_Inr)
  have "placeholders t = length v" using Cons.prems(2) [OF _ p] by simp
  moreover have "placeholders s = placeholders (fill_template tmpl t) + length w"
    by (rule Cons.IH [OF r]) (rule Cons.prems(2), simp_all)
  ultimately show ?case by (simp add: vs fill_template_q)
qed simp

lemma visit_args_q:
  "visit_args env n i ps = Inr (s, vs) \<Longrightarrow>
   (\<And>p s vs. p \<in> set ps \<Longrightarrow> visit_elem env p = Inr (s, vs) \<Longrightarrow> placeholders s = length vs) \<Longrightarrow>
   placeholders s = length vs"
proof (induction ps arbitrary: i s vs)
  case (Cons p ps)
  from Cons.prems(1) obtain t v u w where p: "visit_elem env p = Inr (t, v)"
    and r: "visit_args env n (Suc i) ps = Inr (u, w)" and vs: "vs = v @ w"
    and s: "s = t @ (if ps \<noteq> [] then '', '' else []) @ u"
    by (auto simp: then_visit_Inr)
  have "placeholders t = length v" using Cons.prems(2) [OF _ p] by simp
  moreover have "placeholders u = length w"
    by (rule Cons.IH [OF r]) (rule Cons.prems(2), simp_all)
  ultimately show ?case by (simp add: vs s)
qed simp

lemma visit_elem_q:
  "visit_elem env e = Inr (s, vs) \<Longrightarrow> quiet_elem (ve_driver env) e \<Longrightarrow> placeholders s = length vs"
proof (induction e arbitrary: s vs)
  case (FieldE f)
  then show ?case by (auto simp: bind_res_Inr dest: where_visitField_q)
next
  case (MethodE n ps)
  have ps: "placeholders s = length vs" if "p \<in> set ps" "visit_elem env p = Inr (s, vs)" for p s vs
    using MethodE that by (auto simp: list_all_iff)
  show ?case
  proof (cases "d_prepare_method (ve_driver env) n")
    case None
    with MethodE.prems visit_args_q [OF _ ps] show ?thesis by (fastforce simp: then_visit_Inr)
  next
    case (Some t)
    with MethodE.prems visit_template_q [OF _ ps] show ?thesis by fastforce
  qed
qed simp

lemma in_q:
  shows "in_left env es = Inr (s, vs) \<Longrightarrow> list_all (quiet_elem (ve_driver env)) es \<Longrightarrow> placeholders s = length vs"
    and "in_tuple env es = Inr (s, vs) \<Longrightarrow> list_all (quiet_elem (ve_driver env)) es \<Longrightarrow> placeholders s = length vs"
  by (induction es arbitrary: s vs) (auto simp: then_visit_Inr dest: visit_elem_q)

lemma in_right_q:
  "in_right env rs = Inr (s, vs) \<Longrightarrow> list_all (list_all (quiet_elem (ve_driver env))) rs \<Longrightarrow>
     placeholders s = length vs"
  by (induction rs arbitrary: s vs) (auto simp: then_visit_Inr dest: in_q(2))

lemma node_body_q:
  "node_body j (map (where_clause env) cs) = Inr (s, vs) \<Longrightarrow> placeholders j = 0 \<Longrightarrow>
   (\<And>c s vs. c \<in> set cs \<Longrightarrow> where_clause env c = Inr (s, vs) \<Longrightarrow> placeholders s = length vs) \<Longrightarrow>
   placeholders s = length vs"
proof (induction cs arbitrary: s vs)
  case (Cons c cs)
  from Cons.prems(1) obtain s1 v1 s2 v2 where c: "where_clause env c = Inr (s1, v1)"
    and r: "node_body j (map (where_clause env) cs) = Inr (s2, v2)" and vs: "vs = v1 @ v2"
    and s: "s = s1 @ (if cs \<noteq> [] then '' '' @ j @ '' '' else []) @ s2"
    by (auto simp: then_visit_Inr)
  have "placeholders s1 = length v1" using Cons.prems(3) [OF _ c] by simp
  moreover have "placeholders s2 = length v2" by (rule Cons.IH [OF r Cons.prems(2)]) (rule Cons.prems(3), simp_all)
  ultimately show ?case using Cons.prems(2) by (simp add: vs s)
qed simp

lemma where_clause_q:
  "where_clause env c = Inr (s, vs) \<Longrightarrow> quiet_clause (ve_driver env) c \<Longrightarrow>
     placeholders s = length vs"
proof (induction c arbitrary: s vs)
  case (AndC cs)
  have "placeholders s = length vs" if "c \<in> set cs" "where_clause env c = Inr (s, vs)" for c s vs
    using AndC that by (auto simp: list_all_iff)
  with AndC.prems show ?case
    by (fastforce simp: visitNode_def then_visit_Inr split: if_splits dest: node_body_q)
next
  case (OrC cs)
  have "placeholders s = length vs" if "c \<in> set cs" "where_clause env c = Inr (s, vs)" for c s vs
    using OrC that by (auto simp: list_all_iff)
  with OrC.prems show ?case
    by (fastforce simp: visitNode_def then_visit_Inr split: if_splits dest: node_body_q)
qed (auto simp: visitBinaryLeaf_def visitNot_def visitIn_def then_visit_Inr null_safe_q split: if_splits
    dest!: visit_elem_q in_q in_right_q)

lemma where_Visit_placeholders:
  assumes "where_Visit env c = Inr (s, vs)" "quiet_clause (ve_driver env) c"
  shows "placeholders s = length vs \<and> vs = clause_vals c"
proof -
  from assms(1) obtain t where "where_clause env c = Inr (t, vs)" "s = trim_space t"
    by (auto simp: where_Visit_def bind_res_Inr)
  then show ?thesis using where_clause_q [of c t vs] where_clause_values [of env c t vs] assms(2)
    by (simp add: count_char_trim_space is_space_def)
qed

lemma elem_accept_q:
  assumes "elem_accept env e = Inr (s, vs)"
  shows "placeholders s = length vs \<and> vs = elem_vals e"
proof (cases e)
  case (FieldE f)
  with assms obtain t where t: "elem_visitField env f = Inr t" "s = t" "vs = []" by (auto simp: bind_res_Inr)
  show ?thesis
  proof (cases "contains f ''.''")
    case True
    with t FieldE show ?thesis using resolved_q
      by (auto simp: elem_visitField_def bind_res_Inr)
  next
    case False
    with t quiet FieldE show ?thesis
      by (auto simp: elem_visitField_def bind_res_Inr quiet_env_def dest: mapField_quiet intro!: column_escaped_q)
  qed
qed (use assms in auto)

lemma sort_Visit_q:
  "sort_Visit env st = Inr (s, vs) \<Longrightarrow>
     placeholders s = length vs \<and> vs = elem_vals (srt_element st)"
  by (auto simp: sort_Visit_def elem_Visit_def bind_res_Inr dest: elem_accept_q split: if_splits)

end

context plain_methods
begin

lemma quiet_elem_plain: "(\<And>n. n \<in> set (elem_methods e) \<Longrightarrow> placeholders n = 0) \<Longrightarrow> quiet_elem d e"
  by (induction e) (auto simp: list_all_iff template_q split: option.splits)

end

fun clause_methods :: "clause \<Rightarrow> string list" where
  "clause_methods (Eq l r) = elem_methods l @ elem_methods r"
| "clause_methods (Neq l r) = elem_methods l @ elem_methods r"
| "clause_methods (Gt l r) = elem_methods l @ elem_methods r"
| "clause_methods (Gte l r) = elem_methods l @ elem_methods r"
| "clause_methods (Lt l r) = elem_methods l @ elem_methods r"
| "clause_methods (Lte l r) = elem_methods l @ elem_methods r"
| "clause_methods (NotC c) = clause_methods c"
| "clause_methods (AndC cs) = concat (map clause_methods cs)"
| "clause_methods (OrC cs) = concat (map clause_methods cs)"
| "clause_methods (InC ls rs) = concat (map elem_methods ls) @ concat (map (\<lambda>r. concat (map elem_methods r)) rs)"
| "clause_methods (TruthyC e) = elem_methods e"

definition quiet_method :: "driver \<Rightarrow> string \<Rightarrow> bool" where
  "quiet_method d n \<longleftrightarrow> placeholders n = 0 \<and>
     (case d_prepare_method d n of None \<Rightarrow> True | Some t \<Rightarrow> placeholders t = 0)"

lemma quiet_elem_methods: "quiet_elem d e \<longleftrightarrow> (\<forall>n \<in> set (elem_methods e). quiet_method d n)"
  by (induction e) (auto simp: list_all_iff quiet_method_def)

lemma quiet_clause_methods: "quiet_clause d c \<longleftrightarrow> (\<forall>n \<in> set (clause_methods c). quiet_method d n)"
  by (induction c) (auto simp: list_all_iff quiet_elem_methods)

lemma quiet_method_sqlite3: "quiet_method sqlite3_driver n \<longleftrightarrow> placeholders n = 0"
  by (auto simp: quiet_method_def sqlite3.template_q split: option.splits)

lemma quiet_method_mysql: "quiet_method mysql_driver n \<longleftrightarrow> placeholders n = 0 \<and> n \<noteq> Match"
  by (auto simp: quiet_method_def driver_defs method_names)

definition zormtest_env :: "driver \<Rightarrow> visit_env" where
  "zormtest_env d = \<lparr>ve_driver = d, ve_table = \<lparr>t_name = ''users'', t_alias = ''target''\<rparr>, ve_prefix = [],
     ve_mapping = UserMapping, ve_cfg = zormtest_cfg\<rparr>"

lemma zormtest_env_quiet: "quiet_env (zormtest_env d)"
  by (simp add: quiet_env_def zormtest_env_def quiet_mapping_def zormtest_defs)

lemma quiet_rendering_drivers:
  "quiet_env env \<Longrightarrow> ve_driver env \<in> {mysql_driver, sqlite3_driver} \<Longrightarrow> quiet_rendering env"
  by (auto simp: quiet_rendering_def quiet_rendering_axioms_def mysql.sql_driver_axioms sqlite3.sql_driver_axioms)

interpretation zt_sqlite3: quiet_rendering "zormtest_env sqlite3_driver"
  by (rule quiet_rendering_drivers [OF zormtest_env_quiet]) (simp add: zormtest_env_def)

interpretation zt_mysql: quiet_rendering "zormtest_env mysql_driver"
  by (rule quiet_rendering_drivers [OF zormtest_env_quiet]) (simp add: zormtest_env_def)

text \<open>for both drivers, a rendered where clause holds exactly one placeholder for every value of the
  clause, and the bound values are those values from left to right, as long as table aliases,
  column, relation and method names hold no question mark and, for MySQL, the clause has no
  \<^verbatim>\<open>match\<close>.\<close>

theorem where_placeholders:
  assumes "where_Visit env c = Inr (sql, vs)" "quiet_env env"
    and "ve_driver env \<in> {mysql_driver, sqlite3_driver}"
    and "\<forall>n \<in> set (clause_methods c). placeholders n = 0 \<and> (ve_driver env = mysql_driver \<longrightarrow> n \<noteq> Match)"
  shows "placeholders sql = length vs \<and> vs = clause_vals c"
proof -
  have "quiet_clause (ve_driver env) c"
    using assms(3,4) by (auto simp: quiet_clause_methods quiet_method_sqlite3 quiet_method_mysql)
  then show ?thesis
    using quiet_rendering.where_Visit_placeholders [OF quiet_rendering_drivers [OF assms(2,3)] assms(1)] by blast
qed

definition ex_where :: clause where
  "ex_where = AndC [Eq (FieldE ''FirstName'') (ValueE (VStr ''Ann'')),
     NotC (InC [FieldE ''Account.ID''] [[ValueE (VStr ''1'')], [ValueE (VStr ''2'')]])]"

theorem where_placeholders_witness:
  "\<exists>sql. where_Visit (zormtest_env mysql_driver) ex_where = Inr (sql, [VStr ''Ann'', VStr ''1'', VStr ''2'']) \<and>
     placeholders sql = 3"
proof -
  have "is_ok (where_Visit (zormtest_env mysql_driver) ex_where)" by code_simp
  then obtain sql vs where w: "where_Visit (zormtest_env mysql_driver) ex_where = Inr (sql, vs)"
    by (auto simp: is_ok_iff)
  have "placeholders sql = length vs \<and> vs = clause_vals ex_where"
    by (rule where_placeholders [OF w zormtest_env_quiet])
      (simp_all add: zormtest_env_def ex_where_def)
  with w show ?thesis by (simp add: ex_where_def)
qed

text \<open>the MySQL template of \<^verbatim>\<open>match\<close> has a placeholder of its own and one substitution mark, so the
  rendered method holds two placeholders and binds one value.\<close>

theorem mysql_match_placeholders:
  assumes "visit_elem env (newMatch f v) = Inr (sql, vs)" "ve_driver env = mysql_driver" "quiet_env env"
  shows "vs = [v] \<and> placeholders sql = 2"
proof -
  obtain col where col: "where_visitField env f = Inr col"
    and sql: "sql = fill_template (fill_template ''MATCH(%s) AGAINST(? IN BOOLEAN MODE)'' col) ''?''" "vs = [v]"
    using assms(1,2) by (auto simp: newMatch_def driver_defs method_names bind_res_Inr sql_text_def)
  have r: "quiet_rendering env" using quiet_rendering_drivers [OF assms(3)] assms(2) by simp
  have "placeholders col = 0" by (rule quiet_rendering.where_visitField_q [OF r col])
  then show ?thesis by (simp add: sql quiet_rendering.fill_template_q [OF r])
qed

theorem mysql_match_placeholders_witness:
  "\<exists>sql. visit_elem (zormtest_env mysql_driver) (newMatch ''FirstName'' (VStr ''ann'')) = Inr (sql, [VStr ''ann'']) \<and>
     placeholders sql = 2"
proof -
  have "is_ok (visit_elem (zormtest_env mysql_driver) (newMatch ''FirstName'' (VStr ''ann'')))" by code_simp
  then obtain sql vs where w: "visit_elem (zormtest_env mysql_driver) (newMatch ''FirstName'' (VStr ''ann'')) = Inr (sql, vs)"
    by (auto simp: is_ok_iff)
  have "vs = [VStr ''ann''] \<and> placeholders sql = 2"
    by (rule mysql_match_placeholders [OF w _ zormtest_env_quiet]) (simp add: zormtest_env_def)
  with w show ?thesis by blast
qed

section \<open>When rendering succeeds\<close>

definition field_ok :: "visit_env \<Rightarrow> string \<Rightarrow> bool" where
  "field_ok env f = is_ok (where_visitField env f)"

fun clause_ok :: "visit_env \<Rightarrow> clause \<Rightarrow> bool" where
  "clause_ok env (NotC c) = clause_ok env c"
| "clause_ok env (AndC cs) = list_all (clause_ok env) cs"
| "clause_ok env (OrC cs) = list_all (clause_ok env) cs"
| "clause_ok env (InC ls rs) \<longleftrightarrow> rs = [] \<or>
     list_all (\<lambda>r. length r = length ls) rs \<and> list_all (field_ok env) (clause_paths (InC ls rs))"
| "clause_ok env c = list_all (field_ok env) (clause_paths c)"

lemma is_ok_then [simp]: "is_ok (then_visit a b) \<longleftrightarrow> is_ok a \<and> is_ok b"
  by (cases a; cases b) (auto simp: then_visit_def)

lemma is_ok_bind_Inr [simp]: "is_ok (bind_res r (\<lambda>s. Inr (g s))) = is_ok r"
  by (cases r) auto

lemma visit_elem_ok:
  "is_ok (visit_elem env e) \<longleftrightarrow> list_all (field_ok env) (elem_paths e)"
  "is_ok (visit_template env n i tmpl ps) \<longleftrightarrow> list_all (field_ok env) (concat (map elem_paths ps))"
  "is_ok (visit_args env n i ps) \<longleftrightarrow> list_all (field_ok env) (concat (map elem_paths ps))"
proof (induction env e and env n i tmpl ps and env n i ps rule: visit_elem_visit_template_visit_args.induct)
  case (5 env n i tmpl p ps)
  then show ?case by (cases "visit_elem env p") auto
qed (auto simp: field_ok_def split: option.splits)

lemma in_ok:
  "is_ok (in_left env es) \<longleftrightarrow> list_all (field_ok env) (concat (map elem_paths es))"
  "is_ok (in_tuple env es) \<longleftrightarrow> list_all (field_ok env) (concat (map elem_paths es))"
  by (induction es) (auto simp: visit_elem_ok)

lemma in_right_ok:
  "is_ok (in_right env rs) \<longleftrightarrow> list_all (field_ok env) (concat (map (\<lambda>r. concat (map elem_paths r)) rs))"
  by (induction rs) (auto simp: in_ok)

lemma node_body_ok: "is_ok (node_body j cs) \<longleftrightarrow> list_all is_ok cs"
  by (induction cs) auto

lemma where_clause_ok: "is_ok (where_clause env c) \<longleftrightarrow> clause_ok env c"
proof (induction c)
  case (AndC cs)
  then show ?case by (cases cs) (auto simp: visitNode_def node_body_ok list_all_iff)
next
  case (OrC cs)
  then show ?case by (cases cs) (auto simp: visitNode_def node_body_ok list_all_iff)
next
  case (InC ls rs)
  show ?case by (auto simp: visitIn_def in_ok in_right_ok list_ex_iff list_all_iff)
qed (auto simp: visitBinaryLeaf_def visitNot_def visit_elem_ok)

text \<open>Rendering a clause succeeds exactly when every field it mentions resolves and every IN with a
  non-empty right side has lists of the length of its left side.\<close>

theorem where_succeeds_iff:
  "is_ok (where_Visit env c) \<longleftrightarrow> clause_ok env c"
  by (simp add: where_Visit_def where_clause_ok)

section \<open>The two sides of an IN\<close>

lemma in_left_concat:
  "in_left env es = Inr (s, vs) \<Longrightarrow> \<exists>ts. list_all2 (\<lambda>e t. visit_elem env e = Inr t) es ts \<and> s = concat (map fst ts)"
proof (induction es arbitrary: s vs)
  case (Cons e es)
  then obtain t v u w where e: "visit_elem env e = Inr (t, v)" and r: "in_left env es = Inr (u, w)" and s: "s = t @ u"
    by (auto simp: then_visit_Inr)
  from Cons.IH [OF r] obtain ts where "list_all2 (\<lambda>e t. visit_elem env e = Inr t) es ts" "u = concat (map fst ts)" by blast
  with e s show ?case by (intro exI [of _ "(t, v) # ts"]) simp
qed simp

lemma in_tuple_join:
  "in_tuple env es = Inr (s, vs) \<Longrightarrow> \<exists>ts. list_all2 (\<lambda>e t. visit_elem env e = Inr t) es ts \<and> s = join '','' (map fst ts)"
proof (induction es arbitrary: s vs)
  case (Cons e es)
  then obtain t v u w where e: "visit_elem env e = Inr (t, v)" and r: "in_tuple env es = Inr (u, w)"
    and s: "s = t @ (if es \<noteq> [] then '','' else []) @ u"
    by (auto simp: then_visit_Inr)
  from Cons.IH [OF r] obtain ts where ts: "list_all2 (\<lambda>e t. visit_elem env e = Inr t) es ts" "u = join '','' (map fst ts)" by blast
  then have "es = [] \<longleftrightarrow> ts = []" by auto
  with e s ts show ?case by (intro exI [of _ "(t, v) # ts"]) (auto simp: join_Cons)
qed simp

lemma visitIn_prefix:
  assumes "visitIn env ls rs = Inr (s, vs)" "rs \<noteq> []"
  shows "\<exists>lt rest. list_all2 (\<lambda>e t. visit_elem env e = Inr t) ls lt \<and>
     s = ''('' @ concat (map fst lt) @ '') IN (('' @ rest"
proof -
  from assms obtain l lv r rv where l: "in_left env ls = Inr (l, lv)" and r: "in_right env rs = Inr (r, rv)"
    and s: "s = ''('' @ l @ '') IN ('' @ r @ '')''"
    by (auto simp: visitIn_def then_visit_Inr split: if_splits)
  from r assms(2) obtain r' where "r = ''('' @ r'" by (cases rs) (auto simp: then_visit_Inr)
  moreover obtain lt where "list_all2 (\<lambda>e t. visit_elem env e = Inr t) ls lt" "l = concat (map fst lt)"
    using in_left_concat [OF l] by blast
  ultimately show ?thesis using s by (intro exI [of _ lt] exI [of _ "r' @ '')''"]) simp
qed

text \<open>The left side of an IN over two fields is rendered without a separator: the two column names
  run together, so a lookup by a composite key is not valid SQL.\<close>

theorem in_composite_left_runs_together:
  assumes "where_clause env (InC [FieldE f, FieldE g] rs) = Inr (sql, vs)" "rs \<noteq> []"
  shows "\<exists>a b rest. where_visitField env f = Inr a \<and> where_visitField env g = Inr b \<and>
     sql = ''('' @ a @ b @ '') IN (('' @ rest"
proof -
  have v: "visitIn env [FieldE f, FieldE g] rs = Inr (sql, vs)" using assms(1) by simp
  from visitIn_prefix [OF v assms(2)] obtain lt rest where
    lt: "list_all2 (\<lambda>e t. visit_elem env e = Inr t) [FieldE f, FieldE g] lt"
    and sql: "sql = ''('' @ concat (map fst lt) @ '') IN (('' @ rest" by blast
  from lt obtain a b where "where_visitField env f = Inr a" "where_visitField env g = Inr b"
    "lt = [(a, []), (b, [])]"
    by (auto simp: list_all2_Cons1 bind_res_Inr sql_text_def)
  with sql show ?thesis by simp
qed

theorem in_composite_left_runs_together_witness:
  "\<exists>vs rest. where_clause (zormtest_env mysql_driver) (InC [FieldE ''ID'', FieldE ''AccountID''] [[ValueE (VStr ''1''), ValueE (VStr ''2'')]]) =
       Inr (''(`target`.`id``target`.`account_id`) IN (('' @ rest, vs)"
proof -
  let ?c = "InC [FieldE ''ID'', FieldE ''AccountID''] [[ValueE (VStr ''1''), ValueE (VStr ''2'')]]"
  have "is_ok (where_clause (zormtest_env mysql_driver) ?c)" by code_simp
  then obtain sql vs where w: "where_clause (zormtest_env mysql_driver) ?c = Inr (sql, vs)" by (auto simp: is_ok_iff)
  have f: "where_visitField (zormtest_env mysql_driver) ''ID'' = Inr ''`target`.`id`''"
    "where_visitField (zormtest_env mysql_driver) ''AccountID'' = Inr ''`target`.`account_id`''" by code_simp+
  from in_composite_left_runs_together [OF w] f obtain rest where
    "sql = ''(`target`.`id``target`.`account_id`) IN (('' @ rest" by auto
  with w show ?thesis by blast
qed

text \<open>An empty AND inside another one renders to nothing and leaves a dangling operator.\<close>

lemma nested_empty_and:
  "where_clause env (AndC [AndC [], TruthyC (ValueE v)]) = Inr (''( AND ?)'', [v])"
  by (simp add: visitNode_def then_visit_def piece_add_def sql_text_def)

end
