(* ===== verification/Zormsql_Plan.thy ===== *)
theory Zormsql_Plan
  imports Zormsql_Visitors Zsort
begin

text \<open>
  \<^verbatim>\<open>go/zorm/zormsql/select_query_plan.go\<close>: building the plan of a select and its SQL text. The
  inner query finds the primary keys of one page of the target table; the outer query joins the
  requested relations to them. \<^verbatim>\<open>r.cfg\<close> and \<^verbatim>\<open>r.conn.Driver()\<close> are the arguments \<open>cfg\<close> and \<open>d\<close>.
  The vendored \<^verbatim>\<open>collapsewhitespace.String\<close> is translated byte by byte: its two non-ASCII spaces
  are the UTF-8 sequences C2 85 and C2 A0.
\<close>

section \<open>Joins for field paths\<close>

record join_spec =
  j_left :: table
  j_right :: table
  j_onPairs :: "(column \<times> column) list"
  j_onWhere :: "clause option"
  j_onWhereSQL :: string
  j_onWhereValues :: "gval list"

definition step_pairs :: "relation_step \<Rightarrow> (column \<times> column) list" where
  "step_pairs step =
     map (\<lambda>p. (\<lparr>c_table = rs_leftTable step, c_name = fst p, c_alias = []\<rparr>,
               \<lparr>c_table = rs_rightTable step, c_name = snd p, c_alias = []\<rparr>)) (r_columns (rs_relMapping step))"

definition join_key :: "relation_step \<Rightarrow> string" where
  "join_key step = t_alias (rs_leftTable step) @ ''->'' @ t_alias (rs_rightTable step)"

text \<open>The callback: the joins so far and the keys already seen.\<close>

definition add_join :: "join_spec list \<times> string list \<Rightarrow> relation_step \<Rightarrow> (join_spec list \<times> string list) res" where
  "add_join s step =
     (if join_key step \<in> set (snd s) then Inr s
      else Inr (fst s @ [\<lparr>j_left = rs_leftTable step, j_right = rs_rightTable step, j_onPairs = step_pairs step,
                         j_onWhere = None, j_onWhereSQL = [], j_onWhereValues = []\<rparr>],
                snd s @ [join_key step]))"

definition join_path :: "config \<Rightarrow> mapping \<Rightarrow> table \<Rightarrow> join_spec list \<times> string list \<Rightarrow> string \<Rightarrow>
    (join_spec list \<times> string list) res" where
  "join_path cfg m startTable s path =
     (if isSimpleField path then Inr s else navigateRelationPath cfg m startTable path add_join s)"

definition buildInnerJoinsForFieldPaths :: "config \<Rightarrow> mapping \<Rightarrow> table \<Rightarrow> string list \<Rightarrow> join_spec list res" where
  "buildInnerJoinsForFieldPaths cfg m startTable fieldPaths =
     map_sum id fst (fold_res (join_path cfg m startTable) ([], []) fieldPaths)"

text \<open>\<^verbatim>\<open>ensureRelationsForFieldPaths\<close> walks down the tree of requested relations with the path,
  inserting what is missing; \<open>ensure_path\<close> is the tree after the steps of a path. The Go code works
  on the map the caller passed.\<close>

fun ensure_path :: "string list \<Rightarrow> (string \<times> relation_opts) list \<Rightarrow> (string \<times> relation_opts) list"
and ensure_in :: "string \<Rightarrow> string list \<Rightarrow> (string \<times> relation_opts) list \<Rightarrow> (string \<times> relation_opts) list" where
  "ensure_path [] rels = rels"
| "ensure_path (n # ns) rels = ensure_in n ns rels"
| "ensure_in n ns [] = [(n, RelationOpts (Include [] (ensure_path ns [])) None [])]"
| "ensure_in n ns ((k, RelationOpts (Include fs rs) w srt) # rels) =
     (if k = n then (k, RelationOpts (Include fs (ensure_path ns rs)) w srt) # rels
      else (k, RelationOpts (Include fs rs) w srt) # ensure_in n ns rels)"

definition ensure_step :: "(string \<times> relation_opts) list \<times> string list \<Rightarrow> relation_step \<Rightarrow>
    ((string \<times> relation_opts) list \<times> string list) res" where
  "ensure_step s step =
     (let path = snd s @ [rs_relationName step] in Inr (ensure_path path (fst s), path))"

definition ensure_one :: "config \<Rightarrow> mapping \<Rightarrow> (string \<times> relation_opts) list \<Rightarrow> string \<Rightarrow>
    (string \<times> relation_opts) list res" where
  "ensure_one cfg m relations path =
     (if isSimpleField path then Inr relations
      else map_sum id fst (wrap_res (''field path '' @ path)
        (navigateRelationPath cfg m \<lparr>t_name = [], t_alias = []\<rparr> path ensure_step (relations, []))))"

definition ensureRelationsForFieldPaths :: "config \<Rightarrow> mapping \<Rightarrow> (string \<times> relation_opts) list \<Rightarrow> string list \<Rightarrow>
    (string \<times> relation_opts) list res" where
  "ensureRelationsForFieldPaths cfg m relations fieldPaths = fold_res (ensure_one cfg m) relations fieldPaths"

section \<open>The plan\<close>

record select_plan =
  pl_innerPrimaryTable :: table
  pl_outerPrimaryTable :: table
  pl_outerTable :: table
  pl_innerPrimaryKey :: "column list"
  pl_outerPrimaryKey :: "column list"
  pl_innerJoins :: "join_spec list"
  pl_outerJoins :: "join_spec list"
  pl_structure :: qstructure
  pl_order :: string
  pl_orderValues :: "gval list"
  pl_where :: string
  pl_whereValues :: "gval list"
  pl_limit :: int
  pl_offset :: int
  pl_target :: "scan_target list"

text \<open>The recursive closure \<^verbatim>\<open>visit\<close> that collects the outer joins, parents before children. The
  code joins a relation's name to a nested error with a slash.\<close>

definition outer_join_of :: "config \<Rightarrow> driver \<Rightarrow> table \<Rightarrow> string \<Rightarrow> table \<Rightarrow> (column \<times> column) list \<Rightarrow>
    clause option \<Rightarrow> mapping \<Rightarrow> join_spec res" where
  "outer_join_of cfg d tbl f rightTbl onPairs onWhere relatedMapping =
     (case onWhere of
        None \<Rightarrow> Inr \<lparr>j_left = tbl, j_right = rightTbl, j_onPairs = onPairs, j_onWhere = None,
                     j_onWhereSQL = [], j_onWhereValues = []\<rparr>
      | Some c \<Rightarrow>
          bind_res (wrap_res (''visiting relation where for '' @ f)
            (where_Visit \<lparr>ve_driver = d, ve_table = rightTbl, ve_prefix = [], ve_mapping = relatedMapping,
                          ve_cfg = cfg\<rparr> c)) (\<lambda>wv.
            Inr \<lparr>j_left = tbl, j_right = rightTbl, j_onPairs = onPairs, j_onWhere = Some c,
                 j_onWhereSQL = fst wv, j_onWhereValues = snd wv\<rparr>))"

fun outer_joins :: "config \<Rightarrow> driver \<Rightarrow> table \<Rightarrow> qstructure \<Rightarrow> join_spec list res"
and outer_joins_rels :: "config \<Rightarrow> driver \<Rightarrow> table \<Rightarrow> (string \<times> join_structure) list \<Rightarrow> join_spec list res" where
  "outer_joins cfg d tbl (Structure t cols fs ts pk pkfs pkts rels) = outer_joins_rels cfg d tbl rels"
| "outer_joins_rels cfg d tbl [] = Inr []"
| "outer_joins_rels cfg d tbl ((f, JoinStructure many ps w srt s m) # rels) =
     bind_res (outer_join_of cfg d tbl f (st_table s) ps w m) (\<lambda>j.
     bind_res (wrap_res f (outer_joins cfg d (st_table s) s)) (\<lambda>nested.
     bind_res (outer_joins_rels cfg d tbl rels) (\<lambda>more. Inr (j # nested @ more))))"

definition order_clause :: "config \<Rightarrow> driver \<Rightarrow> mapping \<Rightarrow> table \<Rightarrow> sort_by list \<Rightarrow> piece res" where
  "order_clause cfg d m tbl sorts =
     bind_res (map_res (\<lambda>s. wrap_res ''visiting sort''
         (sort_Visit \<lparr>ve_driver = d, ve_table = tbl, ve_prefix = [], ve_mapping = m, ve_cfg = cfg\<rparr> s)) sorts) (\<lambda>orders.
       Inr (if length orders > 0 then ''ORDER BY '' @ join '', '' (map fst orders) else [],
            concat (map snd orders)))"

definition where_sql :: "config \<Rightarrow> driver \<Rightarrow> mapping \<Rightarrow> table \<Rightarrow> clause option \<Rightarrow> piece res" where
  "where_sql cfg d m tbl clause =
     (case clause of
        None \<Rightarrow> Inr ([], [])
      | Some c \<Rightarrow>
          bind_res (wrap_res ''visiting select where''
            (where_Visit \<lparr>ve_driver = d, ve_table = tbl, ve_prefix = [], ve_mapping = m, ve_cfg = cfg\<rparr> c)) (\<lambda>wv.
            Inr (if fst wv \<noteq> [] then (''WHERE '' @ fst wv, snd wv) else ([], []))))"

definition field_paths :: "clause option \<Rightarrow> sort_by list \<Rightarrow> string list" where
  "field_paths clause sorts =
     (case clause of None \<Rightarrow> [] | Some c \<Rightarrow> extractFieldPaths c) @
     (if length sorts > 0 then extractFieldPathsFromSorts sorts else [])"

definition buildSelectQueryPlan :: "config \<Rightarrow> driver \<Rightarrow> mapping \<Rightarrow> fields \<Rightarrow> (string \<times> relation_opts) list \<Rightarrow>
    clause option \<Rightarrow> sort_by list \<Rightarrow> int \<Rightarrow> int \<Rightarrow> select_plan res" where
  "buildSelectQueryPlan cfg d m fs relations clause sorts limit off =
     (let innerPrimaryTable = \<lparr>t_name = m_table m, t_alias = ''target''\<rparr>;
          outerTable = \<lparr>t_name = [], t_alias = ''inner''\<rparr>;
          outerPrimaryTable = \<lparr>t_name = m_table m, t_alias = ''$''\<rparr>;
          fieldPaths = field_paths clause sorts
      in
      bind_res (if length fieldPaths > 0
          then wrap_res ''ensuring relations for field paths'' (ensureRelationsForFieldPaths cfg m relations fieldPaths)
          else Inr relations) (\<lambda>relations'.
      bind_res (wrap_res ''mapping select columns'' (mapStructure cfg m outerPrimaryTable [] fs relations')) (\<lambda>str.
      let outerPrimaryKey = map (\<lambda>c. \<lparr>c_table = outerTable, c_name = c_alias c, c_alias = c_alias c\<rparr>) (st_primaryKey str);
          innerPrimaryKey = map (\<lambda>c. \<lparr>c_table = innerPrimaryTable, c_name = c_alias c, c_alias = c_alias c\<rparr>) outerPrimaryKey
      in
      bind_res (if length fieldPaths > 0
          then wrap_res ''building inner joins for where/sort clauses''
            (buildInnerJoinsForFieldPaths cfg m innerPrimaryTable fieldPaths)
          else Inr []) (\<lambda>innerJoins.
      let firstJoin = \<lparr>j_left = outerTable, j_right = outerPrimaryTable,
            j_onPairs = map (\<lambda>c. (\<lparr>c_table = outerTable, c_name = c_alias c, c_alias = []\<rparr>,
                                  \<lparr>c_table = outerPrimaryTable, c_name = c_name c, c_alias = []\<rparr>)) innerPrimaryKey,
            j_onWhere = None, j_onWhereSQL = [], j_onWhereValues = []\<rparr>
      in
      bind_res (wrap_res ''mapping select relations'' (outer_joins cfg d outerPrimaryTable str)) (\<lambda>relJoins.
      bind_res (order_clause cfg d m innerPrimaryTable sorts) (\<lambda>order.
      bind_res (where_sql cfg d m innerPrimaryTable clause) (\<lambda>whr.
        Inr \<lparr>pl_innerPrimaryTable = innerPrimaryTable, pl_outerPrimaryTable = outerPrimaryTable,
             pl_outerTable = outerTable, pl_innerPrimaryKey = innerPrimaryKey, pl_outerPrimaryKey = outerPrimaryKey,
             pl_innerJoins = innerJoins, pl_outerJoins = firstJoin # relJoins, pl_structure = str,
             pl_order = fst order, pl_orderValues = snd order, pl_where = fst whr, pl_whereValues = snd whr,
             pl_limit = limit, pl_offset = off, pl_target = fullTarget str\<rparr>)))))))"

section \<open>The SQL text\<close>

fun collapse_ws :: "bool \<Rightarrow> string \<Rightarrow> string" where
  "collapse_ws lastWas [] = []"
| "collapse_ws lastWas [c] = (if is_space c then (if lastWas then [] else '' '') else [c])"
| "collapse_ws lastWas (c # c' # s) =
     (if is_space c then (if lastWas then [] else '' '') @ collapse_ws True (c' # s)
      else if c = CHR 0xC2 \<and> (c' = CHR 0x85 \<or> c' = CHR 0xA0)
      then (if lastWas then [] else '' '') @ collapse_ws True s
      else c # collapse_ws False (c' # s))"

definition on_conditions :: "driver \<Rightarrow> join_spec \<Rightarrow> string list" where
  "on_conditions d j =
     map (\<lambda>(l, r). d_escape_table_column d (t_alias (c_table l)) (c_name l) @ ''='' @
                   d_escape_table_column d (t_alias (c_table r)) (c_name r)) (j_onPairs j)"

definition left_join :: "driver \<Rightarrow> join_spec \<Rightarrow> string list \<Rightarrow> string" where
  "left_join d j conds =
     ''LEFT OUTER JOIN '' @ d_escape_table d (t_name (j_right j)) @ '' AS '' @
     d_escape_table d (t_alias (j_right j)) @ '' ON ('' @ join '' AND '' conds @ '')''"

definition inner_join_sql :: "driver \<Rightarrow> join_spec \<Rightarrow> string" where
  "inner_join_sql d j = left_join d j (on_conditions d j)"

definition outer_join_sql :: "driver \<Rightarrow> join_spec \<Rightarrow> string" where
  "outer_join_sql d j =
     left_join d j (on_conditions d j @ (if j_onWhereSQL j \<noteq> [] then [j_onWhereSQL j] else []))"

definition outer_join_values :: "join_spec list \<Rightarrow> gval list" where
  "outer_join_values js = concat (map (\<lambda>j. if j_onWhereSQL j \<noteq> [] then j_onWhereValues j else []) js)"

text \<open>The white space of the raw string literal between its lines is a line break here; the
  collapse makes it one space.\<close>

definition query_head :: "driver \<Rightarrow> select_plan \<Rightarrow> string" where
  "query_head d plan =
     (let nl = [CHR 0x0A];
          outerColumns = join '', '' (map (\<lambda>c. d_escape_table_column d (t_alias (c_table c)) (c_name c))
            (fullColumns (pl_structure plan)));
          innerColumns = join '', '' (map (\<lambda>c. d_escape_table_column d (t_alias (c_table c)) (c_name c) @ '' AS '' @
            d_escape_column d (c_alias c)) (pl_innerPrimaryKey plan));
          innerJoins = join '' '' (map (inner_join_sql d) (pl_innerJoins plan))
      in nl @ ''SELECT'' @ nl @ outerColumns @ nl @ ''FROM ('' @ nl @ ''SELECT '' @ nl @ innerColumns @ nl @ ''FROM'' @ nl @
         d_escape_table d (t_name (pl_innerPrimaryTable plan)) @ '' AS '' @
         d_escape_table d (t_alias (pl_innerPrimaryTable plan)) @ nl @ innerJoins @ nl @ ''/*where*/ '')"

definition query_tail :: "driver \<Rightarrow> select_plan \<Rightarrow> string" where
  "query_tail d plan =
     (let nl = [CHR 0x0A] in
      '' '' @ nl @ ''/*limit*/ LIMIT '' @ int_str (pl_limit plan) @ '' OFFSET '' @ int_str (pl_offset plan) @ nl @
      '') AS '' @ d_escape_table d (t_alias (pl_outerTable plan)) @ nl)"

definition plan_query :: "driver \<Rightarrow> select_plan \<Rightarrow> string \<times> gval list" where
  "plan_query d plan =
     (let nl = [CHR 0x0A] in
      (collapse_ws False
        (query_head d plan @ pl_where plan @ '' '' @ nl @ ''/*order*/ '' @ pl_order plan @
         query_tail d plan @ join '' '' (map (outer_join_sql d) (pl_outerJoins plan)) @ nl),
       pl_whereValues plan @ pl_orderValues plan @ outer_join_values (pl_outerJoins plan)))"

end
