(* ===== verification/Zormsql_Plan_Joins.thy ===== *)
theory Zormsql_Plan_Joins
  imports Zormsql_Plan Zormsql_Mapping_Laws
begin

text \<open>
  Laws of the joins of a select: the relations added for field paths, and the inner joins. A path
  is its trail of steps; the joins kept are the first of every pair of aliases.
\<close>

section \<open>Relations for field paths\<close>

text \<open>The options of the relation at a path in a tree of requested relations.\<close>

fun rel_at :: "string list \<Rightarrow> (string \<times> relation_opts) list \<Rightarrow> (fields \<times> clause option \<times> sort_by list) option" where
  "rel_at [] rels = None"
| "rel_at (n # ns) [] = None"
| "rel_at (n # ns) ((k, RelationOpts (Include fs rs) w srt) # rels) =
     (if k = n then (if ns = [] then Some (fs, w, srt) else rel_at ns rs) else rel_at (n # ns) rels)"

fun is_prefix :: "string list \<Rightarrow> string list \<Rightarrow> bool" where
  "is_prefix [] ys = True"
| "is_prefix (x # xs) [] = False"
| "is_prefix (x # xs) (y # ys) = (x = y \<and> is_prefix xs ys)"

lemma rel_at_Nil [simp]: "rel_at q [] = None"
  by (cases q) auto

lemma rel_at_ensure:
  "rel_at q (ensure_path p rels) =
     (case rel_at q rels of Some x \<Rightarrow> Some x
      | None \<Rightarrow> if q \<noteq> [] \<and> is_prefix q p then Some ([], None, []) else None)"
  "rel_at q (ensure_in n p rels) =
     (case rel_at q rels of Some x \<Rightarrow> Some x
      | None \<Rightarrow> if q \<noteq> [] \<and> is_prefix q (n # p) then Some ([], None, []) else None)"
proof (induction p rels and n p rels arbitrary: q and q rule: ensure_path_ensure_in.induct)
  case (1 rels)
  then show ?case by (cases q) (auto split: option.splits)
next
  case (3 n ns)
  then show ?case by (cases q) auto
next
  case (4 n ns k fs rs w srt rels)
  then show ?case by (cases q) (auto split: option.splits)
qed auto

lemma ensure_step_pair: "ensure_step (r, p) s =
    Inr (ensure_path (p @ [rs_relationName s]) r, p @ [rs_relationName s])"
  by (simp add: ensure_step_def Let_def)

lemma ensure_fold:
  "fold_res ensure_step (rels, pre) steps =
     Inr (fold (\<lambda>k. ensure_path (pre @ take (Suc k) (map rs_relationName steps))) [0..<length steps] rels,
          pre @ map rs_relationName steps)"
proof (induction steps arbitrary: rels pre)
  case (Cons s steps)
  have "[0..<length (s # steps)] = 0 # map Suc [0..<length steps]"
    by (simp add: map_Suc_upt upt_conv_Cons del: upt_Suc)
  then show ?case by (simp add: ensure_step_pair Cons fold_map comp_def del: upt_Suc)
qed simp

lemma rel_at_ensure_fold:
  "rel_at q (fold (\<lambda>k. ensure_path (f k)) ks rels) =
     (case rel_at q rels of Some x \<Rightarrow> Some x
      | None \<Rightarrow> if q \<noteq> [] \<and> (\<exists>k \<in> set ks. is_prefix q (f k)) then Some ([], None, []) else None)"
proof (induction ks arbitrary: rels)
  case (Cons k ks)
  show ?case unfolding fold_simps Cons by (auto simp: rel_at_ensure split: option.splits)
qed (auto split: option.splits)

lemma is_prefix_take: "is_prefix q (take k p) \<longleftrightarrow> length q \<le> k \<and> is_prefix q p"
proof (induction q p arbitrary: k rule: is_prefix.induct)
  case (3 x xs y ys)
  then show ?case by (cases k) auto
next
  case (2 x xs)
  then show ?case by simp
qed auto

lemma is_prefix_length: "is_prefix q p \<Longrightarrow> length q \<le> length p"
  by (induction q p rule: is_prefix.induct) auto

lemma is_prefix_refl [simp]: "is_prefix p p"
  by (induction p) auto

lemma prefix_of_steps:
  "q \<noteq> [] \<and> (\<exists>k \<in> set [0..<length p]. is_prefix q (take (Suc k) p)) \<longleftrightarrow> q \<noteq> [] \<and> is_prefix q p"
proof -
  have "\<exists>k \<in> {0..<length p}. is_prefix q (take (Suc k) p)" if "q \<noteq> []" "is_prefix q p"
    using is_prefix_length [OF that(2)] that
    by (cases q) (auto simp: is_prefix_take Suc_le_eq intro!: bexI [of _ "length (tl q)"])
  then show ?thesis by (auto simp: is_prefix_take)
qed

lemma trail_names: "trail cfg m tbl pre ns = Inr steps \<Longrightarrow> map rs_relationName steps = ns"
  by (induction cfg m tbl pre ns arbitrary: steps rule: trail.induct)
    (auto simp: bind_res_Inr dest: relation_step_of_fields)

definition path_names :: "string \<Rightarrow> string list" where
  "path_names path = butlast (split_on CHR ''.'' path)"

lemma ensure_one_at:
  assumes "ensure_one cfg m rels path = Inr rels'"
  shows "rel_at q rels' =
     (case rel_at q rels of Some x \<Rightarrow> Some x
      | None \<Rightarrow> if q \<noteq> [] \<and> is_prefix q (path_names path) then Some ([], None, []) else None)"
proof (cases "isSimpleField path")
  case True
  then have "path_names path = []" by (simp add: path_names_def isSimpleField_iff split_on_plain)
  with assms True show ?thesis by (cases q) (auto simp: ensure_one_def split: option.splits)
next
  case False
  from assms False obtain names where
    "navigateRelationPath cfg m \<lparr>t_name = [], t_alias = []\<rparr> path ensure_step (rels, []) = Inr (rels', names)"
    by (auto simp: ensure_one_def wrap_res_def split: sum.splits)
  then obtain steps where st: "path_trail cfg m \<lparr>t_name = [], t_alias = []\<rparr> path = Inr steps"
    and f: "fold_res ensure_step (rels, []) steps = Inr (rels', names)"
    unfolding navigate_trail [OF False] by blast
  have n: "map rs_relationName steps = path_names path"
    using trail_names [OF st [unfolded path_trail_def]] by (simp add: path_names_def)
  then have len: "length steps = length (path_names path)" by (metis length_map)
  from f have "rels' = fold (\<lambda>k. ensure_path (take (Suc k) (path_names path))) [0..<length (path_names path)] rels"
    by (auto simp: ensure_fold n len)
  then show ?thesis by (simp only: rel_at_ensure_fold prefix_of_steps)
qed

text \<open>\<^verbatim>\<open>ensureRelationsForFieldPaths\<close> keeps every requested relation with its fields, filter and
  order, and adds, with default options, exactly the relations on the way of a dotted path that
  were not requested.\<close>

theorem ensureRelations_exact:
  assumes "ensureRelationsForFieldPaths cfg m rels paths = Inr rels'"
  shows "rel_at q rels' =
     (case rel_at q rels of Some x \<Rightarrow> Some x
      | None \<Rightarrow> if q \<noteq> [] \<and> (\<exists>p \<in> set paths. is_prefix q (path_names p)) then Some ([], None, []) else None)"
  using assms
proof (induction paths arbitrary: rels)
  case Nil
  then show ?case by (auto simp: ensureRelationsForFieldPaths_def split: option.splits)
next
  case (Cons p paths)
  then obtain r1 where r1: "ensure_one cfg m rels p = Inr r1"
    and r: "ensureRelationsForFieldPaths cfg m r1 paths = Inr rels'"
    by (auto simp: ensureRelationsForFieldPaths_def bind_res_Inr)
  show ?case unfolding Cons.IH [OF r] ensure_one_at [OF r1] by (auto split: option.splits)
qed

theorem ensureRelations_exact_witness:
  "\<exists>rels'. ensureRelationsForFieldPaths zormtest_cfg UserMapping ex_rels [''Account.Users.FirstName''] = Inr rels' \<and>
     rel_at [''Account''] rels' = Some ([''Company''], None, []) \<and> rel_at [''Address''] rels' = None"
proof -
  have "is_ok (ensureRelationsForFieldPaths zormtest_cfg UserMapping ex_rels [''Account.Users.FirstName''])" by code_simp
  then obtain rels' where r: "ensureRelationsForFieldPaths zormtest_cfg UserMapping ex_rels [''Account.Users.FirstName''] = Inr rels'"
    by (auto simp: is_ok_iff)
  note e = ensureRelations_exact [OF r]
  show ?thesis using r e [of "[''Account'']"] e [of "[''Address'']"] by (simp add: ex_rels_def path_names_def)
qed

section \<open>Inner joins\<close>

definition join_of :: "relation_step \<Rightarrow> join_spec" where
  "join_of step = \<lparr>j_left = rs_leftTable step, j_right = rs_rightTable step, j_onPairs = step_pairs step,
     j_onWhere = None, j_onWhereSQL = [], j_onWhereValues = []\<rparr>"

text \<open>Every left table is in \<open>R\<close> or the right table of an earlier step.\<close>

fun chained :: "table set \<Rightarrow> (table \<times> table) list \<Rightarrow> bool" where
  "chained R [] = True"
| "chained R ((l, r) # js) = (l \<in> R \<and> chained (insert r R) js)"

lemma chained_append: "chained R (xs @ ys) \<longleftrightarrow> chained R xs \<and> chained (R \<union> snd ` set xs) ys"
proof (induction R xs rule: chained.induct)
  case (2 R l r js)
  have "insert r R \<union> snd ` set js = R \<union> snd ` set ((l, r) # js)" by auto
  then show ?case using 2 by simp
qed simp

lemma chained_mono: "chained R xs \<Longrightarrow> R \<subseteq> S \<Longrightarrow> chained S xs"
proof (induction R xs arbitrary: S rule: chained.induct)
  case (2 R l r js)
  then have "chained (insert r S) js" by (meson chained.simps(2) insert_mono)
  with 2 show ?case by auto
qed simp

lemma chained_concat: "\<forall>x \<in> set xss. chained R x \<Longrightarrow> chained R (concat xss)"
proof (induction xss rule: rev_induct)
  case (snoc x xss)
  then have "chained (R \<union> snd ` set (concat xss)) x" using chained_mono [of R x] by auto
  with snoc show ?case by (simp add: chained_append)
qed simp

definition ends :: "relation_step \<Rightarrow> table \<times> table" where
  "ends s = (rs_leftTable s, rs_rightTable s)"

lemma chained_ends:
  "chained R (ends s # js) \<longleftrightarrow> rs_leftTable s \<in> R \<and> chained (insert (rs_rightTable s) R) js"
  by (simp add: ends_def)

lemma trail_chained: "trail cfg m tbl pre ns = Inr steps \<Longrightarrow> chained {tbl} (map ends steps)"
proof (induction cfg m tbl pre ns arbitrary: steps rule: trail.induct)
  case (2 cfg m tbl pre n ns)
  from "2.prems" obtain s ss where s: "relation_step_of cfg m tbl pre n = Inr s"
    and ss: "trail cfg (rs_relationMapping s) (rs_rightTable s) (pre @ [n]) ns = Inr ss" and steps: "steps = s # ss"
    by (auto simp: bind_res_Inr)
  from "2.IH" [OF s ss] have "chained {rs_rightTable s, tbl} (map ends ss)"
    by (rule chained_mono) simp
  then show ?case using relation_step_of_fields [OF s] by (simp add: steps chained_ends)
qed simp

text \<open>The steps whose join is kept: the first of every key.\<close>

lemma add_join_pair:
  "add_join (map join_of ps, map join_key ps) s =
     (if join_key s \<in> join_key ` set ps then Inr (map join_of ps, map join_key ps)
      else Inr (map join_of (ps @ [s]), map join_key (ps @ [s])))"
  by (simp add: add_join_def join_of_def)

lemma add_joins_kept:
  "inj_on join_key (set ss) \<Longrightarrow>
   \<exists>ps. fold_res add_join ([], []) ss = Inr (map join_of ps, map join_key ps) \<and> set ps = set ss \<and>
     distinct (map join_key ps) \<and> (chained R (map ends ss) \<longrightarrow> chained R (map ends ps))"
proof (induction ss rule: rev_induct)
  case (snoc s ss)
  then have "inj_on join_key (set ss)" by (auto intro: inj_on_subset)
  with snoc.IH obtain ps where ps: "fold_res add_join ([], []) ss = Inr (map join_of ps, map join_key ps)"
    "set ps = set ss" "distinct (map join_key ps)" "chained R (map ends ss) \<longrightarrow> chained R (map ends ps)" by blast
  show ?case
  proof (cases "join_key s \<in> join_key ` set ps")
    case True
    then have "s \<in> set ss" using snoc.prems ps(2) by (auto simp: inj_on_def)
    with True ps show ?thesis
      by (intro exI [of _ ps]) (auto simp: fold_res_append add_join_pair chained_append)
  next
    case False
    have "snd ` ends ` set ps = snd ` ends ` set ss" by (simp add: ps(2))
    with False ps show ?thesis
      by (intro exI [of _ "ps @ [s]"]) (auto simp: fold_res_append add_join_pair chained_append)
  qed
qed (intro exI [of _ "[]"], simp)

lemma join_paths_trails:
  "fold_res (join_path cfg m tbl) s paths = Inr t \<longleftrightarrow>
     (\<exists>tr. map_res (path_trail cfg m tbl) (filter (\<lambda>p. \<not> isSimpleField p) paths) = Inr tr \<and>
        fold_res add_join s (concat tr) = Inr t)"
proof (induction paths arbitrary: s)
  case (Cons p paths)
  show ?case
  proof (cases "isSimpleField p")
    case True
    then have "join_path cfg m tbl s p = Inr s" by (simp add: join_path_def)
    with Cons True show ?thesis by simp
  next
    case False
    then have "join_path cfg m tbl s p = Inr u \<longleftrightarrow>
        (\<exists>steps. path_trail cfg m tbl p = Inr steps \<and> fold_res add_join s steps = Inr u)" for u
      by (simp add: join_path_def navigate_trail)
    note one = this
    have "fold_res (join_path cfg m tbl) s (p # paths) = Inr t \<longleftrightarrow>
        (\<exists>u. join_path cfg m tbl s p = Inr u \<and> fold_res (join_path cfg m tbl) u paths = Inr t)"
      by (simp add: bind_res_Inr)
    with False show ?thesis unfolding one Cons by (auto simp: bind_res_Inr fold_res_append)
  qed
qed simp

text \<open>Names without an underscore or a greater-than sign, so that aliases and keys read back.\<close>

definition plain_path :: "string \<Rightarrow> bool" where
  "plain_path p \<longleftrightarrow> (\<forall>w \<in> set (path_names p). CHR ''_'' \<notin> set w \<and> CHR ''>'' \<notin> set w)"

lemma trail_take: "trail cfg m tbl pre ns = Inr steps \<Longrightarrow> trail cfg m tbl pre (take k ns) = Inr (take k steps)"
proof (induction cfg m tbl pre ns arbitrary: steps k rule: trail.induct)
  case (2 cfg m tbl pre n ns)
  then show ?case by (cases k) (auto simp: bind_res_Inr)
qed simp

lemma trail_alias:
  "trail cfg m tbl pre ns = Inr steps \<Longrightarrow> i < length steps \<Longrightarrow>
     t_alias (rs_rightTable (steps ! i)) = join ''_'' (pre @ take (Suc i) ns)"
proof (induction cfg m tbl pre ns arbitrary: steps i rule: trail.induct)
  case (2 cfg m tbl pre n ns)
  from "2.prems"(1) obtain s ss where s: "relation_step_of cfg m tbl pre n = Inr s"
    and ss: "trail cfg (rs_relationMapping s) (rs_rightTable s) (pre @ [n]) ns = Inr ss" and steps: "steps = s # ss"
    by (auto simp: bind_res_Inr)
  show ?case
  proof (cases i)
    case 0
    then show ?thesis using relation_step_of_fields [OF s] by (simp add: steps)
  next
    case (Suc i')
    then show ?thesis using "2.IH" [OF s ss, of i'] "2.prems"(2) by (simp add: steps)
  qed
qed simp

lemma join_chars: "set (join sep ws) \<subseteq> set sep \<union> \<Union> (set ` set ws)"
  by (induction sep ws rule: join.induct) auto

lemma step_determined:
  assumes "path_trail cfg m tbl p = Inr st" "path_trail cfg m tbl q = Inr st'"
    and "plain_path p" "plain_path q" "s \<in> set st" "s' \<in> set st'"
    and "t_alias (rs_rightTable s) = t_alias (rs_rightTable s')"
  shows "s = s'"
proof -
  from assms(5,6) obtain i k where i: "i < length st" "s = st ! i" and k: "k < length st'" "s' = st' ! k"
    by (auto simp: in_set_conv_nth)
  note tp = assms(1) [unfolded path_trail_def path_names_def [symmetric]]
    and tq = assms(2) [unfolded path_trail_def path_names_def [symmetric]]
  let ?P = "take (Suc i) (path_names p)" and ?Q = "take (Suc k) (path_names q)"
  have ne: "?P \<noteq> []" "?Q \<noteq> []" using i(1) k(1) trail_length [OF tp] trail_length [OF tq] by auto
  have al: "join ''_'' ?P = join ''_'' ?Q"
    using trail_alias [OF tp i(1)] trail_alias [OF tq k(1)] assms(7) i(2) k(2) by simp
  have eq: "?P = ?Q"
    by (rule join_underscore_inj [OF _ _ ne al])
      (use assms(3,4) in \<open>auto simp: plain_path_def dest: in_set_takeD\<close>)
  have "take (Suc i) st = take (Suc k) st'"
    using trail_take [OF tp, of "Suc i"] trail_take [OF tq, of "Suc k"] eq by simp
  then have "last (take (Suc i) st) = last (take (Suc k) st')" by simp
  then show ?thesis using i k by (simp add: take_Suc_conv_app_nth)
qed


lemma key_alias:
  assumes "CHR ''>'' \<notin> set (t_alias (rs_rightTable s))" "CHR ''>'' \<notin> set (t_alias (rs_rightTable s'))"
    and "join_key s = join_key s'"
  shows "t_alias (rs_rightTable s) = t_alias (rs_rightTable s')"
proof -
  have "(t_alias (rs_leftTable s) @ ''-'') @ CHR ''>'' # t_alias (rs_rightTable s) =
        (t_alias (rs_leftTable s') @ ''-'') @ CHR ''>'' # t_alias (rs_rightTable s')"
    using assms(3) by (simp add: join_key_def)
  then show ?thesis using sep_unique_right [OF assms(1,2)] by blast
qed

lemma plain_alias:
  assumes "path_trail cfg m tbl p = Inr st" "plain_path p" "s \<in> set st"
  shows "CHR ''>'' \<notin> set (t_alias (rs_rightTable s))"
proof -
  from assms(3) obtain i where i: "i < length st" "s = st ! i" by (auto simp: in_set_conv_nth)
  have "t_alias (rs_rightTable s) = join ''_'' (take (Suc i) (path_names p))"
    using trail_alias [OF assms(1) [unfolded path_trail_def path_names_def [symmetric]] i(1)] i(2) by simp
  then show ?thesis
    using join_chars [of "''_''" "take (Suc i) (path_names p)"] assms(2)
    by (auto simp: plain_path_def dest: in_set_takeD)
qed

lemma inner_joins_cover_paths:
  assumes "buildInnerJoinsForFieldPaths cfg m tbl paths = Inr joins"
    and "\<forall>p \<in> set paths. plain_path p"
  shows "(\<forall>p \<in> set paths. \<not> isSimpleField p \<longrightarrow>
            (\<exists>steps. path_trail cfg m tbl p = Inr steps \<and> join_of ` set steps \<subseteq> set joins)) \<and>
         distinct (map (\<lambda>j. t_alias (j_right j)) joins) \<and>
         chained {tbl} (map (\<lambda>j. (j_left j, j_right j)) joins)"
proof -
  let ?dotted = "filter (\<lambda>p. \<not> isSimpleField p) paths"
  from assms(1) obtain t where "fold_res (join_path cfg m tbl) ([], []) paths = Inr t" and t: "joins = fst t"
    unfolding buildInnerJoinsForFieldPaths_def by (cases "fold_res (join_path cfg m tbl) ([], []) paths") auto
  then obtain tr where tr: "map_res (path_trail cfg m tbl) ?dotted = Inr tr"
    and fold: "fold_res add_join ([], []) (concat tr) = Inr t" by (auto simp: join_paths_trails)
  have of_path: "\<exists>p \<in> set paths. path_trail cfg m tbl p = Inr st" if "st \<in> set tr" for st
    using map_res_mem [OF tr that] by auto
  have same: "s = s'" if ss: "s \<in> set (concat tr)" "s' \<in> set (concat tr)"
    and eq: "t_alias (rs_rightTable s) = t_alias (rs_rightTable s')" for s s'
  proof -
    from ss obtain st st' where "st \<in> set tr" "s \<in> set st" "st' \<in> set tr" "s' \<in> set st'" by auto
    with of_path assms(2) step_determined eq show ?thesis by metis
  qed
  have plain: "CHR ''>'' \<notin> set (t_alias (rs_rightTable s))" if "s \<in> set (concat tr)" for s
    using that of_path assms(2) plain_alias by fastforce
  have inj: "inj_on join_key (set (concat tr))"
  proof (rule inj_onI)
    fix s s' assume a: "s \<in> set (concat tr)" "s' \<in> set (concat tr)" "join_key s = join_key s'"
    show "s = s'" by (rule same [OF a(1,2) key_alias [OF plain [OF a(1)] plain [OF a(2)] a(3)]])
  qed
  have "chained {tbl} (map ends (concat tr))"
    unfolding map_concat
    by (rule chained_concat) (auto dest!: of_path simp: path_trail_def intro: trail_chained)
  with add_joins_kept [OF inj, of "{tbl}"] fold t obtain ps where ps: "joins = map join_of ps"
    "set ps = set (concat tr)" "distinct (map join_key ps)" "chained {tbl} (map ends ps)" by auto
  have "inj_on (\<lambda>s. t_alias (rs_rightTable s)) (set ps)"
    unfolding ps(2) by (rule inj_onI) (rule same)
  moreover have "distinct ps" using ps(3) by (simp add: distinct_map)
  ultimately have "distinct (map (\<lambda>j. t_alias (j_right j)) joins)"
    by (simp add: ps(1) distinct_map comp_def join_of_def inj_on_def)
  moreover have "chained {tbl} (map (\<lambda>j. (j_left j, j_right j)) joins)"
    using ps(4) by (simp add: ps(1) comp_def join_of_def ends_def [abs_def])
  moreover have "\<exists>steps. path_trail cfg m tbl p = Inr steps \<and> join_of ` set steps \<subseteq> set joins"
    if p: "p \<in> set paths" "\<not> isSimpleField p" for p
  proof -
    from p map_res_mem_rev [OF tr, of p] obtain st where "path_trail cfg m tbl p = Inr st" "st \<in> set tr"
      by auto
    moreover from this have "set st \<subseteq> set ps" using ps(2) by auto
    ultimately show ?thesis by (auto simp: ps(1))
  qed
  ultimately show ?thesis by blast
qed

lemma plan_inner_joins:
  assumes "buildSelectQueryPlan cfg d m fs rels clause sorts limit off = Inr plan"
  shows "pl_innerPrimaryTable plan = \<lparr>t_name = m_table m, t_alias = ''target''\<rparr> \<and>
     buildInnerJoinsForFieldPaths cfg m (pl_innerPrimaryTable plan) (field_paths clause sorts) = Inr (pl_innerJoins plan)"
  using assms
  by (cases "field_paths clause sorts")
    (auto simp: buildSelectQueryPlan_def Let_def bind_res_Inr buildInnerJoinsForFieldPaths_def simp del: mapStructure.simps)

text \<open>C3: Every dotted field of the where and sort clauses of a select resolves into a table the inner
  query joins; the joined tables have different aliases, and each is joined to the target table or
  to a table joined before it (for relation names that keep aliases readable).\<close>

theorem plan_joins_what_it_mentions:
  assumes plan: "buildSelectQueryPlan cfg d m fs rels clause sorts limit off = Inr plan"
    and plain: "\<forall>p \<in> set (field_paths clause sorts). plain_path p"
  shows "(\<forall>f \<in> set (field_paths clause sorts). \<forall>col.
            resolveDotDelimitedField cfg m (pl_innerPrimaryTable plan) f = Inr col \<longrightarrow>
            c_table col \<in> j_right ` set (pl_innerJoins plan)) \<and>
         distinct (map (\<lambda>j. t_alias (j_right j)) (pl_innerJoins plan)) \<and>
         chained {pl_innerPrimaryTable plan} (map (\<lambda>j. (j_left j, j_right j)) (pl_innerJoins plan))"
proof -
  let ?t = "pl_innerPrimaryTable plan"
  note cover = inner_joins_cover_paths [OF conjunct2 [OF plan_inner_joins [OF plan]] plain]
  have "c_table col \<in> j_right ` set (pl_innerJoins plan)"
    if f: "f \<in> set (field_paths clause sorts)" and col: "resolveDotDelimitedField cfg m ?t f = Inr col" for f col
  proof -
    from col obtain st ty where dotted: "\<not> isSimpleField f" and st: "path_trail cfg m ?t f = Inr st"
      and mf: "mapField (rs_relationMapping (last st)) (rs_rightTable (last st)) []
          (last (split_on CHR ''.'' f)) = Inr (col, ty)"
      unfolding resolve_trail by blast
    have "length (butlast (split_on CHR ''.'' f)) \<noteq> 0" using dotted by (simp add: isSimpleField_parts)
    then have "st \<noteq> []" using st by (auto simp: path_trail_def dest: trail_length)
    then have "join_of (last st) \<in> set (pl_innerJoins plan)"
      using cover f dotted st by (auto simp: subset_eq)
    moreover have "c_table col = j_right (join_of (last st))"
      using mf by (auto simp: mapField_def join_of_def Let_def split: option.splits)
    ultimately show ?thesis by blast
  qed
  with cover show ?thesis by blast
qed

theorem plan_joins_what_it_mentions_witness:
  "\<exists>plan. buildSelectQueryPlan zormtest_cfg sqlite3_driver UserMapping [] []
       (Some (Eq (FieldE ''Account.Company'') (ValueE (VStr ''Acme'')))) [] 10 0 = Inr plan \<and>
     \<lparr>t_name = ''accounts'', t_alias = ''Account''\<rparr> \<in> j_right ` set (pl_innerJoins plan)"
proof -
  let ?c = "Some (Eq (FieldE ''Account.Company'') (ValueE (VStr ''Acme'')))"
  have "is_ok (buildSelectQueryPlan zormtest_cfg sqlite3_driver UserMapping [] [] ?c [] 10 0)" by code_simp
  then obtain plan where plan: "buildSelectQueryPlan zormtest_cfg sqlite3_driver UserMapping [] [] ?c [] 10 0 = Inr plan"
    by (auto simp: is_ok_iff)
  have paths: "field_paths ?c [] = [''Account.Company'']" by (simp add: field_paths_def extractFieldPaths_def)
  have plain: "\<forall>p \<in> set (field_paths ?c []). plain_path p"
    unfolding paths by (simp add: plain_path_def path_names_def)
  have t: "pl_innerPrimaryTable plan = \<lparr>t_name = ''users'', t_alias = ''target''\<rparr>"
    using plan_inner_joins [OF plan] by (simp add: zormtest_defs)
  have r: "resolveDotDelimitedField zormtest_cfg UserMapping \<lparr>t_name = ''users'', t_alias = ''target''\<rparr> ''Account.Company'' =
      Inr \<lparr>c_table = \<lparr>t_name = ''accounts'', t_alias = ''Account''\<rparr>, c_name = ''company'', c_alias = ''company''\<rparr>"
    by code_simp
  from plan_joins_what_it_mentions [OF plan plain] r plan show ?thesis unfolding paths t by fastforce
qed

end
