(* ===== verification/Zormsql_Plan_Query.thy ===== *)
theory Zormsql_Plan_Query
  imports Zormsql_Plan_Joins Zormsql_Visitors_Laws
begin

text \<open>
  The placeholders of a whole select and the values bound to them. The lemmas about a driver are
  proved in the locale \<open>sql_driver\<close> and hold for the drivers that interpret it.
\<close>

section \<open>Placeholders of the whole query\<close>

definition quiet_db :: "mapping \<Rightarrow> bool" where
  "quiet_db m \<longleftrightarrow> quiet_mapping m \<and> placeholders (m_table m) = 0 \<and>
     list_all (\<lambda>r. list_all (\<lambda>p. placeholders (fst p) = 0 \<and> placeholders (snd p) = 0) (r_columns r)) (m_relations m)"

definition quiet_cfg :: "config \<Rightarrow> bool" where
  "quiet_cfg cfg \<longleftrightarrow> list_all (\<lambda>p. quiet_db (snd p)) (cfg_mappings cfg)"

definition quiet_table :: "table \<Rightarrow> bool" where
  "quiet_table t \<longleftrightarrow> placeholders (t_name t) = 0 \<and> placeholders (t_alias t) = 0"

definition quiet_col :: "column \<Rightarrow> bool" where
  "quiet_col c \<longleftrightarrow> quiet_table (c_table c) \<and> placeholders (c_name c) = 0 \<and> placeholders (c_alias c) = 0"

definition quiet_where :: "driver \<Rightarrow> clause option \<Rightarrow> bool" where
  "quiet_where d w \<longleftrightarrow> (case w of None \<Rightarrow> True | Some c \<Rightarrow> quiet_clause d c)"

fun quiet_rels :: "driver \<Rightarrow> (string \<times> relation_opts) list \<Rightarrow> bool" where
  "quiet_rels d [] = True"
| "quiet_rels d ((f, RelationOpts (Include fs rs) w srt) # rels) \<longleftrightarrow>
     quiet_where d w \<and> quiet_rels d rs \<and> quiet_rels d rels"

fun quiet_str :: "driver \<Rightarrow> qstructure \<Rightarrow> bool"
and quiet_str_rels :: "driver \<Rightarrow> (string \<times> join_structure) list \<Rightarrow> bool" where
  "quiet_str d (Structure tbl cols fs ts pk pkfs pkts rels) \<longleftrightarrow>
     quiet_table tbl \<and> list_all quiet_col pk \<and> list_all quiet_col cols \<and> quiet_str_rels d rels"
| "quiet_str_rels d [] = True"
| "quiet_str_rels d ((f, JoinStructure many ps w srt s m) # rels) \<longleftrightarrow>
     list_all (\<lambda>p. quiet_col (fst p) \<and> quiet_col (snd p)) ps \<and> quiet_where d w \<and> quiet_mapping m \<and>
     quiet_str d s \<and> quiet_str_rels d rels"

lemma colMap_columns: "map_of (colMap m) f = Some col \<Longrightarrow> col \<in> cm_name ` set (m_columns m)"
proof -
  have "map_of (fold (\<lambda>c cm. map_put (cm_field c) (cm_name c) cm) cs acc) f = Some col \<Longrightarrow>
      col \<in> cm_name ` set cs \<or> map_of acc f = Some col" for cs acc
  proof (induction cs arbitrary: acc)
    case (Cons c cs)
    from Cons.IH [of "map_put (cm_field c) (cm_name c) acc"] Cons.prems show ?case
      by (auto split: if_splits)
  qed simp
  from this [of "m_columns m" "[]"] show "map_of (colMap m) f = Some col \<Longrightarrow> ?thesis" by (simp add: colMap_def)
qed

lemma mapStructure_field_quiet:
  "mapStructure_field m tbl p f = Inr ct \<Longrightarrow> quiet_mapping m \<Longrightarrow> quiet_table tbl \<Longrightarrow> placeholders p = 0 \<Longrightarrow>
     quiet_col (fst ct)"
  by (auto simp: mapStructure_field_def quiet_col_def quiet_mapping_def list_all_iff
      split: option.splits if_splits dest!: colMap_columns)

lemma relationByField_quiet:
  "relationByField m f = Some r \<Longrightarrow> quiet_db m \<Longrightarrow> placeholders f = 0 \<and>
     (\<forall>p \<in> set (r_columns r). placeholders (fst p) = 0 \<and> placeholders (snd p) = 0)"
  by (auto simp: relationByField_def quiet_db_def quiet_mapping_def list_all_iff dest!: find_Some_D)

lemma cfg_quiet: "map_of (cfg_mappings cfg) k = Some m \<Longrightarrow> quiet_cfg cfg \<Longrightarrow> quiet_db m"
  by (fastforce simp: quiet_cfg_def list_all_iff dest: map_of_SomeD)

lemma mapStructure_quiet:
  "mapStructure cfg m tbl p fs rels = Inr s \<Longrightarrow> quiet_cfg cfg \<Longrightarrow> quiet_db m \<Longrightarrow> quiet_table tbl \<Longrightarrow>
     placeholders p = 0 \<Longrightarrow> quiet_rels d rels \<Longrightarrow> quiet_str d s"
  "mapStructure_rels cfg m tbl p rels = Inr out \<Longrightarrow> quiet_cfg cfg \<Longrightarrow> quiet_db m \<Longrightarrow> quiet_table tbl \<Longrightarrow>
     placeholders p = 0 \<Longrightarrow> quiet_rels d rels \<Longrightarrow> quiet_str_rels d out"
proof (induction cfg m tbl p fs rels and cfg m tbl p rels arbitrary: s and out
    rule: mapStructure_mapStructure_rels.induct)
  case (1 cfg m tbl p fs rels)
  from "1.prems"(1) obtain pkf cts joined where
    pkf: "primaryKeyFields m = Inr pkf"
    and cts: "map_res (mapStructure_field m tbl p) (pkf @ resolve fs (allFields m)) = Inr cts"
    and j: "mapStructure_rels cfg m tbl p rels = Inr joined"
    and s: "s = Structure tbl (drop (length pkf) (map fst cts)) (drop (length pkf) (pkf @ resolve fs (allFields m)))
        (drop (length pkf) (map snd cts)) (take (length pkf) (map fst cts))
        (take (length pkf) (pkf @ resolve fs (allFields m))) (take (length pkf) (map snd cts)) joined"
    by (auto simp: bind_res_Inr Let_def)
  have "quiet_str_rels d joined" using "1.IH" pkf cts j "1.prems" by auto
  moreover have "\<forall>c \<in> set (map fst cts). quiet_col c"
    using map_res_mem [OF cts] mapStructure_field_quiet "1.prems"(3-5) by (fastforce simp: quiet_db_def)
  moreover from this have "list_all quiet_col (take n (map fst cts)) \<and> list_all quiet_col (drop n (map fst cts))" for n
    unfolding list_all_iff by (meson in_set_takeD in_set_dropD)
  ultimately show ?case using "1.prems"(4) by (simp add: s)
next
  case (2 cfg m tbl p)
  then show ?case by simp
next
  case (3 cfg m tbl p f fs rs w srt rels)
  let ?al = "if p \<noteq> [] then p @ ''_'' @ f else f"
  from "3.prems"(1) obtain ty om rm s more where step: "struct_field m f = Some ty"
    "is_TPtr ty \<or> is_TSlice ty"
    "map_of (cfg_mappings cfg) (typeID (if is_TPtr ty then ty else elem_type ty)) = Some om"
    "relationByField m f = Some rm"
    and s: "mapStructure cfg om \<lparr>t_name = m_table om, t_alias = ?al\<rparr> ?al fs rs = Inr s"
    and more: "mapStructure_rels cfg m tbl p rels = Inr more"
    and out: "out = (f, JoinStructure (is_TSlice ty)
        (map (\<lambda>q. (\<lparr>c_table = tbl, c_name = fst q, c_alias = []\<rparr>,
                   \<lparr>c_table = \<lparr>t_name = m_table om, t_alias = ?al\<rparr>,
                    c_name = snd q, c_alias = []\<rparr>)) (r_columns rm)) w srt s om) # more"
    by (rule mapStructure_rels_ConsE)
  have kind: "\<not> (\<not> is_TPtr ty \<and> \<not> is_TSlice ty)" using step(2) by blast
  note r = relationByField_quiet [OF step(4) "3.prems"(3)]
  have om: "quiet_db om" by (rule cfg_quiet [OF step(3) "3.prems"(2)])
  have al: "placeholders ?al = 0" using r "3.prems"(5) by simp
  have tb: "quiet_table \<lparr>t_name = m_table om, t_alias = ?al\<rparr>" using om al by (simp add: quiet_table_def quiet_db_def)
  have q: "quiet_rels d rs" "quiet_rels d rels" "quiet_where d w" using "3.prems"(6) by simp_all
  have "quiet_str d s" by (rule "3.IH"(1) [OF step(1) kind refl step(3,4) refl refl s "3.prems"(2) om tb al q(1)])
  moreover have "quiet_str_rels d more"
    by (rule "3.IH"(2) [OF step(1) kind refl step(3,4) refl refl _ more "3.prems"(2-5) q(2)])
      (use s in \<open>simp only: wrap_res_Inr\<close>)
  moreover have "quiet_mapping om" using om by (simp add: quiet_db_def)
  ultimately show ?case using r tb q(3) "3.prems"(4) by (auto simp: out list_all_iff quiet_col_def)
qed

lemma ensure_quiet:
  "quiet_rels d rels \<Longrightarrow> quiet_rels d (ensure_path p rels)"
  "quiet_rels d rels \<Longrightarrow> quiet_rels d (ensure_in n p rels)"
  by (induction p rels and n p rels rule: ensure_path_ensure_in.induct) (auto simp: quiet_where_def)

lemma ensureRelations_quiet:
  "ensureRelationsForFieldPaths cfg m rels paths = Inr rels' \<Longrightarrow> quiet_rels d rels \<Longrightarrow> quiet_rels d rels'"
proof (induction paths arbitrary: rels)
  case Nil
  then show ?case by (simp add: ensureRelationsForFieldPaths_def)
next
  case (Cons p paths)
  then obtain r1 where r1: "ensure_one cfg m rels p = Inr r1"
    and r: "ensureRelationsForFieldPaths cfg m r1 paths = Inr rels'"
    by (auto simp: ensureRelationsForFieldPaths_def bind_res_Inr)
  have "quiet_rels d r1"
  proof (cases "isSimpleField p")
    case False
    from r1 False obtain names steps where fold: "fold_res ensure_step (rels, []) steps = Inr (r1, names)"
      by (auto simp: ensure_one_def wrap_res_def navigate_trail [OF False] split: sum.splits)
    have "quiet_rels d (fst (r1, names))"
      by (rule fold_res_invariant [OF _ _ fold, of "\<lambda>s. quiet_rels d (fst s)"])
        (use Cons.prems(2) in \<open>auto simp: ensure_step_def Let_def intro: ensure_quiet\<close>)
    then show ?thesis by simp
  qed (use r1 Cons.prems(2) in \<open>simp add: ensure_one_def\<close>)
  then show ?case by (rule Cons.IH [OF r])
qed

lemma collapse_ws_q: "placeholders (collapse_ws b s) = placeholders s"
  by (induction b s rule: collapse_ws.induct) (auto simp: is_space_def)

lemma full_columns_quiet:
  "quiet_str d s \<Longrightarrow> list_all quiet_col (fullColumns s)"
  "quiet_str_rels d rels \<Longrightarrow> list_all quiet_col (fullColumns_rels rels)"
  by (induction d s and d rels rule: quiet_str_quiet_str_rels.induct) auto

definition join_ok :: "join_spec \<Rightarrow> bool" where
  "join_ok j \<longleftrightarrow> quiet_table (j_right j) \<and> list_all (\<lambda>p. quiet_col (fst p) \<and> quiet_col (snd p)) (j_onPairs j) \<and>
     placeholders (j_onWhereSQL j) = length (j_onWhereValues j)"

context sql_driver
begin

lemma visit_env_quiet:
  "quiet_table tbl \<Longrightarrow> quiet_mapping m \<Longrightarrow> quiet_cfg cfg \<Longrightarrow>
     quiet_rendering \<lparr>ve_driver = d, ve_table = tbl, ve_prefix = [], ve_mapping = m, ve_cfg = cfg\<rparr>"
  by (auto simp: quiet_rendering_def quiet_rendering_axioms_def sql_driver_axioms quiet_env_def quiet_table_def
      quiet_cfg_def quiet_db_def list_all_iff)

lemma outer_join_of_ok:
  assumes "outer_join_of cfg d tbl f right ps w m = Inr j"
    and "quiet_table right" "list_all (\<lambda>p. quiet_col (fst p) \<and> quiet_col (snd p)) ps" "quiet_where d w"
    and "quiet_mapping m" "quiet_cfg cfg"
  shows "join_ok j"
proof (cases w)
  case None
  with assms show ?thesis by (auto simp: outer_join_of_def join_ok_def)
next
  case (Some c)
  with assms obtain t vs where v: "where_Visit \<lparr>ve_driver = d, ve_table = right, ve_prefix = [],
      ve_mapping = m, ve_cfg = cfg\<rparr> c = Inr (t, vs)"
    and j: "j = \<lparr>j_left = tbl, j_right = right, j_onPairs = ps, j_onWhere = Some c, j_onWhereSQL = t, j_onWhereValues = vs\<rparr>"
    by (auto simp: outer_join_of_def bind_res_Inr)
  have "placeholders t = length vs"
    using quiet_rendering.where_Visit_placeholders [OF visit_env_quiet [OF assms(2,5,6)] v] assms(4) Some
    by (simp add: quiet_where_def)
  with assms(2,3) show ?thesis by (simp add: j join_ok_def)
qed

end

lemma quiet_str_table: "quiet_str d s \<Longrightarrow> quiet_table (st_table s)"
  by (cases s) simp

lemma outer_joins_ok:
  "outer_joins cfg d tbl s = Inr js \<Longrightarrow> sql_driver d \<Longrightarrow> quiet_str d s \<Longrightarrow> quiet_cfg cfg \<Longrightarrow> list_all join_ok js"
  "outer_joins_rels cfg d tbl rels = Inr js \<Longrightarrow> sql_driver d \<Longrightarrow> quiet_str_rels d rels \<Longrightarrow> quiet_cfg cfg \<Longrightarrow>
     list_all join_ok js"
proof (induction cfg d tbl s and cfg d tbl rels arbitrary: js and js rule: outer_joins_outer_joins_rels.induct)
  case (3 cfg d tbl f many ps w srt s m rels)
  from "3.prems"(1) obtain j nested more where j: "outer_join_of cfg d tbl f (st_table s) ps w m = Inr j"
    and n: "outer_joins cfg d (st_table s) s = Inr nested" and r: "outer_joins_rels cfg d tbl rels = Inr more"
    and js: "js = j # nested @ more"
    by (auto simp: bind_res_Inr)
  have q: "list_all (\<lambda>p. quiet_col (fst p) \<and> quiet_col (snd p)) ps" "quiet_where d w" "quiet_mapping m"
    "quiet_str d s" "quiet_str_rels d rels" using "3.prems"(3) by simp_all
  have "join_ok j"
    by (rule sql_driver.outer_join_of_ok [OF "3.prems"(2) j quiet_str_table [OF q(4)] q(1-3) "3.prems"(4)])
  moreover have "list_all join_ok nested" by (rule "3.IH"(1) [OF j n "3.prems"(2) q(4) "3.prems"(4)])
  moreover have "list_all join_ok more"
    by (rule "3.IH"(2) [OF j _ r "3.prems"(2) q(5) "3.prems"(4)]) (simp add: n)
  ultimately show ?case by (simp add: js)
qed auto

lemma add_join_ok:
  assumes "add_join s st = Inr s'" "list_all join_ok (fst s)" "join_ok (join_of st)"
  shows "list_all join_ok (fst s')"
  using assms by (auto simp: add_join_def join_of_def split: if_splits)

lemma trail_quiet_db:
  "trail cfg m tbl pre ns = Inr steps \<Longrightarrow> quiet_db m \<Longrightarrow> quiet_cfg cfg \<Longrightarrow> quiet_table tbl \<Longrightarrow>
   list_all (\<lambda>w. placeholders w = 0) pre \<Longrightarrow> \<forall>s \<in> set steps. join_ok (join_of s)"
proof (induction cfg m tbl pre ns arbitrary: steps rule: trail.induct)
  case (2 cfg m tbl pre n ns)
  from "2.prems"(1) obtain s ss where s: "relation_step_of cfg m tbl pre n = Inr s"
    and ss: "trail cfg (rs_relationMapping s) (rs_rightTable s) (pre @ [n]) ns = Inr ss" and steps: "steps = s # ss"
    by (auto simp: bind_res_Inr)
  note f = relation_step_of_fields [OF s]
  have r: "placeholders n = 0" "\<forall>p \<in> set (r_columns (rs_relMapping s)). placeholders (fst p) = 0 \<and> placeholders (snd p) = 0"
    using f relationByField_quiet [of m n "rs_relMapping s"] "2.prems"(2) by simp_all
  have m: "quiet_db (rs_relationMapping s)" using f "2.prems"(3) by (auto simp: quiet_cfg_def list_all_iff)
  have t: "quiet_table (rs_rightTable s)"
    using m f r(1) "2.prems"(5) by (auto simp: quiet_table_def quiet_db_def count_char_join list_all_iff)
  have "join_ok (join_of s)"
    using t f r(2) "2.prems"(4) by (auto simp: join_ok_def join_of_def step_pairs_def list_all_iff quiet_col_def)
  moreover have "\<forall>s \<in> set ss. join_ok (join_of s)"
    by (rule "2.IH" [OF s ss m "2.prems"(3) t]) (use r(1) "2.prems"(5) in simp)
  ultimately show ?case by (simp add: steps)
qed simp

lemma inner_joins_ok:
  assumes "buildInnerJoinsForFieldPaths cfg m tbl paths = Inr joins" "quiet_db m" "quiet_cfg cfg" "quiet_table tbl"
  shows "list_all join_ok joins"
proof -
  from assms(1) obtain t where "fold_res (join_path cfg m tbl) ([], []) paths = Inr t" and t: "joins = fst t"
    unfolding buildInnerJoinsForFieldPaths_def by (cases "fold_res (join_path cfg m tbl) ([], []) paths") auto
  then obtain tr where tr: "map_res (path_trail cfg m tbl) (filter (\<lambda>p. \<not> isSimpleField p) paths) = Inr tr"
    and fold: "fold_res add_join ([], []) (concat tr) = Inr t" by (auto simp: join_paths_trails)
  have "join_ok (join_of s)" if "s \<in> set (concat tr)" for s
    using that map_res_mem [OF tr] trail_quiet_db [OF _ assms(2-4), of "[]"] by (fastforce simp: path_trail_def)
  then show ?thesis
    unfolding t by (intro fold_res_invariant [OF _ _ fold, of "\<lambda>s. list_all join_ok (fst s)"])
      (auto intro: add_join_ok)
qed

context sql_driver
begin

lemma escaped_col_q: "quiet_col c \<Longrightarrow> placeholders (d_escape_table_column d (t_alias (c_table c)) (c_name c)) = 0"
  by (simp add: escape_tc_q quiet_col_def quiet_table_def)

lemma on_conditions_q: "join_ok j \<Longrightarrow> sum_list (map placeholders (on_conditions d j)) = 0"
  by (auto simp: on_conditions_def join_ok_def list_all_iff escaped_col_q sum_list_eq_0_iff)

lemma left_join_q: "join_ok j \<Longrightarrow> placeholders (left_join d j conds) = sum_list (map placeholders conds)"
  by (simp add: left_join_def join_ok_def quiet_table_def escape_table_q count_char_join)

lemma inner_join_sql_q: "join_ok j \<Longrightarrow> placeholders (inner_join_sql d j) = 0"
  by (simp add: inner_join_sql_def left_join_q on_conditions_q)

lemma outer_join_sql_q:
  "join_ok j \<Longrightarrow> placeholders (outer_join_sql d j) = (if j_onWhereSQL j \<noteq> [] then length (j_onWhereValues j) else 0)"
  using on_conditions_q [of j] by (simp add: outer_join_sql_def left_join_q join_ok_def)

lemma outer_join_sqls_q:
  "list_all join_ok js \<Longrightarrow> sum_list (map placeholders (map (outer_join_sql d) js)) = length (outer_join_values js)"
  by (induction js) (auto simp: outer_join_values_def outer_join_sql_q)

lemma plan_query_q:
  assumes "list_all join_ok (pl_innerJoins plan)" "list_all join_ok (pl_outerJoins plan)"
    and "quiet_table (pl_innerPrimaryTable plan)" "quiet_table (pl_outerTable plan)"
    and "list_all quiet_col (pl_innerPrimaryKey plan)" "list_all quiet_col (fullColumns (pl_structure plan))"
    and "placeholders (pl_where plan) = length (pl_whereValues plan)"
    and "placeholders (pl_order plan) = length (pl_orderValues plan)"
  shows "placeholders (fst (plan_query d plan)) = length (snd (plan_query d plan))"
proof -
  have cols: "sum_list (map placeholders (map (\<lambda>c. d_escape_table_column d (t_alias (c_table c)) (c_name c))
      (fullColumns (pl_structure plan)))) = 0"
    using assms(6) by (auto simp: list_all_iff escaped_col_q sum_list_eq_0_iff)
  have key: "sum_list (map placeholders (map (\<lambda>c. d_escape_table_column d (t_alias (c_table c)) (c_name c) @ '' AS '' @
      d_escape_column d (c_alias c)) (pl_innerPrimaryKey plan))) = 0"
    using assms(5) by (auto simp: list_all_iff escaped_col_q escape_column_q quiet_col_def sum_list_eq_0_iff escape_tc_q quiet_table_def)
  have inner: "sum_list (map placeholders (map (inner_join_sql d) (pl_innerJoins plan))) = 0"
    using assms(1) by (auto simp: list_all_iff inner_join_sql_q sum_list_eq_0_iff)
  have head: "placeholders (query_head d plan) = 0"
    using cols key inner assms(3)
    by (simp add: query_head_def Let_def count_char_join escape_table_q quiet_table_def)
  have tail: "placeholders (query_tail d plan) = 0"
    using assms(4) by (simp add: query_tail_def Let_def escape_table_q quiet_table_def count_char_int_str is_digit_def)
  show ?thesis
    using head tail outer_join_sqls_q [OF assms(2)] assms(7,8)
    by (simp add: plan_query_def Let_def collapse_ws_q count_char_join)
qed

lemma order_clause_q:
  assumes "order_clause cfg d m tbl sorts = Inr (s, vs)" "quiet_table tbl" "quiet_mapping m" "quiet_cfg cfg"
  shows "placeholders s = length vs \<and> vs = concat (map (\<lambda>o'. elem_vals (srt_element o')) sorts)"
proof -
  let ?env = "\<lparr>ve_driver = d, ve_table = tbl, ve_prefix = [], ve_mapping = m, ve_cfg = cfg\<rparr>"
  from assms(1) obtain orders where
    o: "map_res (\<lambda>s. wrap_res ''visiting sort'' (sort_Visit ?env s)) sorts = Inr orders"
    and s: "s = (if orders \<noteq> [] then ''ORDER BY '' @ join '', '' (map fst orders) else [])"
    and vs: "vs = concat (map snd orders)"
    by (auto simp: order_clause_def bind_res_Inr)
  have "list_all2 (\<lambda>st p. placeholders (fst p) = length (snd p) \<and> snd p = elem_vals (srt_element st)) sorts orders"
    using o unfolding map_res_Inr
  proof (rule list_all2_mono)
    fix st p assume "wrap_res ''visiting sort'' (sort_Visit ?env st) = Inr p"
    then have "sort_Visit ?env st = Inr (fst p, snd p)" by simp
    from quiet_rendering.sort_Visit_q [OF visit_env_quiet [OF assms(2-4)] this]
    show "placeholders (fst p) = length (snd p) \<and> snd p = elem_vals (srt_element st)" .
  qed
  then have "sum_list (map placeholders (map fst orders)) = length (concat (map snd orders)) \<and>
      concat (map snd orders) = concat (map (\<lambda>st. elem_vals (srt_element st)) sorts)"
    by (induction rule: list_all2_induct) auto
  then show ?thesis by (auto simp: s vs count_char_join)
qed

lemma where_sql_q:
  assumes "where_sql cfg d m tbl clause = Inr (s, vs)" "quiet_table tbl" "quiet_mapping m" "quiet_cfg cfg"
    and "quiet_where d clause"
  shows "placeholders s = length vs \<and> vs = (case clause of None \<Rightarrow> [] | Some c \<Rightarrow> clause_vals c)"
proof (cases clause)
  case None
  with assms show ?thesis by (simp add: where_sql_def)
next
  case (Some c)
  let ?env = "\<lparr>ve_driver = d, ve_table = tbl, ve_prefix = [], ve_mapping = m, ve_cfg = cfg\<rparr>"
  from assms(1) Some obtain t ws where v: "where_Visit ?env c = Inr (t, ws)"
    and s: "if t \<noteq> [] then s = ''WHERE '' @ t \<and> vs = ws else s = [] \<and> vs = []"
    by (auto simp: where_sql_def bind_res_Inr split: if_split_asm)
  have "placeholders t = length ws \<and> ws = clause_vals c"
    using quiet_rendering.where_Visit_placeholders [OF visit_env_quiet [OF assms(2-4)] v] assms(5) Some
    by (simp add: quiet_where_def)
  with s Some show ?thesis by (auto split: if_splits)
qed

lemma built_plan_q:
  assumes plan: "buildSelectQueryPlan cfg d m fs rels clause sorts limit off = Inr plan"
    and q: "quiet_cfg cfg" "quiet_db m" "quiet_where d clause" "quiet_rels d rels"
  shows "placeholders (fst (plan_query d plan)) = length (snd (plan_query d plan)) \<and>
     snd (plan_query d plan) = (case clause of None \<Rightarrow> [] | Some c \<Rightarrow> clause_vals c) @
       concat (map (\<lambda>s. elem_vals (srt_element s)) sorts) @ outer_join_values (pl_outerJoins plan)"
proof -
  let ?t = "\<lparr>t_name = m_table m, t_alias = ''target''\<rparr>" and ?o = "\<lparr>t_name = m_table m, t_alias = ''$''\<rparr>"
    and ?i = "\<lparr>t_name = [], t_alias = ''inner''\<rparr>"
  note [simp del] = mapStructure.simps
  from plan obtain rels' str rj order whr where
    r: "(if field_paths clause sorts = [] then rels' = rels else
          ensureRelationsForFieldPaths cfg m rels (field_paths clause sorts) = Inr rels')"
    and str: "mapStructure cfg m ?o [] fs rels' = Inr str"
    and rj: "outer_joins cfg d ?o str = Inr rj"
    and order: "order_clause cfg d m ?t sorts = Inr order" and whr: "where_sql cfg d m ?t clause = Inr whr"
    and pl: "pl_structure plan = str" "pl_order plan = fst order" "pl_orderValues plan = snd order"
      "pl_where plan = fst whr" "pl_whereValues plan = snd whr" "pl_outerTable plan = ?i" "pl_innerPrimaryTable plan = ?t"
      "pl_innerPrimaryKey plan = map (\<lambda>c. \<lparr>c_table = ?t, c_name = c_alias c, c_alias = c_alias c\<rparr>) (st_primaryKey str)"
      "pl_outerJoins plan = \<lparr>j_left = ?i, j_right = ?o, j_onPairs = map (\<lambda>c. (\<lparr>c_table = ?i, c_name = c_alias c, c_alias = []\<rparr>,
          \<lparr>c_table = ?o, c_name = c_alias c, c_alias = []\<rparr>)) (st_primaryKey str),
          j_onWhere = None, j_onWhereSQL = [], j_onWhereValues = []\<rparr> # rj"
    by (cases "field_paths clause sorts")
      (auto simp: buildSelectQueryPlan_def Let_def bind_res_Inr comp_def)
  have tq: "quiet_table ?t" "quiet_table ?o" "quiet_table ?i" using q(2) by (simp_all add: quiet_table_def quiet_db_def)
  have mq: "quiet_mapping m" using q(2) by (simp add: quiet_db_def)
  have "quiet_rels d rels'" using r q(4) ensureRelations_quiet by (auto split: if_splits)
  then have sq: "quiet_str d str" using mapStructure_quiet(1) [OF str q(1,2) tq(2)] by simp
  then have pk: "list_all quiet_col (st_primaryKey str)" by (cases str) simp
  have "list_all join_ok (pl_outerJoins plan)"
    using outer_joins_ok(1) [OF rj sql_driver_axioms sq q(1)] tq pk
    by (auto simp: pl(9) join_ok_def list_all_iff quiet_col_def)
  moreover have "list_all join_ok (pl_innerJoins plan)"
    using plan_inner_joins [OF plan] inner_joins_ok [OF _ q(2,1) tq(1)] by (simp add: pl(7))
  moreover have "list_all quiet_col (pl_innerPrimaryKey plan)"
    using pk tq by (auto simp: pl(8) list_all_iff quiet_col_def)
  moreover have "placeholders (pl_where plan) = length (pl_whereValues plan) \<and>
      pl_whereValues plan = (case clause of None \<Rightarrow> [] | Some c \<Rightarrow> clause_vals c)"
    using where_sql_q [of cfg m ?t clause "fst whr" "snd whr"] whr tq(1) mq q by (simp add: pl)
  moreover have "placeholders (pl_order plan) = length (pl_orderValues plan) \<and>
      pl_orderValues plan = concat (map (\<lambda>s. elem_vals (srt_element s)) sorts)"
    using order_clause_q [of cfg m ?t sorts "fst order" "snd order"] order tq(1) mq q by (simp add: pl)
  moreover have "list_all quiet_col (fullColumns (pl_structure plan))"
    using full_columns_quiet(1) [OF sq] by (simp add: pl(1))
  ultimately show ?thesis
    using plan_query_q [of plan] tq by (simp add: pl(6,7)) (simp add: plan_query_def Let_def)
qed

end


lemma zormtest_quiet: "quiet_cfg zormtest_cfg" "quiet_db UserMapping"
  by (simp_all add: quiet_cfg_def quiet_db_def quiet_mapping_def zormtest_defs)


end
