(* ===== verification/Zormsql_Find.thy ===== *)
theory Zormsql_Find
  imports Zormsql_Plan
begin

text \<open>
  Reading the rows of a select: \<^verbatim>\<open>convertNullableValue\<close>, \<^verbatim>\<open>loadStructure\<close> and \<^verbatim>\<open>process\<close> of
  \<^verbatim>\<open>select_query_plan.go\<close>, \<^verbatim>\<open>sortRelations\<close> and the argument checks of \<^verbatim>\<open>helpers.go\<close>, and \<^verbatim>\<open>Find\<close> of
  \<^verbatim>\<open>repo.go\<close>.

  \<^item> A row is what \<^verbatim>\<open>rows.Scan(plan.target...)\<close> leaves in the scan targets, one \<open>scanned\<close> each, or
    its error. The database is the argument \<open>run\<close>; \<^verbatim>\<open>json.Marshal\<close> of the key targets is \<open>slug\<close>.
  \<^item> The Go code keeps pointers into the objects it has appended and updates them with later rows;
    here the last object of a list is taken out, updated and put back.
  \<^item> \<^verbatim>\<open>prevPrimaryKey\<close>, which the code keeps in the relation maps of the plan, is a map from
    relation paths to keys threaded through the loads.
\<close>

section \<open>Scanned values\<close>

datatype scanned =
    ScNull scan_target
  | ScStr string | ScInt int | ScFloat gofloat | ScBool bool | ScTime int
  | ScPlain gval

text \<open>\<^verbatim>\<open>Convert\<close> of an int64 to an integer type of w bits (0 is \<^verbatim>\<open>int\<close> and \<^verbatim>\<open>uint\<close>, 64 bits) wraps.\<close>

definition int_width :: "nat \<Rightarrow> nat" where
  "int_width w = (if w = 0 then 64 else w)"

definition wrap_uint :: "nat \<Rightarrow> int \<Rightarrow> int" where
  "wrap_uint w i = i mod 2 ^ int_width w"

definition wrap_int :: "nat \<Rightarrow> int \<Rightarrow> int" where
  "wrap_int w i = (i + 2 ^ (int_width w - 1)) mod 2 ^ int_width w - 2 ^ (int_width w - 1)"

definition as_target :: "gotype \<Rightarrow> gval \<Rightarrow> gval" where
  "as_target targetType v = (if is_TPtr targetType then VPtr v else v)"

definition target_elem :: "gotype \<Rightarrow> gotype" where
  "target_elem targetType = (if is_TPtr targetType then elem_type targetType else targetType)"

fun is_ptr_val :: "gval \<Rightarrow> bool" where
  "is_ptr_val (VPtr v) = True"
| "is_ptr_val VNilPtr = True"
| "is_ptr_val _ = False"

text \<open>The value and whether it is not NULL. A conversion between kinds that no scan target of
  \<^verbatim>\<open>createNullableScanTarget\<close> calls for is a panic of \<^verbatim>\<open>reflect\<close>. Rounding to 32-bit floats is
  not modelled.\<close>

fun convertNullableValue :: "scanned \<Rightarrow> gotype \<Rightarrow> (gval \<times> bool) res" where
  "convertNullableValue (ScNull t) targetType = Inr (zero_val targetType, False)"
| "convertNullableValue (ScStr s) targetType = Inr (as_target targetType (VStr s), True)"
| "convertNullableValue (ScInt i) targetType =
     (case target_elem targetType of
        TInt w \<Rightarrow> Inr (as_target targetType (VInt (wrap_int w i)), True)
      | TUint w \<Rightarrow> Inr (as_target targetType (VUint (wrap_uint w i)), True)
      | _ \<Rightarrow> Inl (Panic ''reflect.Value.Convert''))"
| "convertNullableValue (ScFloat x) targetType =
     (case target_elem targetType of
        TFloat w \<Rightarrow> Inr (as_target targetType (VFloat x), True)
      | _ \<Rightarrow> Inl (Panic ''reflect.Value.Convert''))"
| "convertNullableValue (ScBool b) targetType =
     (case target_elem targetType of
        TBool \<Rightarrow> Inr (as_target targetType (VBool b), True)
      | _ \<Rightarrow> Inl (Panic ''reflect.Value.Convert''))"
| "convertNullableValue (ScTime t) targetType =
     (case target_elem targetType of
        TTime \<Rightarrow> Inr (as_target targetType (VTime t), True)
      | _ \<Rightarrow> Inl (Panic ''reflect.Value.Convert''))"
| "convertNullableValue (ScPlain v) targetType =
     (if is_TPtr targetType then Inr (if is_ptr_val v then v else VPtr v, True)
      else case v of
        VPtr u \<Rightarrow> Inr (u, True)
      | VNilPtr \<Rightarrow> Inl (Panic ''reflect: Set of zero Value'')
      | _ \<Rightarrow> Inr (v, True))"

fun isNullableValueValid :: "scanned \<Rightarrow> bool" where
  "isNullableValueValid (ScNull t) = False"
| "isNullableValueValid _ = True"

definition isPrimaryKeyNull :: "scanned list \<Rightarrow> bool" where
  "isPrimaryKeyNull primaryKeyTarget = list_all (\<lambda>x. \<not> isNullableValueValid x) primaryKeyTarget"

section \<open>Loading a row into an object\<close>

text \<open>\<^verbatim>\<open>reflect.New\<close> of the struct of a mapping\<close>

definition new_struct :: "mapping \<Rightarrow> gval" where
  "new_struct m = VStruct (map (\<lambda>p. (fst p, zero_val (snd p))) (sd_fields (m_ptr m)))"

fun load_fields :: "mapping \<Rightarrow> scanned list \<Rightarrow> nat \<Rightarrow> string list \<Rightarrow> gval \<Rightarrow> gval res" where
  "load_fields m row off [] v = Inr v"
| "load_fields m row off (f # fs) v =
     (case struct_field m f of
        None \<Rightarrow> Inl (Panic ''reflect: call of reflect.Value.Type on zero Value'')
      | Some fieldType \<Rightarrow>
          (if length row \<le> off then Inl (Panic ''index out of range'')
           else bind_res (convertNullableValue (row ! off) fieldType) (\<lambda>cv.
             load_fields m row (Suc off) fs
               (struct_set v f (if snd cv then fst cv else zero_val fieldType)))))"

type_synonym prev_keys = "(string list, string) gomap"

definition prev_key :: "prev_keys \<Rightarrow> string list \<Rightarrow> string" where
  "prev_key prev path = (case map_of prev path of None \<Rightarrow> [] | Some k \<Rightarrow> k)"

definition slice_elems :: "gval \<Rightarrow> gval list" where
  "slice_elems f = (case f of VSlice us \<Rightarrow> us | _ \<Rightarrow> [])"

definition pointee :: "mapping \<Rightarrow> gval \<Rightarrow> gval" where
  "pointee m f = (case f of VPtr u \<Rightarrow> u | _ \<Rightarrow> new_struct m)"

text \<open>\<open>load_structure slug row path m s off (v, prev)\<close> is the object and the keys after the load,
  and the new offset or the error. An error leaves the object half loaded.\<close>

function (sequential) load_structure :: "(scanned list \<Rightarrow> string res) \<Rightarrow> scanned list \<Rightarrow> string list \<Rightarrow> mapping \<Rightarrow> qstructure \<Rightarrow>
    nat \<Rightarrow> gval \<times> prev_keys \<Rightarrow> (gval \<times> prev_keys) \<times> nat res"
and load_relations :: "(scanned list \<Rightarrow> string res) \<Rightarrow> scanned list \<Rightarrow> string list \<Rightarrow>
    (string \<times> join_structure) list \<Rightarrow> nat \<Rightarrow> gval \<times> prev_keys \<Rightarrow> (gval \<times> prev_keys) \<times> nat res" where
  "load_structure slug row path m (Structure tbl cols fs ts pk pkfs pkts rels) off (v, prev) =
     (case load_fields m row off (pkfs @ fs) v of
        Inl e \<Rightarrow> ((v, prev), Inl e)
      | Inr v' \<Rightarrow> load_relations slug row path rels (off + (length fs + length pkfs)) (v', prev))"
| "load_relations slug row path [] off (v, prev) = ((v, prev), Inr off)"
| "load_relations slug row path ((name, JoinStructure many ps w srt s rm) # rels) off (v, prev) =
     (let n = length (st_primaryKeyTarget s); key = take n (drop off row) in
      if length row < off + n then ((v, prev), Inl (Panic ''slice bounds out of range''))
      else if isPrimaryKeyNull key then load_relations slug row path rels (off + length (fullTarget s)) (v, prev)
      else case struct_get v name of
        None \<Rightarrow> ((v, prev), Inl (Panic ''reflect: call on zero Value''))
      | Some f \<Rightarrow>
          (if \<not> many then
             (case load_structure slug row (path @ [name]) rm s off (pointee rm f, prev) of
                ((u, prev'), r) \<Rightarrow>
                  (case r of
                     Inl e \<Rightarrow> ((struct_set v name (VPtr u), prev'), Inl (wrap_err ''loading relation data'' e))
                   | Inr off' \<Rightarrow> load_relations slug row path rels off' (struct_set v name (VPtr u), prev')))
           else
             (case slug key of
                Inl e \<Rightarrow> ((struct_set v name (VSlice (slice_elems f)), prev),
                         Inl (wrap_err ''creating relation primary slug'' e))
              | Inr newPrimaryKey \<Rightarrow>
                  (let elems = slice_elems f;
                       isNew = (elems = [] \<or> newPrimaryKey \<noteq> prev_key prev (path @ [name]));
                       before = (if isNew then elems else butlast elems)
                   in case load_structure slug row (path @ [name]) rm s off
                          (if isNew then new_struct rm else pointee rm (last elems), prev) of
                        ((u, prev'), r) \<Rightarrow>
                          (let v' = struct_set v name (VSlice (before @ [VPtr u])) in
                           case r of
                             Inl e \<Rightarrow> ((v', prev'), Inl (wrap_err ''loading relation data'' e))
                           | Inr off' \<Rightarrow> load_relations slug row path rels off'
                               (v', map_put (path @ [name]) newPrimaryKey prev'))))))"
  by pat_completeness auto
termination
  by (relation "measure (\<lambda>x. case x of
        Inl (slug, row, path, m, s, off, vp) \<Rightarrow> size s
      | Inr (slug, row, path, rels, off, vp) \<Rightarrow> size_list (size_prod (\<lambda>_. 0) size) rels)") auto

text \<open>\<^verbatim>\<open>plan.load\<close> drops the error of the load; a panic passes.\<close>

definition plan_load :: "(scanned list \<Rightarrow> string res) \<Rightarrow> mapping \<Rightarrow> qstructure \<Rightarrow> scanned list \<Rightarrow>
    gval \<times> prev_keys \<Rightarrow> (gval \<times> prev_keys) res" where
  "plan_load slug m s row vp =
     (case load_structure slug row [] m s 0 vp of
        (vp', Inl (Panic p)) \<Rightarrow> Inl (Panic p)
      | (vp', _) \<Rightarrow> Inr vp')"

section \<open>All rows\<close>

text \<open>The loop of \<^verbatim>\<open>process\<close>: the objects so far, the key of the last row and the relation keys.
  \<^verbatim>\<open>SetLen\<close> panics beyond the capacity of the caller's slice.\<close>

fun process_rows :: "(scanned list \<Rightarrow> string res) \<Rightarrow> nat \<Rightarrow> mapping \<Rightarrow> qstructure \<Rightarrow> scanned list res list \<Rightarrow>
    gval list \<times> string \<times> prev_keys \<Rightarrow> gval list res" where
  "process_rows slug capacity m s [] (objs, currentPrimaryKey, prev) = Inr objs"
| "process_rows slug capacity m s (r # rows) (objs, currentPrimaryKey, prev) =
     bind_res (wrap_res ''scanning find result row'' r) (\<lambda>row.
     bind_res (wrap_res ''creating find primary slug'' (slug (take (length (st_primaryKeyTarget s)) row))) (\<lambda>newPrimaryKey.
     let isNew = (length objs = 0 \<or> newPrimaryKey \<noteq> currentPrimaryKey) in
     bind_res (plan_load slug m s row (if isNew then new_struct m else last objs, prev)) (\<lambda>vp.
       if isNew \<and> capacity < length objs + 1 then Inl (Panic ''reflect: slice length out of range in SetLen'')
       else process_rows slug capacity m s rows
         ((if isNew then objs else butlast objs) @ [fst vp], newPrimaryKey, snd vp))))"

section \<open>Sorting relations in memory (helpers.go)\<close>

type_synonym go_slice_sort = "gval less_res \<Rightarrow> gval list \<Rightarrow> gval list res"

fun sortRelations :: "go_slice_sort \<Rightarrow> (gval \<Rightarrow> string) \<Rightarrow> qstructure \<Rightarrow> gval \<Rightarrow> gval res"
and sortRelations_rels :: "go_slice_sort \<Rightarrow> (gval \<Rightarrow> string) \<Rightarrow> (string \<times> join_structure) list \<Rightarrow> gval \<Rightarrow> gval res" where
  "sortRelations srt sprint (Structure tbl cols fs ts pk pkfs pkts rels) obj = sortRelations_rels srt sprint rels obj"
| "sortRelations_rels srt sprint [] obj = Inr obj"
| "sortRelations_rels srt sprint ((name, JoinStructure many ps w sorts s rm) # rels) obj =
     (case struct_get obj name of
        None \<Rightarrow> Inl (Panic ''reflect: call of IsNil on zero Value'')
      | Some field \<Rightarrow>
          bind_res
            (if \<not> many then
               (case field of
                  VPtr u \<Rightarrow> bind_res (wrap_res (''sorting nested relation '' @ name) (sortRelations srt sprint s u))
                             (\<lambda>u'. Inr (struct_set obj name (VPtr u')))
                | _ \<Rightarrow> Inr obj)
             else if slice_elems field = [] then Inr obj
             else
               bind_res (if length sorts > 0 then wrap_res (''sorting relation '' @ name) (applyToValue srt sprint field sorts)
                         else Inr field) (\<lambda>sorted.
               bind_res (map_res (\<lambda>e. case e of
                   VPtr u \<Rightarrow> bind_res (wrap_res (''sorting nested relation '' @ name) (sortRelations srt sprint s u))
                               (\<lambda>u'. Inr (VPtr u'))
                 | _ \<Rightarrow> Inr e) (slice_elems sorted)) (\<lambda>es. Inr (struct_set obj name (VSlice es)))))
            (\<lambda>obj'. sortRelations_rels srt sprint rels obj'))"

definition sort_target :: "go_slice_sort \<Rightarrow> (gval \<Rightarrow> string) \<Rightarrow> qstructure \<Rightarrow> gval \<Rightarrow> gval res" where
  "sort_target srt sprint s e =
     (case e of
        VPtr u \<Rightarrow> bind_res (wrap_res ''sorting relations'' (sortRelations srt sprint s u)) (\<lambda>u'. Inr (VPtr u'))
      | _ \<Rightarrow> if st_relations s = [] then Inr e else Inl (Panic ''reflect: call of FieldByName on zero Value''))"

text \<open>\<^verbatim>\<open>process\<close>: without a row the caller's slice keeps the elements it had.\<close>

definition process :: "go_slice_sort \<Rightarrow> (gval \<Rightarrow> string) \<Rightarrow> (scanned list \<Rightarrow> string res) \<Rightarrow> nat \<Rightarrow> mapping \<Rightarrow> qstructure \<Rightarrow>
    gval list \<Rightarrow> scanned list res list \<Rightarrow> gval list res" where
  "process srt sprint slug capacity m s targetList rows =
     bind_res (process_rows slug capacity m s rows ([], [], [])) (\<lambda>objs.
       map_res (sort_target srt sprint s) (if objs = [] then targetList else map VPtr objs))"

section \<open>Find (repo.go)\<close>

text \<open>The checks on the dynamic type of the argument; \<open>None\<close> is a nil interface.\<close>

definition validatePtrToListOfPtr :: "gotype option \<Rightarrow> gotype res" where
  "validatePtrToListOfPtr arg =
     (case arg of
        None \<Rightarrow> Inl (Errorf ''pointer to list of pointers required: nil provided'')
      | Some t \<Rightarrow>
          (if \<not> is_TPtr t then Inl (Errorf ''pointer to list of pointers required: non-pointer provided'')
           else if \<not> is_TSlice (elem_type t) then Inl (Errorf ''pointer to list of pointers required: non-list provided'')
           else if \<not> is_TPtr (elem_type (elem_type t))
           then Inl (Errorf ''pointer to list of pointers required: list of non-pointer types provided'')
           else Inr (elem_type (elem_type t))))"

definition validateListOfPtr :: "gotype option \<Rightarrow> gotype res" where
  "validateListOfPtr arg =
     (case arg of
        None \<Rightarrow> Inl (Errorf ''list of pointers required: nil provided'')
      | Some t \<Rightarrow>
          (if \<not> is_TSlice t then Inl (Errorf ''list of pointers required: non-list provided'')
           else if \<not> is_TPtr (elem_type t)
           then Inl (Errorf ''list of pointers required: list of non-pointer types provided'')
           else Inr (elem_type t)))"

text \<open>What the repository relies on: the driver, the database's answer to a query (the rows as
  scanned into the targets, and what \<^verbatim>\<open>rows.Err()\<close> then says), \<^verbatim>\<open>sort.Slice\<close>, \<^verbatim>\<open>fmt.Sprint\<close> and
  \<^verbatim>\<open>json.Marshal\<close>.\<close>

record find_env =
  fe_driver :: driver
  fe_run :: "string \<Rightarrow> gval list \<Rightarrow> scan_target list \<Rightarrow> (scanned list res list \<times> error option) res"
  fe_sort :: go_slice_sort
  fe_sprint :: "gval \<Rightarrow> string"
  fe_slug :: "scanned list \<Rightarrow> string res"

definition repo_find :: "find_env \<Rightarrow> config \<Rightarrow> gotype option \<Rightarrow> gval list \<Rightarrow> nat \<Rightarrow> find_options \<Rightarrow> gval list res" where
  "repo_find env cfg argType targetList capacity opts =
     bind_res (wrap_res ''invalid argument to find'' (validatePtrToListOfPtr argType)) (\<lambda>modelPtrType.
     case map_of (cfg_mappings cfg) (typeID modelPtrType) of
       None \<Rightarrow> Inl (Errorf (''find mapping unavailable type '' @ typeID modelPtrType))
     | Some m \<Rightarrow>
         bind_res (wrap_res ''building query plan for find''
           (buildSelectQueryPlan cfg (fe_driver env) m (inc_fields (fo_include opts)) (inc_relations (fo_include opts))
              (fo_where opts) (fo_sort opts) (int capacity) (fo_offset opts))) (\<lambda>plan.
         let qv = plan_query (fe_driver env) plan in
         bind_res (wrap_res ''executing find query'' (fe_run env (fst qv) (snd qv) (pl_target plan))) (\<lambda>rows.
         bind_res (wrap_res ''find read error''
           (process (fe_sort env) (fe_sprint env) (fe_slug env) capacity m (pl_structure plan) targetList (fst rows))) (\<lambda>lst.
           case snd rows of
             None \<Rightarrow> Inr lst
           | Some e \<Rightarrow> Inl (wrap_err ''find rows error'' e)))))"

text \<open>The deferred \<^verbatim>\<open>recover\<close> of \<^verbatim>\<open>Find\<close>; the stack trace in its text is left out.\<close>

definition recover_in :: "string \<Rightarrow> 'a res \<Rightarrow> 'a res" where
  "recover_in name r = (case r of Inl (Panic p) \<Rightarrow> Inl (Errorf (''panic in '' @ name @ '': '' @ p)) | _ \<Rightarrow> r)"

definition repo_Find :: "find_env \<Rightarrow> config \<Rightarrow> gotype option \<Rightarrow> gval list \<Rightarrow> nat \<Rightarrow> find_options \<Rightarrow> gval list res" where
  "repo_Find env cfg argType targetList capacity opts =
     recover_in ''find'' (repo_find env cfg argType targetList capacity opts)"

end
