(* ===== verification/Zormsql_Find_Laws.thy ===== *)
theory Zormsql_Find_Laws
  imports Zormsql_Find Zormsql_Mapping_Laws
begin

text \<open>
  Laws of reading rows: which column a field takes its value from, the offsets of nested relations,
  and how rows are grouped into objects.
\<close>

section \<open>What a load reads\<close>

text \<open>The value a field takes from its column: the converted value, or the zero value for NULL.\<close>

definition column_value :: "scanned list \<Rightarrow> nat \<Rightarrow> gotype \<Rightarrow> gval res" where
  "column_value row i ty = bind_res (convertNullableValue (row ! i) ty) (\<lambda>cv. Inr (if snd cv then fst cv else zero_val ty))"

lemma load_fields_ConsE:
  assumes "load_fields m row off (f # fs) v = Inr v'"
  obtains ty c where "struct_field m f = Some ty" "off < length row"
    "convertNullableValue (row ! off) ty = Inr c"
    "load_fields m row (Suc off) fs (struct_set v f (if snd c then fst c else zero_val ty)) = Inr v'"
  using assms by (auto simp: bind_res_Inr split: option.splits if_split_asm)

lemma load_fields_frame:
  "load_fields m row off fs v = Inr v' \<Longrightarrow> f \<notin> set fs \<Longrightarrow> struct_get v' f = struct_get v f"
proof (induction fs arbitrary: off v)
  case (Cons g fs)
  from Cons.prems(1) obtain x where "load_fields m row (Suc off) fs (struct_set v g x) = Inr v'"
    by (rule load_fields_ConsE)
  from Cons.IH [OF this] Cons.prems(2) show ?case by simp
qed simp

lemma load_fields_value:
  "load_fields m row off fs v = Inr v' \<Longrightarrow> i < length fs \<Longrightarrow> fs ! i \<notin> set (drop (Suc i) fs) \<Longrightarrow>
   struct_get v (fs ! i) \<noteq> None \<Longrightarrow>
     off + i < length row \<and> (\<exists>ty x. struct_field m (fs ! i) = Some ty \<and> column_value row (off + i) ty = Inr x \<and>
        struct_get v' (fs ! i) = Some x)"
proof (induction fs arbitrary: off v i)
  case (Cons f fs)
  from Cons.prems(1) obtain ty c where ty: "struct_field m f = Some ty" and off: "off < length row"
    and c: "convertNullableValue (row ! off) ty = Inr c"
    and rest: "load_fields m row (Suc off) fs (struct_set v f (if snd c then fst c else zero_val ty)) = Inr v'"
    by (rule load_fields_ConsE)
  show ?case
  proof (cases i)
    case 0
    then have "f \<notin> set fs" using Cons.prems(3) by simp
    from load_fields_frame [OF rest this] 0 ty off c Cons.prems(4) show ?thesis
      by (simp add: column_value_def)
  next
    case (Suc k)
    from Cons.IH [OF rest, of k] Suc Cons.prems(2-4) show ?thesis by simp
  qed
qed simp

text \<open>A successful step over a relation skips its columns or loads them.\<close>

lemma load_relations_ConsE:
  assumes "load_relations slug row path ((name, JoinStructure many ps w srt s rm) # rels) off (v, prev) = (vp', Inr off')"
  obtains (null) "isPrimaryKeyNull (take (length (st_primaryKeyTarget s)) (drop off row))"
      "load_relations slug row path rels (off + length (fullTarget s)) (v, prev) = (vp', Inr off')"
  | (loaded) u0 u prev1 off1 x prev2 where
      "load_structure slug row (path @ [name]) rm s off (u0, prev) = ((u, prev1), Inr off1)"
      "load_relations slug row path rels off1 (struct_set v name x, prev2) = (vp', Inr off')"
  using assms
  by (simp add: Let_def split: if_split_asm option.split_asm sum.split_asm prod.split_asm)


fun load_width :: "qstructure \<Rightarrow> bool"
and load_width_rels :: "(string \<times> join_structure) list \<Rightarrow> bool" where
  "load_width (Structure tbl cols fs ts pk pkfs pkts rels) \<longleftrightarrow>
     length ts = length fs \<and> length pkts = length pkfs \<and> load_width_rels rels"
| "load_width_rels [] = True"
| "load_width_rels ((f, JoinStructure many ps w srt s m) # rels) \<longleftrightarrow> load_width s \<and> load_width_rels rels"

lemma aligned_width: "aligned s \<Longrightarrow> load_width s" "aligned_rels tbl rels \<Longrightarrow> load_width_rels rels"
  by (induction s and tbl rels rule: aligned_aligned_rels.induct) auto

lemma load_StructureE:
  assumes "load_structure slug row path m (Structure tbl cols fs ts pk pkfs pkts rels) off (v, prev) = (vp', Inr off')"
  obtains v1 where "load_fields m row off (pkfs @ fs) v = Inr v1"
    "load_relations slug row path rels (off + (length fs + length pkfs)) (v1, prev) = (vp', Inr off')"
  using assms by (auto split: sum.splits)

lemma load_offset:
  "load_width s \<Longrightarrow> load_structure slug row path m s off (v, prev) = (vp', Inr off') \<Longrightarrow> off' = off + length (fullTarget s)"
  "load_width_rels rels \<Longrightarrow> load_relations slug row path rels off (v, prev) = (vp', Inr off') \<Longrightarrow>
     off' = off + length (fullTarget_rels rels)"
proof (induction s and rels arbitrary: path m off v prev vp' off' and path off v prev vp' off'
    rule: load_width_load_width_rels.induct)
  case (1 tbl cols fs ts pk pkfs pkts rels)
  from "1.prems"(2) obtain v1 where
    "load_relations slug row path rels (off + (length fs + length pkfs)) (v1, prev) = (vp', Inr off')"
    by (rule load_StructureE)
  with "1.IH" "1.prems"(1) show ?case by fastforce
next
  case 2
  then show ?case by simp
next
  case (3 f many ps w srt s m rels)
  from "3.prems"(1) have wd: "load_width s" "load_width_rels rels" by simp_all
  from "3.prems"(2) show ?case
  proof (cases rule: load_relations_ConsE)
    case null
    from "3.IH"(2) [OF wd(2) null(2)] show ?thesis by simp
  next
    case (loaded u0 u prev1 off1 x prev2)
    from "3.IH"(1) [OF wd(1) loaded(1)] "3.IH"(2) [OF wd(2) loaded(2)] show ?thesis by simp
  qed
qed

lemma load_relations_frame:
  "load_relations slug row path rels off (v, prev) = ((v', prev'), Inr off') \<Longrightarrow> g \<notin> fst ` set rels \<Longrightarrow>
     struct_get v' g = struct_get v g"
proof (induction rels arbitrary: off v prev)
  case (Cons r rels)
  obtain f many ps w srt s m where r: "r = (f, JoinStructure many ps w srt s m)"
    by (cases r, cases "snd r") auto
  from Cons.prems(1) [unfolded r] show ?case
  proof (cases rule: load_relations_ConsE)
    case null
    from Cons.IH [OF null(2)] Cons.prems(2) show ?thesis by simp
  next
    case (loaded u0 u prev1 off1 x prev2)
    from Cons.IH [OF loaded(2)] Cons.prems(2) r show ?thesis by simp
  qed
qed simp

text \<open>C4: Loading a row at an offset consumes exactly the scan targets of the structure, including those of
  relations it skips because their key is NULL; every primary key and selected field takes the
  value of its own column, and fields that are neither selected nor relations keep their value.\<close>

theorem loadStructure_reads_its_columns:
  assumes "load_structure slug row path m s off (v, prev) = ((v', prev'), Inr off')" "aligned s"
  shows "off' = off + length (fullTarget s) \<and>
     (\<forall>i < length (st_primaryKeyFields s @ st_fields s).
        let f = (st_primaryKeyFields s @ st_fields s) ! i in
        f \<notin> set (drop (Suc i) (st_primaryKeyFields s @ st_fields s)) \<and> f \<notin> fst ` set (st_relations s) \<and>
        struct_get v f \<noteq> None \<longrightarrow>
        (\<exists>ty x. struct_field m f = Some ty \<and> column_value row (off + i) ty = Inr x \<and> struct_get v' f = Some x)) \<and>
     (\<forall>g. g \<notin> set (st_primaryKeyFields s @ st_fields s) \<union> fst ` set (st_relations s) \<longrightarrow>
        struct_get v' g = struct_get v g)"
proof -
  obtain tbl cols fs ts pk pkfs pkts rels where s: "s = Structure tbl cols fs ts pk pkfs pkts rels" by (cases s)
  from assms(1) [unfolded s] obtain v1 where v1: "load_fields m row off (pkfs @ fs) v = Inr v1"
    and r: "load_relations slug row path rels (off + (length fs + length pkfs)) (v1, prev) = ((v', prev'), Inr off')"
    by (rule load_StructureE)
  have "off' = off + length (fullTarget s)"
    by (rule load_offset(1) [OF aligned_width(1) [OF assms(2)] assms(1)])
  moreover have "struct_get v' f = struct_get v1 f" if "f \<notin> fst ` set rels" for f
    by (rule load_relations_frame [OF r that])
  moreover note load_fields_value [OF v1] load_fields_frame [OF v1]
  ultimately show ?thesis by (auto simp: s Let_def)
qed

section \<open>Rows and objects\<close>

lemma remdups_adj_snoc: "remdups_adj (xs @ [x]) = (if xs \<noteq> [] \<and> last xs = x then remdups_adj xs else remdups_adj xs @ [x])"
  by (induction xs rule: remdups_adj.induct) auto

text \<open>The keys of the rows, as \<^verbatim>\<open>process\<close> computes them.\<close>

definition row_key :: "(scanned list \<Rightarrow> string res) \<Rightarrow> qstructure \<Rightarrow> scanned list res \<Rightarrow> string res" where
  "row_key slug s r = bind_res r (\<lambda>row. slug (take (length (st_primaryKeyTarget s)) row))"

lemma process_rows_runs:
  assumes "process_rows slug capacity m s rows (objs, key, prev) = Inr objs'"
    and "length objs = length (remdups_adj keys)" "objs \<noteq> [] \<longrightarrow> keys \<noteq> [] \<and> last keys = key" "length objs \<le> capacity"
  shows "\<exists>ks. map_res (row_key slug s) rows = Inr ks \<and> length objs' = length (remdups_adj (keys @ ks)) \<and>
     length objs' \<le> capacity"
  using assms
proof (induction rows arbitrary: objs key prev keys)
  case (Cons r rows)
  let ?new = "\<lambda>k. length objs = 0 \<or> k \<noteq> key"
  from Cons.prems(1) obtain row k vp where row: "r = Inr row" and k: "row_key slug s r = Inr k"
    and cap: "\<not> (?new k \<and> capacity < length objs + 1)"
    and rest: "process_rows slug capacity m s rows
       ((if ?new k then objs else butlast objs) @ [fst vp], k, snd vp) = Inr objs'"
    by (auto simp: bind_res_Inr row_key_def Let_def split: if_split_asm)
  let ?objs = "(if ?new k then objs else butlast objs) @ [fst vp]"
  have len: "length ?objs = length (remdups_adj (keys @ [k]))"
    using Cons.prems(2,3) by (auto simp: remdups_adj_snoc)
  have le: "length ?objs \<le> capacity" using cap Cons.prems(4) by auto
  have lst: "?objs \<noteq> [] \<longrightarrow> keys @ [k] \<noteq> [] \<and> last (keys @ [k]) = k" by simp
  from Cons.IH [OF rest len lst le] k show ?case by auto
qed simp



section \<open>Examples\<close>

definition ex_slug :: "scanned list \<Rightarrow> string res" where
  "ex_slug xs = Inr (join '','' (map (\<lambda>x. case x of ScStr s \<Rightarrow> s | ScPlain (VStr s) \<Rightarrow> s | _ \<Rightarrow> ''null'') xs))"

definition ex_structure :: qstructure where
  "ex_structure = (case mapStructure zormtest_cfg UserMapping \<lparr>t_name = ''users'', t_alias = ''$''\<rparr> [] [''FirstName'']
     [(''Auths'', RelationOpts (Include [''Data''] []) None [])] of Inr s \<Rightarrow> s)"

definition ex_row :: "string \<Rightarrow> string \<Rightarrow> string \<Rightarrow> scanned list" where
  "ex_row uid name auth = [ScPlain (VStr uid), ScPlain (VStr name),
     if auth = [] then ScNull NullString else ScStr auth, if auth = [] then ScNull NullString else ScStr ''d'']"

lemma ex_structure_ok:
  "mapStructure zormtest_cfg UserMapping \<lparr>t_name = ''users'', t_alias = ''$''\<rparr> [] [''FirstName'']
     [(''Auths'', RelationOpts (Include [''Data''] []) None [])] = Inr ex_structure"
proof -
  have "is_ok (mapStructure zormtest_cfg UserMapping \<lparr>t_name = ''users'', t_alias = ''$''\<rparr> [] [''FirstName'']
     [(''Auths'', RelationOpts (Include [''Data''] []) None [])])" by code_simp
  then show ?thesis by (auto simp: is_ok_iff ex_structure_def simp del: mapStructure.simps)
qed

lemma ex_structure_shape:
  "st_primaryKeyFields ex_structure = [''ID''] \<and> st_fields ex_structure = [''FirstName''] \<and>
   map fst (st_relations ex_structure) = [''Auths''] \<and> length (st_primaryKeyTarget ex_structure) = 1"
  by code_simp

theorem loadStructure_reads_its_columns_witness:
  "\<exists>v prev. load_structure ex_slug (ex_row ''7'' ''Ann'' ''3'') [] UserMapping ex_structure 0 (new_struct UserMapping, []) =
       ((v, prev), Inr 4) \<and> struct_get v ''FirstName'' = Some (VStr ''Ann'')"
proof -
  let ?r = "load_structure ex_slug (ex_row ''7'' ''Ann'' ''3'') [] UserMapping ex_structure 0 (new_struct UserMapping, [])"
  have "snd ?r = Inr 4" by code_simp
  then obtain v prev where l: "?r = ((v, prev), Inr 4)" by (metis prod.collapse)
  have "aligned ex_structure" by (rule mapStructure_is_aligned(1) [OF ex_structure_ok])
  from loadStructure_reads_its_columns [OF l this]
  have "\<exists>ty x. struct_field UserMapping ''FirstName'' = Some ty \<and>
      column_value (ex_row ''7'' ''Ann'' ''3'') 1 ty = Inr x \<and> struct_get v ''FirstName'' = Some x"
    using ex_structure_shape
    by (auto simp: new_struct_def zormtest_defs Let_def dest!: spec [of _ 1])
  then have "struct_get v ''FirstName'' = Some (VStr ''Ann'')"
    by (auto simp: struct_field_def zormtest_defs column_value_def ex_row_def)
  with l show ?thesis by blast
qed

definition no_sort :: go_slice_sort where
  "no_sort lt xs = Inr xs"


text \<open>A model with two to-many relations.\<close>

definition ex_item :: mapping where
  "ex_item = \<lparr>m_ptr = \<lparr>sd_pkg = ''p'', sd_name = ''Item'', sd_fields = [(''ID'', TString)]\<rparr>, m_table = ''items'',
     m_primaryKey = [''id''], m_uniqueKeys = [], m_columns = [\<lparr>cm_name = ''id'', cm_field = ''ID'', cm_noInsert = False, cm_noUpdate = False\<rparr>],
     m_relations = []\<rparr>"

definition ex_parent :: mapping where
  "ex_parent = \<lparr>m_ptr = \<lparr>sd_pkg = ''p'', sd_name = ''Parent'',
       sd_fields = [(''ID'', TString), (''Tags'', TSlice (TPtr (TStruct ''p'' ''Item''))), (''Notes'', TSlice (TPtr (TStruct ''p'' ''Item'')))]\<rparr>,
     m_table = ''parents'', m_primaryKey = [''id''], m_uniqueKeys = [],
     m_columns = [\<lparr>cm_name = ''id'', cm_field = ''ID'', cm_noInsert = False, cm_noUpdate = False\<rparr>],
     m_relations = [\<lparr>r_table = ''items'', r_columns = [(''id'', ''tag_of'')], r_field = ''Tags''\<rparr>,
                    \<lparr>r_table = ''items'', r_columns = [(''id'', ''note_of'')], r_field = ''Notes''\<rparr>]\<rparr>"

definition ex_two_many :: "qstructure res" where
  "ex_two_many = mapStructure \<lparr>cfg_name = ''t'', cfg_mappings = map (\<lambda>m. (typeID (ptr_type m), m)) [ex_item, ex_parent]\<rparr>
     ex_parent \<lparr>t_name = ''parents'', t_alias = ''$''\<rparr> [] []
     [(''Tags'', RelationOpts (Include [] []) None []), (''Notes'', RelationOpts (Include [] []) None [])]"

definition ex_product_row :: "string \<Rightarrow> string \<Rightarrow> scanned list res" where
  "ex_product_row tag note = Inr [ScPlain (VStr ''p1''), ScPlain (VStr ''p1''), ScStr tag, ScStr tag, ScStr note, ScStr note]"

definition ids_of :: "gval \<Rightarrow> string \<Rightarrow> gval option list" where
  "ids_of v f = (case struct_get v f of Some (VSlice es) \<Rightarrow> map (\<lambda>e. case e of VPtr u \<Rightarrow> struct_get u ''ID'' | _ \<Rightarrow> None) es | _ \<Rightarrow> [])"

text \<open>With two to-many relations of one model, the rows are the product of both, and an element is
  merged only with the previous row's: the second relation is loaded once per element of the first.\<close>

theorem two_to_many_duplicates:
  "case ex_two_many of
     Inl _ \<Rightarrow> False
   | Inr s \<Rightarrow>
       (case process_rows ex_slug 10 ex_parent s
           [ex_product_row ''t1'' ''n1'', ex_product_row ''t1'' ''n2'', ex_product_row ''t2'' ''n1'', ex_product_row ''t2'' ''n2'']
           ([], [], []) of
          Inr [v] \<Rightarrow> ids_of v ''Tags'' = [Some (VStr ''t1''), Some (VStr ''t2'')] \<and>
            ids_of v ''Notes'' = [Some (VStr ''n1''), Some (VStr ''n2''), Some (VStr ''n1''), Some (VStr ''n2'')]
        | _ \<Rightarrow> False)"
  by code_simp

text \<open>A select without rows leaves the caller's slice as it was.\<close>

lemma find_without_rows:
  "st_relations s = [] \<Longrightarrow> list_all is_ptr_val old \<Longrightarrow> process srt sprint slug capacity m s old [] = Inr old"
proof (induction old)
  case (Cons e old)
  obtain tbl cols fs ts pk pkfs pkts rels where s: "s = Structure tbl cols fs ts pk pkfs pkts rels" by (cases s)
  with Cons show ?case by (cases e) (auto simp: process_def sort_target_def)
qed (simp add: process_def)

end
