(* ===== verification/Zormsql_Find_Types.thy ===== *)
theory Zormsql_Find_Types
  imports Zormsql_Find_Laws
begin

text \<open>
  Loaded objects are well typed: when the mappings of a configuration fit their structs, a row that was
  scanned into the targets of a plan loads without a panic, and every field of the object, and of every
  object under its relations, holds a value of the type the struct declares.
\<close>

section \<open>Values of a type\<close>

text \<open>Structs are opaque here; what is in them is typed by their mapping below.\<close>

fun has_type :: "gval \<Rightarrow> gotype \<Rightarrow> bool" where
  "has_type VNil t = False"
| "has_type (VStr s) t = (t = TString)"
| "has_type (VInt i) t =
     (case t of TInt w \<Rightarrow> - (2 ^ (int_width w - 1)) \<le> i \<and> i < 2 ^ (int_width w - 1) | _ \<Rightarrow> False)"
| "has_type (VUint i) t = (case t of TUint w \<Rightarrow> 0 \<le> i \<and> i < 2 ^ int_width w | _ \<Rightarrow> False)"
| "has_type (VFloat x) t = (case t of TFloat w \<Rightarrow> True | _ \<Rightarrow> False)"
| "has_type (VBool b) t = (t = TBool)"
| "has_type (VTime i) t = (t = TTime)"
| "has_type VNilPtr t = is_TPtr t"
| "has_type (VPtr v) t = (is_TPtr t \<and> has_type v (elem_type t))"
| "has_type VNilSlice t = is_TSlice t"
| "has_type (VSlice vs) t = (is_TSlice t \<and> list_all (\<lambda>v. has_type v (elem_type t)) vs)"
| "has_type (VStruct fs) t = (case t of TStruct p n \<Rightarrow> True | _ \<Rightarrow> False)"
| "has_type (VOther s) t = (case t of TOther n \<Rightarrow> True | _ \<Rightarrow> False)"

lemma zero_has_type [simp]: "has_type (zero_val t) t"
  by (cases t) simp_all

lemma wrap_int_range: "- (2 ^ (int_width w - 1)) \<le> wrap_int w i \<and> wrap_int w i < 2 ^ (int_width w - 1)"
proof -
  let ?h = "(2 :: int) ^ (int_width w - 1)"
  have "int_width w \<noteq> 0" by (simp add: int_width_def)
  then have "(2 :: int) ^ int_width w = 2 * ?h" by (cases "int_width w") simp_all
  moreover have "0 \<le> (i + ?h) mod 2 ^ int_width w" "(i + ?h) mod 2 ^ int_width w < 2 ^ int_width w" by simp_all
  ultimately show ?thesis unfolding wrap_int_def by linarith
qed

text \<open>What \<^verbatim>\<open>rows.Scan\<close> may leave in a target, as \<^verbatim>\<open>database/sql\<close> documents it: NULL or a value of the kind of a
  nullable target, a value of its type in a plain one.\<close>

fun scanned_into :: "scan_target \<Rightarrow> scanned \<Rightarrow> bool" where
  "scanned_into t (ScNull u) = (u = t \<and> (case t of PtrTo ty \<Rightarrow> False | _ \<Rightarrow> True))"
| "scanned_into t (ScStr s) = (t = NullString)"
| "scanned_into t (ScInt i) = (t = NullInt64)"
| "scanned_into t (ScFloat x) = (t = NullFloat64)"
| "scanned_into t (ScBool b) = (t = NullBool)"
| "scanned_into t (ScTime i) = (t = NullTime)"
| "scanned_into t (ScPlain v) = (case t of PtrTo ty \<Rightarrow> has_type v ty | _ \<Rightarrow> False)"

definition target_of_type :: "gotype \<Rightarrow> scan_target \<Rightarrow> bool" where
  "target_of_type ty t \<longleftrightarrow> t = PtrTo ty \<or> t = createNullableScanTarget ty"

lemma plain_converts:
  assumes "has_type v ty"
  shows "\<exists>u. convertNullableValue (ScPlain v) ty = Inr (u, True) \<and> has_type u ty"
  using assms by (cases ty; cases v) auto

lemma nullable_converts:
  assumes "scanned_into (createNullableScanTarget_of (target_elem ty) ty) sc"
  shows "\<exists>u b. convertNullableValue sc ty = Inr (u, b) \<and> (b \<longrightarrow> has_type u ty)"
proof (cases sc)
  case (ScPlain v)
  then have "has_type v ty" using assms by (cases "target_elem ty") auto
  with plain_converts ScPlain show ?thesis by blast
next
  case (ScInt i)
  then consider w where "target_elem ty = TInt w" | w where "target_elem ty = TUint w"
    using assms by (cases "target_elem ty") auto
  then show ?thesis
    using ScInt wrap_int_range [of _ i]
    by cases (auto simp: target_elem_def as_target_def wrap_uint_def split: if_splits)
qed (use assms in \<open>cases "target_elem ty"; auto simp: target_elem_def as_target_def split: if_splits\<close>)+

lemma converted_has_type:
  assumes "target_of_type ty t" "scanned_into t sc"
  shows "\<exists>c. convertNullableValue sc ty = Inr c \<and> has_type (if snd c then fst c else zero_val ty) ty"
proof (cases "t = PtrTo ty")
  case True
  then obtain v where "sc = ScPlain v" "has_type v ty" using assms(2) by (cases sc) auto
  with plain_converts show ?thesis by fastforce
next
  case False
  then have "t = createNullableScanTarget_of (target_elem ty) ty"
    using assms(1) by (simp add: target_of_type_def createNullableScanTarget_def target_elem_def)
  with nullable_converts [of ty sc] assms(2) obtain u b
    where "convertNullableValue sc ty = Inr (u, b)" "b \<longrightarrow> has_type u ty" by auto
  then show ?thesis by (cases b) auto
qed

section \<open>Typed objects\<close>

definition typed_object :: "mapping \<Rightarrow> gval \<Rightarrow> bool" where
  "typed_object m v \<longleftrightarrow>
     (\<exists>fs. v = VStruct fs) \<and>
     (\<forall>f ty. struct_field m f = Some ty \<longrightarrow> (\<exists>x. struct_get v f = Some x \<and> has_type x ty))"

lemma typed_objectD:
  "typed_object m v \<Longrightarrow> struct_field m f = Some ty \<Longrightarrow> \<exists>x. struct_get v f = Some x \<and> has_type x ty"
  by (simp add: typed_object_def)

lemma typed_object_struct: "typed_object m v \<Longrightarrow> has_type v (TStruct p n)"
  by (auto simp: typed_object_def)

lemma typed_object_set:
  assumes "typed_object m v" "struct_field m f = Some ty" "has_type x ty"
  shows "typed_object m (struct_set v f x)"
proof -
  obtain fs where v: "v = VStruct fs" using assms(1) by (auto simp: typed_object_def)
  show ?thesis
    unfolding typed_object_def
  proof (intro conjI allI impI)
    show "\<exists>fs. struct_set v f x = VStruct fs" by (simp add: v)
    fix g tg
    assume g: "struct_field m g = Some tg"
    then obtain y where y: "struct_get v g = Some y" "has_type y tg" using typed_objectD [OF assms(1)] by blast
    show "\<exists>z. struct_get (struct_set v f x) g = Some z \<and> has_type z tg"
    proof (cases "g = f")
      case True
      then show ?thesis using y(1) g assms(2,3) by simp
    next
      case False
      then show ?thesis using y by simp
    qed
  qed
qed

lemma new_struct_get: "struct_get (new_struct m) f = map_option zero_val (struct_field m f)"
proof -
  have "map_of (map (\<lambda>p. (fst p, zero_val (snd p))) xs) f = map_option zero_val (map_of xs f)" for xs
    by (induction xs) auto
  then show ?thesis by (simp add: new_struct_def struct_field_def)
qed

lemma typed_new_struct: "typed_object m (new_struct m)"
  unfolding typed_object_def by (simp add: new_struct_get) (simp add: new_struct_def)

text \<open>The objects under the relations of a structure, each typed by the mapping of its relation.\<close>

fun deep_typed :: "mapping \<Rightarrow> qstructure \<Rightarrow> gval \<Rightarrow> bool"
and deep_rels :: "(string \<times> join_structure) list \<Rightarrow> gval \<Rightarrow> bool" where
  "deep_typed m (Structure tbl cols fs ts pk pkfs pkts rels) v \<longleftrightarrow> typed_object m v \<and> deep_rels rels v"
| "deep_rels [] v = True"
| "deep_rels ((name, JoinStructure many ps w srt s rm) # rels) v \<longleftrightarrow>
     (case struct_get v name of
        None \<Rightarrow> False
      | Some x \<Rightarrow>
          if many then \<forall>e \<in> set (slice_elems x). \<exists>u. e = VPtr u \<and> deep_typed rm s u
          else \<forall>u. x = VPtr u \<longrightarrow> deep_typed rm s u) \<and>
     deep_rels rels v"

lemma deep_typed_object: "deep_typed m s v \<Longrightarrow> typed_object m v"
  by (cases s) simp

lemma deep_rels_cong:
  "(\<And>f. f \<in> fst ` set rels \<Longrightarrow> struct_get v f = struct_get w f) \<Longrightarrow> deep_rels rels v = deep_rels rels w"
proof (induction rels)
  case (Cons r rels)
  obtain f many ps c srt s rm where "r = (f, JoinStructure many ps c srt s rm)" by (cases r, cases "snd r") auto
  with Cons show ?case by simp
qed simp

section \<open>Typed structures\<close>

definition relation_type :: "bool \<Rightarrow> gotype \<Rightarrow> bool" where
  "relation_type many ty \<longleftrightarrow> (\<exists>p n. ty = (if many then TSlice (TPtr (TStruct p n)) else TPtr (TStruct p n)))"

fun typed_structure :: "mapping \<Rightarrow> qstructure \<Rightarrow> bool"
and typed_rels :: "mapping \<Rightarrow> (string \<times> join_structure) list \<Rightarrow> bool" where
  "typed_structure m (Structure tbl cols fs ts pk pkfs pkts rels) \<longleftrightarrow>
     length pkts = length pkfs \<and>
     list_all2 (\<lambda>f t. \<exists>ty. struct_field m f = Some ty \<and> target_of_type ty t) (pkfs @ fs) (pkts @ ts) \<and>
     distinct (map fst rels) \<and> fst ` set rels \<inter> set (pkfs @ fs) = {} \<and> typed_rels m rels"
| "typed_rels m [] = True"
| "typed_rels m ((name, JoinStructure many ps w srt s rm) # rels) \<longleftrightarrow>
     (\<exists>ty. struct_field m name = Some ty \<and> relation_type many ty) \<and> typed_structure rm s \<and> typed_rels m rels"

lemma deep_new_struct:
  "typed_structure m s \<Longrightarrow> deep_typed m s (new_struct m)"
  "typed_rels m rels \<Longrightarrow> deep_rels rels (new_struct m)"
proof (induction m s and m rels rule: typed_structure_typed_rels.induct)
  case (3 m name many ps w srt s rm rels)
  then show ?case by (auto simp: new_struct_get relation_type_def slice_elems_def)
qed (simp_all add: typed_new_struct)

section \<open>Rows\<close>

definition row_fits :: "scan_target list \<Rightarrow> scanned list \<Rightarrow> nat \<Rightarrow> bool" where
  "row_fits ts row off \<longleftrightarrow> off + length ts \<le> length row \<and> (\<forall>i < length ts. scanned_into (ts ! i) (row ! (off + i)))"

lemma row_fits_append:
  "row_fits (ts @ us) row off \<longleftrightarrow> row_fits ts row off \<and> row_fits us row (off + length ts)"
proof
  assume r: "row_fits (ts @ us) row off"
  have "scanned_into (us ! i) (row ! (off + length ts + i))" if "i < length us" for i
    using r that unfolding row_fits_def
    by (metis (no_types, lifting) add.assoc add.commute length_append nat_add_left_cancel_less nth_append_length_plus)
  moreover have "scanned_into (ts ! i) (row ! (off + i))" if "i < length ts" for i
    using r that unfolding row_fits_def by (metis length_append nth_append trans_less_add1)
  ultimately show "row_fits ts row off \<and> row_fits us row (off + length ts)"
    using r by (simp add: row_fits_def)
next
  assume r: "row_fits ts row off \<and> row_fits us row (off + length ts)"
  have "scanned_into ((ts @ us) ! i) (row ! (off + i))" if "i < length (ts @ us)" for i
  proof (cases "i < length ts")
    case True
    then show ?thesis using r by (simp add: row_fits_def nth_append)
  next
    case False
    then have i: "i - length ts < length us" "off + length ts + (i - length ts) = off + i" using that by simp_all
    then have "scanned_into (us ! (i - length ts)) (row ! (off + i))" using r unfolding row_fits_def by metis
    with False show ?thesis by (simp add: nth_append)
  qed
  then show "row_fits (ts @ us) row off" using r by (simp add: row_fits_def)
qed

lemma row_fits_Cons: "row_fits (t # ts) row off \<longleftrightarrow> off < length row \<and> scanned_into t (row ! off) \<and> row_fits ts row (Suc off)"
  using row_fits_append [of "[t]" ts row off] by (auto simp: row_fits_def)

lemma load_fields_typed:
  assumes "list_all2 (\<lambda>f t. \<exists>ty. struct_field m f = Some ty \<and> target_of_type ty t) fs ts"
    and "row_fits ts row off" "typed_object m v"
  shows "\<exists>v'. load_fields m row off fs v = Inr v' \<and> typed_object m v'"
  using assms
proof (induction fs ts arbitrary: off v rule: list_all2_induct)
  case (Cons f fs t ts)
  obtain ty where ty: "struct_field m f = Some ty" "target_of_type ty t" using Cons.hyps(1) by blast
  have row: "off < length row" "scanned_into t (row ! off)" "row_fits ts row (Suc off)"
    using Cons.prems(1) by (simp_all add: row_fits_Cons)
  obtain c where c: "convertNullableValue (row ! off) ty = Inr c"
      "has_type (if snd c then fst c else zero_val ty) ty"
    using converted_has_type [OF ty(2) row(2)] by blast
  from Cons.IH [OF row(3) typed_object_set [OF Cons.prems(2) ty(1) c(2)]] row(1) c(1) ty(1)
  show ?case by simp
qed simp

section \<open>Loading\<close>

lemma struct_get_load_relations:
  "g \<notin> fst ` set rels \<Longrightarrow> struct_get (fst (fst (load_relations slug row path rels off (v, prev)))) g = struct_get v g"
proof (induction rels arbitrary: off v prev)
  case (Cons r rels)
  obtain f many ps w srt s rm where r: "r = (f, JoinStructure many ps w srt s rm)" by (cases r, cases "snd r") auto
  have g: "g \<noteq> f" "g \<notin> fst ` set rels" using Cons.prems r by auto
  show ?case
    using Cons.IH [OF g(2)] g(1)
    by (simp add: r Let_def split: option.split sum.split prod.split)
qed simp

text \<open>The outcome of a load: a typed object, and no panic.\<close>

definition loads_typed :: "mapping \<Rightarrow> qstructure \<Rightarrow> nat \<Rightarrow> (gval \<times> prev_keys) \<times> nat res \<Rightarrow> bool" where
  "loads_typed m s off' r \<longleftrightarrow>
     deep_typed m s (fst (fst r)) \<and> (\<forall>e. snd r = Inl e \<longrightarrow> \<not> is_panic e) \<and> (\<forall>o'. snd r = Inr o' \<longrightarrow> o' = off')"

definition loads_rels :: "mapping \<Rightarrow> (string \<times> join_structure) list \<Rightarrow> nat \<Rightarrow> (gval \<times> prev_keys) \<times> nat res \<Rightarrow> bool" where
  "loads_rels m rels off' r \<longleftrightarrow>
     typed_object m (fst (fst r)) \<and> deep_rels rels (fst (fst r)) \<and>
     (\<forall>e. snd r = Inl e \<longrightarrow> \<not> is_panic e) \<and> (\<forall>o'. snd r = Inr o' \<longrightarrow> o' = off')"

lemma loads_rels_error:
  "typed_object m v \<Longrightarrow> deep_rels rels v \<Longrightarrow> \<not> is_panic e \<Longrightarrow> loads_rels m rels off' ((v, prev), Inl e)"
  by (simp add: loads_rels_def)

text \<open>After one relation, the rest changes neither its field nor the object's type.\<close>

lemma loads_rels_Cons:
  assumes "loads_rels m rels off' (load_relations slug row path rels o1 (v, prev))"
    and "name \<notin> fst ` set rels" "deep_rels [(name, js)] v"
  shows "loads_rels m ((name, js) # rels) off' (load_relations slug row path rels o1 (v, prev))"
proof -
  obtain many ps w srt s rm where js: "js = JoinStructure many ps w srt s rm" by (cases js)
  let ?v = "fst (fst (load_relations slug row path rels o1 (v, prev)))"
  have "struct_get ?v name = struct_get v name" using struct_get_load_relations [OF assms(2)] .
  then have "deep_rels [(name, js)] ?v" using assms(3) by (simp add: js)
  then show ?thesis using assms(1) by (simp add: loads_rels_def js)
qed

lemma deep_rels_Cons: "deep_rels [(n, js)] v \<Longrightarrow> deep_rels rels v \<Longrightarrow> deep_rels ((n, js) # rels) v"
  by (cases js) simp

lemma no_panic_wrap: "\<not> is_panic e \<Longrightarrow> \<not> is_panic (wrap_err m e)"
  by (simp add: wrap_err_def)

lemma deep_rels_set:
  assumes "deep_rels rels v" "name \<notin> fst ` set rels"
  shows "deep_rels rels (struct_set v name x)"
proof -
  have "deep_rels rels (struct_set v name x) = deep_rels rels v" using assms(2) by (intro deep_rels_cong) auto
  with assms(1) show ?thesis by simp
qed

lemma load_typed:
  assumes slug: "\<And>xs e. slug xs = Inl e \<Longrightarrow> \<not> is_panic e"
  shows "typed_structure m s \<Longrightarrow> deep_typed m s v \<Longrightarrow> row_fits (fullTarget s) row off \<Longrightarrow>
      loads_typed m s (off + length (fullTarget s)) (load_structure slug row path m s off (v, prev))"
    and "typed_rels m rels \<Longrightarrow> distinct (map fst rels) \<Longrightarrow> typed_object m v \<Longrightarrow> deep_rels rels v \<Longrightarrow>
      row_fits (fullTarget_rels rels) row off \<Longrightarrow>
      loads_rels m rels (off + length (fullTarget_rels rels)) (load_relations slug row path rels off (v, prev))"
proof (induction m s and m rels arbitrary: path off v prev and path off v prev
    rule: typed_structure_typed_rels.induct)
  case (1 m tbl cols fs ts pk pkfs pkts rels)
  have t: "list_all2 (\<lambda>f t. \<exists>ty. struct_field m f = Some ty \<and> target_of_type ty t) (pkfs @ fs) (pkts @ ts)"
      "distinct (map fst rels)" "fst ` set rels \<inter> set (pkfs @ fs) = {}" "typed_rels m rels" "length pkts = length pkfs"
    using "1.prems"(1) by simp_all
  have row: "row_fits (pkts @ ts) row off" "row_fits (fullTarget_rels rels) row (off + length (pkts @ ts))"
    using "1.prems"(3) row_fits_append [of "pkts @ ts" "fullTarget_rels rels"] by simp_all
  have v: "typed_object m v" "deep_rels rels v" using "1.prems"(2) by simp_all
  obtain v' where v': "load_fields m row off (pkfs @ fs) v = Inr v'" "typed_object m v'"
    using load_fields_typed [OF t(1) row(1) v(1)] by blast
  have "deep_rels rels v' = deep_rels rels v"
    using t(3) by (intro deep_rels_cong load_fields_frame [OF v'(1)]) blast
  then have d: "deep_rels rels v'" using v(2) by simp
  have len: "length (pkts @ ts) = length fs + length pkfs" using list_all2_lengthD [OF t(1)] t(5) by simp
  have row2: "row_fits (fullTarget_rels rels) row (off + (length fs + length pkfs))" using row(2) len by (simp add: add.assoc)
  from "1.IH" [OF t(4,2) v'(2) d row2] have
    "loads_rels m rels (off + (length fs + length pkfs) + length (fullTarget_rels rels))
      (load_relations slug row path rels (off + (length fs + length pkfs)) (v', prev))" .
  note l = this
  have lf: "length (fullTarget (Structure tbl cols fs ts pk pkfs pkts rels)) =
      (length fs + length pkfs) + length (fullTarget_rels rels)" using len by simp
  show ?case
    unfolding lf using l v'(1) by (simp add: loads_typed_def loads_rels_def add.assoc)
next
  case (2 m)
  then show ?case by (simp add: loads_rels_def)
next
  case (3 m name many ps w srt s rm rels)
  let ?js = "JoinStructure many ps w srt s rm"
  obtain ty where ty: "struct_field m name = Some ty" "relation_type many ty" and ts: "typed_structure rm s" "typed_rels m rels"
    using "3.prems"(1) by auto
  have nm: "name \<notin> fst ` set rels" and dist: "distinct (map fst rels)" using "3.prems"(2) by simp_all
  have dr: "deep_rels rels v" and dh: "deep_rels [(name, ?js)] v" using "3.prems"(4) by simp_all
  have row: "row_fits (fullTarget s) row off" "row_fits (fullTarget_rels rels) row (off + length (fullTarget s))"
    using "3.prems"(5) by (simp_all add: row_fits_append)
  let ?off2 = "off + length (fullTarget s)"
  have total: "off + length (fullTarget_rels ((name, ?js) # rels)) = ?off2 + length (fullTarget_rels rels)" by simp
  let ?n = "length (st_primaryKeyTarget s)" and ?key = "take (length (st_primaryKeyTarget s)) (drop off row)"
  have n: "off + ?n \<le> length row" using row(1) by (cases s) (simp add: row_fits_def)
  obtain x where x: "struct_get v name = Some x" "has_type x ty" using typed_objectD [OF "3.prems"(3) ty(1)] by blast
  text \<open>What the rest of the relations makes of an object whose head relation is loaded.\<close>
  have rest: "loads_rels m ((name, ?js) # rels) (?off2 + length (fullTarget_rels rels))
      (load_relations slug row path rels ?off2 (w, p))"
    if "typed_object m w" "deep_rels rels w" "deep_rels [(name, ?js)] w" for w p
    using "3.IH"(2) [OF ts(2) dist that(1,2) row(2)] nm that(3) by (rule loads_rels_Cons)
  show ?case
  proof (cases "isPrimaryKeyNull ?key")
    case True
    then show ?thesis using rest [OF "3.prems"(3) dr dh, of prev] n unfolding total by (simp add: Let_def)
  next
    case key: False
    show ?thesis
    proof (cases many)
      case False
      let ?u0 = "pointee rm x"
      have "deep_typed rm s ?u0"
        using dh x(1) False deep_new_struct(1) [OF ts(1)] by (cases x) (auto simp: pointee_def)
      from "3.IH"(1) [OF ts(1) this row(1)] have l:
        "loads_typed rm s ?off2 (load_structure slug row (path @ [name]) rm s off (?u0, prev))" .
      obtain u prev' r where r: "load_structure slug row (path @ [name]) rm s off (?u0, prev) = ((u, prev'), r)"
        by (metis prod.collapse)
      let ?v = "struct_set v name (VPtr u)"
      have u: "deep_typed rm s u" using l r by (simp add: loads_typed_def)
      obtain p q where pq: "ty = TPtr (TStruct p q)" using ty(2) False by (auto simp: relation_type_def)
      have tv: "typed_object m ?v"
        using typed_object_set [OF "3.prems"(3) ty(1)] typed_object_struct [OF deep_typed_object [OF u]] pq by simp
      have dv: "deep_rels rels ?v" "deep_rels [(name, ?js)] ?v"
        using deep_rels_set [OF dr nm] x(1) u False by simp_all
      show ?thesis
      proof (cases r)
        case (Inl e)
        then have "\<not> is_panic e" using l r by (simp add: loads_typed_def)
        then have "loads_rels m ((name, ?js) # rels) (off + length (fullTarget_rels ((name, ?js) # rels)))
            ((?v, prev'), Inl (wrap_err ''loading relation data'' e))"
          by (rule loads_rels_error [OF tv deep_rels_Cons [OF dv(2,1)] no_panic_wrap])
        then show ?thesis using key n x(1) False r Inl by (simp add: Let_def)
      next
        case (Inr off')
        then have "off' = ?off2" using l r by (simp add: loads_typed_def)
        then show ?thesis using rest [OF tv dv, of prev'] key n x(1) False r Inr unfolding total by (simp add: Let_def)
      qed
    next
      case True
      obtain p q where pq: "ty = TSlice (TPtr (TStruct p q))" using ty(2) True by (auto simp: relation_type_def)
      have el: "\<exists>u. e = VPtr u \<and> deep_typed rm s u" if "e \<in> set (slice_elems x)" for e
        using dh x(1) True that by simp
      have slice: "typed_object m (struct_set v name (VSlice es))" "deep_rels rels (struct_set v name (VSlice es))"
          "deep_rels [(name, ?js)] (struct_set v name (VSlice es))"
        if es: "\<And>e. e \<in> set es \<Longrightarrow> \<exists>u. e = VPtr u \<and> deep_typed rm s u" for es
      proof -
        have "has_type e (TPtr (TStruct p q))" if "e \<in> set es" for e
          using es [OF that] typed_object_struct [OF deep_typed_object] by fastforce
        then have "has_type (VSlice es) ty" by (simp add: pq list_all_iff)
        then show "typed_object m (struct_set v name (VSlice es))" using typed_object_set [OF "3.prems"(3) ty(1)] by blast
        show "deep_rels rels (struct_set v name (VSlice es))" using deep_rels_set [OF dr nm] .
        show "deep_rels [(name, ?js)] (struct_set v name (VSlice es))"
          using es x(1) True by (simp add: slice_elems_def)
      qed
      show ?thesis
      proof (cases "slug ?key")
        case (Inl e)
        have sl: "typed_object m (struct_set v name (VSlice (slice_elems x)))"
          "deep_rels rels (struct_set v name (VSlice (slice_elems x)))"
          "deep_rels [(name, ?js)] (struct_set v name (VSlice (slice_elems x)))"
          by (rule slice, erule el)+
        from Inl have "\<not> is_panic (wrap_err ''creating relation primary slug'' e)" using slug no_panic_wrap by blast
        then have "loads_rels m ((name, ?js) # rels) (off + length (fullTarget_rels ((name, ?js) # rels)))
            ((struct_set v name (VSlice (slice_elems x)), prev), Inl (wrap_err ''creating relation primary slug'' e))"
          by (rule loads_rels_error [OF sl(1) deep_rels_Cons [OF sl(3,2)]])
        then show ?thesis using key n x(1) True Inl by (simp add: Let_def)
      next
        case (Inr k)
        let ?new = "slice_elems x = [] \<or> k \<noteq> prev_key prev (path @ [name])"
        let ?before = "if ?new then slice_elems x else butlast (slice_elems x)"
        let ?u0 = "if ?new then new_struct rm else pointee rm (last (slice_elems x))"
        have "deep_typed rm s ?u0"
        proof (cases ?new)
          case True
          then show ?thesis using deep_new_struct(1) [OF ts(1)] by simp
        next
          case False
          then have "last (slice_elems x) \<in> set (slice_elems x)" by simp
          then obtain u where "last (slice_elems x) = VPtr u" "deep_typed rm s u" using el by blast
          then show ?thesis using False by (simp add: pointee_def)
        qed
        from "3.IH"(1) [OF ts(1) this row(1)] have l:
          "loads_typed rm s ?off2 (load_structure slug row (path @ [name]) rm s off (?u0, prev))" .
        obtain u prev' r where r: "load_structure slug row (path @ [name]) rm s off (?u0, prev) = ((u, prev'), r)"
          by (metis prod.collapse)
        let ?v = "struct_set v name (VSlice (?before @ [VPtr u]))"
        have u: "deep_typed rm s u" using l r by (simp add: loads_typed_def)
        have el2: "\<exists>u. e = VPtr u \<and> deep_typed rm s u" if "e \<in> set (?before @ [VPtr u])" for e
        proof (cases "e = VPtr u")
          case False
          then have "e \<in> set (slice_elems x)" using that by (auto split: if_splits dest: in_set_butlastD)
          then show ?thesis by (rule el)
        qed (use u in blast)
        have sl: "typed_object m ?v" "deep_rels rels ?v" "deep_rels [(name, ?js)] ?v"
          by (rule slice, erule el2)+
        show ?thesis
        proof (cases r)
          case (Inl e)
          then have "\<not> is_panic e" using l r by (simp add: loads_typed_def)
          then have "loads_rels m ((name, ?js) # rels) (off + length (fullTarget_rels ((name, ?js) # rels)))
              ((?v, prev'), Inl (wrap_err ''loading relation data'' e))"
            by (rule loads_rels_error [OF sl(1) deep_rels_Cons [OF sl(3,2)] no_panic_wrap])
          then show ?thesis using key n x(1) True r Inl \<open>slug ?key = Inr k\<close> by (simp add: Let_def)
        next
          case (Inr off')
          then have "off' = ?off2" using l r by (simp add: loads_typed_def)
          then show ?thesis
            using rest [OF sl, of "map_put (path @ [name]) k prev'"] key n x(1) True r Inr \<open>slug ?key = Inr k\<close>
            unfolding total by (simp add: Let_def)
        qed
      qed
    qed
  qed
qed

section \<open>Plans\<close>

text \<open>A mapping fits its struct: the field of a relation is a pointer to a struct or a slice of them, and no column.\<close>

fun is_relation_type :: "gotype \<Rightarrow> bool" where
  "is_relation_type (TPtr (TStruct p n)) = True"
| "is_relation_type (TSlice (TPtr (TStruct p n))) = True"
| "is_relation_type _ = False"

lemma is_relation_type_iff: "is_relation_type ty \<Longrightarrow> relation_type (is_TSlice ty) ty"
  by (cases ty rule: is_relation_type.cases) (simp_all add: relation_type_def)

definition typed_mapping :: "mapping \<Rightarrow> bool" where
  "typed_mapping m \<longleftrightarrow>
     list_all (\<lambda>r.
       (case struct_field m (r_field r) of Some ty \<Rightarrow> is_relation_type ty | None \<Rightarrow> False) \<and>
       r_field r \<notin> set (map cm_field (m_columns m))) (m_relations m)"

definition typed_config :: "config \<Rightarrow> bool" where
  "typed_config cfg \<longleftrightarrow> list_all (\<lambda>p. typed_mapping (snd p)) (cfg_mappings cfg)"

text \<open>A request names each relation once, at every level: it is a map.\<close>

fun distinct_request :: "(string \<times> relation_opts) list \<Rightarrow> bool" where
  "distinct_request [] = True"
| "distinct_request ((f, RelationOpts (Include fs rs) w srt) # rels) \<longleftrightarrow>
     f \<notin> fst ` set rels \<and> distinct_request rs \<and> distinct_request rels"

lemma typed_mapping_relation:
  assumes "typed_mapping m" "relationByField m f = Some r" "struct_field m f = Some ty"
  shows "relation_type (is_TSlice ty) ty" and "f \<notin> set (map cm_field (m_columns m))"
proof -
  have "r \<in> set (m_relations m)" "r_field r = f"
    using assms(2) unfolding relationByField_def by (auto simp: find_Some_iff)
  with assms(1) have h: "(case struct_field m f of Some ty \<Rightarrow> is_relation_type ty | None \<Rightarrow> False)"
      "f \<notin> set (map cm_field (m_columns m))"
    by (auto simp: typed_mapping_def list_all_iff)
  show "f \<notin> set (map cm_field (m_columns m))" using h(2) .
  show "relation_type (is_TSlice ty) ty"
    using h(1) assms(3) is_relation_type_iff by simp
qed

lemma colMap_fields: "map_of (colMap m) f = Some c \<Longrightarrow> f \<in> set (map cm_field (m_columns m))"
proof -
  have "map_of (fold (\<lambda>c cm. map_put (cm_field c) (cm_name c) cm) cs acc) f \<noteq> None \<Longrightarrow>
    f \<in> set (map cm_field cs) \<or> map_of acc f \<noteq> None" for cs acc
    by (induction cs arbitrary: acc) (fastforce split: if_splits)+
  from this [of "m_columns m" "[]"] show "map_of (colMap m) f = Some c \<Longrightarrow> ?thesis" by (simp add: colMap_def)
qed

lemma mapped_field_target:
  assumes "mapStructure_field m tbl p f = Inr ct"
  shows "\<exists>ty. struct_field m f = Some ty \<and> target_of_type ty (snd ct)" and "f \<in> set (map cm_field (m_columns m))"
  using assms colMap_fields [of m f]
  by (auto simp: mapStructure_field_def target_of_type_def split: option.splits)

lemma mapped_fields_targets:
  assumes "map_res (mapStructure_field m tbl p) fs = Inr cts"
  shows "list_all2 (\<lambda>f t. \<exists>ty. struct_field m f = Some ty \<and> target_of_type ty t) fs (map snd cts)"
    and "set fs \<subseteq> set (map cm_field (m_columns m))"
proof -
  have l: "list_all2 (\<lambda>f ct. mapStructure_field m tbl p f = Inr ct) fs cts" using assms by (simp add: map_res_Inr)
  then show "list_all2 (\<lambda>f t. \<exists>ty. struct_field m f = Some ty \<and> target_of_type ty t) fs (map snd cts)"
    unfolding list_all2_map2 by (rule list_all2_mono) (rule mapped_field_target(1))
  show "set fs \<subseteq> set (map cm_field (m_columns m))"
  proof
    fix f
    assume "f \<in> set fs"
    then obtain i where "i < length fs" "f = fs ! i" by (auto simp: in_set_conv_nth)
    with l have "mapStructure_field m tbl p f = Inr (cts ! i)" by (simp add: list_all2_conv_all_nth)
    then show "f \<in> set (map cm_field (m_columns m))" by (rule mapped_field_target(2))
  qed
qed

lemma mapStructure_typed:
  "mapStructure cfg m tbl p fs rels = Inr s \<Longrightarrow> typed_config cfg \<Longrightarrow> typed_mapping m \<Longrightarrow> distinct_request rels \<Longrightarrow>
     typed_structure m s"
  "mapStructure_rels cfg m tbl p rels = Inr out \<Longrightarrow> typed_config cfg \<Longrightarrow> typed_mapping m \<Longrightarrow> distinct_request rels \<Longrightarrow>
     typed_rels m out \<and> map fst out = map fst rels \<and> fst ` set rels \<inter> set (map cm_field (m_columns m)) = {} \<and>
     distinct (map fst rels)"
proof (induction cfg m tbl p fs rels and cfg m tbl p rels arbitrary: s and out
    rule: mapStructure_mapStructure_rels.induct)
  case (1 cfg m tbl p fs rels)
  from "1.prems" obtain pkf cts joined where
    pkf: "primaryKeyFields m = Inr pkf"
    and cts: "map_res (mapStructure_field m tbl p) (pkf @ resolve fs (allFields m)) = Inr cts"
    and j: "mapStructure_rels cfg m tbl p rels = Inr joined"
    and s: "s = Structure tbl (drop (length pkf) (map fst cts)) (drop (length pkf) (pkf @ resolve fs (allFields m)))
        (drop (length pkf) (map snd cts)) (take (length pkf) (map fst cts))
        (take (length pkf) (pkf @ resolve fs (allFields m))) (take (length pkf) (map snd cts)) joined"
    by (auto simp: bind_res_Inr Let_def)
  let ?names = "pkf @ resolve fs (allFields m)"
  have r: "typed_rels m joined" "map fst joined = map fst rels" "fst ` set rels \<inter> set (map cm_field (m_columns m)) = {}"
      "distinct (map fst rels)"
    using "1.IH" pkf cts j "1.prems"(2-4) by auto
  note f = mapped_fields_targets [OF cts]
  have len: "length cts = length ?names" using map_res_length [OF cts] .
  have d: "distinct (map fst joined)" using r(2,4) by simp
  have i: "fst ` set joined \<inter> set ?names = {}"
  proof -
    have "fst ` set joined = fst ` set rels" using arg_cong [OF r(2), of set] by simp
    then show ?thesis using r(3) f(2) by blast
  qed
  show ?case using f(1) r(1) d i len by (simp add: s)
next
  case (2 cfg m tbl p)
  then show ?case by simp
next
  case (3 cfg m tbl p f fs rs w srt rels)
  from "3.prems"(1) obtain ty om rm s more where step: "struct_field m f = Some ty"
    "is_TPtr ty \<or> is_TSlice ty"
    "map_of (cfg_mappings cfg) (typeID (if is_TPtr ty then ty else elem_type ty)) = Some om"
    "relationByField m f = Some rm"
    and s: "mapStructure cfg om \<lparr>t_name = m_table om, t_alias = (if p \<noteq> [] then p @ ''_'' @ f else f)\<rparr>
       (if p \<noteq> [] then p @ ''_'' @ f else f) fs rs = Inr s"
    and more: "mapStructure_rels cfg m tbl p rels = Inr more"
    and out: "out = (f, JoinStructure (is_TSlice ty)
        (map (\<lambda>q. (\<lparr>c_table = tbl, c_name = fst q, c_alias = []\<rparr>,
                   \<lparr>c_table = \<lparr>t_name = m_table om, t_alias = (if p \<noteq> [] then p @ ''_'' @ f else f)\<rparr>,
                    c_name = snd q, c_alias = []\<rparr>)) (r_columns rm)) w srt s om) # more"
    by (rule mapStructure_rels_ConsE)
  have "\<not> (\<not> is_TPtr ty \<and> \<not> is_TSlice ty)" using step(2) by blast
  note IH = "3.IH"(1) [OF step(1) this refl step(3,4) refl refl s]
    "3.IH"(2) [OF step(1) this refl step(3,4) refl refl, of s, OF _ more]
  have om: "typed_mapping om" using "3.prems"(2) map_of_SomeD [OF step(3)] by (auto simp: typed_config_def list_all_iff)
  have req: "f \<notin> fst ` set rels" "distinct_request rs" "distinct_request rels" using "3.prems"(4) by simp_all
  have a: "typed_structure om s" by (rule IH(1) [OF "3.prems"(2) om req(2)])
  have b: "typed_rels m more \<and> map fst more = map fst rels \<and> fst ` set rels \<inter> set (map cm_field (m_columns m)) = {} \<and>
     distinct (map fst rels)"
    by (rule IH(2) [OF _ "3.prems"(2,3) req(3)]) (use s in \<open>simp only: wrap_res_Inr\<close>)
  note t = typed_mapping_relation [OF "3.prems"(3) step(4,1)]
  show ?case using a b t step(1) req(1) by (simp add: out)
qed

section \<open>The property\<close>

lemma plan_load_typed:
  assumes "\<And>xs e. slug xs = Inl e \<Longrightarrow> \<not> is_panic e" "typed_structure m s" "deep_typed m s v" "row_fits (fullTarget s) row 0"
  shows "\<exists>v' prev'. plan_load slug m s row (v, prev) = Inr (v', prev') \<and> deep_typed m s v'"
proof -
  obtain v' prev' r where l: "load_structure slug row [] m s 0 (v, prev) = ((v', prev'), r)" by (metis prod.collapse)
  have "loads_typed m s (0 + length (fullTarget s)) (load_structure slug row [] m s 0 (v, prev))"
    by (rule load_typed(1) [OF assms(1)]) (use assms(2-4) in simp_all)
  with l have t: "deep_typed m s v'" "\<forall>e. r = Inl e \<longrightarrow> \<not> is_panic e" by (simp_all add: loads_typed_def)
  then have "plan_load slug m s row (v, prev) = Inr (v', prev')"
  proof (cases r)
    case (Inl e)
    then have "\<not> is_panic e" using t(2) by blast
    then show ?thesis using l Inl by (cases e) (simp_all add: plan_load_def)
  qed (use l in \<open>simp add: plan_load_def\<close>)
  with t(1) show ?thesis by blast
qed

lemma process_rows_ConsE:
  assumes "process_rows slug capacity m s (r # rows) (objs, key, prev) = Inr objs'"
  obtains row k vp where "r = Inr row"
    "plan_load slug m s row (if length objs = 0 \<or> k \<noteq> key then new_struct m else last objs, prev) = Inr vp"
    "process_rows slug capacity m s rows
       ((if length objs = 0 \<or> k \<noteq> key then objs else butlast objs) @ [fst vp], k, snd vp) = Inr objs'"
proof -
  from assms obtain row k vp where "r = Inr row"
    "plan_load slug m s row (if length objs = 0 \<or> k \<noteq> key then new_struct m else last objs, prev) = Inr vp"
    and e: "(if (length objs = 0 \<or> k \<noteq> key) \<and> capacity < length objs + 1
      then Inl (Panic ''reflect: slice length out of range in SetLen'')
      else process_rows slug capacity m s rows
       ((if length objs = 0 \<or> k \<noteq> key then objs else butlast objs) @ [fst vp], k, snd vp)) = Inr objs'"
    unfolding process_rows.simps bind_res_Inr wrap_res_Inr Let_def by blast
  moreover from e have "process_rows slug capacity m s rows
       ((if length objs = 0 \<or> k \<noteq> key then objs else butlast objs) @ [fst vp], k, snd vp) = Inr objs'"
    by (metis Inl_Inr_False)
  ultimately show thesis by (intro that)
qed

lemma process_rows_typed:
  assumes slug: "\<And>xs e. slug xs = Inl e \<Longrightarrow> \<not> is_panic e" and "typed_structure m s"
    and "\<And>row. Inr row \<in> set rows \<Longrightarrow> row_fits (fullTarget s) row 0"
    and "\<forall>x \<in> set objs. deep_typed m s x"
    and "process_rows slug capacity m s rows (objs, key, prev) = Inr objs'"
  shows "\<forall>x \<in> set objs'. deep_typed m s x"
  using assms(3-5)
proof (induction rows arbitrary: objs key prev)
  case (Cons r rows)
  from Cons.prems(3) obtain row k vp where row: "r = Inr row"
    and pl: "plan_load slug m s row (if length objs = 0 \<or> k \<noteq> key then new_struct m else last objs, prev) = Inr vp"
    and rest: "process_rows slug capacity m s rows
       ((if length objs = 0 \<or> k \<noteq> key then objs else butlast objs) @ [fst vp], k, snd vp) = Inr objs'"
    by (rule process_rows_ConsE)
  have fits: "row_fits (fullTarget s) row 0" using Cons.prems(1) row by simp
  have "deep_typed m s (if length objs = 0 \<or> k \<noteq> key then new_struct m else last objs)"
    using Cons.prems(2) deep_new_struct(1) [OF assms(2)] by simp
  then have "\<exists>v' prev'. plan_load slug m s row
      (if length objs = 0 \<or> k \<noteq> key then new_struct m else last objs, prev) = Inr (v', prev') \<and> deep_typed m s v'"
    by (intro plan_load_typed assms(2) fits) (rule slug)
  then have v: "deep_typed m s (fst vp)" using pl by auto
  have "\<forall>x \<in> set ((if length objs = 0 \<or> k \<noteq> key then objs else butlast objs) @ [fst vp]). deep_typed m s x"
    using Cons.prems(2) v by (auto dest: in_set_butlastD)
  from Cons.IH [OF _ this rest] Cons.prems(1) show ?case by simp
qed simp


lemma zormtest_typed: "typed_config zormtest_cfg" "typed_mapping UserMapping"
  by code_simp+


end
