(* ===== verification/Zormsql_Write.thy ===== *)
theory Zormsql_Write
  imports Zormsql_Find
begin

text \<open>
  The statements that change the database, \<^verbatim>\<open>repo.go\<close>: \<^verbatim>\<open>insert\<close>, \<^verbatim>\<open>update\<close>, \<^verbatim>\<open>deleteByPK\<close> and the upsert
  \<^verbatim>\<open>putSingleModel\<close>. The database is a state \<open>'d\<close> with two calls: \<open>re_query\<close> answers a select in a
  state and leaves it as it is, \<open>re_exec\<close> runs a statement and leaves a new one. An operation on
  one model works on the pair of the database state and the struct the caller's pointer points to;
  both are part of the result on the error paths too, where the Go code returns with the row
  already written or the struct already changed.
\<close>

section \<open>What the repository works with\<close>

text \<open>The keys of one \<^verbatim>\<open>keyGroup\<close> of \<^verbatim>\<open>get\<close>; \<open>kg_objMap\<close> holds the position of the object in the caller's
  slice instead of the pointer.\<close>

record key_group =
  kg_keyFields :: "string list"
  kg_keys :: "lookup_key list"
  kg_objMap :: "(string, nat) gomap"

text \<open>\<open>re_range\<close> is the order in which \<^verbatim>\<open>range groups\<close> visits the map.\<close>

record 'd repo_env =
  re_driver :: driver
  re_query :: "'d \<Rightarrow> string \<Rightarrow> gval list \<Rightarrow> scan_target list \<Rightarrow> (scanned list res list \<times> error option) res"
  re_exec :: "'d \<Rightarrow> string \<Rightarrow> gval list \<Rightarrow> 'd \<times> (int res \<times> int res) res"
  re_sort :: go_slice_sort
  re_sprint :: "gval \<Rightarrow> string"
  re_slug :: "scanned list \<Rightarrow> string res"
  re_json :: json_encoder
  re_range :: "(string, key_group) gomap \<Rightarrow> (string, key_group) gomap"

definition find_env_at :: "'d repo_env \<Rightarrow> 'd \<Rightarrow> find_env" where
  "find_env_at env db =
     \<lparr>fe_driver = re_driver env, fe_run = re_query env db, fe_sort = re_sort env,
      fe_sprint = re_sprint env, fe_slug = re_slug env\<rparr>"

section \<open>The text of the statements\<close>

definition bare_table :: "mapping \<Rightarrow> table" where
  "bare_table m = \<lparr>t_name = m_table m, t_alias = []\<rparr>"

text \<open>The line breaks of the raw strings\<close>

definition nl :: string where
  "nl = [CHR 0x0A, CHR 0x09, CHR 0x09]"

definition insert_query :: "driver \<Rightarrow> mapping \<Rightarrow> column list \<Rightarrow> string" where
  "insert_query d m cols =
     nl @ ''INSERT INTO'' @ nl @ table_escaped d (bare_table m) @ nl @
     ''('' @ join '','' (map (column_escaped d) cols) @ '')'' @ nl @ ''VALUES'' @ nl @
     ''('' @ join '','' (makeSlice_loop ''?'' (length cols) []) @ '')'' @ nl"

definition update_query :: "driver \<Rightarrow> mapping \<Rightarrow> column list \<Rightarrow> column list \<Rightarrow> string" where
  "update_query d m cols keyColumns =
     nl @ ''UPDATE'' @ nl @ table_escaped d (bare_table m) @ nl @ ''SET'' @ nl @
     join '', '' (map (\<lambda>c. column_escaped d c @ ''=?'') cols) @ nl @ ''WHERE'' @ nl @
     join '' AND '' (map (\<lambda>c. column_escaped d c @ '' '' @ d_null_safe_eq d @ '' ?'') keyColumns) @ nl"

definition delete_query :: "driver \<Rightarrow> mapping \<Rightarrow> column list \<Rightarrow> nat \<Rightarrow> nat \<Rightarrow> string" where
  "delete_query d m cols pk n =
     ''DELETE FROM '' @ table_escaped d (bare_table m) @ '' WHERE ('' @
     join '','' (map (column_escaped d) cols) @ '') IN ('' @
     join '','' (makeSlice_loop (''('' @ join '','' (makeSlice_loop ''?'' pk []) @ '')'') n []) @ '')''"

section \<open>insert\<close>

text \<open>Storing the generated id. \<^verbatim>\<open>Set\<close> takes an \<^verbatim>\<open>int64\<close> only into a field of exactly that type; for any
  other integer type that passes \<^verbatim>\<open>IsInt\<close> it panics.\<close>

definition set_id :: "mapping \<Rightarrow> string \<Rightarrow> int \<Rightarrow> gval \<Rightarrow> gval res" where
  "set_id m f newId val =
     (case struct_field m f of
        None \<Rightarrow> Inl (Panic ''reflect: call of Type on zero Value'')
      | Some ty \<Rightarrow>
          (if isInt ty then
             (if ty = TInt 64 then Inr (struct_set val f (VInt newId))
              else Inl (Panic (''reflect.Set: value of type int64 is not assignable to type '' @ type_name ty)))
           else if isString ty then Inr (struct_set val f (VStr (int_str newId)))
           else Inl (Errorf (''cannot populate primary key field that isn'' @ [CHR 0x27] @
                       ''t int or string type: '' @ type_name ty))))"

definition repo_insert :: "'d repo_env \<Rightarrow> mapping \<Rightarrow> string list \<Rightarrow> fields \<Rightarrow> 'd \<times> gval \<Rightarrow> ('d \<times> gval) \<times> unit res" where
  "repo_insert env m pkFields flds s =
     (let (fs, columns) = insertFields m flds;
          query = insert_query (re_driver env) m columns
      in case map_res (field_of (snd s)) fs of
        Inl e \<Rightarrow> (s, Inl e)
      | Inr values \<Rightarrow>
          (let (db, r) = sql_exec (\<lambda>d. re_exec env d query values) (fst s) in
           case wrap_res ''executing insert'' r of
             Inl e \<Rightarrow> ((db, snd s), Inl e)
           | Inr (_, newId) \<Rightarrow>
               (if length pkFields = 1 \<and> newId \<noteq> 0 then
                  (case set_id m (pkFields ! 0) newId (snd s) of
                     Inl e \<Rightarrow> ((db, snd s), Inl e)
                   | Inr val \<Rightarrow> ((db, val), Inr ()))
                else ((db, snd s), Inr ()))))"

section \<open>update\<close>

text \<open>A key field without a column adds nothing; the lengths then differ.\<close>

definition mapKeyColumns :: "mapping \<Rightarrow> string list \<Rightarrow> column list" where
  "mapKeyColumns m keyFields =
     concat (map (\<lambda>kf. case find (\<lambda>c. cm_field c = kf) (m_columns m) of
        None \<Rightarrow> []
      | Some c \<Rightarrow> [\<lparr>c_table = bare_table m, c_name = cm_name c, c_alias = []\<rparr>]) keyFields)"

text \<open>The number of affected rows; more than one is an error, the rows being changed already.\<close>

definition repo_update :: "'d repo_env \<Rightarrow> config \<Rightarrow> mapping \<Rightarrow> string list \<Rightarrow> fields \<Rightarrow> gval \<Rightarrow> 'd \<Rightarrow> 'd \<times> int res" where
  "repo_update env cfg m keyFields flds val db =
     (let fs = updateFields m flds in
      case wrap_res ''mapping update columns'' (mapStructure cfg m (bare_table m) [] fs []) of
        Inl e \<Rightarrow> (db, Inl e)
      | Inr str \<Rightarrow>
     (let keyColumns = mapKeyColumns m keyFields
      in if length keyColumns \<noteq> length keyFields
         then (db, Inl (Errorf ''could not map all key fields to columns''))
         else case map_res (field_of val) (fs @ keyFields) of
           Inl e \<Rightarrow> (db, Inl e)
         | Inr values \<Rightarrow>
             (let (db', r) = sql_exec (\<lambda>d. re_exec env d
                      (update_query (re_driver env) m (st_columns str) keyColumns) values) db
              in (db', bind_res (wrap_res ''executing update'' r) (\<lambda>(affected, _).
                   if affected > 1
                   then Inl (Errorf (''more than one row ('' @ int_str affected @
                               '') affected by model update query (!!!)''))
                   else Inr affected)))))"

section \<open>deleteByPK\<close>

definition deleteByPK :: "'d repo_env \<Rightarrow> config \<Rightarrow> mapping \<Rightarrow> string list \<Rightarrow> gval list \<Rightarrow> 'd \<Rightarrow> 'd \<times> int res" where
  "deleteByPK env cfg m pkFields models db =
     (if length models = 0 then (db, Inr 0)
      else case wrap_res ''mapping PK columns'' (mapStructure cfg m (bare_table m) [] pkFields []) of
        Inl e \<Rightarrow> (db, Inl e)
      | Inr pkStructure \<Rightarrow>
     (case map_res (\<lambda>v. map_res (field_of (deref v)) pkFields) models of
        Inl e \<Rightarrow> (db, Inl e)
      | Inr values \<Rightarrow>
          (let (db', r) = sql_exec (\<lambda>d. re_exec env d
                   (delete_query (re_driver env) m (st_columns pkStructure) (length pkFields) (length models))
                   (concat values)) db
           in (db', bind_res (wrap_res ''executing delete'' r) (\<lambda>(count, _). Inr count)))))"

section \<open>putSingleModel\<close>

definition conflict_error :: "driver \<Rightarrow> error \<Rightarrow> error" where
  "conflict_error d e = (if \<not> is_panic e \<and> d_is_conflict d e then ErrConflict else e)"

definition insert_or_conflict :: "'d repo_env \<Rightarrow> mapping \<Rightarrow> string list \<Rightarrow> fields \<Rightarrow> string \<Rightarrow> 'd \<times> gval \<Rightarrow>
    ('d \<times> gval) \<times> unit res" where
  "insert_or_conflict env m pkFields flds what s =
     (let (s', r) = repo_insert env m pkFields flds s in
      (s', case r of Inl e \<Rightarrow> Inl (wrap_err what (conflict_error (re_driver env) e)) | Inr u \<Rightarrow> Inr u))"

definition putSingleModel :: "'d repo_env \<Rightarrow> config \<Rightarrow> mapping \<Rightarrow> string list \<Rightarrow> fields \<Rightarrow> 'd \<times> gval \<Rightarrow>
    ('d \<times> gval) \<times> unit res" where
  "putSingleModel env cfg m pkFields flds s =
     (case wrap_res ''finding lookup key'' (findPopulatedLookupKey (re_json env) m (snd s)) of
        Inl e \<Rightarrow> (s, Inl e)
      | Inr None \<Rightarrow> insert_or_conflict env m pkFields flds ''performing insert'' s
      | Inr (Some key) \<Rightarrow>
          (let (db, r) = repo_update env cfg m (lk_fields key) flds (snd s) (fst s) in
           case wrap_res ''performing update'' r of
             Inl e \<Rightarrow> ((db, snd s), Inl e)
           | Inr affected \<Rightarrow>
               (if affected = 0 then
                  (if \<not> lk_canInsert key
                   then ((db, snd s), Inl (wrap_err
                          ''no rows affected for update and key columns are not insertable'' ErrNotFound))
                   else insert_or_conflict env m pkFields flds
                          ''performing insert after zero-row update'' (db, snd s))
                else ((db, snd s), Inr ()))))"

end
