(* ===== verification/Zormsql_Repo.thy ===== *)
theory Zormsql_Repo
  imports Zormsql_Write
begin

text \<open>
  \<^verbatim>\<open>Get\<close>, \<^verbatim>\<open>Put\<close> and \<^verbatim>\<open>Delete\<close> of \<^verbatim>\<open>repo.go\<close>. The caller's slice of pointers is a list of values
  \<open>VPtr u\<close> (or \<open>VNilPtr\<close>); an operation gives the list as it leaves it, on errors too. Related objects
  are part of the parent's value, so two pointers to one object are not modelled. On an error
  \<^verbatim>\<open>copyFKValues\<close> may have copied some columns of the two objects; the model leaves both as they were.
\<close>

section \<open>Get\<close>

fun group_objects :: "json_encoder \<Rightarrow> mapping \<Rightarrow> gval list \<Rightarrow> nat \<Rightarrow> (string, key_group) gomap \<Rightarrow>
    (string, key_group) gomap res" where
  "group_objects js m [] i groups = Inr groups"
| "group_objects js m (v # vs) i groups =
     bind_res (wrap_res ''finding lookup key for get'' (findPopulatedLookupKey js m (deref v))) (\<lambda>found.
     case found of
       None \<Rightarrow> Inl (Errorf (''no populated key found for object at index '' @ nat_str i))
     | Some key \<Rightarrow>
         (let group = (case map_of groups (lk_groupKey key) of
                Some g \<Rightarrow> g
              | None \<Rightarrow> \<lparr>kg_keyFields = lk_fields key, kg_keys = [], kg_objMap = []\<rparr>)
          in group_objects js m vs (Suc i)
               (map_put (lk_groupKey key)
                  (group\<lparr>kg_keys := kg_keys group @ [key],
                         kg_objMap := map_put (lk_valuesKey key) i (kg_objMap group)\<rparr>) groups)))"

definition get_where :: "key_group \<Rightarrow> clause" where
  "get_where g = InC (map FieldE (kg_keyFields g)) (map (\<lambda>key. map ValueE (lk_values key)) (kg_keys g))"

text \<open>One found row: the object with the same key takes its fields or its whole value.\<close>

definition store_found :: "json_encoder \<Rightarrow> fields \<Rightarrow> key_group \<Rightarrow> gval list \<Rightarrow> gval \<Rightarrow> gval list \<times> unit res" where
  "store_found js fs g objs found =
     (case bind_res (extractFields (kg_keyFields g) (deref found)) (\<lambda>vs.
             wrap_res ''rendering key values into string key for get results'' (js_values js vs)) of
        Inl e \<Rightarrow> (objs, Inl e)
      | Inr mapKey \<Rightarrow>
          (case map_of (kg_objMap g) mapKey of
             None \<Rightarrow> (objs, Inl (Errorf
               (''cannot process get results in find, found unexpected model identified by key: '' @ mapKey)))
           | Some i \<Rightarrow>
               (objs[i := VPtr (if length fs > 0 then copyFields (deref (objs ! i)) (deref found) fs
                                else deref found)], Inr ())))"

text \<open>One group. \<^verbatim>\<open>Fields.Add\<close> works on the options of the caller, which the next group sees.\<close>

definition get_group :: "'d repo_env \<Rightarrow> config \<Rightarrow> gotype \<Rightarrow> (string \<times> relation_opts) list \<Rightarrow> 'd \<Rightarrow>
    gval list \<times> fields \<times> nat \<Rightarrow> key_group \<Rightarrow> (gval list \<times> fields \<times> nat) \<times> unit res" where
  "get_group env cfg modelPtrType rels db s g =
     (case s of (objs, fs, totalFound) \<Rightarrow>
        let added = (if length fs > 0 then fields_add (kg_keyFields g) fs else (fs, fs));
            findOpts = \<lparr>fo_include = Include (fst added) rels, fo_sort = [], fo_where = Some (get_where g), fo_offset = 0\<rparr>
        in case wrap_res ''executing find for get''
             (repo_Find (find_env_at env db) cfg (Some (TPtr (TSlice modelPtrType))) [] (length (kg_keys g)) findOpts) of
          Inl e \<Rightarrow> ((objs, snd added, totalFound), Inl e)
        | Inr lst \<Rightarrow>
            (case fold_run (store_found (re_json env) (fst added) g) objs lst of
               (objs', r) \<Rightarrow> ((objs', snd added, totalFound + length lst), r)))"

definition repo_get :: "'d repo_env \<Rightarrow> config \<Rightarrow> 'd \<Rightarrow> gotype option \<Rightarrow> gval list \<Rightarrow> include_opts \<Rightarrow>
    gval list \<times> unit res" where
  "repo_get env cfg db argType objs incl =
     (case wrap_res ''invalid argument to get'' (validateListOfPtr argType) of
        Inl e \<Rightarrow> (objs, Inl e)
      | Inr modelPtrType \<Rightarrow>
     (if length objs = 0 then (objs, Inr ())
      else case map_of (cfg_mappings cfg) (typeID modelPtrType) of
        None \<Rightarrow> (objs, Inl (Errorf (''mapping unavailable for type '' @ typeID modelPtrType)))
      | Some m \<Rightarrow>
     (case group_objects (re_json env) m objs 0 [] of
        Inl e \<Rightarrow> (objs, Inl e)
      | Inr groups \<Rightarrow>
     (case fold_run (get_group env cfg modelPtrType (inc_relations incl) db) (objs, inc_fields incl, 0)
             (map snd (re_range env groups)) of
        ((objs', _, totalFound), r) \<Rightarrow>
          (objs', bind_res r (\<lambda>_.
             if totalFound \<noteq> length objs
             then Inl (wrap_err (''expected '' @ nat_str (length objs) @ '' rows found, but only got '' @
                        nat_str totalFound) ErrNotFound)
             else Inr ()))))))"

definition recover_run :: "string \<Rightarrow> 's \<times> 'a res \<Rightarrow> 's \<times> 'a res" where
  "recover_run name p = (fst p, recover_in name (snd p))"

definition repo_Get :: "'d repo_env \<Rightarrow> config \<Rightarrow> 'd \<Rightarrow> gotype option \<Rightarrow> gval list \<Rightarrow> include_opts \<Rightarrow>
    gval list \<times> unit res" where
  "repo_Get env cfg db argType objs incl = recover_run ''get'' (repo_get env cfg db argType objs incl)"

section \<open>Orphans of a to-many relation\<close>

text \<open>Of the columns of the relation only the first one the range visits is used.\<close>

definition buildFKWhereClause :: "gval \<Rightarrow> rel_info \<Rightarrow> clause res" where
  "buildFKWhereClause parentVal rel =
     (case r_columns (ri_relation rel) of
        [] \<Rightarrow> Inl (Errorf ''no FK columns found in relation'')
      | (localCol, remoteCol) # _ \<Rightarrow>
          bind_res (wrap_res (''mapping local column '' @ localCol) (columnNamesToFields (ri_parent rel) [localCol])) (\<lambda>lfs.
          bind_res (field_of parentVal (lfs ! 0)) (\<lambda>parentPKValue.
          bind_res (wrap_res (''mapping remote column '' @ remoteCol) (columnNamesToFields (ri_related rel) [remoteCol])) (\<lambda>rfs.
            Inr (elem_Eq (FieldE (rfs ! 0)) (ValueE parentPKValue))))))"

text \<open>\<^verbatim>\<open>reflect.MakeSlice(sliceType, 0, 10)\<close>: the capacity of the target is the limit of the select.\<close>

definition findRelatedModels :: "'d repo_env \<Rightarrow> config \<Rightarrow> 'd \<Rightarrow> mapping \<Rightarrow> clause \<Rightarrow> gval list res" where
  "findRelatedModels env cfg db m whr =
     wrap_res ''finding related models''
       (repo_find (find_env_at env db) cfg (Some (TPtr (TSlice (ptr_type m)))) [] 10
          \<lparr>fo_include = Include [] [], fo_sort = [], fo_where = Some whr, fo_offset = 0\<rparr>)"

fun pk_parts :: "(gval \<Rightarrow> string) \<Rightarrow> gval \<Rightarrow> string list \<Rightarrow> string list option" where
  "pk_parts sprint x [] = Some []"
| "pk_parts sprint x (f # fs) =
     (case struct_get x f of
        None \<Rightarrow> None
      | Some v \<Rightarrow> (if is_zero v then None else map_option (Cons (sprint v)) (pk_parts sprint x fs)))"

definition extractPKString :: "(gval \<Rightarrow> string) \<Rightarrow> gval \<Rightarrow> string list \<Rightarrow> string" where
  "extractPKString sprint model pkFields =
     (if model = VNilPtr then []
      else case pk_parts sprint (deref model) pkFields of None \<Rightarrow> [] | Some parts \<Rightarrow> join ''|'' parts)"

text \<open>A loop over the models behind a slice of pointers, changing a state \<open>'p\<close> and the models.\<close>

fun with_each :: "('p \<Rightarrow> gval \<Rightarrow> ('p \<times> gval) \<times> unit res) \<Rightarrow> 'p \<Rightarrow> gval list \<Rightarrow> ('p \<times> gval list) \<times> unit res" where
  "with_each f p [] = ((p, []), Inr ())"
| "with_each f p (v # vs) =
     (case f p v of
        ((p', v'), Inl e) \<Rightarrow> ((p', v' # vs), Inl e)
      | ((p', v'), Inr u) \<Rightarrow>
          (case with_each f p' vs of ((p'', vs'), r) \<Rightarrow> ((p'', v' # vs'), r)))"

text \<open>The pointer \<open>v\<close> after its model has become \<open>u\<close>\<close>

definition repoint :: "gval \<Rightarrow> gval \<Rightarrow> gval" where
  "repoint v u = (case v of VPtr _ \<Rightarrow> VPtr u | _ \<Rightarrow> v)"

definition copyFK_into :: "rel_info \<Rightarrow> string \<Rightarrow> gval \<Rightarrow> gval \<Rightarrow> (gval \<times> gval) \<times> unit res" where
  "copyFK_into rel what parentVal v =
     (case wrap_res what (copyFKValues rel parentVal (deref v)) of
        Inl e \<Rightarrow> ((parentVal, v), Inl e)
      | Inr (p, u) \<Rightarrow> ((p, repoint v u), Inr ()))"

definition orphans_of :: "(gval \<Rightarrow> string) \<Rightarrow> string list \<Rightarrow> gval list \<Rightarrow> gval list \<Rightarrow> gval list" where
  "orphans_of sprint relatedPKFields providedModels existingModels =
     filter (\<lambda>e. let pk = extractPKString sprint e relatedPKFields in
               pk \<noteq> [] \<and> pk \<notin> set (map (\<lambda>v. extractPKString sprint v relatedPKFields) providedModels))
       existingModels"

definition deleteOrphanedRelatedModels :: "'d repo_env \<Rightarrow> config \<Rightarrow> rel_info \<Rightarrow> string list \<Rightarrow> 'd \<times> gval \<Rightarrow> gval list \<Rightarrow>
    (('d \<times> gval) \<times> gval list) \<times> unit res" where
  "deleteOrphanedRelatedModels env cfg rel relatedPKFields s models =
     (case s of (db, parentVal) \<Rightarrow>
      case wrap_res ''building FK where clause'' (buildFKWhereClause parentVal rel) of
        Inl e \<Rightarrow> ((s, models), Inl e)
      | Inr fkWhereClause \<Rightarrow>
     (let combinedWhere = (case rel_where (ri_opts rel) of
            None \<Rightarrow> fkWhereClause | Some w \<Rightarrow> elem_And [fkWhereClause, w])
      in case wrap_res ''finding existing related models''
             (findRelatedModels env cfg db (ri_related rel) combinedWhere) of
        Inl e \<Rightarrow> ((s, models), Inl e)
      | Inr existingModels \<Rightarrow>
     (if length existingModels = 0 then ((s, models), Inr ())
      else case with_each (copyFK_into rel ''copying FK values for PK extraction'') parentVal models of
        ((parentVal', models'), Inl e) \<Rightarrow> (((db, parentVal'), models'), Inl e)
      | ((parentVal', models'), Inr u) \<Rightarrow>
          (case deleteByPK env cfg (ri_related rel) relatedPKFields
                  (orphans_of (re_sprint env) relatedPKFields models' existingModels) db of
             (db', r) \<Rightarrow>
               (((db', parentVal'), models'),
                bind_res (wrap_res ''deleting orphaned models'' r) (\<lambda>_. Inr ()))))))"

section \<open>Put\<close>

definition related_models :: "gval \<Rightarrow> string \<Rightarrow> gval list \<times> bool" where
  "related_models parentVal fieldName =
     (case struct_get parentVal fieldName of
        Some (VPtr u) \<Rightarrow> ([VPtr u], False)
      | Some (VSlice vs) \<Rightarrow> (vs, True)
      | Some VNilSlice \<Rightarrow> ([], True)
      | _ \<Rightarrow> ([], False))"

definition put_back :: "string \<Rightarrow> bool \<Rightarrow> gval list \<Rightarrow> gval \<Rightarrow> gval" where
  "put_back fieldName isToMany models parentVal =
     (if models = [] then parentVal
      else struct_set parentVal fieldName (if isToMany then VSlice models else hd models))"

definition put_related_model :: "'d repo_env \<Rightarrow> config \<Rightarrow> rel_info \<Rightarrow> string list \<Rightarrow> 'd \<times> gval \<Rightarrow> gval \<Rightarrow>
    (('d \<times> gval) \<times> gval) \<times> unit res" where
  "put_related_model env cfg rel relatedPKFields s v =
     (case copyFK_into rel ''copying FK values'' (snd s) v of
        ((p, v'), Inl e) \<Rightarrow> (((fst s, p), v'), Inl e)
      | ((p, v'), Inr _) \<Rightarrow>
     (case putSingleModel env cfg (ri_related rel) relatedPKFields (inc_fields (rel_include (ri_opts rel)))
             (fst s, deref v') of
        ((db, u), Inl e) \<Rightarrow> (((db, p), repoint v' u), Inl (wrap_err ''putting related model'' e))
      | ((db, u), Inr _) \<Rightarrow>
          (case copyFK_into rel ''copying FK values after put'' p (repoint v' u) of
             ((p', v''), r) \<Rightarrow> (((db, p'), v''), r))))"

definition putRelatedModels :: "'d repo_env \<Rightarrow> config \<Rightarrow> rel_info \<Rightarrow> 'd \<times> gval \<Rightarrow> ('d \<times> gval) \<times> unit res" where
  "putRelatedModels env cfg rel s =
     (case wrap_res ''getting related PK fields'' (primaryKeyFields (ri_related rel)) of
        Inl e \<Rightarrow> (s, Inl e)
      | Inr relatedPKFields \<Rightarrow>
     (let (models, isToMany) = related_models (snd s) (ri_fieldName rel);
          back = (\<lambda>p. (fst (fst p), put_back (ri_fieldName rel) isToMany (snd p) (snd (fst p))))
      in case (if isToMany
               then wrap_run ''deleting orphaned related models''
                      (deleteOrphanedRelatedModels env cfg rel relatedPKFields s models)
               else ((s, models), Inr ())) of
           (p, Inl e) \<Rightarrow> (back p, Inl e)
         | (p, Inr _) \<Rightarrow>
             (case with_each (put_related_model env cfg rel relatedPKFields) (fst p) (snd p) of
                (p', r) \<Rightarrow> (back p', r))))"

record put_options =
  po_include :: include_opts
  po_get :: include_opts

text \<open>One round of the loop of \<^verbatim>\<open>put\<close>\<close>

definition put_relations :: "'d repo_env \<Rightarrow> config \<Rightarrow> string \<Rightarrow> rel_info list \<Rightarrow> 'd \<times> gval \<Rightarrow> ('d \<times> gval) \<times> unit res" where
  "put_relations env cfg what infos s =
     fold_run (\<lambda>s' rel. wrap_run (what @ ri_fieldName rel) (putRelatedModels env cfg rel s')) s infos"

definition put_model :: "'d repo_env \<Rightarrow> config \<Rightarrow> mapping \<Rightarrow> string list \<Rightarrow> rel_info list \<times> rel_info list \<Rightarrow> fields \<Rightarrow>
    'd \<Rightarrow> gval \<Rightarrow> ('d \<times> gval) \<times> unit res" where
  "put_model env cfg m pkFields infos flds db v =
     (case run_then (put_relations env cfg ''putting before-relation '' (fst infos) (db, deref v)) (\<lambda>s1 _.
           run_then (putSingleModel env cfg m pkFields flds s1) (\<lambda>s2 _.
             put_relations env cfg ''putting after-relation '' (snd infos) s2)) of
        ((db', x), r) \<Rightarrow> ((db', repoint v x), r))"

definition repo_put :: "'d repo_env \<Rightarrow> config \<Rightarrow> 'd \<Rightarrow> gotype option \<Rightarrow> gval list \<Rightarrow> put_options \<Rightarrow>
    ('d \<times> gval list) \<times> unit res" where
  "repo_put env cfg db argType objs opts =
     (case wrap_res ''invalid argument to put'' (validateListOfPtr argType) of
        Inl e \<Rightarrow> ((db, objs), Inl e)
      | Inr modelPtrType \<Rightarrow>
     (if length objs = 0 then ((db, objs), Inr ())
      else case map_of (cfg_mappings cfg) (typeID modelPtrType) of
        None \<Rightarrow> ((db, objs), Inl (Errorf (''mapping unavailable for type '' @ typeID modelPtrType)))
      | Some m \<Rightarrow>
     (case wrap_res ''mapping primary key for put'' (primaryKeyFields m) of
        Inl e \<Rightarrow> ((db, objs), Inl e)
      | Inr pkFields \<Rightarrow>
     (case wrap_res ''categorizing relations'' (categorizeRelationsForPut cfg m (inc_relations (po_include opts))) of
        Inl e \<Rightarrow> ((db, objs), Inl e)
      | Inr infos \<Rightarrow>
     (case with_each (put_model env cfg m pkFields infos (inc_fields (po_include opts))) db objs of
        ((db', objs'), Inl e) \<Rightarrow> ((db', objs'), Inl e)
      | ((db', objs'), Inr _) \<Rightarrow>
          (let incl = (if isEmpty (po_get opts) then po_include opts else po_get opts) in
           case repo_Get env cfg db' argType objs' incl of
             (objs'', r) \<Rightarrow> ((db', objs''), wrap_res ''error in get after put'' r)))))))"

definition repo_Put :: "'d repo_env \<Rightarrow> config \<Rightarrow> 'd \<Rightarrow> gotype option \<Rightarrow> gval list \<Rightarrow> put_options \<Rightarrow>
    ('d \<times> gval list) \<times> unit res" where
  "repo_Put env cfg db argType objs opts = recover_run ''put'' (repo_put env cfg db argType objs opts)"

section \<open>Delete\<close>

definition repo_delete :: "'d repo_env \<Rightarrow> config \<Rightarrow> 'd \<Rightarrow> gotype option \<Rightarrow> gval list \<Rightarrow> include_opts \<Rightarrow>
    ('d \<times> gval list) \<times> unit res" where
  "repo_delete env cfg db argType objs getOpts =
     (case wrap_res ''invalid argument to delete'' (validateListOfPtr argType) of
        Inl e \<Rightarrow> ((db, objs), Inl e)
      | Inr modelPtrType \<Rightarrow>
     (if length objs = 0 then ((db, objs), Inr ())
      else case map_of (cfg_mappings cfg) (typeID modelPtrType) of
        None \<Rightarrow> ((db, objs), Inl (Errorf (''mapping unavailable for type '' @ typeID modelPtrType)))
      | Some m \<Rightarrow>
     (case wrap_res ''mapping primary key for delete'' (primaryKeyFields m) of
        Inl e \<Rightarrow> ((db, objs), Inl e)
      | Inr pkFields \<Rightarrow>
     (case repo_Get env cfg db argType objs getOpts of
        (objs', Inl e) \<Rightarrow> ((db, objs'), Inl (wrap_err ''error in get before delete'' e))
      | (objs', Inr _) \<Rightarrow>
          (case deleteByPK env cfg m pkFields objs' db of
             (db', r) \<Rightarrow>
               ((db', objs'),
                bind_res (wrap_res ''deleting models'' r) (\<lambda>count.
                  if count \<noteq> int (length objs')
                  then Inl (wrap_err (''expected '' @ nat_str (length objs') @ '' rows affected, but only got '' @
                             int_str count) ErrNotFound)
                  else Inr ())))))))"

definition repo_Delete :: "'d repo_env \<Rightarrow> config \<Rightarrow> 'd \<Rightarrow> gotype option \<Rightarrow> gval list \<Rightarrow> include_opts \<Rightarrow>
    ('d \<times> gval list) \<times> unit res" where
  "repo_Delete env cfg db argType objs getOpts =
     recover_run ''delete'' (repo_delete env cfg db argType objs getOpts)"

end
