(* ===== verification/Zormsql_Write_Laws.thy ===== *)
theory Zormsql_Write_Laws
  imports Zormsql_Repo Zormsql_Plan_Query Zormsql_Find_Laws
begin

text \<open>
  Laws of the statements \<^verbatim>\<open>repo.go\<close> writes: their placeholders, proved in the locale \<open>sql_driver\<close>
  for the drivers that interpret it, and carried through every operation that runs them by
  invariants of the database state.
\<close>

section \<open>The statements and their placeholders\<close>

lemma mapStructure_columns:
  assumes "mapStructure cfg m tbl [] fs [] = Inr str"
  shows "list_all2 (\<lambda>f c. \<exists>col. map_of (colMap m) f = Some col \<and> c = \<lparr>c_table = tbl, c_name = col, c_alias = col\<rparr>)
      (resolve fs (allFields m)) (st_columns str)"
proof -
  let ?rs = "resolve fs (allFields m)"
  from assms obtain pkf cts where cts: "map_res (mapStructure_field m tbl []) (pkf @ ?rs) = Inr cts"
    and str: "st_columns str = drop (length pkf) (map fst cts)"
    by (auto simp: bind_res_Inr Let_def)
  have "list_all2 (\<lambda>f ct. mapStructure_field m tbl [] f = Inr ct) (drop (length pkf) (pkf @ ?rs)) (drop (length pkf) cts)"
    using cts unfolding map_res_Inr by (rule list_all2_dropI)
  then have "list_all2 (\<lambda>f ct. mapStructure_field m tbl [] f = Inr ct) ?rs (drop (length pkf) cts)" by simp
  then show ?thesis
    unfolding str drop_map list_all2_map2
    by (rule list_all2_mono) (auto simp: mapStructure_field_def split: option.splits)
qed

text \<open>Field names that no field list can take for an exclusion\<close>

definition plain_fields :: "mapping \<Rightarrow> bool" where
  "plain_fields m \<longleftrightarrow> list_all (\<lambda>c. cm_field c = [] \<or> hd (cm_field c) \<noteq> CHR ''-'') (m_columns m)"

lemma updateFields_columns: "f \<in> set (updateFields m fs) \<Longrightarrow> \<exists>c \<in> set (m_columns m). cm_field c = f \<and> \<not> cm_noUpdate c"
  by (auto simp: updateFields_picked Let_def dest!: picked_sound)

lemma resolve_updateFields:
  "plain_fields m \<Longrightarrow> updateFields m fs \<noteq> [] \<Longrightarrow> resolve (updateFields m fs) all = updateFields m fs"
  using updateFields_columns [of "hd (updateFields m fs)" m fs] hd_in_set [of "updateFields m fs"]
  by (auto simp: resolve_def isNegated_def plain_fields_def list_all_iff)

lemma mapKeyColumns_fields:
  "length (mapKeyColumns m ks) = length ks \<Longrightarrow>
   list_all2 (\<lambda>k y. \<exists>c. find (\<lambda>c. cm_field c = k) (m_columns m) = Some c \<and>
       y = \<lparr>c_table = bare_table m, c_name = cm_name c, c_alias = []\<rparr>) ks (mapKeyColumns m ks)"
proof (induction ks)
  case (Cons k ks)
  have le: "length (mapKeyColumns m ks) \<le> length ks" for ks
    by (induction ks) (auto simp: mapKeyColumns_def split: option.splits)
  show ?case
  proof (cases "find (\<lambda>c. cm_field c = k) (m_columns m)")
    case None
    with Cons.prems le [of ks] show ?thesis by (simp add: mapKeyColumns_def)
  next
    case (Some c)
    with Cons show ?thesis by (simp add: mapKeyColumns_def)
  qed
qed (simp add: mapKeyColumns_def)

context sql_driver
begin

lemma escaped_q: "quiet_col c \<Longrightarrow> placeholders (column_escaped d c) = 0"
  by (simp add: quiet_col_def quiet_table_def column_escaped_def escape_column_q escape_tc_q)

lemma join_q:
  "list_all quiet_col cs \<Longrightarrow> placeholders sep = 0 \<Longrightarrow> (\<And>c. quiet_col c \<Longrightarrow> placeholders (f c) = k) \<Longrightarrow>
     placeholders (join sep (map f cs)) = k * length cs"
  by (induction cs) (auto simp: count_char_join)

lemma marks_q: "placeholders (join '','' (makeSlice_loop mark n [])) = n * placeholders mark"
  by (simp add: count_char_join makeSlice_loop sum_list_replicate)

lemma statements_q:
  assumes "placeholders (m_table m) = 0" "list_all quiet_col cols" "list_all quiet_col keys"
  shows "placeholders (insert_query d m cols) = length cols"
    and "placeholders (update_query d m cols keys) = length cols + length keys"
    and "placeholders (delete_query d m cols pk n) = n * pk"
  using assms
  by (simp_all add: insert_query_def update_query_def delete_query_def nl_def table_escaped_def bare_table_def
      escape_table_q marks_q join_q [of _ _ _ 0] join_q [of _ _ _ 1] escaped_q null_safe_q)

end

section \<open>Every statement binds one value per placeholder\<close>

text \<open>A property of the database state that statements with one value per placeholder keep.\<close>

definition kept_by_matched :: "'d repo_env \<Rightarrow> ('d \<Rightarrow> bool) \<Rightarrow> bool" where
  "kept_by_matched env I \<longleftrightarrow>
     (\<forall>db q vs. I db \<longrightarrow> placeholders q = length vs \<longrightarrow> I (fst (re_exec env db q vs)))"

lemma fst_sql_exec: "fst (sql_exec run s) = fst (run s)"
  by (cases "run s") (simp add: sql_exec_def)

lemma bare_columns_quiet:
  "quiet_db m \<Longrightarrow> c \<in> set (m_columns m) \<Longrightarrow> quiet_col \<lparr>c_table = bare_table m, c_name = cm_name c, c_alias = []\<rparr>"
  by (auto simp: quiet_db_def quiet_mapping_def list_all_iff quiet_col_def quiet_table_def bare_table_def)

lemma colMap_mem:
  assumes "map_of (colMap m) f = Some col"
  shows "\<exists>c \<in> set (m_columns m). cm_name c = col \<and> cm_field c = f"
proof -
  have "map_of (fold (\<lambda>c cm. map_put (cm_field c) (cm_name c) cm) cs acc) f = Some col \<Longrightarrow>
      (\<exists>c \<in> set cs. cm_name c = col \<and> cm_field c = f) \<or> map_of acc f = Some col" for cs acc
  proof (induction cs arbitrary: acc)
    case (Cons c cs)
    from Cons.IH [of "map_put (cm_field c) (cm_name c) acc"] Cons.prems show ?case
      by (auto split: if_splits)
  qed simp
  from this [of "m_columns m" "[]"] assms show ?thesis by (simp add: colMap_def)
qed

context sql_driver
begin

lemma insert_kept:
  assumes "kept_by_matched env I" "re_driver env = d" "quiet_db m" "I (fst s)"
  shows "I (fst (fst (repo_insert env m pkFields flds s)))"
proof -
  obtain fs cols where ic: "insertFields m flds = (fs, cols)" by (cases "insertFields m flds")
  have len: "length fs = length cols"
    using ic by (auto simp: insertFields_def Let_def)
  have "list_all quiet_col cols"
    using ic bare_columns_quiet [OF assms(3)]
    by (auto simp: insertFields_def Let_def list_all_iff bare_table_def)
  then have q: "placeholders (insert_query d m cols) = length cols"
    using statements_q(1) [of m cols "[]"] assms(3) by (simp add: quiet_db_def)
  show ?thesis
  proof (cases "map_res (field_of (snd s)) fs")
    case (Inr vs)
    then have "placeholders (insert_query d m cols) = length vs" using q len map_res_length [OF Inr] by simp
    then have "I (fst (re_exec env (fst s) (insert_query d m cols) vs))"
      using assms(1,4) by (simp add: kept_by_matched_def)
    then show ?thesis
      using fst_sql_exec [of "\<lambda>db. re_exec env db (insert_query d m cols) vs" "fst s"] ic Inr assms(2)
      by (auto simp: repo_insert_def Let_def split: prod.splits sum.splits if_splits)
  qed (use assms ic in \<open>simp add: repo_insert_def\<close>)
qed

lemma update_kept:
  assumes "kept_by_matched env I" "re_driver env = d" "quiet_db m" "quiet_cfg cfg"
    and "plain_fields m" "updateFields m flds \<noteq> []" "I db"
  shows "I (fst (repo_update env cfg m keyFields flds val db))"
proof (cases "mapStructure cfg m (bare_table m) [] (updateFields m flds) []")
  case (Inr str)
  let ?keys = "mapKeyColumns m keyFields"
  have cols: "length (st_columns str) = length (updateFields m flds)"
    using mapStructure_columns [OF Inr] resolve_updateFields [OF assms(5,6)] by (auto dest: list_all2_lengthD)
  have tq: "quiet_table (bare_table m)" using assms(3) by (simp add: quiet_table_def bare_table_def quiet_db_def)
  have "quiet_str d str"
    by (rule mapStructure_quiet(1) [OF Inr assms(4,3) tq]) simp_all
  then have cq: "list_all quiet_col (st_columns str)" by (cases str) simp
  have kq: "list_all quiet_col ?keys"
    using bare_columns_quiet [OF assms(3)]
    by (auto simp: mapKeyColumns_def list_all_iff split: option.splits dest!: find_Some_D [OF sym])
  show ?thesis
  proof (cases "length ?keys = length keyFields")
    case True
    let ?q = "update_query d m (st_columns str) ?keys"
    have q: "placeholders ?q = length (updateFields m flds @ keyFields)"
      using statements_q(2) [OF _ cq kq, of m] assms(3) cols True by (simp add: quiet_db_def)
    show ?thesis
    proof (cases "map_res (field_of val) (updateFields m flds @ keyFields)")
      case vs: (Inr vs)
      have "I (fst (re_exec env db ?q vs))"
        using assms(1,7) q map_res_length [OF vs] by (simp add: kept_by_matched_def)
      then show ?thesis
        using fst_sql_exec [of "\<lambda>db. re_exec env db ?q vs" db] True Inr vs assms(2)
        by (auto simp: repo_update_def Let_def simp del: mapStructure.simps split: prod.splits)
    qed (use assms True Inr in \<open>simp add: repo_update_def Let_def del: mapStructure.simps\<close>)
  qed (use assms Inr in \<open>simp add: repo_update_def Let_def del: mapStructure.simps\<close>)
qed (use assms in \<open>simp add: repo_update_def Let_def del: mapStructure.simps\<close>)

lemma deleteByPK_kept:
  assumes "kept_by_matched env I" "re_driver env = d" "quiet_db m" "quiet_cfg cfg" "I db"
  shows "I (fst (deleteByPK env cfg m pkFields models db))"
proof (cases "mapStructure cfg m (bare_table m) [] pkFields []")
  case (Inr str)
  have tq: "quiet_table (bare_table m)" using assms(3) by (simp add: quiet_table_def bare_table_def quiet_db_def)
  have "quiet_str d str" by (rule mapStructure_quiet(1) [OF Inr assms(4,3) tq]) simp_all
  then have cq: "list_all quiet_col (st_columns str)" by (cases str) simp
  let ?q = "delete_query d m (st_columns str) (length pkFields) (length models)"
  let ?vals = "map_res (\<lambda>v. map_res (field_of (deref v)) pkFields) models"
  show ?thesis
  proof (cases ?vals)
    case vs: (Inr vs)
    have "length v = length pkFields" if "v \<in> set vs" for v
      using map_res_mem [OF vs that] by (auto dest: map_res_length)
    then have "length (concat vs) = length models * length pkFields"
      using map_res_length [OF vs] by (simp add: length_concat sum_list_triv cong: map_cong)
    then have "I (fst (re_exec env db ?q (concat vs)))"
      using statements_q(3) [OF _ cq cq, of m] assms(1,3,5) by (simp add: kept_by_matched_def quiet_db_def)
    then show ?thesis
      using fst_sql_exec [of "\<lambda>db. re_exec env db ?q (concat vs)" db] Inr vs assms(2,5)
      by (auto simp: deleteByPK_def Let_def simp del: mapStructure.simps split: prod.splits)
  qed (use assms Inr in \<open>simp add: deleteByPK_def del: mapStructure.simps\<close>)
qed (use assms in \<open>simp add: deleteByPK_def del: mapStructure.simps\<close>)

lemma putSingleModel_kept:
  assumes "kept_by_matched env I" "re_driver env = d" "quiet_db m" "quiet_cfg cfg"
    and "plain_fields m" "updateFields m flds \<noteq> []" "I (fst s)"
  shows "I (fst (fst (putSingleModel env cfg m pkFields flds s)))"
proof -
  note ins = insert_kept [OF assms(1-3)]
  have oc: "I (fst (fst (insert_or_conflict env m pkFields flds what s)))" if "I (fst s)" for what s
    using ins [OF that, of pkFields flds] by (auto simp: insert_or_conflict_def split: prod.splits)
  have "I (fst (repo_update env cfg m ks flds (snd s) (fst s)))" for ks
    by (rule update_kept [OF assms])
  then show ?thesis
    using oc assms(7)
    by (auto simp: putSingleModel_def Let_def split: sum.splits option.splits prod.splits)
      (metis fst_conv)+
qed


end

lemma with_each_state:
  assumes "I p" and "\<And>p v. I p \<Longrightarrow> I (fst (fst (f p v)))"
  shows "I (fst (fst (with_each f p vs)))"
  using assms(1)
proof (induction vs arbitrary: p)
  case (Cons v vs)
  obtain p1 v1 r1 where f: "f p v = ((p1, v1), r1)" by (cases "f p v") auto
  have "I p1" using assms(2) [OF Cons.prems, of v] f by simp
  with Cons.IH [OF this] f show ?case by (cases r1) (auto split: prod.splits)
qed simp

text \<open>What a Put may write: at least one column of each model it touches may be updated.\<close>

definition rel_writable :: "rel_info \<Rightarrow> bool" where
  "rel_writable info \<longleftrightarrow> plain_fields (ri_related info) \<and>
     updateFields (ri_related info) (inc_fields (rel_include (ri_opts info))) \<noteq> []"

definition writable :: "config \<Rightarrow> mapping \<Rightarrow> include_opts \<Rightarrow> bool" where
  "writable cfg m incl \<longleftrightarrow> plain_fields m \<and> updateFields m (inc_fields incl) \<noteq> [] \<and>
     list_all (\<lambda>fr. case relInfo_of cfg m fr of Inl _ \<Rightarrow> True | Inr info \<Rightarrow> rel_writable info) (inc_relations incl)"

lemma relInfo_related:
  "relInfo_of cfg m fr = Inr info \<Longrightarrow> ri_opts info = snd fr \<and> (\<exists>k. map_of (cfg_mappings cfg) k = Some (ri_related info))"
  by (auto simp: relInfo_of_def Let_def split: option.splits if_splits)

lemma categorize_infos:
  assumes "categorize_loop cfg m rels acc = Inr infos"
    and "info \<in> set (fst infos) \<union> set (snd infos)"
  shows "info \<in> set (fst acc) \<union> set (snd acc) \<or> (\<exists>fr \<in> set rels. relInfo_of cfg m fr = Inr info)"
  using assms
proof (induction rels arbitrary: acc)
  case (Cons fr rels)
  then obtain i where i: "relInfo_of cfg m fr = Inr i"
    and r: "categorize_loop cfg m rels (if ri_fkIsLocal i then (fst acc @ [i], snd acc) else (fst acc, snd acc @ [i])) = Inr infos"
    by (auto simp: bind_res_Inr)
  from Cons.IH [OF r Cons.prems(2)] i show ?case by (auto split: if_splits)
qed simp

lemma writable_infos:
  assumes "categorizeRelationsForPut cfg m (inc_relations incl) = Inr infos" "writable cfg m incl" "quiet_cfg cfg"
    and "info \<in> set (fst infos) \<union> set (snd infos)"
  shows "quiet_db (ri_related info) \<and> rel_writable info"
proof -
  obtain fr where fr: "fr \<in> set (inc_relations incl)" "relInfo_of cfg m fr = Inr info"
    using categorize_infos [OF assms(1) [unfolded categorizeRelationsForPut_def] assms(4)] by auto
  then have "rel_writable info" using assms(2) by (auto simp: writable_def list_all_iff split: sum.splits)
  then show ?thesis using relInfo_related [OF fr(2)] cfg_quiet [OF _ assms(3)] by blast
qed

context sql_driver
begin

lemma deleteOrphaned_kept:
  assumes "kept_by_matched env I" "re_driver env = d" "quiet_db (ri_related rel)" "quiet_cfg cfg" "I (fst s)"
  shows "I (fst (fst (fst (deleteOrphanedRelatedModels env cfg rel pkf s models))))"
proof -
  obtain db parent where s: "s = (db, parent)" by (cases s)
  have del: "I (fst (deleteByPK env cfg (ri_related rel) pkf ms db))" for ms
    using deleteByPK_kept [OF assms] s by simp
  show ?thesis
  proof (cases "buildFKWhereClause parent rel")
    case fk: (Inr fk)
    let ?w = "case rel_where (ri_opts rel) of None \<Rightarrow> fk | Some w \<Rightarrow> elem_And [fk, w]"
    show ?thesis
    proof (cases "findRelatedModels env cfg db (ri_related rel) ?w")
      case ex: (Inr existing)
      obtain p ms r where w: "with_each (copyFK_into rel ''copying FK values for PK extraction'') parent models = ((p, ms), r)"
        by (metis surj_pair)
      obtain db' r' where dl: "deleteByPK env cfg (ri_related rel) pkf (orphans_of (re_sprint env) pkf ms existing) db = (db', r')"
        by (metis surj_pair)
      have "I db'" using del [of "orphans_of (re_sprint env) pkf ms existing"] dl by simp
      then show ?thesis
        using assms(5) s fk ex w dl by (cases r) (simp_all add: deleteOrphanedRelatedModels_def Let_def)
    qed (use assms(5) s fk in \<open>simp add: deleteOrphanedRelatedModels_def Let_def\<close>)
  qed (use assms(5) s in \<open>simp add: deleteOrphanedRelatedModels_def\<close>)
qed

lemma put_related_model_kept:
  assumes "kept_by_matched env I" "re_driver env = d" "quiet_db (ri_related rel)" "quiet_cfg cfg" "rel_writable rel"
    and "I (fst s)"
  shows "I (fst (fst (fst (put_related_model env cfg rel pkf s v))))"
proof -
  have sm: "I (fst (fst (putSingleModel env cfg (ri_related rel) pkf (inc_fields (rel_include (ri_opts rel))) (fst s, u))))" for u
    by (rule putSingleModel_kept [OF assms(1-4)]) (use assms(5,6) in \<open>simp_all add: rel_writable_def\<close>)
  obtain p v' r where c: "copyFK_into rel ''copying FK values'' (snd s) v = ((p, v'), r)"
    by (cases "copyFK_into rel ''copying FK values'' (snd s) v") auto
  obtain db u r' where m: "putSingleModel env cfg (ri_related rel) pkf (inc_fields (rel_include (ri_opts rel)))
      (fst s, deref v') = ((db, u), r')" by (metis surj_pair)
  show ?thesis
    using sm [of "deref v'"] assms(6) c m
    by (cases r; cases r') (auto simp: put_related_model_def split: prod.splits)
qed

lemma putRelatedModels_kept:
  assumes "kept_by_matched env I" "re_driver env = d" "quiet_db (ri_related rel)" "quiet_cfg cfg" "rel_writable rel"
    and "I (fst s)"
  shows "I (fst (fst (putRelatedModels env cfg rel s)))"
proof (cases "primaryKeyFields (ri_related rel)")
  case (Inr pkf)
  obtain models many where rm: "related_models (snd s) (ri_fieldName rel) = (models, many)"
    by (cases "related_models (snd s) (ri_fieldName rel)")
  let ?del = "if many then wrap_run ''deleting orphaned related models''
      (deleteOrphanedRelatedModels env cfg rel pkf s models) else ((s, models), Inr ())"
  obtain s1 models1 r1 where d: "?del = ((s1, models1), r1)" by (metis surj_pair)
  have s1: "I (fst s1)"
    using deleteOrphaned_kept [OF assms(1-4,6), of pkf models] d assms(6)
    by (auto simp: wrap_run_def split: if_splits)
  have "I (fst (fst (fst (with_each (put_related_model env cfg rel pkf) s1 models1))))"
    by (rule with_each_state [where I = "\<lambda>s. I (fst s)", OF s1]) (rule put_related_model_kept [OF assms(1-5)])
  then show ?thesis
    using s1 d rm Inr
    by (cases r1) (auto simp: putRelatedModels_def split: prod.splits)
qed (use assms in \<open>simp add: putRelatedModels_def\<close>)

lemma put_relations_kept:
  assumes "kept_by_matched env I" "re_driver env = d" "quiet_cfg cfg" "I (fst s)"
    and "\<And>info. info \<in> set infos \<Longrightarrow> quiet_db (ri_related info) \<and> rel_writable info"
  shows "I (fst (fst (put_relations env cfg what infos s)))"
  unfolding put_relations_def
  by (rule fold_run_state [where I = "\<lambda>s. I (fst s)", OF assms(4)])
    (use putRelatedModels_kept [OF assms(1,2) _ assms(3)] assms(5) in auto)

lemma put_model_kept:
  assumes "kept_by_matched env I" "re_driver env = d" "quiet_db m" "quiet_cfg cfg" "I db"
    and "plain_fields m" "updateFields m flds \<noteq> []"
    and infos: "\<And>info. info \<in> set (fst infos) \<union> set (snd infos) \<Longrightarrow> quiet_db (ri_related info) \<and> rel_writable info"
  shows "I (fst (fst (put_model env cfg m pkf infos flds db v)))"
proof -
  let ?run = "run_then (put_relations env cfg ''putting before-relation '' (fst infos) (db, deref v)) (\<lambda>s1 _.
           run_then (putSingleModel env cfg m pkf flds s1) (\<lambda>s2 _.
             put_relations env cfg ''putting after-relation '' (snd infos) s2))"
  have "I (fst (fst ?run))"
  proof (rule run_then_state [where I = "\<lambda>s. I (fst s)"])
    show "I (fst (fst (put_relations env cfg ''putting before-relation '' (fst infos) (db, deref v))))"
      by (rule put_relations_kept [OF assms(1,2,4)]) (use assms(5) infos in auto)
  next
    fix s1 :: "'a \<times> gval" and x :: unit assume s1: "I (fst s1)"
    show "I (fst (fst (run_then (putSingleModel env cfg m pkf flds s1) (\<lambda>s2 _.
             put_relations env cfg ''putting after-relation '' (snd infos) s2))))"
    proof (rule run_then_state [where I = "\<lambda>s. I (fst s)"])
      show "I (fst (fst (putSingleModel env cfg m pkf flds s1)))"
        by (rule putSingleModel_kept [OF assms(1-4,6,7) s1])
    next
      fix s2 :: "'a \<times> gval" and y :: unit assume s2: "I (fst s2)"
      show "I (fst (fst (put_relations env cfg ''putting after-relation '' (snd infos) s2)))"
        by (rule put_relations_kept [OF assms(1,2,4) s2]) (use infos in auto)
    qed
  qed
  then show ?thesis by (auto simp: put_model_def split: prod.splits)
qed

lemma repo_put_kept:
  assumes "kept_by_matched env I" "re_driver env = d" "quiet_cfg cfg" "I db"
    and m: "map_of (cfg_mappings cfg) (typeID modelPtrType) = Some m" and "writable cfg m (po_include opts)"
  shows "I (fst (fst (repo_put env cfg db (Some (TSlice modelPtrType)) objs opts)))"
proof (cases "is_TPtr modelPtrType \<and> objs \<noteq> []")
  case True
  have q: "quiet_db m" by (rule cfg_quiet [OF m assms(3)])
  have v: "validateListOfPtr (Some (TSlice modelPtrType)) = Inr modelPtrType"
    using True by (simp add: validateListOfPtr_def)
  show ?thesis
  proof (cases "primaryKeyFields m")
    case pkf: (Inr pkf)
    show ?thesis
    proof (cases "categorizeRelationsForPut cfg m (inc_relations (po_include opts))")
      case c: (Inr infos)
      obtain db' os r where w: "with_each (put_model env cfg m pkf infos (inc_fields (po_include opts))) db objs = ((db', os), r)"
        by (metis surj_pair)
      have "I (fst (fst (with_each (put_model env cfg m pkf infos (inc_fields (po_include opts))) db objs)))"
      proof (rule with_each_state [where I = I, OF assms(4)])
        fix p v assume "I p"
        then show "I (fst (fst (put_model env cfg m pkf infos (inc_fields (po_include opts)) p v)))"
          by (rule put_model_kept [OF assms(1,2) q assms(3)])
            (use writable_infos [OF c assms(6,3)] assms(6) in \<open>auto simp: writable_def\<close>)
      qed
      then show ?thesis
        using True v m pkf c w by (cases r) (auto simp: repo_put_def Let_def split: prod.splits)
    qed (use True v m pkf assms(4) in \<open>simp add: repo_put_def\<close>)
  qed (use True v m assms(4) in \<open>simp add: repo_put_def\<close>)
qed (use assms(4) in \<open>auto simp: repo_put_def validateListOfPtr_def\<close>)

lemma repo_delete_kept:
  assumes "kept_by_matched env I" "re_driver env = d" "quiet_cfg cfg" "I db"
  shows "I (fst (fst (repo_delete env cfg db ty objs incl)))"
proof (cases "validateListOfPtr ty")
  case v: (Inr t)
  show ?thesis
  proof (cases "map_of (cfg_mappings cfg) (typeID t)")
    case m: (Some m)
    have q: "quiet_db m" by (rule cfg_quiet [OF m assms(3)])
    show ?thesis
    proof (cases "primaryKeyFields m")
      case pkf: (Inr pkf)
      obtain os r where g: "repo_Get env cfg db ty objs incl = (os, r)" by (metis surj_pair)
      obtain db' r' where dl: "deleteByPK env cfg m pkf os db = (db', r')" by (metis surj_pair)
      have "I db'" using deleteByPK_kept [OF assms(1,2) q assms(3,4), of pkf os] dl by simp
      then show ?thesis using assms(4) v m pkf g dl by (cases r) (simp_all add: repo_delete_def)
    qed (use assms(4) v m in \<open>simp add: repo_delete_def\<close>)
  qed (use assms(4) v in \<open>simp add: repo_delete_def\<close>)
qed (use assms(4) in \<open>simp add: repo_delete_def\<close>)

end

text \<open>C9: Every statement that a Put or a Delete runs, with all its cascading updates, inserts and deletes
  of orphans, holds as many placeholders as values are passed with it: whatever such statements
  preserve of the database, Put and Delete preserve, on their error paths too. For both drivers,
  names without question marks, and models with at least one updatable column in the request
  (without one, the UPDATE lists every column and binds none of them).\<close>

theorem put_delete_statements_match:
  assumes "kept_by_matched env I" "re_driver env \<in> {mysql_driver, sqlite3_driver}" "quiet_cfg cfg" "I db"
    and "map_of (cfg_mappings cfg) (typeID modelPtrType) = Some m" "writable cfg m (po_include opts)"
  shows "I (fst (fst (repo_Put env cfg db (Some (TSlice modelPtrType)) objs opts))) \<and>
    I (fst (fst (repo_Delete env cfg db ty objs incl)))"
proof -
  from assms(2) have "sql_driver (re_driver env)"
    by (auto intro: mysql.sql_driver_axioms sqlite3.sql_driver_axioms)
  note k = sql_driver.repo_put_kept [OF this assms(1) refl assms(3,4)]
    sql_driver.repo_delete_kept [OF this assms(1) refl assms(3,4)]
  show ?thesis
    using k(1) [OF assms(5,6)] k(2) by (simp add: repo_Put_def repo_Delete_def recover_run_def)
qed

text \<open>A database that logs its statements, answers no select and gives every insert the id 7.\<close>

definition log_env :: "(string \<times> gval list) list repo_env" where
  "log_env =
     \<lparr>re_driver = sqlite3_driver, re_query = (\<lambda>db q vs target. Inr ([], None)),
      re_exec = (\<lambda>db q vs. (db @ [(q, vs)], Inr (Inr 1, Inr 7))), re_sort = no_sort, re_sprint = (\<lambda>v. []),
      re_slug = (\<lambda>row. Inr []), re_json = ex_json, re_range = (\<lambda>g. g)\<rparr>"

text \<open>A new user with an account known by its company and one new authentication.\<close>

definition ex_new_user :: gval where
  "ex_new_user = VPtr (VStruct [(''ID'', VStr []), (''AccountID'', VStr []),
     (''Account'', VPtr (VStruct [(''ID'', VStr []), (''Company'', VStr ''Acme''), (''ContactEmail'', VStr [])])),
     (''AddressID'', VNilPtr),
     (''Auths'', VSlice [VPtr (VStruct [(''ID'', VStr []), (''UserID'', VStr []), (''Provider'', VStr ''p''), (''Data'', VStr [])])]),
     (''FirstName'', VStr ''Ann'')])"

definition ex_put :: put_options where
  "ex_put = \<lparr>po_include = Include [''FirstName'', ''AccountID'']
     [(''Account'', RelationOpts (Include [''Company''] []) None []),
      (''Auths'', RelationOpts (Include [] []) None [])], po_get = Include [] []\<rparr>"

theorem put_delete_statements_match_witness:
  "let log = fst (fst (repo_Put log_env zormtest_cfg [] (Some (TSlice (ptr_type UserMapping))) [ex_new_user] ex_put))
   in length log = 3 \<and> list_all (\<lambda>(q, vs). placeholders q = length vs) log"
proof -
  let ?I = "\<lambda>log. list_all (\<lambda>(q, vs). placeholders q = length vs) log"
  have k: "kept_by_matched log_env ?I" by (simp add: kept_by_matched_def log_env_def)
  have d: "re_driver log_env \<in> {mysql_driver, sqlite3_driver}" by (simp add: log_env_def)
  have m: "map_of (cfg_mappings zormtest_cfg) (typeID (ptr_type UserMapping)) = Some UserMapping"
    using zormtest_mapping(2) by (simp add: ptr_type_def zormtest_defs)
  have w: "writable zormtest_cfg UserMapping (po_include ex_put)" by code_simp
  have "length (fst (fst (repo_Put log_env zormtest_cfg [] (Some (TSlice (ptr_type UserMapping))) [ex_new_user] ex_put))) = 3"
    by code_simp
  with put_delete_statements_match [OF k d zormtest_quiet(1) _ m w, of "[]"] show ?thesis by (simp add: Let_def)
qed

end
