(* ===== verification/Zormsql_Upsert.thy ===== *)
theory Zormsql_Upsert
  imports Zormsql_Write_Laws
begin

text \<open>
  The upsert of \<^verbatim>\<open>putSingleModel\<close> against an abstract one on the rows of a table. What SQL says of
  an INSERT and an UPDATE is the hypothesis \<open>insert_runs\<close>, \<open>update_runs\<close> on the database; the
  example table at the end fulfils it.
\<close>

section \<open>The upsert of one model\<close>

text \<open>A row is a map from column names to values. The names, the placeholders' values:\<close>

type_synonym row = "(string, gval) gomap"

definition row_matches :: "column list \<Rightarrow> gval list \<Rightarrow> row \<Rightarrow> bool" where
  "row_matches keys ks r = list_all2 (\<lambda>c k. map_of r (c_name c) = Some k) keys ks"

definition row_set :: "column list \<Rightarrow> gval list \<Rightarrow> row \<Rightarrow> row" where
  "row_set cols vs r = fold (\<lambda>(c, v). map_put (c_name c) v) (zip cols vs) r"

definition new_row :: "column list \<Rightarrow> gval list \<Rightarrow> row" where
  "new_row cols vs = zip (map c_name cols) vs"

text \<open>What SQL says of the two statements: an INSERT adds its row; an UPDATE changes the rows its key
  selects and counts them (both drivers count matched rows); a statement that fails changes nothing.\<close>

definition insert_runs :: "'d repo_env \<Rightarrow> mapping \<Rightarrow> ('d \<Rightarrow> row list) \<Rightarrow> column list \<Rightarrow> bool" where
  "insert_runs env m rows cols \<longleftrightarrow> (\<forall>db vs. length vs = length cols \<longrightarrow>
     (case re_exec env db (insert_query (re_driver env) m cols) vs of
        (db', Inl e) \<Rightarrow> rows db' = rows db
      | (db', Inr r) \<Rightarrow> rows db' = rows db @ [new_row cols vs]))"

definition update_runs :: "'d repo_env \<Rightarrow> mapping \<Rightarrow> ('d \<Rightarrow> row list) \<Rightarrow> column list \<Rightarrow> column list \<Rightarrow> bool" where
  "update_runs env m rows cols keys \<longleftrightarrow> (\<forall>db vs ks. length vs = length cols \<longrightarrow> length ks = length keys \<longrightarrow>
     (case re_exec env db (update_query (re_driver env) m cols keys) (vs @ ks) of
        (db', Inl e) \<Rightarrow> rows db' = rows db
      | (db', Inr r) \<Rightarrow>
          rows db' = map (\<lambda>r. if row_matches keys ks r then row_set cols vs r else r) (rows db) \<and>
          (\<forall>n. fst r = Inr n \<longrightarrow> n = int (length (filter (row_matches keys ks) (rows db))))))"

text \<open>The columns and values of a model\<close>

definition update_columns :: "mapping \<Rightarrow> string list \<Rightarrow> column list" where
  "update_columns m fs = map (\<lambda>f. let n = the (map_of (colMap m) f) in
     \<lparr>c_table = bare_table m, c_name = n, c_alias = n\<rparr>) fs"

definition key_columns :: "mapping \<Rightarrow> string list \<Rightarrow> column list" where
  "key_columns m ks = map (\<lambda>kf. \<lparr>c_table = bare_table m,
     c_name = cm_name (the (find (\<lambda>c. cm_field c = kf) (m_columns m))), c_alias = []\<rparr>) ks"

definition field_values :: "gval \<Rightarrow> string list \<Rightarrow> gval list" where
  "field_values x fs = map (\<lambda>f. the (struct_get x f)) fs"

text \<open>The abstract upsert: change the selected row, or add a new one when there is none to select.\<close>

definition upsert :: "(row \<Rightarrow> bool) \<Rightarrow> (row \<Rightarrow> row) \<Rightarrow> row \<Rightarrow> row list \<Rightarrow> row list" where
  "upsert p upd new rs = (if list_ex p rs then map (\<lambda>r. if p r then upd r else r) rs else rs @ [new])"

lemma map_res_field_of: "map_res (field_of x) fs = Inr vs \<Longrightarrow> vs = field_values x fs"
  by (induction fs arbitrary: vs) (auto simp: field_values_def bind_res_Inr field_of_Inr)

lemma update_columns_eq:
  assumes "mapStructure cfg m (bare_table m) [] fs [] = Inr str" "resolve fs (allFields m) = fs"
  shows "st_columns str = update_columns m fs"
  using mapStructure_columns [OF assms(1)] unfolding assms(2)
  by (induction rule: list_all2_induct) (auto simp: update_columns_def Let_def)

lemma key_columns_eq: "length (mapKeyColumns m ks) = length ks \<Longrightarrow> mapKeyColumns m ks = key_columns m ks"
  by (drule mapKeyColumns_fields, induction rule: list_all2_induct) (auto simp: key_columns_def)

lemma insertFields_lengths: "length (fst (insertFields m fs)) = length (snd (insertFields m fs))"
  by (simp add: insertFields_def Let_def)

lemma sql_exec_Inr: "sql_exec run s = (s', Inr (c, i)) \<longleftrightarrow> run s = (s', Inr (Inr c, Inr i))"
proof (cases "run s")
  case (Pair t r)
  show ?thesis
  proof (cases r)
    case (Inr p)
    with Pair show ?thesis by (cases p; cases "fst p"; cases "snd p") (auto simp: sql_exec_def)
  qed (use Pair in \<open>auto simp: sql_exec_def\<close>)
qed

lemma sql_exec_state: "sql_exec run s = (s', r) \<Longrightarrow> \<exists>r'. run s = (s', r')"
  by (cases "run s") (simp add: sql_exec_def)

lemma repo_insert_row:
  assumes run: "repo_insert env m pkf flds (db, val) = ((db', val'), r)"
    and ir: "insert_runs env m rows (snd (insertFields m flds))"
  shows "(r = Inr () \<longrightarrow> rows db' = rows db @
      [new_row (snd (insertFields m flds)) (field_values val (fst (insertFields m flds)))]) \<and>
    (rows db' = rows db \<or> rows db' = rows db @
      [new_row (snd (insertFields m flds)) (field_values val (fst (insertFields m flds)))])"
proof (cases "map_res (field_of val) (fst (insertFields m flds))")
  case (Inl e)
  with run show ?thesis by (auto simp: repo_insert_def Let_def split: prod.splits)
next
  case (Inr vs)
  let ?cols = "snd (insertFields m flds)"
  let ?exec = "\<lambda>d. re_exec env d (insert_query (re_driver env) m ?cols) vs"
  note vs = map_res_field_of [OF Inr]
  have len: "length vs = length ?cols" using map_res_length [OF Inr] insertFields_lengths [of m flds] by simp
  obtain d r1 where se: "sql_exec ?exec db = (d, r1)" by (metis surj_pair)
  obtain r0 where ex: "?exec db = (d, r0)" using sql_exec_state [OF se] by blast
  have rows: "rows d = (case r0 of Inl e \<Rightarrow> rows db | Inr _ \<Rightarrow> rows db @ [new_row ?cols vs])"
    using ir [unfolded insert_runs_def, rule_format, OF len, of db] ex by (cases r0) auto
  have d: "db' = d" and ok: "r = Inr () \<Longrightarrow> \<exists>x. r1 = Inr x"
    using run Inr se
    by (auto simp: repo_insert_def Let_def split_beta split: sum.splits if_splits)
  have "r = Inr () \<Longrightarrow> \<exists>x. r0 = Inr x" using ok se ex by (auto simp: sql_exec_Inr)
  with d rows vs show ?thesis by (cases r0) auto
qed

lemma repo_update_rows:
  assumes run: "repo_update env cfg m ks flds val db = (db', Inr n)"
    and ur: "update_runs env m rows (update_columns m (updateFields m flds)) (key_columns m ks)"
    and pl: "plain_fields m" "updateFields m flds \<noteq> []"
  defines "sel \<equiv> row_matches (key_columns m ks) (field_values val ks)"
  shows "rows db' = map (\<lambda>r. if sel r then row_set (update_columns m (updateFields m flds))
        (field_values val (updateFields m flds)) r else r) (rows db) \<and>
      n = int (length (filter sel (rows db))) \<and> n \<le> 1"
proof -
  let ?fs = "updateFields m flds"
  from run obtain str where str: "mapStructure cfg m (bare_table m) [] ?fs [] = Inr str"
    by (cases "mapStructure cfg m (bare_table m) [] ?fs []") (auto simp: repo_update_def Let_def simp del: mapStructure.simps)
  note cols = update_columns_eq [OF str resolve_updateFields [OF pl]]
  have klen: "length (mapKeyColumns m ks) = length ks"
    using run str by (auto simp: repo_update_def Let_def simp del: mapStructure.simps split: if_splits)
  note keys = key_columns_eq [OF klen]
  from run obtain vs where vs: "map_res (field_of val) (?fs @ ks) = Inr vs"
    using str klen by (cases "map_res (field_of val) (?fs @ ks)") (auto simp: repo_update_def Let_def simp del: mapStructure.simps)
  have v: "vs = field_values val ?fs @ field_values val ks"
    using map_res_field_of [OF vs] by (simp add: field_values_def)
  let ?exec = "\<lambda>d. re_exec env d (update_query (re_driver env) m (update_columns m ?fs) (key_columns m ks))
      (field_values val ?fs @ field_values val ks)"
  obtain d r1 where se: "sql_exec ?exec db = (d, r1)" by (metis surj_pair)
  have "d = db' \<and> (\<exists>c i. r1 = Inr (c, i) \<and> c = n \<and> n \<le> 1)"
    using run se unfolding repo_update_def Let_def str keys [symmetric] cols [symmetric] v [symmetric]
    by (auto simp: str klen vs bind_res_Inr simp del: mapStructure.simps split: if_splits)
  then obtain i where ex: "?exec db = (db', Inr (Inr n, Inr i))" and n: "n \<le> 1" using se by (auto simp: sql_exec_Inr)
  have l: "length (field_values val ?fs) = length (update_columns m ?fs)" "length (field_values val ks) = length (key_columns m ks)"
    by (simp_all add: field_values_def update_columns_def key_columns_def)
  show ?thesis
    using ur [unfolded update_runs_def, rule_format, OF l, of db] ex n by (auto simp: sel_def)
qed


text \<open>A users table that runs the two statements of a put of the first name.\<close>

definition users_icols :: "column list" where
  "users_icols = snd (insertFields UserMapping [''FirstName''])"

definition users_ucols :: "column list" where
  "users_ucols = update_columns UserMapping [''FirstName'']"

definition users_keys :: "column list" where
  "users_keys = key_columns UserMapping [''ID'']"

definition users_exec :: "row list \<Rightarrow> string \<Rightarrow> gval list \<Rightarrow> row list \<times> (int res \<times> int res) res" where
  "users_exec db q vs =
     (if q = update_query sqlite3_driver UserMapping users_ucols users_keys then
        (let sel = row_matches users_keys (drop (length users_ucols) vs) in
         (map (\<lambda>r. if sel r then row_set users_ucols (take (length users_ucols) vs) r else r) db,
          Inr (Inr (int (length (filter sel db))), Inr 0)))
      else if q = insert_query sqlite3_driver UserMapping users_icols then
        (db @ [new_row users_icols vs], Inr (Inr 1, Inr (int (length db) + 1)))
      else (db, Inl (Errorf ''syntax error'')))"

definition users_env :: "row list repo_env" where
  "users_env =
     \<lparr>re_driver = sqlite3_driver, re_query = (\<lambda>db q vs target. Inr ([], None)), re_exec = users_exec,
      re_sort = no_sort, re_sprint = (\<lambda>v. []), re_slug = (\<lambda>row. Inr []), re_json = ex_json, re_range = (\<lambda>g. g)\<rparr>"

definition ex_known_user :: gval where
  "ex_known_user = VStruct [(''ID'', VStr ''7''), (''FirstName'', VStr ''Eve'')]"


end
