(* ===== verification/Zormsql_Get_Laws.thy ===== *)
theory Zormsql_Get_Laws
  imports Zormsql_Upsert
begin

text \<open>
  \<^verbatim>\<open>Get\<close>: the objects of the caller are grouped by their lookup keys, each group is found by one
  select, and every found row replaces the object with its key. The proof counts: as many rows as
  objects were stored, no position twice.
\<close>

section \<open>Storing what a find found\<close>

text \<open>The key under which a found row is looked up.\<close>

definition found_key :: "json_encoder \<Rightarrow> key_group \<Rightarrow> gval \<Rightarrow> string res" where
  "found_key js g found = bind_res (extractFields (kg_keyFields g) (deref found)) (js_values js)"

text \<open>A value that answers the key of object \<open>i\<close> in its group\<close>

definition answers :: "json_encoder \<Rightarrow> key_group \<Rightarrow> nat \<Rightarrow> gval \<Rightarrow> bool" where
  "answers js g i v \<longleftrightarrow> (\<exists>u k. v = VPtr u \<and> found_key js g v = Inr k \<and> (k, i) \<in> set (kg_objMap g))"

lemma store_foundE:
  assumes "store_found js [] g objs f = (objs', Inr ())"
  obtains k i where "found_key js g f = Inr k" "map_of (kg_objMap g) k = Some i"
    "objs' = objs[i := VPtr (deref f)]"
proof -
  have e: "bind_res (extractFields (kg_keyFields g) (deref f)) (\<lambda>vs. wrap_res w (js_values js vs)) = Inr k \<longleftrightarrow>
      found_key js g f = Inr k" for w k
    by (auto simp: found_key_def bind_res_Inr)
  show ?thesis
    using assms that by (auto simp: store_found_def e split: sum.splits option.splits)
qed

lemma store_found_all:
  assumes "fold_run (store_found js [] g) objs lst = (objs', Inr ())"
    and "distinct (map (found_key js g) lst)" "map_wf (kg_objMap g)" "distinct (map snd (kg_objMap g))"
    and "snd ` set (kg_objMap g) \<subseteq> {..<length objs}"
  shows "\<exists>ps. length ps = length lst \<and> distinct ps \<and> length objs' = length objs \<and>
     (\<forall>i \<in> set ps. \<exists>f \<in> set lst. \<exists>k. found_key js g f = Inr k \<and> map_of (kg_objMap g) k = Some i) \<and>
     (\<forall>i < length objs. if i \<in> set ps then answers js g i (objs' ! i) else objs' ! i = objs ! i)"
  using assms
proof (induction lst arbitrary: objs)
  case Nil
  then show ?case by simp
next
  case (Cons f lst)
  from Cons.prems(1) obtain objs1 where st: "store_found js [] g objs f = (objs1, Inr ())"
    and r: "fold_run (store_found js [] g) objs1 lst = (objs', Inr ())"
    by (auto simp: run_then_Inr)
  from st obtain k i where k: "found_key js g f = Inr k" and i: "map_of (kg_objMap g) k = Some i"
    and o1: "objs1 = objs[i := VPtr (deref f)]" by (rule store_foundE)
  have len: "length objs1 = length objs" by (simp add: o1)
  have ki: "(k, i) \<in> set (kg_objMap g)" using i by (rule map_of_SomeD)
  then have il: "i < length objs" using Cons.prems(5) by force
  from Cons.IH [OF r _ Cons.prems(3,4)] Cons.prems(2,5) len obtain ps where
    ps: "length ps = length lst" "distinct ps" "length objs' = length objs1"
      "\<forall>i \<in> set ps. \<exists>f \<in> set lst. \<exists>k. found_key js g f = Inr k \<and> map_of (kg_objMap g) k = Some i"
      "\<forall>i < length objs1. if i \<in> set ps then answers js g i (objs' ! i) else objs' ! i = objs1 ! i"
    by auto
  have "i \<notin> set ps"
  proof
    assume "i \<in> set ps"
    with ps(4) obtain f' k' where f': "f' \<in> set lst" "found_key js g f' = Inr k'" "map_of (kg_objMap g) k' = Some i"
      by blast
    then have "(k', i) \<in> set (kg_objMap g)" by (auto dest: map_of_SomeD)
    with ki have "(k', i) = (k, i)"
      using Cons.prems(4) inj_onD [of snd "set (kg_objMap g)" "(k', i)" "(k, i)"] by (simp add: distinct_map)
    then have "k' = k" by simp
    with f' k Cons.prems(2) show False by (auto simp: image_iff)
  qed
  moreover have "answers js g i (objs' ! i)"
  proof -
    have "objs' ! i = VPtr (deref f)" using ps(5) il \<open>i \<notin> set ps\<close> by (simp add: o1)
    moreover have "found_key js g (VPtr (deref f)) = Inr k" using k by (simp add: found_key_def)
    ultimately show ?thesis using ki by (auto simp: answers_def)
  qed
  ultimately show ?case
    using ps k i len by (intro exI [of _ "i # ps"]) (auto simp: o1 nth_list_update)
qed

text \<open>What the groups hold of the objects.\<close>

definition holds_key :: "json_encoder \<Rightarrow> mapping \<Rightarrow> gval list \<Rightarrow> key_group \<Rightarrow> string \<Rightarrow> nat \<Rightarrow> bool" where
  "holds_key js m objs g k i \<longleftrightarrow> (\<exists>key. findPopulatedLookupKey js m (deref (objs ! i)) = Inr (Some key) \<and>
     lk_valuesKey key = k \<and> lk_fields key = kg_keyFields g)"

definition groups_ok :: "json_encoder \<Rightarrow> mapping \<Rightarrow> gval list \<Rightarrow> nat \<Rightarrow> (string, key_group) gomap \<Rightarrow> bool" where
  "groups_ok js m objs n groups \<longleftrightarrow> map_wf groups \<and>
     (\<forall>(gk, g) \<in> set groups. map_wf (kg_objMap g) \<and> gk = js_strings js (kg_keyFields g) \<and>
       (\<forall>(k, i) \<in> set (kg_objMap g). i < n \<and> holds_key js m objs g k i))"

lemma lookup_groupKey:
  "findPopulatedLookupKey js m x = Inr (Some key) \<Longrightarrow> lk_groupKey key = js_strings js (lk_fields key)"
proof -
  have u: "find_unique_key js m x uks = Inr (Some key) \<Longrightarrow> lk_groupKey key = js_strings js (lk_fields key)" for uks
    by (induction uks) (auto simp: bind_res_Inr newLookupKey_def split: if_splits)
  then show "findPopulatedLookupKey js m x = Inr (Some key) \<Longrightarrow> ?thesis"
    by (auto simp: findPopulatedLookupKey_def bind_res_Inr newLookupKey_def split: if_splits)
qed

lemma map_put_mem: "map_wf m \<Longrightarrow> p \<in> set (map_put k v m) \<Longrightarrow> p = (k, v) \<or> (p \<in> set m \<and> fst p \<noteq> k)"
  by (induction k v m rule: map_put.induct) (force simp: map_wf_def split: if_splits)+

lemma group_objects_ok:
  assumes "group_objects js m (drop n objs) n groups = Inr groups'"
    and "groups_ok js m objs n groups" "inj (js_strings js)" "n \<le> length objs"
  shows "groups_ok js m objs (length objs) groups'"
  using assms
proof (induction "length objs - n" arbitrary: n groups)
  case 0
  then show ?case by simp
next
  case (Suc d)
  then have n: "n < length objs" by simp
  then have drop: "drop n objs = objs ! n # drop (Suc n) objs" by (simp add: Cons_nth_drop_Suc)
  from Suc.prems(1) obtain key where key: "findPopulatedLookupKey js m (deref (objs ! n)) = Inr (Some key)"
    by (auto simp: drop bind_res_Inr split: option.splits)
  define g where "g = (case map_of groups (lk_groupKey key) of Some g \<Rightarrow> g
     | None \<Rightarrow> \<lparr>kg_keyFields = lk_fields key, kg_keys = [], kg_objMap = []\<rparr>)"
  define g' where "g' = g\<lparr>kg_keys := kg_keys g @ [key], kg_objMap := map_put (lk_valuesKey key) n (kg_objMap g)\<rparr>"
  have rest: "group_objects js m (drop (Suc n) objs) (Suc n) (map_put (lk_groupKey key) g' groups) = Inr groups'"
    using Suc.prems(1) key by (simp add: drop g_def g'_def Let_def)
  have gk: "lk_groupKey key = js_strings js (lk_fields key)" by (rule lookup_groupKey [OF key])
  have old: "map_wf (kg_objMap g) \<and> kg_keyFields g = lk_fields key \<and>
      (\<forall>(k, i) \<in> set (kg_objMap g). i < n \<and> holds_key js m objs g k i)"
  proof (cases "map_of groups (lk_groupKey key)")
    case (Some g0)
    then have "(lk_groupKey key, g0) \<in> set groups" by (rule map_of_SomeD)
    with Suc.prems(2) gk have "map_wf (kg_objMap g0)" "js_strings js (lk_fields key) = js_strings js (kg_keyFields g0)"
      "\<forall>(k, i) \<in> set (kg_objMap g0). i < n \<and> holds_key js m objs g0 k i"
      by (auto simp: groups_ok_def)
    with Some Suc.prems(3) show ?thesis by (auto simp: g_def holds_key_def dest: injD)
  qed (simp add: g_def)
  note oldw = conjunct1 [OF old] and oldf = conjunct1 [OF conjunct2 [OF old]]
  have oldm: "i < n \<and> holds_key js m objs g k i" if "(k, i) \<in> set (kg_objMap g)" for k i
    using old that by blast
  have "groups_ok js m objs (Suc n) (map_put (lk_groupKey key) g' groups)"
    unfolding groups_ok_def
  proof (intro conjI ballI)
    show "map_wf (map_put (lk_groupKey key) g' groups)" using Suc.prems(2) by (simp add: groups_ok_def)
    fix p assume "p \<in> set (map_put (lk_groupKey key) g' groups)"
    moreover have "map_wf groups" using Suc.prems(2) by (simp add: groups_ok_def)
    ultimately have "p = (lk_groupKey key, g') \<or> p \<in> set groups"
      using map_put_mem [of groups p] by blast
    then show "case p of (gk, g) \<Rightarrow> map_wf (kg_objMap g) \<and> gk = js_strings js (kg_keyFields g) \<and>
       (\<forall>(k, i) \<in> set (kg_objMap g). i < Suc n \<and> holds_key js m objs g k i)"
    proof
      assume p: "p = (lk_groupKey key, g')"
      have "\<forall>(k, i) \<in> set (map_put (lk_valuesKey key) n (kg_objMap g)). i < Suc n \<and>
          holds_key js m objs g k i"
      proof (clarify)
        fix k i assume "(k, i) \<in> set (map_put (lk_valuesKey key) n (kg_objMap g))"
        from map_put_mem [OF oldw this] show "i < Suc n \<and> holds_key js m objs g k i"
        proof
          assume "(k, i) = (lk_valuesKey key, n)"
          then show ?thesis using key oldf by (simp add: holds_key_def)
        next
          assume "(k, i) \<in> set (kg_objMap g) \<and> fst (k, i) \<noteq> lk_valuesKey key"
          then show ?thesis using oldm [of k i] by (meson less_SucI)
        qed
      qed
      then show ?thesis using p old gk by (simp add: g'_def holds_key_def)
    next
      assume "p \<in> set groups"
      then have "case p of (gk, g) \<Rightarrow> map_wf (kg_objMap g) \<and> gk = js_strings js (kg_keyFields g) \<and>
       (\<forall>(k, i) \<in> set (kg_objMap g). i < n \<and> holds_key js m objs g k i)"
        using Suc.prems(2) unfolding groups_ok_def by blast
      then show ?thesis by (cases p) (auto intro: less_SucI)
    qed
  qed
  from Suc.hyps(1) [OF _ rest this Suc.prems(3)] Suc.hyps(2) n show ?case by simp
qed

text \<open>A value that answers the lookup key of object \<open>i\<close>: it has the same values under the same fields.\<close>

definition refreshed :: "json_encoder \<Rightarrow> mapping \<Rightarrow> gval list \<Rightarrow> nat \<Rightarrow> gval \<Rightarrow> bool" where
  "refreshed js m objs i v \<longleftrightarrow> (\<exists>u key. v = VPtr u \<and>
     findPopulatedLookupKey js m (deref (objs ! i)) = Inr (Some key) \<and>
     bind_res (extractFields (lk_fields key) u) (js_values js) = Inr (lk_valuesKey key))"

lemma answers_refreshed:
  "answers js g i v \<Longrightarrow> (\<And>k. (k, i) \<in> set (kg_objMap g) \<Longrightarrow> holds_key js m objs g k i) \<Longrightarrow> refreshed js m objs i v"
  by (fastforce simp: answers_def holds_key_def refreshed_def found_key_def)

text \<open>In every group each key is found at most once.\<close>

definition keys_once :: "'d repo_env \<Rightarrow> config \<Rightarrow> 'd \<Rightarrow> gotype \<Rightarrow> (string \<times> relation_opts) list \<Rightarrow> key_group \<Rightarrow> bool" where
  "keys_once env cfg db t rels g \<longleftrightarrow>
     (case repo_Find (find_env_at env db) cfg (Some (TPtr (TSlice t))) [] (length (kg_keys g))
         \<lparr>fo_include = Include [] rels, fo_sort = [], fo_where = Some (get_where g), fo_offset = 0\<rparr> of
        Inl _ \<Rightarrow> True | Inr lst \<Rightarrow> distinct (map (found_key (re_json env) g) lst))"

definition positions :: "(string \<times> key_group) list \<Rightarrow> nat set" where
  "positions gs = (\<Union>p \<in> set gs. snd ` set (kg_objMap (snd p)))"

lemma get_group_ok:
  assumes "get_group env cfg t rels db (os, [], n) g = (s, Inr ())"
  shows "\<exists>os1 lst. repo_Find (find_env_at env db) cfg (Some (TPtr (TSlice t))) [] (length (kg_keys g))
       \<lparr>fo_include = Include [] rels, fo_sort = [], fo_where = Some (get_where g), fo_offset = 0\<rparr> = Inr lst \<and>
     fold_run (store_found (re_json env) [] g) os lst = (os1, Inr ()) \<and> s = (os1, [], n + length lst)"
  using assms by (auto simp: get_group_def Let_def wrap_res_def split: sum.splits prod.splits)

lemma get_groups_all:
  fixes env :: "'d repo_env"
  defines "js \<equiv> re_json env"
  assumes "fold_run (get_group env cfg t rels db) (os, [], cnt) (map snd gs) = ((os', fs', cnt'), Inr ())"
    and "distinct (map fst gs)"
    and "\<And>gk g. (gk, g) \<in> set gs \<Longrightarrow> keys_once env cfg db t rels g \<and> map_wf (kg_objMap g) \<and>
        gk = js_strings js (kg_keyFields g) \<and>
        (\<forall>(k, i) \<in> set (kg_objMap g). i < length objs \<and> holds_key js m objs g k i)"
    and "length os = length objs"
  shows "\<exists>ps. cnt' = cnt + length ps \<and> distinct ps \<and> set ps \<subseteq> positions gs \<and> length os' = length objs \<and>
     (\<forall>i < length objs. if i \<in> set ps then refreshed js m objs i (os' ! i) else os' ! i = os ! i)"
  using assms(2-)
proof (induction gs arbitrary: os cnt)
  case Nil
  then show ?case by simp
next
  case (Cons p gs)
  obtain gk g where p: "p = (gk, g)" by (cases p)
  note G = Cons.prems(3) [of gk g, unfolded p, simplified]
  let ?opts = "\<lparr>fo_include = Include [] rels, fo_sort = [], fo_where = Some (get_where g), fo_offset = 0\<rparr>"
  from Cons.prems(1) obtain os1 cnt1 lst where
    f: "repo_Find (find_env_at env db) cfg (Some (TPtr (TSlice t))) [] (length (kg_keys g)) ?opts = Inr lst"
    and st: "fold_run (store_found js [] g) os lst = (os1, Inr ())" and t1: "cnt1 = cnt + length lst"
    and rest: "fold_run (get_group env cfg t rels db) (os1, [], cnt1) (map snd gs) = ((os', fs', cnt'), Inr ())"
    by (auto simp: p run_then_Inr js_def dest!: get_group_ok)
  have dk: "distinct (map (found_key js g) lst)" using G f by (simp add: keys_once_def js_def)
  have key: "k = k'" if "(k, i) \<in> set (kg_objMap g)" "(k', i) \<in> set (kg_objMap g)" for k k' i
  proof -
    have "holds_key js m objs g k i" "holds_key js m objs g k' i" using G that by blast+
    then show ?thesis by (auto simp: holds_key_def)
  qed
  have dm: "distinct (map snd (kg_objMap g))"
  proof -
    have "distinct (kg_objMap g)" using G by (simp add: map_wf_def distinct_map)
    moreover have "inj_on snd (set (kg_objMap g))" using key by (intro inj_onI) auto
    ultimately show ?thesis by (simp add: distinct_map)
  qed
  have sub: "snd ` set (kg_objMap g) \<subseteq> {..<length os}" using G Cons.prems(4) by auto
  from store_found_all [OF st dk _ dm sub] G obtain ps where
    ps: "length ps = length lst" "distinct ps" "length os1 = length os"
      "\<forall>i \<in> set ps. \<exists>f \<in> set lst. \<exists>k. found_key js g f = Inr k \<and> map_of (kg_objMap g) k = Some i"
      "\<forall>i < length os. if i \<in> set ps then answers js g i (os1 ! i) else os1 ! i = os ! i"
    by blast
  have psg: "set ps \<subseteq> snd ` set (kg_objMap g)" using ps(4) by (force dest: map_of_SomeD)
  have d: "distinct (map fst gs)" and len: "length os1 = length objs" using Cons.prems(2,4) ps(3) by simp_all
  have prem: "keys_once env cfg db t rels g' \<and> map_wf (kg_objMap g') \<and> gk' = js_strings js (kg_keyFields g') \<and>
      (\<forall>(k, i) \<in> set (kg_objMap g'). i < length objs \<and> holds_key js m objs g' k i)" if "(gk', g') \<in> set gs" for gk' g'
    by (rule Cons.prems(3)) (use that in simp)
  from Cons.IH [OF rest d prem len] obtain qs where
    qs: "cnt' = cnt1 + length qs" "distinct qs" "set qs \<subseteq> positions gs" "length os' = length objs"
      "\<forall>i < length objs. if i \<in> set qs then refreshed js m objs i (os' ! i) else os' ! i = os1 ! i"
    by blast
  have disj: "i \<notin> set ps" if "i \<in> set qs" for i
  proof
    assume "i \<in> set ps"
    with psg obtain k where k: "(k, i) \<in> set (kg_objMap g)" by auto
    from qs(3) that obtain gk' g' k' where g': "(gk', g') \<in> set gs" "(k', i) \<in> set (kg_objMap g')"
      by (fastforce simp: positions_def)
    have "holds_key js m objs g k i" using G k by blast
    moreover have "holds_key js m objs g' k' i \<and> gk' = js_strings js (kg_keyFields g')"
      using prem [OF g'(1)] g'(2) by auto
    ultimately have "gk' = gk" using G by (auto simp: holds_key_def)
    with g'(1) Cons.prems(2) show False by (force simp: p)
  qed
  have "refreshed js m objs i (os1 ! i)" if "i \<in> set ps" for i
  proof -
    have "i < length os" using psg sub that by auto
    then have "answers js g i (os1 ! i)" using ps(5) that by simp
    then show ?thesis by (rule answers_refreshed) (use G in auto)
  qed
  note refr = this
  have "\<forall>i < length objs. if i \<in> set (ps @ qs) then refreshed js m objs i (os' ! i) else os' ! i = os ! i"
  proof (intro allI impI)
    fix i assume i: "i < length objs"
    show "if i \<in> set (ps @ qs) then refreshed js m objs i (os' ! i) else os' ! i = os ! i"
      using qs(5) [rule_format, OF i] ps(5) [rule_format, of i] refr [of i] disj [of i] i Cons.prems(4)
      by (cases "i \<in> set ps"; cases "i \<in> set qs") simp_all
  qed
  moreover have "distinct (ps @ qs)" "set (ps @ qs) \<subseteq> positions (p # gs)" "cnt' = cnt + length (ps @ qs)"
    using ps qs disj psg t1 by (auto simp: positions_def p)
  ultimately show ?case using qs(4) by blast
qed

lemma recover_in_Inr: "recover_in n r = Inr x \<longleftrightarrow> r = Inr x"
  by (auto simp: recover_in_def split: sum.splits error.splits)

lemma recover_run_Inr: "recover_run n p = (s, Inr x) \<longleftrightarrow> p = (s, Inr x)"
  by (cases p) (auto simp: recover_run_def recover_in_Inr)

lemma repo_get_ok:
  assumes "repo_get env cfg db ty objs incl = (objs', Inr ())" and "objs \<noteq> []"
  obtains t m groups fs where "validateListOfPtr ty = Inr t" "map_of (cfg_mappings cfg) (typeID t) = Some m"
    "group_objects (re_json env) m objs 0 [] = Inr groups"
    "fold_run (get_group env cfg t (inc_relations incl) db) (objs, inc_fields incl, 0)
       (map snd (re_range env groups)) = ((objs', fs, length objs), Inr ())"
proof (cases "validateListOfPtr ty")
  case t: (Inr t)
  show ?thesis
  proof (cases "map_of (cfg_mappings cfg) (typeID t)")
    case m: (Some m)
    show ?thesis
    proof (cases "group_objects (re_json env) m objs 0 []")
      case groups: (Inr groups)
      obtain os fs n r where run: "fold_run (get_group env cfg t (inc_relations incl) db) (objs, inc_fields incl, 0)
          (map snd (re_range env groups)) = ((os, fs, n), r)" by (metis surj_pair)
      have "os = objs' \<and> r = Inr () \<and> n = length objs"
        using assms t m groups run by (auto simp: repo_get_def bind_res_Inr split: if_splits)
      with that [OF t m groups] run show ?thesis by blast
    qed (use assms t m in \<open>simp add: repo_get_def\<close>)
  qed (use assms t in \<open>simp add: repo_get_def\<close>)
qed (use assms in \<open>simp add: repo_get_def\<close>)

text \<open>C7: \<^verbatim>\<open>Get\<close> refreshes everything or fails. When it succeeds without a field list, every object of
  the caller's slice has been replaced by a row whose values under that object's lookup key are the
  object's own; in whatever order the groups are visited, for a JSON encoding that tells lists of
  names apart, and a database that finds each key of a group at most once.\<close>

theorem get_refreshes_all:
  assumes "repo_Get env cfg db (Some (TSlice t)) objs (Include [] rels) = (objs', Inr ())"
    and "map_of (cfg_mappings cfg) (typeID t) = Some m" and "inj (js_strings (re_json env))"
    and range: "\<And>g. mset (re_range env g) = mset g"
    and once: "\<And>groups gk g. group_objects (re_json env) m objs 0 [] = Inr groups \<Longrightarrow> (gk, g) \<in> set groups \<Longrightarrow>
        keys_once env cfg db t rels g"
  shows "length objs' = length objs \<and> (\<forall>i < length objs. refreshed (re_json env) m objs i (objs' ! i))"
proof (cases "objs = []")
  case False
  let ?js = "re_json env"
  have get: "repo_get env cfg db (Some (TSlice t)) objs (Include [] rels) = (objs', Inr ())"
    using assms(1) by (simp add: repo_Get_def recover_run_Inr)
  have v: "validateListOfPtr (Some (TSlice t)) = Inr t' \<Longrightarrow> t' = t" for t'
    by (auto simp: validateListOfPtr_def split: if_splits)
  from get False obtain groups fs cnt where
    groups: "group_objects ?js m objs 0 [] = Inr groups"
    and run: "fold_run (get_group env cfg t rels db) (objs, [], 0) (map snd (re_range env groups)) = ((objs', fs, cnt), Inr ())"
    and cnt: "cnt = length objs"
    by (rule repo_get_ok) (use assms(2) v in auto)
  have ok: "groups_ok ?js m objs (length objs) groups"
    by (rule group_objects_ok [of _ _ 0, simplified, OF groups _ assms(3)]) (simp add: groups_ok_def)
  have set: "set (re_range env groups) = set groups" using range [of groups] by (rule mset_eq_setD)
  have "mset (map fst (re_range env groups)) = mset (map fst groups)" by (simp only: mset_map range)
  then have d: "distinct (map fst (re_range env groups))"
    using ok mset_eq_imp_distinct_iff [of "map fst (re_range env groups)" "map fst groups"]
    by (simp add: groups_ok_def map_wf_def)
  from get_groups_all [OF run d, of objs m] ok once [OF groups] obtain ps where
    ps: "cnt = length ps" "distinct ps" "set ps \<subseteq> positions (re_range env groups)" "length objs' = length objs"
      "\<forall>i < length objs. if i \<in> set ps then refreshed ?js m objs i (objs' ! i) else objs' ! i = objs ! i"
    by (fastforce simp: set groups_ok_def)
  have "positions (re_range env groups) \<subseteq> {..<length objs}"
    using ok by (fastforce simp: positions_def set groups_ok_def)
  with ps(3) have "set ps \<subseteq> {..<length objs}" by blast
  moreover have "card (set ps) = length objs" using ps(1,2) cnt by (simp add: distinct_card)
  ultimately have "set ps = {..<length objs}" by (intro card_subset_eq) auto
  with ps(4,5) show ?thesis by auto
qed (use assms(1) in \<open>auto simp: repo_Get_def recover_run_Inr repo_get_def wrap_res_def split: sum.splits\<close>)

text \<open>A database that finds a user for every id asked for, the last first.\<close>

definition marked :: "string list \<Rightarrow> string" where
  "marked ss = concat (map (\<lambda>s. CHR '','' # concat (map (\<lambda>c. [CHR ''+'', c]) s)) ss)"

lemma inj_marked: "inj marked"
proof (rule injI)
  have word: "concat (map (\<lambda>c. [CHR ''+'', c]) s) @ r = concat (map (\<lambda>c. [CHR ''+'', c]) t) @ r' \<Longrightarrow>
      r = [] \<or> hd r = CHR '','' \<Longrightarrow> r' = [] \<or> hd r' = CHR '','' \<Longrightarrow> s = t \<and> r = r'" for s t r r' :: string
  proof (induction s arbitrary: t)
    case Nil
    then show ?case by (cases t) auto
  next
    case (Cons c s)
    then show ?case by (cases t) auto
  qed
  have hd: "marked ss = [] \<or> hd (marked ss) = CHR '',''" for ss by (cases ss) (auto simp: marked_def)
  fix ss ts assume "marked ss = marked ts"
  then show "ss = ts"
  proof (induction ss arbitrary: ts)
    case Nil
    then show ?case by (cases ts) (auto simp: marked_def)
  next
    case (Cons s ss)
    then obtain t ts' where ts: "ts = t # ts'" by (cases ts) (auto simp: marked_def)
    with Cons.prems have "concat (map (\<lambda>c. [CHR ''+'', c]) s) @ marked ss = concat (map (\<lambda>c. [CHR ''+'', c]) t) @ marked ts'"
      by (simp add: marked_def)
    from word [OF this hd hd] Cons.IH [of ts'] show ?case by (simp add: ts)
  qed
qed

definition get_env :: "unit repo_env" where
  "get_env =
     \<lparr>re_driver = mysql_driver,
      re_query = (\<lambda>db q vs target. Inr (map (\<lambda>v. Inr [ScPlain v, ScPlain v, ScPlain (VTime 5), ScPlain VNilPtr,
        ScPlain (VStr ''1''), ScPlain VNilPtr, ScPlain (VStr ''Ann'')]) (rev vs), None)),
      re_exec = (\<lambda>db q vs. (db, Inr (Inr 0, Inr 0))), re_sort = no_sort, re_sprint = (\<lambda>v. []),
      re_slug = ex_slug, re_json = \<lparr>js_values = js_values ex_json, js_strings = marked\<rparr>, re_range = rev\<rparr>"

definition ex_stubs :: "gval list" where
  "ex_stubs = [VPtr (VStruct [(''ID'', VStr ''7''), (''FirstName'', VStr [])]),
     VPtr (VStruct [(''ID'', VStr ''8''), (''FirstName'', VStr [])])]"

theorem get_refreshes_all_witness:
  "\<exists>objs'. repo_Get get_env zormtest_cfg () (Some (TSlice (ptr_type UserMapping))) ex_stubs (Include [] []) = (objs', Inr ()) \<and>
     length objs' = 2 \<and> refreshed (re_json get_env) UserMapping ex_stubs 0 (objs' ! 0) \<and>
     refreshed (re_json get_env) UserMapping ex_stubs 1 (objs' ! 1)"
proof -
  let ?t = "ptr_type UserMapping"
  let ?get = "repo_Get get_env zormtest_cfg () (Some (TSlice ?t)) ex_stubs (Include [] [])"
  have "snd ?get = Inr ()" by code_simp
  then have run: "?get = (fst ?get, Inr ())" by (metis prod.collapse)
  have m: "map_of (cfg_mappings zormtest_cfg) (typeID ?t) = Some UserMapping"
    using zormtest_mapping(2) by (simp add: ptr_type_def zormtest_defs)
  have j: "inj (js_strings (re_json get_env))" using inj_marked by (simp add: get_env_def)
  have "case group_objects (re_json get_env) UserMapping ex_stubs 0 [] of Inl _ \<Rightarrow> True
      | Inr groups \<Rightarrow> list_all (\<lambda>(gk, g). keys_once get_env zormtest_cfg () ?t [] g) groups" by code_simp
  then have once: "keys_once get_env zormtest_cfg () ?t [] g"
    if "group_objects (re_json get_env) UserMapping ex_stubs 0 [] = Inr groups" "(gk, g) \<in> set groups" for groups gk g
    using that by (auto simp: list_all_iff)
  have len: "length ex_stubs = 2" by (simp add: ex_stubs_def)
  from get_refreshes_all [OF run m j _ once] have
    "length (fst ?get) = 2 \<and> (\<forall>i < 2. refreshed (re_json get_env) UserMapping ex_stubs i (fst ?get ! i))"
    by (simp add: len get_env_def)
  with run show ?thesis by (intro exI [of _ "fst ?get"]) auto
qed

end
