(* ===== verification/Zormsql_Repo_Laws.thy ===== *)
theory Zormsql_Repo_Laws
  imports Zormsql_Get_Laws
begin

text \<open>
  What the writing operations of \<^verbatim>\<open>go/zorm/zormsql/repo.go\<close> do to a table and to the objects handed in:
  \<^verbatim>\<open>Delete\<close> as a filter of the rows, the orphans a put deletes, the foreign keys a put fills on both
  sides of a relation, and the inputs on which the code does less than it says: lists of excluded
  fields, and related models that are already in the database.
\<close>

section \<open>Lists of excluded fields\<close>

definition exclusion :: "string \<Rightarrow> bool" where
  "exclusion f \<longleftrightarrow> f \<noteq> [] \<and> hd f = CHR ''-''"

lemma cut_keeps:
  assumes "i < snd s" "snd s \<le> length (fst s)"
  shows "set (fst (cut i s)) \<subseteq> set (fst s)" "x \<in> set (view s) \<Longrightarrow> x \<noteq> view s ! i \<Longrightarrow> x \<in> set (view (cut i s))"
proof -
  show "set (fst (cut i s)) \<subseteq> set (fst s)"
    by (auto simp: cut_def dest: in_set_takeD in_set_dropD)
  assume x: "x \<in> set (view s)" "x \<noteq> view s ! i"
  have i: "i < length (view s)" using assms by (simp add: view_def)
  have "set (view s) = set (take i (view s) @ view s ! i # drop (Suc i) (view s))"
    by (simp only: id_take_nth_drop [OF i, symmetric])
  then have "set (view s) = insert (view s ! i) (set (take i (view s)) \<union> set (drop (Suc i) (view s)))"
    by simp
  with x show "x \<in> set (view (cut i s))" by (simp add: view_cut [OF assms])
qed

lemma remove_negated_keeps:
  assumes "snd s \<le> length (fst s)"
  shows "set (fst (remove_negated fs s)) \<subseteq> set (fst s) \<and>
    snd (remove_negated fs s) \<le> length (fst (remove_negated fs s)) \<and>
    (x \<in> set (view s) \<longrightarrow> x \<notin> Cons (CHR ''-'') ` set fs \<longrightarrow> x \<in> set (view (remove_negated fs s)))"
  using assms
proof (induction fs s rule: remove_negated.induct)
  case (2 g fs s)
  show ?case
  proof (cases "index_of (CHR ''-'' # g) (view s)")
    case (Some i)
    from index_of_Some [OF Some] have i: "i < snd s" "view s ! i = CHR ''-'' # g" by (auto simp: view_def)
    note c = cut_length [OF i(1) "2.prems"] cut_keeps [OF i(1) "2.prems"]
    from "2.IH" c(1) Some c(2,3) i(2) show ?thesis by auto
  qed (use "2" in auto)
qed simp

lemma view_subset: "set (view s) \<subseteq> set (fst s)"
  by (auto simp: view_def dest: in_set_takeD)

lemma fields_add_exclusions:
  assumes "list_all exclusion fs" "x \<in> set fs" "tl x \<notin> set ks"
  shows "list_all exclusion (fst (fields_add ks fs)) \<and> list_all exclusion (snd (fields_add ks fs)) \<and>
    x \<in> set (fst (fields_add ks fs)) \<and> x \<in> set (snd (fields_add ks fs))"
proof -
  have "fs \<noteq> []" using assms by auto
  moreover from this have "exclusion (hd fs)" using assms(1) by (cases fs) auto
  ultimately have n: "isNegated fs" by (auto simp: isNegated_def exclusion_def)
  have "exclusion x" using assms by (auto simp: list_all_iff)
  then have x: "x = CHR ''-'' # tl x" by (cases x) (auto simp: exclusion_def)
  then have "x \<notin> Cons (CHR ''-'') ` set ks" using assms(3) by auto
  with remove_negated_keeps [of "(fs, length fs)" ks x] assms(2)
  have "set (fst (remove_negated ks (fs, length fs))) \<subseteq> set fs \<and> x \<in> set (view (remove_negated ks (fs, length fs)))"
    by (simp add: view_def)
  then show ?thesis
    using n assms(1) view_subset [of "remove_negated ks (fs, length fs)"]
    by (auto simp: fields_add_def Let_def list_all_iff)
qed

lemma copyFields_nothing: "\<forall>f \<in> set fs. struct_get dst f = None \<Longrightarrow> copyFields dst src fs = dst"
  by (induction fs) (auto split: option.splits)

text \<open>Structs whose fields have names of Go\<close>

definition go_fields :: "gval \<Rightarrow> bool" where
  "go_fields x \<longleftrightarrow> (\<forall>f. exclusion f \<longrightarrow> struct_get x f = None)"

lemma store_found_exclusions:
  assumes "list_all exclusion fs" "fs \<noteq> []" "list_all (\<lambda>v. go_fields (deref v)) objs"
  shows "map deref (fst (store_found js fs g objs f)) = map deref objs"
proof -
  have "copyFields (deref (objs ! i)) src fs = deref (objs ! i)" if "i < length objs" for i src
    using assms that nth_mem [OF that] by (intro copyFields_nothing) (auto simp: list_all_iff go_fields_def)
  then have "map deref (objs[i := VPtr (copyFields (deref (objs ! i)) src fs)]) = map deref objs" for i src
    by (cases "i < length objs") (auto simp: map_update list_update_same_conv list_update_beyond)
  then show ?thesis using assms(2) by (auto simp: store_found_def split: sum.splits option.splits)
qed

lemma go_fields_objs: "map deref os = map deref objs \<Longrightarrow> list_all (\<lambda>v. go_fields (deref v)) objs \<Longrightarrow>
    list_all (\<lambda>v. go_fields (deref v)) os"
  by (metis (mono_tags, lifting) list.pred_map list_all_cong comp_apply)

lemma get_group_exclusions:
  assumes "list_all exclusion fs" "x \<in> set fs" "tl x \<notin> set (kg_keyFields g)" "map deref os = map deref objs"
    and "list_all (\<lambda>v. go_fields (deref v)) objs"
  shows "case fst (get_group env cfg t rels db (os, fs, n) g) of (os', fs', n') \<Rightarrow>
    map deref os' = map deref objs \<and> list_all exclusion fs' \<and> x \<in> set fs'"
proof -
  note a = fields_add_exclusions [OF assms(1-3)]
  have ne: "fs \<noteq> []" "fst (fields_add (kg_keyFields g) fs) \<noteq> []" using assms(2) a by auto
  have "map deref (fst (fold_run (store_found js (fst (fields_add (kg_keyFields g) fs)) g) os lst)) = map deref objs" for js lst
    by (rule fold_run_state [where I = "\<lambda>os. map deref os = map deref objs", OF assms(4)])
      (use a ne(2) store_found_exclusions go_fields_objs [OF _ assms(5)] in auto)
  then show ?thesis
    using a ne assms(4) by (auto simp: get_group_def Let_def split: sum.splits prod.splits) (metis fst_conv)+
qed

text \<open>A \<^verbatim>\<open>Get\<close> with a list of excluded fields copies nothing: \<^verbatim>\<open>copyFields\<close> is given the list itself,
  not the fields it stands for. Whatever the database answers, and also when \<^verbatim>\<open>Get\<close> reports success,
  the objects are what they were (as long as one excluded field is no key field).\<close>

theorem get_exclusions_copy_nothing:
  assumes "list_all exclusion fs" "x \<in> set fs" "list_all (\<lambda>v. go_fields (deref v)) objs"
    and "map_of (cfg_mappings cfg) (typeID t) = Some m" "\<And>g. set (re_range env g) = set g"
    and "\<And>groups gk g. group_objects (re_json env) m objs 0 [] = Inr groups \<Longrightarrow> (gk, g) \<in> set groups \<Longrightarrow>
        tl x \<notin> set (kg_keyFields g)"
  shows "map deref (fst (repo_Get env cfg db (Some (TSlice t)) objs (Include fs rels))) = map deref objs"
proof (cases "is_TPtr t \<and> objs \<noteq> []")
  case True
  have v: "validateListOfPtr (Some (TSlice t)) = Inr t" using True by (simp add: validateListOfPtr_def)
  show ?thesis
  proof (cases "group_objects (re_json env) m objs 0 []")
    case (Inr groups)
    let ?I = "\<lambda>s :: gval list \<times> fields \<times> nat. case s of (os, fs', n) \<Rightarrow> map deref os = map deref objs \<and> list_all exclusion fs' \<and> x \<in> set fs'"
    let ?run = "fold_run (get_group env cfg t rels db) (objs, fs, 0) (map snd (re_range env groups))"
    have "?I (fst ?run)"
    proof (rule fold_run_state [where I = ?I])
      show "?I (objs, fs, 0)" using assms by simp
      fix s g assume g: "g \<in> set (map snd (re_range env groups))" and I: "?I s"
      obtain os fs' n where s: "s = (os, fs', n)" by (cases s)
      have "tl x \<notin> set (kg_keyFields g)" using g assms(5) assms(6) [OF Inr] by auto
      with I show "?I (fst (get_group env cfg t rels db s g))"
        unfolding s by (intro get_group_exclusions assms(3)) auto
    qed
    moreover obtain os fs' n r where run: "?run = ((os, fs', n), r)" by (metis surj_pair)
    ultimately have "map deref os = map deref objs" by simp
    then show ?thesis
      using True v assms(4) Inr run by (simp add: repo_Get_def recover_run_def repo_get_def)
  qed (use True v assms(4) in \<open>simp add: repo_Get_def recover_run_def repo_get_def\<close>)
qed (auto simp: repo_Get_def recover_run_def repo_get_def validateListOfPtr_def split: if_splits)

theorem get_exclusions_copy_nothing_witness:
  "snd (repo_Get get_env zormtest_cfg () (Some (TSlice (ptr_type UserMapping))) ex_stubs (Include [''-FirstName''] [])) = Inr () \<and>
   map deref (fst (repo_Get get_env zormtest_cfg () (Some (TSlice (ptr_type UserMapping))) ex_stubs (Include [''-FirstName''] []))) =
     map deref ex_stubs"
proof
  show "snd (repo_Get get_env zormtest_cfg () (Some (TSlice (ptr_type UserMapping))) ex_stubs (Include [''-FirstName''] [])) = Inr ()"
    by code_simp
  have m: "map_of (cfg_mappings zormtest_cfg) (typeID (ptr_type UserMapping)) = Some UserMapping"
    using zormtest_mapping(2) by (simp add: ptr_type_def zormtest_defs)
  have "case group_objects (re_json get_env) UserMapping ex_stubs 0 [] of Inl _ \<Rightarrow> True
      | Inr groups \<Rightarrow> list_all (\<lambda>(gk, g). ''FirstName'' \<notin> set (kg_keyFields g)) groups" by code_simp
  then have k: "tl ''-FirstName'' \<notin> set (kg_keyFields g)"
    if "group_objects (re_json get_env) UserMapping ex_stubs 0 [] = Inr groups" "(gk, g) \<in> set groups" for groups gk g
    using that by (auto simp: list_all_iff)
  have g: "list_all (\<lambda>v. go_fields (deref v)) ex_stubs"
    by (auto simp: ex_stubs_def go_fields_def exclusion_def)
  show "map deref (fst (repo_Get get_env zormtest_cfg () (Some (TSlice (ptr_type UserMapping))) ex_stubs (Include [''-FirstName''] []))) =
     map deref ex_stubs"
  proof (rule get_exclusions_copy_nothing [where x = "''-FirstName''", OF _ _ g m])
    show "set (re_range get_env h) = set h" for h by (simp add: get_env_def)
    show "tl ''-FirstName'' \<notin> set (kg_keyFields h)"
      if "group_objects (re_json get_env) UserMapping ex_stubs 0 [] = Inr groups" "(gk, h) \<in> set groups" for groups gk h
      using k [OF that] .
  qed (simp_all add: exclusion_def)
qed

section \<open>Orphans\<close>

lemma process_length: "process srt sprint slug capacity m s [] rows = Inr lst \<Longrightarrow> length lst \<le> capacity"
proof -
  assume p: "process srt sprint slug capacity m s [] rows = Inr lst"
  then obtain objs where o: "process_rows slug capacity m s rows ([], [], []) = Inr objs"
    and l: "map_res (sort_target srt sprint s) (if objs = [] then [] else map VPtr objs) = Inr lst"
    by (auto simp: process_def bind_res_Inr)
  from process_rows_runs [OF o, of "[]"] have "length objs \<le> capacity" by auto
  with map_res_length [OF l] show ?thesis by (auto split: if_splits)
qed

lemma findRelatedModels_length: "findRelatedModels env cfg db m w = Inr lst \<Longrightarrow> length lst \<le> 10"
  by (auto simp: findRelatedModels_def repo_find_def bind_res_Inr Let_def split: option.splits dest!: process_length)


text \<open>A database that finds the authentications 3 and 4 and logs what it executes.\<close>

definition auths_env :: "(string \<times> gval list) list repo_env" where
  "auths_env = log_env\<lparr>
     re_query := (\<lambda>db q vs target. Inr (map (\<lambda>i. Inr [ScPlain (VStr i), ScPlain (VStr i), ScPlain (VTime 5),
       ScPlain VNilPtr, ScPlain (VStr ''7''), ScPlain (VStr ''p''), ScPlain (VStr ''d'')]) [''3'', ''4''], None)),
     re_sprint := (\<lambda>v. case v of VStr s \<Rightarrow> s | _ \<Rightarrow> ''?''), re_slug := ex_slug\<rparr>"

definition ex_auths :: rel_info where
  "ex_auths = \<lparr>ri_fieldName = ''Auths'', ri_relation = m_relations UserMapping ! 1,
     ri_parent = UserMapping, ri_related = UserAuthMapping, ri_fkIsLocal = False,
     ri_opts = RelationOpts (Include [] []) None []\<rparr>"

definition ex_owner :: gval where
  "ex_owner = VStruct [(''ID'', VStr ''7''), (''Auths'', VSlice [VPtr (VStruct [(''ID'', VStr ''3''), (''UserID'', VStr []),
     (''Provider'', VStr ''p''), (''Data'', VStr [])])])]"


section \<open>Delete\<close>

definition delete_runs :: "'d repo_env \<Rightarrow> mapping \<Rightarrow> ('d \<Rightarrow> row list) \<Rightarrow> column list \<Rightarrow> bool" where
  "delete_runs env m rows cols \<longleftrightarrow> (\<forall>db kss. list_all (\<lambda>ks. length ks = length cols) kss \<longrightarrow>
     (let sel = (\<lambda>r. list_ex (\<lambda>ks. row_matches cols ks r) kss) in
      case re_exec env db (delete_query (re_driver env) m cols (length cols) (length kss)) (concat kss) of
        (db', Inl e) \<Rightarrow> rows db' = rows db
      | (db', Inr r) \<Rightarrow> rows db' = filter (\<lambda>r. \<not> sel r) (rows db) \<and>
          (\<forall>n. fst r = Inr n \<longrightarrow> n = int (length (filter sel (rows db))))))"

lemma columnNamesToFields_mem:
  "columnNamesToFields m cs = Inr fs \<Longrightarrow> f \<in> set fs \<Longrightarrow> \<exists>c \<in> set (m_columns m). cm_field c = f"
  by (auto simp: columnNamesToFields_def Let_def split: if_splits option.splits dest!: find_Some_D [OF sym])

lemma resolve_keyFields:
  "plain_fields m \<Longrightarrow> primaryKeyFields m = Inr pkf \<Longrightarrow> pkf \<noteq> [] \<Longrightarrow> resolve pkf all = pkf"
  using columnNamesToFields_mem [of m "m_primaryKey m" pkf "hd pkf"] hd_in_set [of pkf]
  by (auto simp: primaryKeyFields_def resolve_def isNegated_def plain_fields_def list_all_iff)

lemma map_res_field_values:
  "map_res (\<lambda>v. map_res (field_of (deref v)) fs) vs = Inr kss \<Longrightarrow> kss = map (\<lambda>v. field_values (deref v) fs) vs"
  by (induction vs arbitrary: kss) (auto simp: bind_res_Inr dest: map_res_field_of)

lemma deleteByPK_rows:
  assumes run: "deleteByPK env cfg m pkf models db = (db', Inr n)" and "models \<noteq> []"
    and "plain_fields m" "primaryKeyFields m = Inr pkf" "pkf \<noteq> []"
    and dr: "delete_runs env m rows (update_columns m pkf)"
  defines "sel \<equiv> \<lambda>r. list_ex (\<lambda>v. row_matches (update_columns m pkf) (field_values (deref v) pkf) r) models"
  shows "rows db' = filter (\<lambda>r. \<not> sel r) (rows db) \<and> n = int (length (filter sel (rows db)))"
proof -
  from run assms(2) obtain str where str: "mapStructure cfg m (bare_table m) [] pkf [] = Inr str"
    by (cases "mapStructure cfg m (bare_table m) [] pkf []") (auto simp: deleteByPK_def simp del: mapStructure.simps)
  note cols = update_columns_eq [OF str resolve_keyFields [OF assms(3-5)]]
  have lc: "length (update_columns m pkf) = length pkf" by (simp add: update_columns_def)
  from run assms(2) str obtain kss where kss: "map_res (\<lambda>v. map_res (field_of (deref v)) pkf) models = Inr kss"
    by (cases "map_res (\<lambda>v. map_res (field_of (deref v)) pkf) models") (auto simp: deleteByPK_def simp del: mapStructure.simps)
  note k = map_res_field_values [OF kss]
  have lk: "list_all (\<lambda>ks. length ks = length (update_columns m pkf)) kss"
    by (simp add: k list_all_iff field_values_def lc)
  let ?exec = "\<lambda>d. re_exec env d (delete_query (re_driver env) m (update_columns m pkf) (length pkf) (length models)) (concat kss)"
  obtain d r1 where se: "sql_exec ?exec db = (d, r1)" by (metis surj_pair)
  have "d = db' \<and> (\<exists>i. r1 = Inr (n, i))"
    using run assms(2) str kss se cols
    by (auto simp: deleteByPK_def bind_res_Inr simp del: mapStructure.simps)
  with se obtain i where "?exec db = (db', Inr (Inr n, Inr i))" by (auto simp: sql_exec_Inr)
  then show ?thesis
    using dr [unfolded delete_runs_def Let_def, rule_format, OF lk, of db]
    by (simp add: lc k sel_def list_ex_iff)
qed

lemma deleted_rows:
  assumes "repo_Delete env cfg db ty objs incl = ((db', objs'), Inr ())" and "objs \<noteq> []"
    and "validateListOfPtr ty = Inr t" "map_of (cfg_mappings cfg) (typeID t) = Some m"
    and "plain_fields m" "primaryKeyFields m = Inr pkf" "pkf \<noteq> []"
    and "delete_runs env m rows (update_columns m pkf)"
  defines "sel \<equiv> \<lambda>r. list_ex (\<lambda>v. row_matches (update_columns m pkf) (field_values (deref v) pkf) r) objs'"
  shows "repo_Get env cfg db ty objs incl = (objs', Inr ()) \<and>
    rows db' = filter (\<lambda>r. \<not> sel r) (rows db) \<and> length (filter sel (rows db)) = length objs'"
proof -
  from assms(1) have run: "repo_delete env cfg db ty objs incl = ((db', objs'), Inr ())"
    by (simp add: repo_Delete_def recover_run_Inr)
  obtain os r where g: "repo_Get env cfg db ty objs incl = (os, r)" by (metis surj_pair)
  obtain d r' where dl: "deleteByPK env cfg m pkf os db = (d, r')" by (metis surj_pair)
  have *: "r = Inr () \<and> os = objs' \<and> d = db' \<and> r' = Inr (int (length objs'))"
    using run assms(2-4,6) g dl by (cases r) (auto simp: repo_delete_def bind_res_Inr split: if_splits)
  show ?thesis
  proof (cases "objs' = []")
    case True
    then show ?thesis using * g dl by (simp add: deleteByPK_def sel_def)
  next
    case False
    from deleteByPK_rows [OF _ False assms(5-8), of cfg db db' "int (length objs')"] * g dl
    show ?thesis by (simp add: sel_def)
  qed
qed

text \<open>C11: When \<^verbatim>\<open>Delete\<close> succeeds, exactly the rows with the primary keys of the models (as \<^verbatim>\<open>Get\<close> refreshed
  them) are gone, every other row is as it was, and as many rows are gone as there were models.\<close>

theorem delete_removes_rows:
  assumes "repo_Delete env cfg db ty objs incl = ((db', objs'), Inr ())" and "objs \<noteq> []"
    and "validateListOfPtr ty = Inr t" "map_of (cfg_mappings cfg) (typeID t) = Some m"
    and "plain_fields m" "primaryKeyFields m = Inr pkf" "pkf \<noteq> []"
    and "delete_runs env m rows (update_columns m pkf)"
  defines "sel \<equiv> \<lambda>r. list_ex (\<lambda>v. row_matches (update_columns m pkf) (field_values (deref v) pkf) r) objs'"
  shows "repo_Get env cfg db ty objs incl = (objs', Inr ()) \<and>
    rows db' = filter (\<lambda>r. \<not> sel r) (rows db) \<and> length (filter sel (rows db)) = length objs'"
  unfolding sel_def by (rule deleted_rows [OF assms(1-8)])

text \<open>A users table that finds and deletes by id.\<close>

definition ids_cols :: "column list" where
  "ids_cols = update_columns UserMapping [''ID'']"

definition table_env :: "row list repo_env" where
  "table_env = users_env\<lparr>
     re_query := (\<lambda>db q vs target. Inr (map (\<lambda>r. let v = the (map_of r ''id'') in
       Inr [ScPlain v, ScPlain v, ScPlain (VTime 5), ScPlain VNilPtr, ScPlain (VStr ''1''), ScPlain VNilPtr,
            ScPlain (the (map_of r ''first_name''))]) (filter (\<lambda>r. \<exists>v \<in> set vs. map_of r ''id'' = Some v) db), None)),
     re_exec := (\<lambda>db q vs.
       if q = delete_query sqlite3_driver UserMapping ids_cols 1 (length vs)
       then (let sel = (\<lambda>r. list_ex (\<lambda>v. map_of r ''id'' = Some v) vs) in
         (filter (\<lambda>r. \<not> sel r) db, Inr (Inr (int (length (filter sel db))), Inr 0)))
       else (db, Inl (Errorf ''syntax error''))),
     re_slug := ex_slug\<rparr>"

lemma ids_cols: "ids_cols = [\<lparr>c_table = bare_table UserMapping, c_name = ''id'', c_alias = ''id''\<rparr>]"
  unfolding ids_cols_def by code_simp

lemma table_env_deletes: "delete_runs table_env UserMapping (\<lambda>db. db) ids_cols"
  unfolding delete_runs_def Let_def
proof (intro allI impI)
  fix db :: "row list" and kss :: "gval list list"
  assume "list_all (\<lambda>ks. length ks = length ids_cols) kss"
  then have one: "list_all (\<lambda>ks. \<exists>k. ks = [k]) kss"
    by (auto simp: ids_cols list_all_iff length_Suc_conv)
  then have len: "length (concat kss) = length kss"
    by (induction kss) auto
  have sel: "list_ex (\<lambda>v. map_of r ''id'' = Some v) (concat kss) = list_ex (\<lambda>ks. row_matches ids_cols ks r) kss" for r
    using one by (induction kss) (auto simp: row_matches_def ids_cols)
  show "case re_exec table_env db (delete_query (re_driver table_env) UserMapping ids_cols (length ids_cols) (length kss)) (concat kss) of
        (db', Inl e) \<Rightarrow> db' = db
      | (db', Inr r) \<Rightarrow> db' = filter (\<lambda>r. \<not> list_ex (\<lambda>ks. row_matches ids_cols ks r) kss) db \<and>
          (\<forall>n. fst r = Inr n \<longrightarrow> n = int (length (filter (\<lambda>r. list_ex (\<lambda>ks. row_matches ids_cols ks r) kss) db)))"
    using sel by (simp add: table_env_def users_env_def len)
qed

definition two_users :: "row list" where
  "two_users = [[(''id'', VStr ''7''), (''first_name'', VStr ''Ann'')], [(''id'', VStr ''8''), (''first_name'', VStr ''Bob'')]]"

theorem delete_removes_rows_witness:
  "\<exists>objs'. repo_Delete table_env zormtest_cfg two_users (Some (TSlice (ptr_type UserMapping))) [hd ex_stubs] (Include [] []) =
     (([[(''id'', VStr ''8''), (''first_name'', VStr ''Bob'')]], objs'), Inr ()) \<and> length objs' = 1"
proof -
  let ?ty = "Some (TSlice (ptr_type UserMapping))"
  let ?run = "repo_Delete table_env zormtest_cfg two_users ?ty [hd ex_stubs] (Include [] [])"
  have "snd ?run = Inr ()" by code_simp
  then have run: "?run = ((fst (fst ?run), snd (fst ?run)), Inr ())" by (metis prod.collapse)
  have v: "validateListOfPtr ?ty = Inr (ptr_type UserMapping)" by (simp add: validateListOfPtr_def ptr_type_def)
  have m: "map_of (cfg_mappings zormtest_cfg) (typeID (ptr_type UserMapping)) = Some UserMapping"
    using zormtest_mapping(2) by (simp add: ptr_type_def zormtest_defs)
  have pf: "plain_fields UserMapping" by code_simp
  have pk: "primaryKeyFields UserMapping = Inr [''ID'']" by code_simp
  have ids: "map (\<lambda>v. field_values (deref v) [''ID'']) (snd (fst ?run)) = [[VStr ''7'']]" by code_simp
  from delete_removes_rows [OF run _ v m pf pk _ table_env_deletes [unfolded ids_cols_def]]
  have d: "fst (fst ?run) = filter (\<lambda>r. \<not> list_ex (\<lambda>v. row_matches (update_columns UserMapping [''ID''])
      (field_values (deref v) [''ID'']) r) (snd (fst ?run))) two_users" by simp
  have "list_ex (\<lambda>v. row_matches ids_cols (field_values (deref v) [''ID'']) r) (snd (fst ?run)) =
      list_ex (\<lambda>ks. row_matches ids_cols ks r) (map (\<lambda>v. field_values (deref v) [''ID'']) (snd (fst ?run)))" for r
    by (simp add: list_ex_iff)
  then have "fst (fst ?run) = [[(''id'', VStr ''8''), (''first_name'', VStr ''Bob'')]]"
    using d unfolding ids by (simp add: two_users_def row_matches_def ids_cols flip: ids_cols_def)
  moreover have "length (snd (fst ?run)) = 1" using ids by (metis length_Cons length_map list.size(3) One_nat_def)
  ultimately show ?thesis using run by (intro exI [of _ "snd (fst ?run)"]) simp
qed

section \<open>Links between parent and related models\<close>

lemma with_each_ok:
  assumes "with_each f p vs = ((p', vs'), Inr ())" "I p"
    and "\<And>p v p' v'. v \<in> set vs \<Longrightarrow> I p \<Longrightarrow> f p v = ((p', v'), Inr ()) \<Longrightarrow> I p' \<and> Q v'"
  shows "I p' \<and> length vs' = length vs \<and> (\<forall>v \<in> set vs'. Q v)"
  using assms
proof (induction vs arbitrary: p vs')
  case (Cons v vs)
  obtain p1 v1 r1 where f: "f p v = ((p1, v1), r1)" by (metis surj_pair)
  obtain p2 vs2 r2 where w: "with_each f p1 vs = ((p2, vs2), r2)" by (metis surj_pair)
  have r: "r1 = Inr ()" using Cons.prems(1) f by (cases r1) auto
  then have r2: "r2 = Inr ()" "p2 = p'" "vs' = v1 # vs2" using Cons.prems(1) f w by auto
  have "I p1 \<and> Q v1" using Cons.prems(3) [OF _ Cons.prems(2) f [unfolded r]] by simp
  then have p1: "I p1" "Q v1" by simp_all
  have "I p' \<and> length vs2 = length vs \<and> (\<forall>v \<in> set vs2. Q v)"
    by (rule Cons.IH [OF w [unfolded r2] p1(1)]) (use Cons.prems(3) in auto)
  then show ?case using p1(2) r2(3) by simp
qed simp

lemma copyFK_into_ok:
  assumes "copyFK_into rel w p v = ((p', v'), Inr ())"
  shows "\<exists>u. copyFKValues rel p (deref v) = Inr (p', u) \<and> v' = repoint v u"
  using assms by (auto simp: copyFK_into_def wrap_res_def split: sum.splits)

lemma putRelatedModels_ok:
  assumes "putRelatedModels env cfg rel (db, parent) = ((db', parent'), Inr ())"
  obtains pkf models many s1 models1 s2 models2 where
    "related_models parent (ri_fieldName rel) = (models, many)"
    "if many then deleteOrphanedRelatedModels env cfg rel pkf (db, parent) models = ((s1, models1), Inr ())
     else s1 = (db, parent) \<and> models1 = models"
    "with_each (put_related_model env cfg rel pkf) s1 models1 = ((s2, models2), Inr ())"
    "db' = fst s2" "parent' = put_back (ri_fieldName rel) many models2 (snd s2)"
proof (cases "primaryKeyFields (ri_related rel)")
  case (Inr pkf)
  obtain models many where rm: "related_models parent (ri_fieldName rel) = (models, many)"
    by (cases "related_models parent (ri_fieldName rel)")
  let ?del = "if many then wrap_run ''deleting orphaned related models''
      (deleteOrphanedRelatedModels env cfg rel pkf (db, parent) models) else (((db, parent), models), Inr ())"
  obtain s1 models1 r1 where d: "?del = ((s1, models1), r1)" by (metis surj_pair)
  obtain s2 models2 r2 where w: "with_each (put_related_model env cfg rel pkf) s1 models1 = ((s2, models2), r2)"
    by (metis surj_pair)
  have r1: "r1 = Inr ()" using assms Inr rm d by (cases r1) (auto simp: putRelatedModels_def)
  have *: "r2 = Inr () \<and> db' = fst s2 \<and> parent' = put_back (ri_fieldName rel) many models2 (snd s2)"
    using assms Inr rm d w r1 by (auto simp: putRelatedModels_def)
  have del: "if many then deleteOrphanedRelatedModels env cfg rel pkf (db, parent) models = ((s1, models1), Inr ())
     else s1 = (db, parent) \<and> models1 = models"
    using d r1 by (auto split: if_splits)
  show ?thesis by (rule that [OF rm del]) (use w * in auto)
qed (use assms in \<open>simp add: putRelatedModels_def\<close>)

lemma put_related_model_ok:
  assumes "put_related_model env cfg rel pkf s v = ((s', v'), Inr ())"
  shows "\<exists>p1 v1 u. copyFK_into rel ''copying FK values'' (snd s) v = ((p1, v1), Inr ()) \<and>
    copyFK_into rel ''copying FK values after put'' p1 (repoint v1 u) = ((snd s', v'), Inr ())"
proof -
  obtain p1 v1 r1 where c: "copyFK_into rel ''copying FK values'' (snd s) v = ((p1, v1), r1)" by (metis surj_pair)
  obtain db u r2 where m: "putSingleModel env cfg (ri_related rel) pkf (inc_fields (rel_include (ri_opts rel)))
      (fst s, deref v1) = ((db, u), r2)" by (metis surj_pair)
  obtain p2 v2 r3 where c2: "copyFK_into rel ''copying FK values after put'' p1 (repoint v1 u) = ((p2, v2), r3)" by (metis surj_pair)
  show ?thesis
    using assms c m c2 by (cases r1; cases r2) (auto simp: put_related_model_def)
qed

text \<open>A slice of pointers to structs\<close>

definition all_pointers :: "gval list \<Rightarrow> bool" where
  "all_pointers vs \<longleftrightarrow> list_all (\<lambda>v. \<exists>u. v = VPtr u) vs"

lemma struct_get_put_back:
  "struct_get p f = Some x \<Longrightarrow> models \<noteq> [] \<Longrightarrow>
     struct_get (put_back f many models p) g = (if g = f then Some (if many then VSlice models else hd models) else struct_get p g)"
  by (simp add: put_back_def)

lemma orphans_keep_parent:
  assumes "deleteOrphanedRelatedModels env cfg rel pkf (db, parent) models = ((s1, models1), Inr ())"
    and "\<not> ri_fkIsLocal rel" "all_pointers models" "(lc, rc) \<in> set (r_columns (ri_relation rel))"
    and "columnNamesToFields (ri_parent rel) [lc] = Inr [lf]" "columnNamesToFields (ri_related rel) [rc] = Inr [rf]"
  shows "snd s1 = parent \<and> length models1 = length models \<and> all_pointers models1"
proof -
  from assms(1) obtain fk where fk: "buildFKWhereClause parent rel = Inr fk"
    by (cases "buildFKWhereClause parent rel") (auto simp: deleteOrphanedRelatedModels_def)
  let ?w = "case rel_where (ri_opts rel) of None \<Rightarrow> fk | Some w \<Rightarrow> elem_And [fk, w]"
  from assms(1) fk obtain existing where ex: "findRelatedModels env cfg db (ri_related rel) ?w = Inr existing"
    by (cases "findRelatedModels env cfg db (ri_related rel) ?w") (auto simp: deleteOrphanedRelatedModels_def Let_def)
  show ?thesis
  proof (cases "existing = []")
    case False
    obtain p ms r where c: "with_each (copyFK_into rel ''copying FK values for PK extraction'') parent models = ((p, ms), r)"
      by (metis surj_pair)
    obtain d r' where dl: "deleteByPK env cfg (ri_related rel) pkf (orphans_of (re_sprint env) pkf ms existing) db = (d, r')"
      by (metis surj_pair)
    have *: "ms = models1 \<and> s1 = (d, p) \<and> r = Inr ()"
      using assms(1) fk ex c dl False
      by (cases r) (auto simp: deleteOrphanedRelatedModels_def Let_def bind_res_Inr)
    then have w: "with_each (copyFK_into rel ''copying FK values for PK extraction'') parent models = ((p, models1), Inr ())"
      using c by simp
    have "p = parent \<and> length models1 = length models \<and> (\<forall>v \<in> set models1. \<exists>u. v = VPtr u)"
    proof (rule with_each_ok [OF w, where I = "\<lambda>p. p = parent"])
      fix p v p' v' assume v: "v \<in> set models" "p = parent"
        and c: "copyFK_into rel ''copying FK values for PK extraction'' p v = ((p', v'), Inr ())"
      from copyFK_into_ok [OF c] obtain u where u: "copyFKValues rel p (deref v) = Inr (p', u)" "v' = repoint v u" by blast
      have "\<exists>x. v = VPtr x" using v(1) assms(3) by (auto simp: all_pointers_def list_all_iff)
      then show "p' = parent \<and> (\<exists>u. v' = VPtr u)"
        using copyFK_effect [OF u(1) assms(4-6)] assms(2) v(2) u(2) by (auto simp: repoint_def)
    qed simp
    then show ?thesis using * by (simp add: all_pointers_def list_all_iff)
  qed (use assms(1,3) fk ex in \<open>auto simp: deleteOrphanedRelatedModels_def Let_def\<close>)
qed

text \<open>What putting one related model does to the foreign keys, through a pointer and for a whole list\<close>

lemma put_related_copies:
  assumes "put_related_model env cfg rel pkf s (VPtr x) = ((s', v'), Inr ())"
  shows "\<exists>p1 w1 u1 w2. copyFKValues rel (snd s) x = Inr (p1, w1) \<and> copyFKValues rel p1 u1 = Inr (snd s', w2) \<and> v' = VPtr w2"
proof -
  from put_related_model_ok [OF assms] obtain p1 v1 u1 where
    c1: "copyFK_into rel ''copying FK values'' (snd s) (VPtr x) = ((p1, v1), Inr ())"
    and c2: "copyFK_into rel ''copying FK values after put'' p1 (repoint v1 u1) = ((snd s', v'), Inr ())" by blast
  from copyFK_into_ok [OF c1] obtain w1 where w1: "copyFKValues rel (snd s) x = Inr (p1, w1)" "v1 = VPtr w1"
    by (auto simp: repoint_def)
  from copyFK_into_ok [OF c2] show ?thesis using w1 by (fastforce simp: repoint_def)
qed

lemma local_model_links:
  assumes "put_related_model env cfg rel pkf s (VPtr u) = ((s', v'), Inr ())" "ri_fkIsLocal rel"
    and col: "(lc, rc) \<in> set (r_columns (ri_relation rel))"
      "columnNamesToFields (ri_parent rel) [lc] = Inr [lf]" "columnNamesToFields (ri_related rel) [rc] = Inr [rf]"
    and field: "struct_get (snd s) f = Some x"
  shows "\<exists>u' z. v' = VPtr u' \<and> struct_get (snd s') f = Some z \<and> (non_empty u' rf \<longrightarrow> non_empty (snd s') lf)"
proof -
  from put_related_copies [OF assms(1)] obtain p1 w1 u1 w2 where
    w1: "copyFKValues rel (snd s) u = Inr (p1, w1)" and w2: "copyFKValues rel p1 u1 = Inr (snd s', w2)" "v' = VPtr w2" by blast
  have keeps: "\<exists>y. struct_get q' f = Some y" if "copyFKValues rel p q = Inr (q', r')" "struct_get p f = Some y" for p q q' r' y
    using copyFK_fold_inv [OF that(1) [unfolded copyFKValues_def], of p q] assms(2) that(2)
    by (auto simp: fk_inv_def fills_from_def dest!: spec [of _ f])
  obtain z where "struct_get (snd s') f = Some z" using keeps [OF w1 field] keeps [OF w2(1)] by blast
  then show ?thesis using copyFK_effect [OF w2(1) col] assms(2) w2(2) by auto
qed

lemma remote_models_link:
  assumes w: "with_each (put_related_model env cfg rel pkf) s models = ((s', models'), Inr ())"
    and remote: "\<not> ri_fkIsLocal rel" and pointers: "all_pointers models"
    and col: "(lc, rc) \<in> set (r_columns (ri_relation rel))"
      "columnNamesToFields (ri_parent rel) [lc] = Inr [lf]" "columnNamesToFields (ri_related rel) [rc] = Inr [rf]"
  shows "snd s' = snd s \<and> length models' = length models \<and>
    (\<forall>v \<in> set models'. non_empty (snd s) lf \<longrightarrow> non_empty (deref v) rf)"
proof (rule with_each_ok [OF w, where I = "\<lambda>t. snd t = snd s"])
  fix t v t' v' assume v: "v \<in> set models" and t: "snd t = snd s"
    and pm: "put_related_model env cfg rel pkf t v = ((t', v'), Inr ())"
  obtain x where x: "v = VPtr x" using v pointers by (auto simp: all_pointers_def list_all_iff)
  from put_related_copies [OF pm [unfolded x]] obtain p1 w1 u1 w2 where
    c: "copyFKValues rel (snd t) x = Inr (p1, w1)" "copyFKValues rel p1 u1 = Inr (snd t', w2)" "v' = VPtr w2" by blast
  show "snd t' = snd s \<and> (non_empty (snd s) lf \<longrightarrow> non_empty (deref v') rf)"
    using copyFK_effect [OF c(1) col] copyFK_effect [OF c(2) col] remote t c(3) by simp
qed simp



section \<open>Where the links are lost\<close>

lemma putSingle_update_keeps_model:
  assumes "findPopulatedLookupKey (re_json env) m val = Inr (Some key)"
    and "repo_update env cfg m (lk_fields key) flds val db = (db', Inr 1)"
  shows "putSingleModel env cfg m pkf flds (db, val) = ((db', val), Inr ())"
  using assms by (simp add: putSingleModel_def)

text \<open>A related model that is found by a unique key and only updated does not learn its primary key, so
  the foreign key of the parent is not filled: the row is there, the parent is put without the
  link, and nothing reports it.\<close>

theorem known_related_model_is_not_linked:
  assumes cols: "r_columns (ri_relation rel) = [(lc, rc)]" and "ri_fkIsLocal rel"
    and lf: "columnNamesToFields (ri_parent rel) [lc] = Inr [lf]"
    and rf: "columnNamesToFields (ri_related rel) [rc] = Inr [rf]"
    and zero: "struct_get parent lf = Some z" "struct_get u rf = Some y" "is_zero y"
    and key: "findPopulatedLookupKey (re_json env) (ri_related rel) u = Inr (Some key)"
    and upd: "repo_update env cfg (ri_related rel) (lk_fields key) (inc_fields (rel_include (ri_opts rel))) u db = (db', Inr 1)"
  shows "put_related_model env cfg rel pkf (db, parent) (VPtr u) = (((db', parent), VPtr u), Inr ())"
proof -
  have "copyFKValues rel parent u = Inr (parent, u)"
    using assms(2) zero by (simp add: copyFKValues_def cols copyFK_pair_def lf rf field_of_def)
  then show ?thesis
    using putSingle_update_keeps_model [OF key upd]
    by (simp add: put_related_model_def copyFK_into_def repoint_def)
qed

definition ex_known_account :: gval where
  "ex_known_account = VStruct [(''ID'', VStr []), (''Company'', VStr ''Acme''), (''ContactEmail'', VStr [])]"

theorem known_related_model_is_not_linked_witness:
  "\<exists>db'. put_related_model log_env zormtest_cfg ex_relInfo [''ID''] ([], ex_user) (VPtr ex_known_account) =
     (((db', ex_user), VPtr ex_known_account), Inr ()) \<and> length db' = 1 \<and> struct_get ex_user ''AccountID'' = Some (VStr [])"
proof -
  obtain key where key: "findPopulatedLookupKey (re_json log_env) AccountMapping ex_known_account = Inr (Some key)" "lk_fields key = [''Company'']"
    by (simp add: log_env_def ex_json_def ex_known_account_def findPopulatedLookupKey_def primaryKeyFields_def
        columnNamesToFields_def zormtest_defs field_of_def extractFields_def newLookupKey_def)
  let ?upd = "repo_update log_env zormtest_cfg AccountMapping [''Company''] [] ex_known_account []"
  have "snd ?upd = Inr 1" by code_simp
  then have u: "?upd = (fst ?upd, Inr 1)" by (metis prod.collapse)
  have "length (fst ?upd) = 1" by code_simp
  moreover have "put_related_model log_env zormtest_cfg ex_relInfo [''ID''] ([], ex_user) (VPtr ex_known_account) =
      (((fst ?upd, ex_user), VPtr ex_known_account), Inr ())"
  proof (rule known_related_model_is_not_linked [where lc = "''account_id''" and rc = "''id''" and lf = "''AccountID''" and rf = "''ID''" and z = "VStr []" and y = "VStr []"])
    show "findPopulatedLookupKey (re_json log_env) (ri_related ex_relInfo) ex_known_account = Inr (Some key)"
      using key by (simp add: ex_relInfo_def)
    show "repo_update log_env zormtest_cfg (ri_related ex_relInfo) (lk_fields key)
        (inc_fields (rel_include (ri_opts ex_relInfo))) ex_known_account [] = (fst ?upd, Inr 1)"
      using u key(2) by (simp add: ex_relInfo_def)
  qed (simp_all add: ex_relInfo_def zormtest_defs columnNamesToFields_def Let_def ex_user_def ex_known_account_def)
  ultimately show ?thesis by (auto simp: ex_user_def)
qed

text \<open>An inserted model whose primary key is of an integer type other than \<^verbatim>\<open>int64\<close>: the row is written,
  then storing the id panics.\<close>

lemma insert_id_panics:
  assumes "map_res (field_of val) (fst (insertFields m flds)) = Inr vs"
    and "re_exec env db (insert_query (re_driver env) m (snd (insertFields m flds))) vs = (db', Inr (Inr n, Inr i))"
    and "i \<noteq> 0" "struct_field m pk = Some (TInt w)" "w \<noteq> 64"
  shows "\<exists>p. repo_insert env m [pk] flds (db, val) = ((db', val), Inl (Panic p))"
  using assms by (simp add: repo_insert_def split_beta sql_exec_def set_id_def)

text \<open>A nil slice in a to-many relation of a put is an empty list: with no model provided, every row
  found is an orphan.\<close>

lemma nothing_provided:
  "orphans_of sprint pkf [] existing = filter (\<lambda>e. extractPKString sprint e pkf \<noteq> []) existing"
  by (simp add: orphans_of_def)

text \<open>Two primary keys of two columns that are one string to \<^verbatim>\<open>extractPKString\<close>.\<close>

lemma extractPKString_collides:
  "extractPKString (\<lambda>v. case v of VStr s \<Rightarrow> s | _ \<Rightarrow> [])
     (VPtr (VStruct [(''A'', VStr ''x|y''), (''B'', VStr ''z'')])) [''A'', ''B''] =
   extractPKString (\<lambda>v. case v of VStr s \<Rightarrow> s | _ \<Rightarrow> [])
     (VPtr (VStruct [(''A'', VStr ''x''), (''B'', VStr ''y|z'')])) [''A'', ''B'']"
  by (simp add: extractPKString_def)

text \<open>No panic leaves the four operations.\<close>

lemma operations_do_not_panic:
  "repo_Find fe cfg ty old cap fo \<noteq> Inl (Panic p)"
  "snd (repo_Get env cfg db ty objs incl) \<noteq> Inl (Panic p)"
  "snd (repo_Put env cfg db ty objs po) \<noteq> Inl (Panic p)"
  "snd (repo_Delete env cfg db ty objs incl) \<noteq> Inl (Panic p)"
  by (auto simp: repo_Find_def repo_Get_def repo_Put_def repo_Delete_def recover_run_def recover_in_def
      split: sum.splits error.splits)

end
