(* ===== verification/Zormsql_Transaction.thy ===== *)
theory Zormsql_Transaction
  imports Zormsql_Repo_Laws
begin

text \<open>
  The repository and its transactions, \<^verbatim>\<open>repo.go\<close>: \<^verbatim>\<open>NewRepository\<close>, \<^verbatim>\<open>Repository.Begin\<close>,
  \<^verbatim>\<open>Transaction.Commit\<close> and \<^verbatim>\<open>Transaction.Rollback\<close>, and what a Put inside a transaction leaves behind.
  A connection has two query executors over the state of the database: its own, and the one of the
  transactions it begins.
\<close>

section \<open>Repositories\<close>

record 'd transactor =
  tr_conn :: "'d repo_env"
  tr_tx :: "'d tx_ops"
  tr_in_tx :: "'d repo_env"

record 'd queryer =
  qy_cfg :: config
  qy_conn :: "'d repo_env"

record 'd repository =
  rp_queryer :: "'d queryer"
  rp_ts :: "'d transactor"

record 'd transaction =
  tn_queryer :: "'d queryer"
  tn_tx :: "'d tx_ops"

definition NewRepository :: "string \<Rightarrow> 'd transactor \<Rightarrow> 'd repository" where
  "NewRepository name conn =
     (let cfg = \<lparr>cfg_name = name, cfg_mappings = []\<rparr>
      in \<lparr>rp_queryer = \<lparr>qy_cfg = cfg, qy_conn = tr_conn conn\<rparr>, rp_ts = conn\<rparr>)"

definition repository_AddMapping :: "'d repository \<Rightarrow> mapping \<Rightarrow> 'd repository res" where
  "repository_AddMapping r m =
     bind_res (addMapping (qy_cfg (rp_queryer r)) m)
       (\<lambda>cfg. Inr (r\<lparr>rp_queryer := (rp_queryer r)\<lparr>qy_cfg := cfg\<rparr>\<rparr>))"

definition repository_Begin :: "'d repository \<Rightarrow> 'd \<Rightarrow> 'd \<times> 'd transaction res" where
  "repository_Begin r s =
     (let (s', u) = tx_begin (tr_tx (rp_ts r)) s in
      (s', bind_res (wrap_res ''startin transaction'' u) (\<lambda>_.
         Inr \<lparr>tn_queryer = \<lparr>qy_cfg = qy_cfg (rp_queryer r), qy_conn = tr_in_tx (rp_ts r)\<rparr>,
              tn_tx = tr_tx (rp_ts r)\<rparr>)))"

definition transaction_Commit :: "'d transaction \<Rightarrow> 'd \<Rightarrow> 'd \<times> unit res" where
  "transaction_Commit t s = wrap_run ''committing transaction'' (tx_commit (tn_tx t) s)"

definition transaction_Rollback :: "'d transaction \<Rightarrow> 'd \<Rightarrow> 'd \<times> unit res" where
  "transaction_Rollback t s = wrap_run ''rolling back transaction'' (tx_rollback (tn_tx t) s)"

definition queryer_Put :: "'d queryer \<Rightarrow> 'd \<Rightarrow> gotype option \<Rightarrow> gval list \<Rightarrow> put_options \<Rightarrow>
    ('d \<times> gval list) \<times> unit res" where
  "queryer_Put q = repo_Put (qy_conn q) (qy_cfg q)"

text \<open>The configuration is shared by pointer: a mapping that is added after \<^verbatim>\<open>Begin\<close> is seen by the
  transaction too, which the model of \<open>repository_Begin\<close> does not show.\<close>

lemma mappings_registered:
  "fold_res repository_AddMapping r ms =
     bind_res (fold_res addMapping (qy_cfg (rp_queryer r)) ms)
       (\<lambda>cfg. Inr (r\<lparr>rp_queryer := (rp_queryer r)\<lparr>qy_cfg := cfg\<rparr>\<rparr>))"
  by (induction ms arbitrary: r) (simp_all add: repository_AddMapping_def bind_res_def split: sum.splits)

section \<open>Put inside a transaction\<close>

text \<open>The statements of a transaction leave what is durable alone.\<close>

definition isolated :: "'s repo_env \<Rightarrow> ('s \<Rightarrow> 'd) \<Rightarrow> bool" where
  "isolated env durable \<longleftrightarrow> (\<forall>s q vs. durable (fst (re_exec env s q vs)) = durable s)"

lemma isolated_kept: "isolated env durable \<Longrightarrow> kept_by_matched env (\<lambda>s. durable s = d)"
  by (simp add: isolated_def kept_by_matched_def)

lemma put_isolated:
  assumes "isolated env durable" "re_driver env \<in> {mysql_driver, sqlite3_driver}" "quiet_cfg cfg"
    and "map_of (cfg_mappings cfg) (typeID ty) = Some m" "writable cfg m (po_include opts)"
  shows "durable (fst (fst (repo_Put env cfg s (Some (TSlice ty)) objs opts))) = durable s"
proof -
  from assms(2) have "sql_driver (re_driver env)"
    by (auto intro: mysql.sql_driver_axioms sqlite3.sql_driver_axioms)
  from sql_driver.repo_put_kept [OF this isolated_kept [OF assms(1), of "durable s"] refl assms(3) refl assms(4,5)]
  show ?thesis by (simp add: repo_Put_def recover_run_def)
qed

text \<open>C10: A Put in a transaction of the repository, with all its cascades and on every error path, changes
  nothing durable by itself: rolling the transaction back afterwards leaves the database as it was
  before \<^verbatim>\<open>Begin\<close>, and committing it makes exactly the state durable that the Put left in the
  transaction.\<close>

theorem transaction_put_atomic:
  assumes "tx_store (tr_tx conn) durable working"
    and reg: "fold_res repository_AddMapping (NewRepository name conn) ms = Inr repo"
    and "working s = None" and begin_: "repository_Begin repo s = (s1, Inr t)"
    and put: "queryer_Put (tn_queryer t) s1 (Some (TSlice ty)) objs opts = ((s2, objs'), r)"
    and tx: "isolated (tr_in_tx conn) durable" "re_driver (tr_in_tx conn) \<in> {mysql_driver, sqlite3_driver}"
    and m: "map_of (cfg_mappings (qy_cfg (rp_queryer repo))) (typeID ty) = Some m"
      "quiet_cfg (qy_cfg (rp_queryer repo))" "writable (qy_cfg (rp_queryer repo)) m (po_include opts)"
  shows "durable s2 = durable s \<and>
    (transaction_Rollback t s2 = (s3, Inr ()) \<longrightarrow> durable s3 = durable s \<and> working s3 = None) \<and>
    (transaction_Commit t s2 = (s4, Inr ()) \<longrightarrow> (\<forall>w. working s2 = Some w \<longrightarrow> durable s4 = w \<and> working s4 = None))"
proof -
  note store = assms(1)
  have ts: "rp_ts repo = conn" using reg by (auto simp: mappings_registered NewRepository_def Let_def bind_res_Inr)
  obtain u where b: "tx_begin (tr_tx conn) s = (s1, Inr u)"
    and t: "tn_tx t = tr_tx conn" "tn_queryer t = \<lparr>qy_cfg = qy_cfg (rp_queryer repo), qy_conn = tr_in_tx conn\<rparr>"
    using begin_ ts by (cases "tx_begin (tr_tx conn) s") (auto simp: repository_Begin_def bind_res_Inr)
  have "durable s1 = durable s" using tx_store.begin_ok [OF store, of s u] b assms(3) by simp
  moreover have "durable s2 = durable s1"
    using put_isolated [OF tx m(2,1,3), of s1 objs] put t(2) by (simp add: queryer_Put_def)
  moreover have "durable s3 = durable s2 \<and> working s3 = None" if "transaction_Rollback t s2 = (s3, Inr ())"
    using that t(1) tx_store.rollback_any [OF store, of s2] tx_store.rollback_ok [OF store, of s2 "()"]
    by (cases "tx_rollback (tr_tx conn) s2") (simp add: transaction_Rollback_def)
  moreover have "durable s4 = w \<and> working s4 = None"
    if "transaction_Commit t s2 = (s4, Inr ())" "working s2 = Some w" for w
    using that t(1) tx_store.commit_ok [OF store, of s2 "()" w]
    by (cases "tx_commit (tr_tx conn) s2") (simp add: transaction_Commit_def)
  ultimately show ?thesis by simp
qed

text \<open>A database that keeps the statements of a transaction apart until it is committed.\<close>

definition log_in_tx :: "((string \<times> gval list) list \<times> (string \<times> gval list) list option) repo_env" where
  "log_in_tx =
     \<lparr>re_driver = sqlite3_driver, re_query = (\<lambda>db q vs target. Inr ([], None)),
      re_exec = (\<lambda>s q vs. ((fst s, map_option (\<lambda>log. log @ [(q, vs)]) (snd s)), Inr (Inr 1, Inr 7))),
      re_sort = no_sort, re_sprint = (\<lambda>v. []), re_slug = (\<lambda>row. Inr []), re_json = ex_json, re_range = (\<lambda>g. g)\<rparr>"

definition log_conn :: "((string \<times> gval list) list \<times> (string \<times> gval list) list option) transactor" where
  "log_conn = \<lparr>tr_conn = log_in_tx, tr_tx = copy_db, tr_in_tx = log_in_tx\<rparr>"

text \<open>The Put of a user fails after three statements: the select that follows finds no row.\<close>

theorem transaction_put_atomic_witness:
  "\<exists>repo t s2 objs' e s3.
     fold_res repository_AddMapping (NewRepository ''test'' log_conn)
       [AccountMapping, UserAddressMapping, UserMapping, UserAuthMapping] = Inr repo \<and>
     repository_Begin repo ([], None) = (([], Some []), Inr t) \<and>
     queryer_Put (tn_queryer t) ([], Some []) (Some (TSlice (ptr_type UserMapping))) [ex_new_user] ex_put = ((s2, objs'), Inl e) \<and>
     map_option length (snd s2) = Some 3 \<and> transaction_Rollback t s2 = (s3, Inr ()) \<and> s3 = ([], None)"
proof -
  let ?repo = "\<lparr>rp_queryer = \<lparr>qy_cfg = zormtest_cfg, qy_conn = log_in_tx\<rparr>, rp_ts = log_conn\<rparr>"
  let ?t = "\<lparr>tn_queryer = \<lparr>qy_cfg = zormtest_cfg, qy_conn = log_in_tx\<rparr>, tn_tx = copy_db\<rparr>"
  let ?put = "queryer_Put (tn_queryer ?t) ([], Some []) (Some (TSlice (ptr_type UserMapping))) [ex_new_user] ex_put"
  have reg: "fold_res repository_AddMapping (NewRepository ''test'' log_conn)
       [AccountMapping, UserAddressMapping, UserMapping, UserAuthMapping] = Inr ?repo"
    using zormtest_registered by (simp add: mappings_registered NewRepository_def log_conn_def del: fold_res.simps)
  have b: "repository_Begin ?repo ([], None) = (([], Some []), Inr ?t)"
    by (simp add: repository_Begin_def log_conn_def copy_db_def)
  have "isl (snd ?put)" by code_simp
  then obtain e where e: "snd ?put = Inl e" by (auto simp: isl_def)
  obtain s2 os where p: "fst ?put = (s2, os)" by (metis surj_pair)
  have "map_option length (snd (fst (fst ?put))) = Some 3" by code_simp
  then have n: "map_option length (snd s2) = Some 3" by (simp only: p fst_conv)
  have put: "?put = ((s2, os), Inl e)" using e p by (metis prod.collapse)
  have m: "map_of (cfg_mappings (qy_cfg (rp_queryer ?repo))) (typeID (ptr_type UserMapping)) = Some UserMapping"
    using zormtest_mapping(2) by (simp add: ptr_type_def zormtest_defs)
  have w: "writable (qy_cfg (rp_queryer ?repo)) UserMapping (po_include ex_put)" by code_simp
  have rb: "transaction_Rollback ?t s2 = ((fst s2, None), Inr ())"
    by (simp add: transaction_Rollback_def copy_db_def)
  have store: "tx_store (tr_tx log_conn) fst snd" using copy_db.tx_store_axioms by (simp add: log_conn_def)
  have tx: "isolated (tr_in_tx log_conn) fst" "re_driver (tr_in_tx log_conn) \<in> {mysql_driver, sqlite3_driver}"
    by (simp_all add: log_conn_def isolated_def log_in_tx_def)
  have q: "quiet_cfg (qy_cfg (rp_queryer ?repo))" using zormtest_quiet(1) by simp
  have "fst (fst s2, None) = fst ([] :: (string \<times> gval list) list, None)"
    using transaction_put_atomic [OF store reg _ b put tx m q w, of "(fst s2, None)"] rb by simp
  then have "(fst s2, None) = ([], None)" by simp
  with reg b put n rb show ?thesis by (intro exI conjI) (assumption | simp)+
qed

end
