(* ===== verification/Go_Url.thy ===== *)
theory Go_Url
  imports Go_Strings
begin

text \<open>
  What the code uses of Go's \<^verbatim>\<open>net/url\<close> and \<^verbatim>\<open>path\<close>: escaping and unescaping, cleaning of rooted paths and
  \<^verbatim>\<open>JoinPath\<close>. Each part of a URL has its own characters that stay as they are; they are an argument of
  \<open>url_escape\<close>. Text with bytes above 127 is escaped byte by byte.
\<close>

section \<open>Escaping\<close>

definition is_alnum :: "char \<Rightarrow> bool" where
  "is_alnum c \<longleftrightarrow> is_digit c \<or> (65 \<le> (of_char c :: nat) \<and> (of_char c :: nat) \<le> 90) \<or>
     (97 \<le> (of_char c :: nat) \<and> (of_char c :: nat) \<le> 122)"

definition hex_digit :: "nat \<Rightarrow> char" where
  "hex_digit n = (if n < 10 then char_of (48 + n) else char_of (55 + n))"

definition url_escape :: "string \<Rightarrow> string \<Rightarrow> string" where
  "url_escape keep s = concat (map (\<lambda>c.
     if is_alnum c \<or> c \<in> set ''-_.~'' \<or> c \<in> set keep then [c]
     else [CHR ''%'', hex_digit (of_char c div 16), hex_digit (of_char c mod 16)]) s)"

lemma url_escape_Cons: "url_escape keep (c # s) = url_escape keep [c] @ url_escape keep s"
  by (simp add: url_escape_def)

lemma url_escape_Nil [simp]: "url_escape keep [] = []"
  by (simp add: url_escape_def)

lemma hex_digit_inj: "hex_digit n = hex_digit m \<Longrightarrow> n < 16 \<Longrightarrow> m < 16 \<Longrightarrow> n = m"
proof -
  assume *: "hex_digit n = hex_digit m" "n < 16" "m < 16"
  have o: "of_char (hex_digit k) = (if k < 10 then 48 + k else 55 + k)" if "k < 16" for k :: nat
    using that by (simp add: hex_digit_def)
  from *(1) have "(of_char (hex_digit n) :: nat) = of_char (hex_digit m)" by simp
  then show ?thesis using o [OF *(2)] o [OF *(3)] *(2,3) by (simp split: if_splits)
qed

lemma char_hex: "(of_char c :: nat) div 16 = of_char d div 16 \<Longrightarrow> (of_char c :: nat) mod 16 = of_char d mod 16 \<Longrightarrow> c = d"
proof -
  assume "(of_char c :: nat) div 16 = of_char d div 16" "(of_char c :: nat) mod 16 = of_char d mod 16"
  then have "(of_char c :: nat) = of_char d" by (metis div_mult_mod_eq)
  then show "c = d" by simp
qed

lemma char_div16: "(of_char c :: nat) div 16 < 16"
  using nat_of_char_less_256 [of c] by linarith

lemma percent_escaped: "\<not> is_alnum CHR ''%''" "CHR ''%'' \<notin> set ''-_.~''"
  by (simp_all add: is_alnum_def is_digit_def)

lemma url_escape_inj:
  assumes "CHR ''%'' \<notin> set keep"
  shows "url_escape keep s = url_escape keep t \<Longrightarrow> s = t"
proof (induction s arbitrary: t)
  case Nil
  then show ?case by (cases t) (auto simp: url_escape_def split: if_splits)
next
  case (Cons c s)
  let ?plain = "\<lambda>c. is_alnum c \<or> c \<in> set ''-_.~'' \<or> c \<in> set keep"
  have e: "url_escape keep (c # s) = (if ?plain c then c # url_escape keep s
      else CHR ''%'' # hex_digit (of_char c div 16) # hex_digit (of_char c mod 16) # url_escape keep s)" for c s
    by (simp add: url_escape_def)
  have pc: "\<not> ?plain CHR ''%''" using assms percent_escaped by blast
  from Cons.prems obtain d t' where t: "t = d # t'" by (cases t) (simp_all add: e split: if_splits)
  have "c = d \<and> url_escape keep s = url_escape keep t'"
  proof (cases "?plain c")
    case c: True
    then show ?thesis
    proof (cases "?plain d")
      case True
      then show ?thesis using Cons.prems c unfolding t e by simp
    next
      case False
      then have "c = CHR ''%''" using Cons.prems c unfolding t e by simp
      then show ?thesis using c pc by blast
    qed
  next
    case c: False
    then show ?thesis
    proof (cases "?plain d")
      case True
      then have "d = CHR ''%''" using Cons.prems c unfolding t e by simp
      then show ?thesis using True pc by blast
    next
      case False
      then have "hex_digit (of_char c div 16) = hex_digit (of_char d div 16)" "hex_digit (of_char c mod 16) = hex_digit (of_char d mod 16)"
        "url_escape keep s = url_escape keep t'"
        using Cons.prems c unfolding t e by simp_all
      moreover have "(of_char x :: nat) div 16 < 16" for x
        by (rule char_div16)
      ultimately show ?thesis by (metis char_hex hex_digit_inj mod_less_divisor zero_less_numeral)
    qed
  qed
  then show ?case using Cons.IH t by blast
qed

lemma is_alnum_hex: "n < 16 \<Longrightarrow> is_alnum (hex_digit n)"
  by (auto simp: is_alnum_def is_digit_def hex_digit_def)

lemma url_escape_keeps_out: "x \<in> set (url_escape keep s) \<Longrightarrow> x \<in> set s \<or> is_alnum x \<or> x = CHR ''%''"
proof (induction s)
  case (Cons c s)
  have "(of_char c :: nat) div 16 < 16" by (rule char_div16)
  then show ?case
    using Cons is_alnum_hex [of "of_char c div 16"] is_alnum_hex [of "of_char c mod 16"]
    by (auto simp: url_escape_def split: if_splits)
qed simp

lemma url_escape_chars:
  "x \<in> set (url_escape keep s) \<Longrightarrow> is_alnum x \<or> x \<in> set ''-_.~%'' \<or> x \<in> set keep"
proof (induction s)
  case (Cons c s)
  have "(of_char c :: nat) div 16 < 16" by (rule char_div16)
  then show ?case
    using Cons is_alnum_hex [of "of_char c div 16"] is_alnum_hex [of "of_char c mod 16"]
    by (auto simp: url_escape_def split: if_splits)
qed simp

text \<open>\<^verbatim>\<open>unescape\<close> of a path: \<open>None\<close> for a percent sign without two hexadecimal digits.\<close>

definition hex_value :: "char \<Rightarrow> nat option" where
  "hex_value c =
     (let n = of_char c in
      if 48 \<le> n \<and> n \<le> 57 then Some (n - 48)
      else if 97 \<le> n \<and> n \<le> 102 then Some (n - 87)
      else if 65 \<le> n \<and> n \<le> 70 then Some (n - 55)
      else None)"

fun url_unescape :: "string \<Rightarrow> string option" where
  "url_unescape [] = Some []"
| "url_unescape (c # s) =
     (if c = CHR ''%'' then
        (case s of
           h # l # s' \<Rightarrow>
             (case (hex_value h, hex_value l) of
                (Some a, Some b) \<Rightarrow> map_option ((#) (char_of (16 * a + b))) (url_unescape s')
              | _ \<Rightarrow> None)
         | _ \<Rightarrow> None)
      else map_option ((#) c) (url_unescape s))"

lemma hex_value_digit: "n < 16 \<Longrightarrow> hex_value (hex_digit n) = Some n"
  by (auto simp: hex_value_def hex_digit_def Let_def)

lemma unescape_escape_append:
  assumes "CHR ''%'' \<notin> set keep"
  shows "url_unescape (url_escape keep s @ t) = map_option ((@) s) (url_unescape t)"
proof (induction s)
  case Nil
  show ?case by (cases "url_unescape t") simp_all
next
  case (Cons c s)
  have d: "(of_char c :: nat) div 16 < 16" by (rule char_div16)
  have m: "(of_char c :: nat) mod 16 < 16" by simp
  have c: "16 * ((of_char c :: nat) div 16) + of_char c mod 16 = of_char c" by simp
  have comp: "map_option ((#) c) (map_option ((@) s) x) = map_option ((@) (c # s)) x" for x
    by (cases x) simp_all
  show ?case
  proof (cases "is_alnum c \<or> c \<in> set ''-_.~'' \<or> c \<in> set keep")
    case True
    then have "url_escape keep [c] = [c]" "c \<noteq> CHR ''%''" using assms percent_escaped by (auto simp: url_escape_def)
    then show ?thesis by (subst url_escape_Cons) (simp add: Cons.IH comp)
  next
    case False
    then have "url_escape keep [c] = [CHR ''%'', hex_digit (of_char c div 16), hex_digit (of_char c mod 16)]"
      by (auto simp: url_escape_def)
    then show ?thesis
      by (subst url_escape_Cons) (simp add: Cons.IH comp hex_value_digit [OF d] hex_value_digit [OF m] c del: mult_div_mod_eq)
  qed
qed

lemma url_unescape_escape: "CHR ''%'' \<notin> set keep \<Longrightarrow> url_unescape (url_escape keep s) = Some s"
  using unescape_escape_append [of keep s "[]"] by simp

section \<open>Paths\<close>

text \<open>\<^verbatim>\<open>path.Clean\<close> of a path that begins with a slash: empty segments and dots go, two dots take the segment before
  them away. The first argument holds the segments kept so far, the last one first.\<close>

fun clean_segments :: "string list \<Rightarrow> string list \<Rightarrow> string list" where
  "clean_segments out [] = rev out"
| "clean_segments out (p # ps) =
     (if p = [] \<or> p = ''.'' then clean_segments out ps
      else if p = ''..'' then clean_segments (tl out) ps
      else clean_segments (p # out) ps)"

definition path_Clean :: "string \<Rightarrow> string" where
  "path_Clean p = CHR ''/'' # join ''/'' (clean_segments [] (split_on CHR ''/'' p))"

text \<open>\<^verbatim>\<open>(&url.URL{Path: root}).JoinPath(elem).Path\<close>. A result that cannot be unescaped leaves the path as it was.\<close>

definition escaped_path :: "string \<Rightarrow> string" where
  "escaped_path root = (if root = ''*'' then root else url_escape ''$&+,/:;=@'' root)"

definition url_JoinPath :: "string \<Rightarrow> string \<Rightarrow> string" where
  "url_JoinPath root elem =
     (let e = escaped_path root;
          rooted = has_prefix e ''/'';
          c = path_Clean ((if rooted then e else CHR ''/'' # e) @ CHR ''/'' # elem);
          p = (if rooted then c else tl c);
          p' = (if elem \<noteq> [] \<and> last elem = CHR ''/'' \<and> \<not> (p \<noteq> [] \<and> last p = CHR ''/'') then p @ ''/'' else p)
      in case url_unescape p' of None \<Rightarrow> root | Some path \<Rightarrow> path)"

text \<open>A segment that cleaning leaves alone\<close>

definition plain_segment :: "string \<Rightarrow> bool" where
  "plain_segment p \<longleftrightarrow> p \<noteq> [] \<and> p \<noteq> ''.'' \<and> p \<noteq> ''..''"

lemma clean_segments_append: "clean_segments out (xs @ ys) = clean_segments (rev (clean_segments out xs)) ys"
  by (induction out xs rule: clean_segments.induct) auto

lemma clean_plain: "\<forall>p \<in> set xs. p = [] \<or> plain_segment p \<Longrightarrow> clean_segments out xs = rev out @ filter (\<lambda>p. p \<noteq> []) xs"
  by (induction out xs rule: clean_segments.induct) (auto simp: plain_segment_def)

lemma split_on_sep: "split_on c (a @ c # b) = split_on c a @ split_on c b"
  by (induction a) (auto split: list.splits)

end
