(* ===== verification/Zamqp.thy ===== *)
theory Zamqp
  imports Go_Url Go_Values "HOL-Library.Signed_Division"
begin

text \<open>
  The messaging package \<^verbatim>\<open>go/zamqp\<close>: queues, exchanges and their declaration, messages and their
  encoding, publishers, and the delivery with its answers. The client library \<^verbatim>\<open>amqp091-go\<close> is the
  record \<open>amqp\<close>: what it does to the state \<open>'b\<close> of the broker and of the connections. \<^verbatim>\<open>zlib\<close>,
  \<^verbatim>\<open>encoding/json\<close>, \<^verbatim>\<open>cast.ToIntE\<close> and the constants of the client library are the record \<open>amqp_lib\<close>.
  A \<^verbatim>\<open>nil\<close> map reads like an empty one everywhere in this package and is the empty list.
\<close>

section \<open>Connection details\<close>

record connection_details =
  cd_user :: string
  cd_pass :: string
  cd_host :: string
  cd_port :: int
  cd_vhost :: string

definition NewConnectionDetails :: "string \<Rightarrow> string \<Rightarrow> string \<Rightarrow> int \<Rightarrow> string \<Rightarrow> connection_details" where
  "NewConnectionDetails user pass host port vhost =
     \<lparr>cd_user = user, cd_pass = pass, cd_host = host, cd_port = port, cd_vhost = vhost\<rparr>"

text \<open>\<^verbatim>\<open>u.String()\<close>: the user information, the host and the path are escaped with their own characters kept.\<close>

definition connection_URI :: "connection_details \<Rightarrow> string" where
  "connection_URI d =
     (let u = ''amqp://'' @ url_escape ''$&+,;='' (cd_user d) @ '':'' @ url_escape ''$&+,;='' (cd_pass d) @ ''@'' @
              url_escape ([CHR 0x27, CHR 0x22] @ ''!$&()*+,;=:[]<>'') (cd_host d @ '':'' @ int_str (cd_port d))
      in if cd_vhost d = ''/'' then u @ ''/%2F''
         else if cd_vhost d \<noteq> [] then u @ url_escape ''$&+,/:;=@'' (CHR ''/'' # cd_vhost d)
         else u)"

section \<open>Queues, exchanges, bindings\<close>

type_synonym amqp_table = "(string, gval) gomap"

definition toTable :: "amqp_table \<Rightarrow> amqp_table" where
  "toTable m = map_merge [] m"

record amqp_queue =
  q_name :: string
  q_nonDurable :: bool
  q_autoDelete :: bool
  q_exclusive :: bool
  q_options :: amqp_table

record amqp_exchange =
  e_name :: string
  e_type :: string
  e_nonDurable :: bool
  e_autoDelete :: bool
  e_internal :: bool
  e_options :: amqp_table

record amqp_binding =
  b_exchangeName :: string
  b_queueName :: string
  b_routingKey :: string
  b_options :: amqp_table

definition AnonymousExchange :: amqp_exchange where
  "AnonymousExchange =
     \<lparr>e_name = [], e_type = ''direct'', e_nonDurable = False, e_autoDelete = False, e_internal = False, e_options = []\<rparr>"

record declarations =
  dc_queues :: "amqp_queue list"
  dc_exchanges :: "amqp_exchange list"
  dc_bindings :: "amqp_binding list"

section \<open>The client library\<close>

text \<open>\<^verbatim>\<open>amqp091.Publishing\<close> and \<^verbatim>\<open>amqp091.Delivery\<close>, the fields the package uses\<close>

record publishing =
  pb_body :: string
  pb_headers :: amqp_table
  pb_contentType :: string
  pb_contentEncoding :: string

record amqp_delivery =
  ad_body :: string
  ad_headers :: amqp_table
  ad_contentType :: string
  ad_contentEncoding :: string
  ad_tag :: nat

text \<open>\<^verbatim>\<open>Channel\<close>: the connection it belongs to and the channel of the library\<close>

record channel =
  ch_conn :: nat
  ch_channel :: nat

text \<open>What the \<^verbatim>\<open>select\<close> of \<^verbatim>\<open>Publish\<close> receives: the cancelled context or a confirmation\<close>

datatype confirmation = CtxDone error | Confirmed bool

record 'b amqp =
  aq_dial :: "string \<Rightarrow> 'b \<Rightarrow> 'b \<times> nat res"
  aq_closeConn :: "nat \<Rightarrow> 'b \<Rightarrow> 'b"
  aq_channel :: "nat \<Rightarrow> 'b \<Rightarrow> 'b \<times> nat res"
  aq_close :: "channel \<Rightarrow> 'b \<Rightarrow> 'b"
  aq_exchangeDeclare :: "channel \<Rightarrow> string \<Rightarrow> string \<Rightarrow> bool \<Rightarrow> bool \<Rightarrow> bool \<Rightarrow> bool \<Rightarrow> amqp_table \<Rightarrow> 'b \<Rightarrow> 'b \<times> unit res"
  aq_queueDeclare :: "channel \<Rightarrow> string \<Rightarrow> bool \<Rightarrow> bool \<Rightarrow> bool \<Rightarrow> bool \<Rightarrow> amqp_table \<Rightarrow> 'b \<Rightarrow> 'b \<times> unit res"
  aq_queueBind :: "channel \<Rightarrow> string \<Rightarrow> string \<Rightarrow> string \<Rightarrow> bool \<Rightarrow> amqp_table \<Rightarrow> 'b \<Rightarrow> 'b \<times> unit res"
  aq_confirm :: "channel \<Rightarrow> bool \<Rightarrow> 'b \<Rightarrow> 'b \<times> unit res"
  aq_publish :: "channel \<Rightarrow> string \<Rightarrow> string \<Rightarrow> bool \<Rightarrow> bool \<Rightarrow> publishing \<Rightarrow> 'b \<Rightarrow> 'b \<times> unit res"
  aq_wait :: "channel \<Rightarrow> 'b \<Rightarrow> 'b \<times> confirmation"
  aq_qos :: "channel \<Rightarrow> nat \<Rightarrow> 'b \<Rightarrow> 'b \<times> unit res"
  aq_consume :: "channel \<Rightarrow> string \<Rightarrow> 'b \<Rightarrow> 'b \<times> unit res"
  aq_ack :: "channel \<Rightarrow> nat \<Rightarrow> bool \<Rightarrow> 'b \<Rightarrow> 'b \<times> unit res"
  aq_nack :: "channel \<Rightarrow> nat \<Rightarrow> bool \<Rightarrow> bool \<Rightarrow> 'b \<Rightarrow> 'b \<times> unit res"

text \<open>The writer of \<^verbatim>\<open>zlib\<close> is seen through the buffer it fills: \<open>al_write\<close> is what \<^verbatim>\<open>io.Copy\<close> leaves in it,
  \<open>al_flush\<close> and \<open>al_finish\<close> what \<^verbatim>\<open>Flush\<close> and \<^verbatim>\<open>Close\<close> leave. \<open>al_reader\<close> is \<^verbatim>\<open>zlib.NewReader\<close>, the
  reader being the result of \<^verbatim>\<open>io.ReadAll\<close> on it. \<open>al_unmarshal\<close> is \<^verbatim>\<open>json.Unmarshal\<close>, its result the
  value the target holds afterwards.\<close>

record 'v amqp_lib =
  al_write :: "string \<Rightarrow> string res"
  al_flush :: "string \<Rightarrow> string res"
  al_finish :: "string \<Rightarrow> string res"
  al_reader :: "string \<Rightarrow> string res res"
  al_unmarshal :: "string \<Rightarrow> 'v res"
  al_toInt :: "gval \<Rightarrow> int res"
  al_messageTTLArg :: string
  al_overflowArg :: string
  al_overflowRejectPublish :: string
  al_typeArg :: string
  al_typeQuorum :: string

definition newChannel :: "'b amqp \<Rightarrow> nat \<Rightarrow> 'b \<Rightarrow> 'b \<times> channel res" where
  "newChannel am conn b =
     run_then (wrap_run ''opening channel'' (aq_channel am conn b))
       (\<lambda>b' ac. (b', Inr \<lparr>ch_conn = conn, ch_channel = ac\<rparr>))"

section \<open>Declarations\<close>

definition declare_exchange :: "'b amqp \<Rightarrow> channel \<Rightarrow> 'b \<Rightarrow> amqp_exchange \<Rightarrow> 'b \<times> unit res" where
  "declare_exchange am ch b e =
     wrap_run (''exchange declaration for '' @ [CHR 0x27] @ e_name e @ [CHR 0x27] @ '' failed'')
       (aq_exchangeDeclare am ch (e_name e) (e_type e) (\<not> e_nonDurable e) (e_autoDelete e) (e_internal e) False
          (toTable (e_options e)) b)"

definition declare_queue :: "'b amqp \<Rightarrow> channel \<Rightarrow> 'b \<Rightarrow> amqp_queue \<Rightarrow> 'b \<times> unit res" where
  "declare_queue am ch b q =
     wrap_run (''queue declaration for '' @ [CHR 0x27] @ q_name q @ [CHR 0x27] @ '' failed'')
       (aq_queueDeclare am ch (q_name q) (\<not> q_nonDurable q) (q_autoDelete q) (q_exclusive q) False
          (toTable (q_options q)) b)"

definition declare_binding :: "'b amqp \<Rightarrow> channel \<Rightarrow> 'b \<Rightarrow> amqp_binding \<Rightarrow> 'b \<times> unit res" where
  "declare_binding am ch b x =
     wrap_run (''binding declaration for '' @ [CHR 0x27] @ b_exchangeName x @ [CHR 0x27] @ ''->'' @
               [CHR 0x27] @ b_queueName x @ [CHR 0x27] @ '' failed'')
       (aq_queueBind am ch (b_queueName x) (b_routingKey x) (b_exchangeName x) False (toTable (b_options x)) b)"

definition ExecuteDeclarations :: "'b amqp \<Rightarrow> channel \<Rightarrow> declarations \<Rightarrow> 'b \<Rightarrow> 'b \<times> unit res" where
  "ExecuteDeclarations am ch d b =
     run_then (fold_run (declare_exchange am ch) b (dc_exchanges d)) (\<lambda>b1 _.
     run_then (fold_run (declare_queue am ch) b1 (dc_queues d)) (\<lambda>b2 _.
     fold_run (declare_binding am ch) b2 (dc_bindings d)))"

section \<open>Durations\<close>

text \<open>A duration is a number of nanoseconds. \<^verbatim>\<open>Duration.String\<close>: the fraction without trailing zeros, hours,
  minutes and seconds without leading zero units; below a second a smaller unit. The micro sign
  has two bytes.\<close>

fun frac_digits :: "nat \<Rightarrow> int \<Rightarrow> bool \<Rightarrow> string \<Rightarrow> string" where
  "frac_digits 0 v printing acc = (if printing then CHR ''.'' # acc else acc)"
| "frac_digits (Suc prec) v printing acc =
     (let digit = v mod 10; printing = (printing \<or> digit \<noteq> 0)
      in frac_digits prec (v div 10) printing (if printing then char_of (48 + nat digit) # acc else acc))"

definition with_frac :: "nat \<Rightarrow> int \<Rightarrow> string" where
  "with_frac prec v = frac_digits prec v False []"

definition duration_string :: "int \<Rightarrow> string" where
  "duration_string d =
     (let u = \<bar>d\<bar>; sign = (if d < 0 then ''-'' else [])
      in sign @
         (if u = 0 then ''0s''
          else if u < 1000 then int_str u @ ''ns''
          else if u < 1000000 then int_str (u div 1000) @ with_frac 3 u @ [CHR 0xC2, CHR 0xB5, CHR ''s'']
          else if u < 1000000000 then int_str (u div 1000000) @ with_frac 6 u @ ''ms''
          else (let s = u div 1000000000; m = s div 60; h = m div 60
                in (if 0 < h then int_str h @ ''h'' else []) @
                   (if 0 < m then int_str (m mod 60) @ ''m'' else []) @
                   int_str (s mod 60) @ with_frac 9 u @ ''s'')))"

section \<open>Messages\<close>

record message_options =
  mo_compress :: bool
  mo_routingKey :: string
  mo_headers :: amqp_table
  mo_skipExchangeDeclaration :: bool

text \<open>The interface \<^verbatim>\<open>Message\<close>\<close>

record message =
  ms_content :: "(string \<times> string) res"
  ms_options :: message_options
  ms_exchange :: amqp_exchange

record raw_message =
  rm_data :: string
  rm_contentType :: string
  rm_headers :: amqp_table
  rm_exchange :: amqp_exchange
  rm_opts :: message_options

definition NewRawMessage :: "string \<Rightarrow> string \<Rightarrow> amqp_exchange \<Rightarrow> message_options \<Rightarrow> raw_message" where
  "NewRawMessage data contentType exchange opts =
     \<lparr>rm_data = data, rm_contentType = contentType, rm_headers = mo_headers opts, rm_exchange = exchange, rm_opts = opts\<rparr>"

definition RawMessage :: "raw_message \<Rightarrow> message" where
  "RawMessage m = \<lparr>ms_content = Inr (rm_data m, rm_contentType m), ms_options = rm_opts m, ms_exchange = rm_exchange m\<rparr>"

definition MarshalJsonContent :: "('v \<Rightarrow> string res) \<Rightarrow> 'v \<Rightarrow> (string \<times> string) res" where
  "MarshalJsonContent marshal v = bind_res (marshal v) (\<lambda>data. Inr (data, ''application/json''))"

definition messageToPublishing :: "'v amqp_lib \<Rightarrow> message \<Rightarrow> publishing res" where
  "messageToPublishing al msg =
     bind_res (wrap_res ''getting message content'' (ms_content msg)) (\<lambda>(content, contentType).
     bind_res (if mo_compress (ms_options msg) then
                 bind_res (wrap_res ''preparing message body compression'' (al_write al content)) (\<lambda>w1.
                 bind_res (wrap_res ''flushing message body compression'' (al_flush al w1)) (\<lambda>w2.
                 bind_res (wrap_res ''closing messaging body compression'' (al_finish al w2)) (\<lambda>w3.
                   Inr (w3, ''compress''))))
               else Inr (content, ''identity'')) (\<lambda>(body, contentEncoding).
     Inr \<lparr>pb_body = body, pb_headers = toTable (mo_headers (ms_options msg)),
          pb_contentType = contentType, pb_contentEncoding = contentEncoding\<rparr>))"

definition HeaderAttempt :: string where
  "HeaderAttempt = ''x-zote-attempt''"

definition attempt :: "'v amqp_lib \<Rightarrow> amqp_table \<Rightarrow> int" where
  "attempt al hs =
     (case map_of hs HeaderAttempt of
        None \<Rightarrow> 1
      | Some v \<Rightarrow> (case al_toInt al v of Inl e \<Rightarrow> 1 | Inr i \<Rightarrow> i))"

section \<open>Messages that go back to the broker\<close>

record requeue_message =
  rq_data :: string
  rq_contentType :: string
  rq_originalQueueName :: string
  rq_headers :: amqp_table
  rq_delay :: int
  rq_queue :: "amqp_queue option"
  rq_kind :: string

text \<open>The sum is that of 64-bit integers.\<close>

definition finalHeaders :: "'v amqp_lib \<Rightarrow> requeue_message \<Rightarrow> amqp_table" where
  "finalHeaders al m =
     map_put HeaderAttempt
       (VInt (if rq_kind m = ''retry'' then signed_take_bit 63 (attempt al (rq_headers m) + 1) else 1))
       (map_merge [] (rq_headers m))"

text \<open>The queue that is waited in, and the message that remembers it. Division of durations truncates.\<close>

definition queueDefinition :: "'v amqp_lib \<Rightarrow> requeue_message \<Rightarrow> requeue_message \<times> amqp_queue" where
  "queueDefinition al m =
     (case rq_queue m of
        Some q \<Rightarrow> (m, q)
      | None \<Rightarrow>
          (let name = rq_kind m @ ''-'' @ rq_originalQueueName m;
               q = (if rq_kind m = ''retry'' then
                      \<lparr>q_name = name @ ''-'' @ duration_string (rq_delay m),
                       q_nonDurable = False, q_autoDelete = False, q_exclusive = False,
                       q_options =
                         [(al_messageTTLArg al, VInt (rq_delay m sdiv 1000000)),
                          (al_overflowArg al, VStr (al_overflowRejectPublish al)),
                          (al_typeArg al, VStr (al_typeQuorum al)),
                          (''x-dead-letter-exchange'', VStr []),
                          (''x-dead-letter-routing-key'', VStr (rq_originalQueueName m)),
                          (''x-dead-letter-strategy'', VStr ''at-least-once'')]\<rparr>
                    else
                      \<lparr>q_name = name, q_nonDurable = False, q_autoDelete = False, q_exclusive = False, q_options = []\<rparr>)
           in (m\<lparr>rq_queue := Some q\<rparr>, q)))"

definition RequeueMessage :: "'v amqp_lib \<Rightarrow> requeue_message \<Rightarrow> message" where
  "RequeueMessage al m =
     \<lparr>ms_content = Inr (rq_data m, rq_contentType m),
      ms_options = \<lparr>mo_compress = False, mo_routingKey = q_name (snd (queueDefinition al m)),
        mo_headers = finalHeaders al m, mo_skipExchangeDeclaration = False\<rparr>,
      ms_exchange = AnonymousExchange\<rparr>"

section \<open>Publishers\<close>

definition await_confirm :: "'b amqp \<Rightarrow> channel \<Rightarrow> 'b \<Rightarrow> 'b \<times> unit res" where
  "await_confirm am ch b =
     (case aq_wait am ch b of
        (b', CtxDone e) \<Rightarrow> (b', Inl (wrap_err ''context canceled while publishing'' e))
      | (b', Confirmed ack) \<Rightarrow> (b', if ack then Inr () else Inl (Errorf ''amqp server rejected publish'')))"

definition publish_on :: "'v amqp_lib \<Rightarrow> 'b amqp \<Rightarrow> channel \<Rightarrow> message \<Rightarrow> 'b \<Rightarrow> 'b \<times> unit res" where
  "publish_on al am ch msg b =
     run_then (if \<not> mo_skipExchangeDeclaration (ms_options msg) \<and> e_name (ms_exchange msg) \<noteq> e_name AnonymousExchange
               then wrap_run ''declaring exchange''
                      (ExecuteDeclarations am ch \<lparr>dc_queues = [], dc_exchanges = [ms_exchange msg], dc_bindings = []\<rparr> b)
               else (b, Inr ())) (\<lambda>b1 _.
     run_then (wrap_run ''enabling confirm mode'' (aq_confirm am ch False b1)) (\<lambda>b2 _.
     case wrap_res ''preparing publishing'' (messageToPublishing al msg) of
       Inl e \<Rightarrow> (b2, Inl e)
     | Inr p \<Rightarrow>
         run_then (wrap_run ''publishing''
             (aq_publish am ch (e_name (ms_exchange msg)) (mo_routingKey (ms_options msg)) True False
                (p\<lparr>pb_headers := map_merge (pb_headers p) (mo_headers (ms_options msg))\<rparr>) b2)) (\<lambda>b3 _.
           await_confirm am ch b3)))"

text \<open>\<^verbatim>\<open>connPublisher.Publish\<close>: the channel is closed on every path.\<close>

definition connPublisher_Publish :: "'v amqp_lib \<Rightarrow> 'b amqp \<Rightarrow> nat \<Rightarrow> message \<Rightarrow> 'b \<Rightarrow> 'b \<times> unit res" where
  "connPublisher_Publish al am conn msg b =
     run_then (wrap_run ''opening channel'' (newChannel am conn b)) (\<lambda>b1 ch.
       let (b2, r) = publish_on al am ch msg b1 in (aq_close am ch b2, r))"

definition Dial :: "'b amqp \<Rightarrow> connection_details \<Rightarrow> 'b \<Rightarrow> 'b \<times> nat res" where
  "Dial am details b = wrap_run ''dialing amqp server'' (aq_dial am (connection_URI details) b)"

definition dsnPublisher_Publish :: "'v amqp_lib \<Rightarrow> 'b amqp \<Rightarrow> connection_details \<Rightarrow> message \<Rightarrow> 'b \<Rightarrow> 'b \<times> unit res" where
  "dsnPublisher_Publish al am details msg b =
     run_then (wrap_run ''dialing for publisher connection'' (Dial am details b)) (\<lambda>b1 conn.
       let (b2, r) = connPublisher_Publish al am conn msg b1 in (aq_closeConn am conn b2, r))"

section \<open>Deliveries\<close>

record delivery =
  dl_channel :: channel
  dl_queueName :: string
  dl_delivery :: amqp_delivery
  dl_complete :: bool

definition wrapDelivery :: "channel \<Rightarrow> string \<Rightarrow> amqp_delivery \<Rightarrow> delivery" where
  "wrapDelivery ch name d = \<lparr>dl_channel = ch, dl_queueName = name, dl_delivery = d, dl_complete = False\<rparr>"

definition delivery_Attempt :: "'v amqp_lib \<Rightarrow> delivery \<Rightarrow> int" where
  "delivery_Attempt al m = attempt al (ad_headers (dl_delivery m))"

definition Parse :: "'v amqp_lib \<Rightarrow> delivery \<Rightarrow> 'v res" where
  "Parse al m =
     (let d = dl_delivery m in
      if ad_contentType d \<noteq> ''application/json''
      then Inl (Errorf (''unsupported content type '' @ [CHR 0x27] @ ad_contentType d @ [CHR 0x27] @
                        '', parse the body directly''))
      else bind_res
             (if ad_contentEncoding d = ''identity'' \<or> ad_contentEncoding d = [] then Inr (Inr (ad_body d))
              else if ad_contentEncoding d = ''compress'' then wrap_res ''making zlib reader'' (al_reader al (ad_body d))
              else Inl (Errorf (''unsupported content encoding '' @ [CHR 0x27] @ ad_contentEncoding d @ [CHR 0x27] @
                        '', parse the body directly''))) (\<lambda>decoder.
           bind_res (wrap_res ''decoding message body'' decoder) (\<lambda>decoded.
             wrap_res ''parsing decoded message body'' (al_unmarshal al decoded))))"

text \<open>\<^verbatim>\<open>respond\<close>: the whole of it runs under the lock of the delivery, so calls from several goroutines are
  a sequence of calls.\<close>

definition respond :: "('b \<Rightarrow> 'b \<times> unit res) \<Rightarrow> 'b \<times> delivery \<Rightarrow> ('b \<times> delivery) \<times> unit res" where
  "respond cb s =
     (if dl_complete (snd s) then (s, Inl (Errorf ''message already responded to''))
      else let (b, r) = cb (fst s) in
        case wrap_res ''responding to message'' r of
          Inl e \<Rightarrow> ((b, snd s), Inl e)
        | Inr _ \<Rightarrow> ((b, (snd s)\<lparr>dl_complete := True\<rparr>), Inr ()))"

text \<open>\<^verbatim>\<open>requeue\<close>: the queue is declared on the channel of the delivery, the message is published on a channel of
  its own, and only a confirmed message is taken from its old queue.\<close>

definition requeue :: "'v amqp_lib \<Rightarrow> 'b amqp \<Rightarrow> delivery \<Rightarrow> requeue_message \<Rightarrow> 'b \<Rightarrow> 'b \<times> unit res" where
  "requeue al am m msg b =
     (let (msg', q) = queueDefinition al msg in
      run_then (wrap_run ''executing declarations''
                 (ExecuteDeclarations am (dl_channel m) \<lparr>dc_queues = [q], dc_exchanges = [], dc_bindings = []\<rparr> b)) (\<lambda>b1 _.
      run_then (wrap_run (''publishing '' @ rq_kind msg)
                 (connPublisher_Publish al am (ch_conn (dl_channel m)) (RequeueMessage al msg') b1)) (\<lambda>b2 _.
      wrap_run (''rejecting message after publishing '' @ rq_kind msg)
        (aq_nack am (dl_channel m) (ad_tag (dl_delivery m)) False False b2))))"

definition Ack :: "'b amqp \<Rightarrow> 'b \<times> delivery \<Rightarrow> ('b \<times> delivery) \<times> unit res" where
  "Ack am s = wrap_run ''acking message''
     (respond (aq_ack am (dl_channel (snd s)) (ad_tag (dl_delivery (snd s))) False) s)"

definition Reject :: "'b amqp \<Rightarrow> 'b \<times> delivery \<Rightarrow> ('b \<times> delivery) \<times> unit res" where
  "Reject am s = wrap_run ''rejecting message''
     (respond (aq_nack am (dl_channel (snd s)) (ad_tag (dl_delivery (snd s))) False False) s)"

definition back_message :: "delivery \<Rightarrow> string \<Rightarrow> string \<Rightarrow> int \<Rightarrow> string \<Rightarrow> requeue_message" where
  "back_message m content contentType delay kind =
     \<lparr>rq_data = content, rq_contentType = contentType, rq_originalQueueName = dl_queueName m,
      rq_headers = ad_headers (dl_delivery m), rq_delay = delay, rq_queue = None, rq_kind = kind\<rparr>"

definition RetryWithData :: "'v amqp_lib \<Rightarrow> 'b amqp \<Rightarrow> string \<Rightarrow> string \<Rightarrow> 'b \<times> delivery \<Rightarrow> ('b \<times> delivery) \<times> unit res" where
  "RetryWithData al am content contentType s = wrap_run ''retrying message''
     (respond (requeue al am (snd s) (back_message (snd s) content contentType 0 ''retry'')) s)"

definition Retry :: "'v amqp_lib \<Rightarrow> 'b amqp \<Rightarrow> 'b \<times> delivery \<Rightarrow> ('b \<times> delivery) \<times> unit res" where
  "Retry al am s = RetryWithData al am (ad_body (dl_delivery (snd s))) (ad_contentType (dl_delivery (snd s))) s"

definition RetryDelayedWithData :: "'v amqp_lib \<Rightarrow> 'b amqp \<Rightarrow> int \<Rightarrow> string \<Rightarrow> string \<Rightarrow> 'b \<times> delivery \<Rightarrow> ('b \<times> delivery) \<times> unit res" where
  "RetryDelayedWithData al am delay content contentType s = wrap_run ''retrying message with delay''
     (respond (requeue al am (snd s) (back_message (snd s) content contentType delay ''retry'')) s)"

definition RetryDelayed :: "'v amqp_lib \<Rightarrow> 'b amqp \<Rightarrow> int \<Rightarrow> 'b \<times> delivery \<Rightarrow> ('b \<times> delivery) \<times> unit res" where
  "RetryDelayed al am delay s =
     RetryDelayedWithData al am delay (ad_body (dl_delivery (snd s))) (ad_contentType (dl_delivery (snd s))) s"

definition Fatal :: "'v amqp_lib \<Rightarrow> 'b amqp \<Rightarrow> 'b \<times> delivery \<Rightarrow> ('b \<times> delivery) \<times> unit res" where
  "Fatal al am s = wrap_run ''retrying message with delay''
     (respond (requeue al am (snd s)
        (back_message (snd s) (ad_body (dl_delivery (snd s))) (ad_contentType (dl_delivery (snd s))) 0 ''fatal'')) s)"

end
