(* ===== verification/Zamqp_Laws.thy ===== *)
theory Zamqp_Laws
  imports Zamqp
begin

text \<open>
  What a user of \<^verbatim>\<open>go/zamqp\<close> relies on: a delivery is answered at most once, a message that is retried
  is never lost, and a published message is parsed back. The behaviour of the broker is a hypothesis
  about the calls of the client library.
\<close>

section \<open>One answer\<close>

text \<open>The answers of the interface \<^verbatim>\<open>Delivery\<close>, and a sequence of calls, each with its outcome\<close>

datatype answer =
    CallAck | CallReject | CallRetry | CallFatal
  | CallRetryWithData string string
  | CallRetryDelayed int
  | CallRetryDelayedWithData int string string

fun answer_with :: "'v amqp_lib \<Rightarrow> 'b amqp \<Rightarrow> answer \<Rightarrow> 'b \<times> delivery \<Rightarrow> ('b \<times> delivery) \<times> unit res" where
  "answer_with al am CallAck s = Ack am s"
| "answer_with al am CallReject s = Reject am s"
| "answer_with al am CallRetry s = Retry al am s"
| "answer_with al am CallFatal s = Fatal al am s"
| "answer_with al am (CallRetryWithData c t) s = RetryWithData al am c t s"
| "answer_with al am (CallRetryDelayed d) s = RetryDelayed al am d s"
| "answer_with al am (CallRetryDelayedWithData d c t) s = RetryDelayedWithData al am d c t s"

fun answers :: "'v amqp_lib \<Rightarrow> 'b amqp \<Rightarrow> 'b \<times> delivery \<Rightarrow> answer list \<Rightarrow> (('b \<times> delivery) \<times> unit res) list" where
  "answers al am s [] = []"
| "answers al am s (c # cs) = (let o1 = answer_with al am c s in o1 # answers al am (fst o1) cs)"

lemmas answer_defs = Ack_def Reject_def Retry_def RetryWithData_def RetryDelayed_def RetryDelayedWithData_def Fatal_def

lemma respond_complete: "dl_complete (snd s) \<Longrightarrow> respond cb s = (s, Inl (Errorf ''message already responded to''))"
  by (simp add: respond_def)

lemma respond_ok: "respond cb s = (t, Inr u) \<Longrightarrow> dl_complete (snd t)"
  by (auto simp: respond_def Let_def split: if_splits prod.splits sum.splits)

lemma respond_same: "snd (fst (respond cb s)) = (snd s)\<lparr>dl_complete := dl_complete (snd (fst (respond cb s)))\<rparr>"
  by (auto simp: respond_def Let_def split: prod.splits sum.splits)

lemma answer_complete:
  "dl_complete (snd s) \<Longrightarrow> \<exists>e. answer_with al am c s = (s, Inl e)"
  by (cases c) (simp_all add: answer_defs respond_complete)

lemma answer_ok: "answer_with al am c s = (t, Inr u) \<Longrightarrow> dl_complete (snd t)"
  by (cases c) (auto simp: answer_defs dest: respond_ok)

lemma answers_complete:
  "dl_complete (snd s) \<Longrightarrow> x \<in> set (answers al am s cs) \<Longrightarrow> fst x = s \<and> \<not> is_ok (snd x)"
proof (induction cs arbitrary: x)
  case (Cons c cs)
  obtain e where "answer_with al am c s = (s, Inl e)" using answer_complete Cons.prems(1) by blast
  with Cons.prems(2) have "x = (s, Inl e) \<or> x \<in> set (answers al am s cs)" by (simp add: Let_def)
  then show ?case using Cons.IH [OF Cons.prems(1), of x] by auto
qed simp

lemma length_answers [simp]: "length (answers al am s cs) = length cs"
  by (induction cs arbitrary: s) (simp_all add: Let_def)


section \<open>Encoding\<close>

text \<open>Reading undoes writing.\<close>

definition zlib_reads_back :: "'v amqp_lib \<Rightarrow> bool" where
  "zlib_reads_back al \<longleftrightarrow> (\<forall>c w1 w2 w3. al_write al c = Inr w1 \<longrightarrow> al_flush al w1 = Inr w2 \<longrightarrow>
     al_finish al w2 = Inr w3 \<longrightarrow> al_reader al w3 = Inr (Inr c))"

text \<open>A published message as it arrives\<close>

definition delivered :: "nat \<Rightarrow> publishing \<Rightarrow> amqp_delivery" where
  "delivered tag p =
     \<lparr>ad_body = pb_body p, ad_headers = pb_headers p, ad_contentType = pb_contentType p,
      ad_contentEncoding = pb_contentEncoding p, ad_tag = tag\<rparr>"

lemma messageToPublishing_ok:
  assumes "messageToPublishing al msg = Inr p" and "ms_content msg = Inr (content, contentType)"
  shows "pb_contentType p = contentType \<and> pb_headers p = toTable (mo_headers (ms_options msg)) \<and>
    (if mo_compress (ms_options msg)
     then \<exists>w1 w2. al_write al content = Inr w1 \<and> al_flush al w1 = Inr w2 \<and> al_finish al w2 = Inr (pb_body p) \<and>
       pb_contentEncoding p = ''compress''
     else pb_body p = content \<and> pb_contentEncoding p = ''identity'')"
  using assms by (auto simp: messageToPublishing_def bind_res_Inr split: if_splits)

text \<open>C18: What is published is what is parsed: a message of JSON content arrives as a delivery whose Parse gives
  exactly what decoding the content gives, whether the message asked for compression or not; for
  any other content type Parse is an error.\<close>

theorem publish_parse_roundtrip:
  assumes "zlib_reads_back al" and "ms_content msg = Inr (content, contentType)"
    and "messageToPublishing al msg = Inr p"
  shows "if contentType = ''application/json''
    then Parse al (wrapDelivery ch q (delivered tag p)) = wrap_res ''parsing decoded message body'' (al_unmarshal al content)
    else \<not> is_ok (Parse al (wrapDelivery ch q (delivered tag p)))"
  using messageToPublishing_ok [OF assms(3,2)] assms(1)
  by (auto simp: Parse_def wrapDelivery_def delivered_def zlib_reads_back_def Let_def split: if_splits)

text \<open>A codec that marks what it has compressed.\<close>

definition ex_lib :: "string amqp_lib" where
  "ex_lib =
     \<lparr>al_write = (\<lambda>c. Inr (CHR ''z'' # c)), al_flush = Inr, al_finish = Inr,
      al_reader = (\<lambda>s. case s of [] \<Rightarrow> Inl (Errorf ''EOF'')
        | c # t \<Rightarrow> if c = CHR ''z'' then Inr (Inr t) else Inl (Errorf ''zlib: invalid header'')),
      al_unmarshal = (\<lambda>s. if s \<noteq> [] \<and> hd s = CHR ''z'' then Inl (Errorf ''invalid character'') else Inr s),
      al_toInt = (\<lambda>v. case v of VInt i \<Rightarrow> Inr i | _ \<Rightarrow> Inl (Errorf ''unable to cast'')),
      al_messageTTLArg = ''x-message-ttl'', al_overflowArg = ''x-overflow'',
      al_overflowRejectPublish = ''reject-publish'', al_typeArg = ''x-queue-type'', al_typeQuorum = ''quorum''\<rparr>"

definition ex_message :: raw_message where
  "ex_message = NewRawMessage ''{}'' ''application/json'' AnonymousExchange
     \<lparr>mo_compress = True, mo_routingKey = ''jobs'', mo_headers = [], mo_skipExchangeDeclaration = False\<rparr>"

definition ex_channel :: channel where
  "ex_channel = \<lparr>ch_conn = 0, ch_channel = 1\<rparr>"

theorem publish_parse_roundtrip_witness:
  "\<exists>p. messageToPublishing ex_lib (RawMessage ex_message) = Inr p \<and> pb_body p = ''z{}'' \<and>
     Parse ex_lib (wrapDelivery ex_channel ''jobs'' (delivered 5 p)) = Inr ''{}''"
proof -
  have z: "zlib_reads_back ex_lib" by (simp add: zlib_reads_back_def ex_lib_def)
  let ?p = "\<lparr>pb_body = ''z{}'', pb_headers = [], pb_contentType = ''application/json'', pb_contentEncoding = ''compress''\<rparr>"
  have p: "messageToPublishing ex_lib (RawMessage ex_message) = Inr ?p" by code_simp
  have c: "ms_content (RawMessage ex_message) = Inr (''{}'', ''application/json'')" by code_simp
  have "Parse ex_lib (wrapDelivery ex_channel ''jobs'' (delivered 5 ?p)) = Inr ''{}''"
    using publish_parse_roundtrip [OF z c p, of ex_channel "''jobs''" 5] by (simp add: ex_lib_def)
  with p show ?thesis by simp
qed

section \<open>Retried messages\<close>

lemma map_of_finalHeaders:
  assumes "map_wf (rq_headers m)"
  shows "map_of (finalHeaders al m) =
    (map_of (rq_headers m))(HeaderAttempt \<mapsto> VInt (if rq_kind m = ''retry''
       then signed_take_bit 63 (attempt al (rq_headers m) + 1) else 1))"
  using assms by (simp add: finalHeaders_def map_of_merge)

lemma queueDefinition_once:
  "queueDefinition al m = (m', q) \<Longrightarrow> queueDefinition al m' = (m', q) \<and> finalHeaders al m' = finalHeaders al m \<and>
     rq_data m' = rq_data m \<and> rq_contentType m' = rq_contentType m \<and> rq_kind m' = rq_kind m"
  by (auto simp: queueDefinition_def finalHeaders_def Let_def split: option.splits)

text \<open>The number of the attempt, over many retries: the count stays right up to the width of an integer.\<close>

lemma attempt_after_retry:
  assumes "map_wf hs" and "\<And>i. al_toInt al (VInt i) = Inr i" and "rq_headers m = hs" "rq_kind m = ''retry''"
    and "- (2 ^ 63) \<le> attempt al hs + 1" "attempt al hs + 1 < 2 ^ 63"
  shows "attempt al (finalHeaders al m) = attempt al hs + 1"
proof -
  have "signed_take_bit 63 (attempt al hs + 1) = attempt al hs + 1"
    using assms(5,6) by (intro signed_take_bit_int_eq_self) auto
  moreover have "map_of (finalHeaders al m) HeaderAttempt = Some (VInt (signed_take_bit 63 (attempt al hs + 1)))"
    using map_of_finalHeaders [of m al] assms(1,3,4) by simp
  ultimately show ?thesis using assms(2) by (subst attempt_def) simp
qed

text \<open>What a broker does with the calls of a retry: the calls before the answer leave the original message
  with it (\<open>held\<close>), no call of the package takes a stored message away, and a message published to the
  default exchange under the name of a declared queue is stored in that queue once it is confirmed.\<close>

definition unaffected :: "'b amqp \<Rightarrow> ('b \<Rightarrow> bool) \<Rightarrow> bool" where
  "unaffected am P \<longleftrightarrow>
     (\<forall>c b. P b \<longrightarrow> P (fst (aq_channel am c b))) \<and>
     (\<forall>ch n d a x w t b. P b \<longrightarrow> P (fst (aq_queueDeclare am ch n d a x w t b))) \<and>
     (\<forall>ch w b. P b \<longrightarrow> P (fst (aq_confirm am ch w b))) \<and>
     (\<forall>ch e k m i p b. P b \<longrightarrow> P (fst (aq_publish am ch e k m i p b))) \<and>
     (\<forall>ch b. P b \<longrightarrow> P (fst (aq_wait am ch b))) \<and> (\<forall>ch b. P b \<longrightarrow> P (aq_close am ch b))"

definition keeps_messages ::
  "'b amqp \<Rightarrow> ('b \<Rightarrow> bool) \<Rightarrow> (string \<Rightarrow> 'b \<Rightarrow> bool) \<Rightarrow> (string \<Rightarrow> publishing \<Rightarrow> 'b \<Rightarrow> bool) \<Rightarrow> bool" where
  "keeps_messages am held declared stored \<longleftrightarrow>
     unaffected am held \<and> (\<forall>q. unaffected am (declared q)) \<and>
     (\<forall>ch n d a x w t b b'. aq_queueDeclare am ch n d a x w t b = (b', Inr ()) \<longrightarrow> declared n b') \<and>
     (\<forall>ch q p b b1 b2. declared q b \<longrightarrow> aq_publish am ch [] q True False p b = (b1, Inr ()) \<longrightarrow>
        aq_wait am ch b1 = (b2, Confirmed True) \<longrightarrow> stored q p b2) \<and>
     (\<forall>q p b. stored q p b \<longrightarrow> (\<forall>ch. stored q p (aq_close am ch b)) \<and>
        (\<forall>ch tag m r. stored q p (fst (aq_nack am ch tag m r b))))"

lemma keeps_messagesD:
  assumes "keeps_messages am held declared stored"
  shows "unaffected am held" "unaffected am (declared q)"
    "aq_queueDeclare am ch n d a x w t b = (b', Inr ()) \<Longrightarrow> declared n b'"
    "declared q b \<Longrightarrow> aq_publish am ch [] q True False p b = (b1, Inr ()) \<Longrightarrow>
       aq_wait am ch b1 = (b2, Confirmed True) \<Longrightarrow> stored q p b2"
    "stored q p b \<Longrightarrow> stored q p (aq_close am ch b)"
    "stored q p b \<Longrightarrow> stored q p (fst (aq_nack am ch tag m r b))"
  using assms unfolding keeps_messages_def by simp_all

lemma unaffectedD:
  assumes "unaffected am P" and "P b"
  shows "P (fst (aq_channel am c b))" "P (fst (aq_queueDeclare am ch nm d a x w t b))"
    "P (fst (aq_confirm am ch w b))" "P (fst (aq_publish am ch e k m i p b))"
    "P (fst (aq_wait am ch b))" "P (aq_close am ch b)"
  using assms by (simp_all add: unaffected_def)

text \<open>A publish to the default exchange, step by step\<close>

definition published_as :: "publishing \<Rightarrow> message \<Rightarrow> publishing" where
  "published_as p msg = p\<lparr>pb_headers := map_merge (pb_headers p) (mo_headers (ms_options msg))\<rparr>"

lemma publish_on_default:
  assumes "e_name (ms_exchange msg) = []"
  shows "publish_on al am ch msg b =
    run_then (wrap_run ''enabling confirm mode'' (aq_confirm am ch False b)) (\<lambda>b2 _.
      case wrap_res ''preparing publishing'' (messageToPublishing al msg) of
        Inl e \<Rightarrow> (b2, Inl e)
      | Inr p \<Rightarrow>
          run_then (wrap_run ''publishing''
            (aq_publish am ch [] (mo_routingKey (ms_options msg)) True False (published_as p msg) b2)) (\<lambda>b3 _.
            await_confirm am ch b3))"
  by (simp add: publish_on_def published_as_def AnonymousExchange_def assms split del: sum.split cong del: sum.case_cong_weak)

lemma fst_await_confirm: "fst (await_confirm am ch b) = fst (aq_wait am ch b)"
  by (auto simp: await_confirm_def split: prod.splits confirmation.splits)

lemma await_confirm_ok: "await_confirm am ch b = (b', Inr u) \<Longrightarrow> aq_wait am ch b = (b', Confirmed True)"
  by (auto simp: await_confirm_def split: prod.splits confirmation.splits if_splits)

lemma publish_keeps:
  assumes P: "unaffected am P" and "P b" and "e_name (ms_exchange msg) = []"
  shows "P (fst (publish_on al am ch msg b))"
  unfolding publish_on_default [OF assms(3)]
proof (rule run_then_state [where I = P])
  show "P (fst (wrap_run ''enabling confirm mode'' (aq_confirm am ch False b)))"
    using unaffectedD(3) [OF P assms(2)] by simp
next
  fix b2 u assume b2: "P b2"
  show "P (fst (case wrap_res ''preparing publishing'' (messageToPublishing al msg) of
        Inl e \<Rightarrow> (b2, Inl e)
      | Inr p \<Rightarrow>
          run_then (wrap_run ''publishing''
            (aq_publish am ch [] (mo_routingKey (ms_options msg)) True False (published_as p msg) b2)) (\<lambda>b3 _.
            await_confirm am ch b3)))"
  proof (cases "messageToPublishing al msg")
    case (Inr p)
    show ?thesis
      unfolding Inr wrap_res_simps sum.case
    proof (rule run_then_state [where I = P])
      show "P (fst (wrap_run ''publishing'' (aq_publish am ch [] (mo_routingKey (ms_options msg)) True False (published_as p msg) b2)))"
        using unaffectedD(4) [OF P b2] by simp
    next
      fix b3 v assume "P b3"
      then show "P (fst (await_confirm am ch b3))"
        using unaffectedD(5) [OF P, of b3 ch] by (simp add: fst_await_confirm)
    qed
  qed (simp add: b2)
qed

lemma publish_stores:
  assumes k: "keeps_messages am held declared stored" and "declared (mo_routingKey (ms_options msg)) b"
    and "e_name (ms_exchange msg) = []" and "publish_on al am ch msg b = (b', Inr ())"
  shows "\<exists>p. messageToPublishing al msg = Inr p \<and> stored (mo_routingKey (ms_options msg)) (published_as p msg) b'"
proof -
  obtain b2 b3 p where c: "aq_confirm am ch False b = (b2, Inr ())" and p: "messageToPublishing al msg = Inr p"
    and pub: "aq_publish am ch [] (mo_routingKey (ms_options msg)) True False (published_as p msg) b2 = (b3, Inr ())"
    and w: "aq_wait am ch b3 = (b', Confirmed True)"
    using assms(4) unfolding publish_on_default [OF assms(3)]
    by (cases "messageToPublishing al msg")
      (auto simp: run_then_Inr dest: await_confirm_ok)
  have "declared (mo_routingKey (ms_options msg)) b2"
    using unaffectedD(3) [OF keeps_messagesD(2) [OF k] assms(2), of ch False] c by simp
  from keeps_messagesD(4) [OF k this pub w] p show ?thesis by blast
qed

lemma requeue_keeps:
  assumes k: "keeps_messages am held declared stored" and "held b" and rq: "requeue al am m msg b = (b', r)"
    and q: "queueDefinition al msg = (msg', q)"
  shows "(held b' \<or> (\<exists>p. messageToPublishing al (RequeueMessage al msg') = Inr p \<and>
        stored (q_name q) (published_as p (RequeueMessage al msg')) b')) \<and>
    (is_ok r \<longrightarrow> (\<exists>p. messageToPublishing al (RequeueMessage al msg') = Inr p \<and>
        stored (q_name q) (published_as p (RequeueMessage al msg')) b'))"
proof -
  note P = keeps_messagesD(1) [OF k]
  let ?decl = "\<lparr>dc_queues = [q], dc_exchanges = [], dc_bindings = []\<rparr>"
  let ?conn = "ch_conn (dl_channel m)" and ?msg = "RequeueMessage al msg'"
  have ex: "e_name (ms_exchange ?msg) = []" by (simp add: RequeueMessage_def AnonymousExchange_def)
  have key: "mo_routingKey (ms_options ?msg) = q_name q"
    using queueDefinition_once [OF q] by (simp add: RequeueMessage_def)
  obtain b1 r1 where d: "aq_queueDeclare am (dl_channel m) (q_name q) (\<not> q_nonDurable q) (q_autoDelete q) (q_exclusive q)
      False (toTable (q_options q)) b = (b1, r1)" by (metis surj_pair)
  have b1: "held b1" using unaffectedD(2) [OF P assms(2)] d by (metis fst_conv)
  have decl: "ExecuteDeclarations am (dl_channel m) ?decl b = wrap_run (''queue declaration for '' @ [CHR 0x27] @ q_name q @ [CHR 0x27] @ '' failed'') (b1, r1)"
    using d by (cases r1) (simp_all add: ExecuteDeclarations_def declare_queue_def)
  show ?thesis
  proof (cases r1)
    case (Inl e)
    then show ?thesis using rq q decl b1 by (auto simp: requeue_def)
  next
    case r1: (Inr u)
    have dq: "declared (q_name q) b1" using d r1 by (intro keeps_messagesD(3) [OF k]) simp
    obtain b2 r2 where c: "aq_channel am ?conn b1 = (b2, r2)" by (metis surj_pair)
    have b2: "held b2" "declared (q_name q) b2"
      using unaffectedD(1) [OF P b1, of ?conn] unaffectedD(1) [OF keeps_messagesD(2) [OF k] dq, of ?conn] c by simp_all
    show ?thesis
    proof (cases r2)
      case (Inl e)
      then show ?thesis using rq q decl r1 c b2(1)
        by (auto simp: requeue_def connPublisher_Publish_def newChannel_def)
    next
      case r2: (Inr ac)
      let ?ch = "\<lparr>ch_conn = ?conn, ch_channel = ac\<rparr>"
      obtain b3 r3 where p: "publish_on al am ?ch ?msg b2 = (b3, r3)" by (metis surj_pair)
      have b3: "held (aq_close am ?ch b3)"
        using unaffectedD(6) [OF P publish_keeps [OF P b2(1) ex], of ?ch] p by (metis fst_conv)
      show ?thesis
      proof (cases r3)
        case (Inl e)
        then show ?thesis using rq q decl r1 c r2 p b3
          by (auto simp: requeue_def connPublisher_Publish_def newChannel_def)
      next
        case r3: (Inr v)
        have "\<exists>pb. messageToPublishing al ?msg = Inr pb \<and> stored (mo_routingKey (ms_options ?msg)) (published_as pb ?msg) b3"
          using p r3 b2(2) key by (intro publish_stores [OF k _ ex]) simp_all
        then obtain pb where pb: "messageToPublishing al ?msg = Inr pb" "stored (q_name q) (published_as pb ?msg) b3"
          unfolding key by blast
        let ?b = "aq_close am ?ch b3"
        have "stored (q_name q) (published_as pb ?msg) (fst (aq_nack am (dl_channel m) (ad_tag (dl_delivery m)) False False ?b))"
          by (rule keeps_messagesD(6) [OF k keeps_messagesD(5) [OF k pb(2)]])
        moreover have "b' = fst (aq_nack am (dl_channel m) (ad_tag (dl_delivery m)) False False ?b)"
          using rq q decl r1 c r2 p r3 by (auto simp: requeue_def connPublisher_Publish_def newChannel_def wrap_run_def)
        ultimately show ?thesis using pb(1) by blast
      qed
    qed
  qed
qed

text \<open>What an answer sends back to the broker\<close>

fun sent_back :: "answer \<Rightarrow> delivery \<Rightarrow> requeue_message option" where
  "sent_back CallAck m = None"
| "sent_back CallReject m = None"
| "sent_back CallRetry m = Some (back_message m (ad_body (dl_delivery m)) (ad_contentType (dl_delivery m)) 0 ''retry'')"
| "sent_back CallFatal m = Some (back_message m (ad_body (dl_delivery m)) (ad_contentType (dl_delivery m)) 0 ''fatal'')"
| "sent_back (CallRetryWithData c t) m = Some (back_message m c t 0 ''retry'')"
| "sent_back (CallRetryDelayed d) m = Some (back_message m (ad_body (dl_delivery m)) (ad_contentType (dl_delivery m)) d ''retry'')"
| "sent_back (CallRetryDelayedWithData d c t) m = Some (back_message m c t d ''retry'')"

lemma answer_sent_back:
  assumes "sent_back c m = Some rq" and "\<not> dl_complete m" and "answer_with al am c (b, m) = ((b', m'), r)"
  shows "\<exists>r'. requeue al am m rq b = (b', r') \<and> is_ok r' = is_ok r"
proof -
  obtain b1 r1 where rq: "requeue al am m rq b = (b1, r1)" by (metis surj_pair)
  show ?thesis
    using assms rq by (cases r1; cases c) (auto simp: answer_defs respond_def)
qed

lemma requeued_content:
  assumes "queueDefinition al rq = (rq', q)" and "messageToPublishing al (RequeueMessage al rq') = Inr p"
    and "map_wf (rq_headers rq)"
  shows "pb_body (published_as p (RequeueMessage al rq')) = rq_data rq \<and>
    pb_contentType (published_as p (RequeueMessage al rq')) = rq_contentType rq \<and>
    pb_contentEncoding (published_as p (RequeueMessage al rq')) = ''identity'' \<and>
    map_of (pb_headers (published_as p (RequeueMessage al rq'))) = map_of (finalHeaders al rq)"
proof -
  have wf: "map_wf (finalHeaders al rq)" using assms(3) by (simp add: finalHeaders_def)
  have "map_of (toTable (finalHeaders al rq)) = map_of (finalHeaders al rq)"
    using wf by (simp add: toTable_def map_of_merge)
  moreover have "map_of (map_merge (toTable (finalHeaders al rq)) (finalHeaders al rq)) =
      map_of (toTable (finalHeaders al rq)) ++ map_of (finalHeaders al rq)"
    using wf by (intro map_of_merge) (auto simp: toTable_def)
  moreover have "f ++ f = f" for f :: "string \<rightharpoonup> gval"
    by (rule ext) (simp add: map_add_def split: option.split)
  ultimately show ?thesis
    using queueDefinition_once [OF assms(1)] assms(2)
    by (auto simp: published_as_def messageToPublishing_def RequeueMessage_def)
qed

lemma requeue_publishing_total: "\<exists>p. messageToPublishing al (RequeueMessage al rq) = Inr p"
  by (simp add: messageToPublishing_def RequeueMessage_def)

text \<open>C13: A retried message is not lost. Whatever Retry, RetryDelayed, their variants with new data or Fatal run
  into, afterwards the broker still holds the delivery or the new message is stored in the waiting
  queue, and on success it is stored: with the given body and content type, all headers of the old
  message, and the attempt counted up (a fatal message starts again at one). The old message is
  only taken away after the new one is confirmed.\<close>

theorem retry_never_loses:
  assumes "keeps_messages am held declared stored" and "held b" and "\<not> dl_complete m"
    and "sent_back c m = Some rq" and "map_wf (ad_headers (dl_delivery m))"
    and "answer_with al am c (b, m) = ((b', m'), r)"
  shows "\<exists>p. (held b' \<or> stored (q_name (snd (queueDefinition al rq))) p b') \<and>
      (is_ok r \<longrightarrow> stored (q_name (snd (queueDefinition al rq))) p b') \<and>
      pb_body p = rq_data rq \<and> pb_contentType p = rq_contentType rq \<and>
      map_of (pb_headers p) = (map_of (ad_headers (dl_delivery m)))(HeaderAttempt \<mapsto>
        VInt (if rq_kind rq = ''retry'' then signed_take_bit 63 (delivery_Attempt al m + 1) else 1))"
proof -
  obtain rq' q where q: "queueDefinition al rq = (rq', q)" by (metis surj_pair)
  have hs: "rq_headers rq = ad_headers (dl_delivery m)"
    using assms(4) by (cases c) (auto simp: back_message_def)
  obtain r' where r': "requeue al am m rq b = (b', r')" "is_ok r' = is_ok r"
    using answer_sent_back [OF assms(4,3,6)] by blast
  from requeue_keeps [OF assms(1,2) r'(1) q] requeue_publishing_total [of al rq']
  obtain p where p: "messageToPublishing al (RequeueMessage al rq') = Inr p"
    "held b' \<or> stored (q_name q) (published_as p (RequeueMessage al rq')) b'"
    "is_ok r' \<longrightarrow> stored (q_name q) (published_as p (RequeueMessage al rq')) b'" by (metis sum.inject(2))
  have wf: "map_wf (rq_headers rq)" using assms(5) hs by simp
  show ?thesis
    using p(2,3) r'(2) q requeued_content [OF q p(1) wf] map_of_finalHeaders [OF wf, of al] hs
    by (intro exI [of _ "published_as p (RequeueMessage al rq')"]) (simp add: delivery_Attempt_def)
qed

text \<open>A broker with one delivery out: whether it still holds it, the declared queues and what is in them.\<close>

definition ex_amqp :: "(bool \<times> string list \<times> (string \<times> publishing) list) amqp" where
  "ex_amqp =
     \<lparr>aq_dial = (\<lambda>uri b. (b, Inr 0)), aq_closeConn = (\<lambda>c b. b), aq_channel = (\<lambda>c b. (b, Inr 2)), aq_close = (\<lambda>ch b. b),
      aq_exchangeDeclare = (\<lambda>ch n k d a i w t b. (b, Inr ())),
      aq_queueDeclare = (\<lambda>ch n d a x w t (h, ds, qs). ((h, n # ds, qs), Inr ())),
      aq_queueBind = (\<lambda>ch n k e w t b. (b, Inr ())), aq_confirm = (\<lambda>ch w b. (b, Inr ())),
      aq_publish = (\<lambda>ch e k m i p (h, ds, qs). ((h, ds, if k \<in> set ds then (k, p) # qs else qs), Inr ())),
      aq_wait = (\<lambda>ch b. (b, Confirmed True)), aq_qos = (\<lambda>ch n b. (b, Inr ())), aq_consume = (\<lambda>ch q b. (b, Inr ())),
      aq_ack = (\<lambda>ch tag m (h, ds, qs). ((False, ds, qs), Inr ())),
      aq_nack = (\<lambda>ch tag m r (h, ds, qs). ((False, ds, qs), Inr ()))\<rparr>"

lemma ex_amqp_keeps:
  "keeps_messages ex_amqp fst (\<lambda>q b. q \<in> set (fst (snd b))) (\<lambda>q p b. (q, p) \<in> set (snd (snd b)))"
  by (auto simp: keeps_messages_def unaffected_def ex_amqp_def)

definition ex_job :: delivery where
  "ex_job = wrapDelivery ex_channel ''jobs''
     \<lparr>ad_body = ''{}'', ad_headers = [(''id'', VStr ''7'')], ad_contentType = ''application/json'',
      ad_contentEncoding = ''identity'', ad_tag = 5\<rparr>"

theorem retry_never_loses_witness:
  "\<exists>b' m' p. answer_with ex_lib ex_amqp (CallRetryDelayed 1500000000) ((True, [], []), ex_job) = ((b', m'), Inr ()) \<and>
     \<not> fst b' \<and> (''retry-jobs-1.5s'', p) \<in> set (snd (snd b')) \<and> pb_body p = ''{}'' \<and>
     map_of (pb_headers p) ''x-zote-attempt'' = Some (VInt 2)"
proof -
  let ?run = "answer_with ex_lib ex_amqp (CallRetryDelayed 1500000000) ((True, [], []), ex_job)"
  let ?rq = "back_message ex_job ''{}'' ''application/json'' 1500000000 ''retry''"
  have "snd ?run = Inr ()" by code_simp
  then have run: "?run = ((fst (fst ?run), snd (fst ?run)), Inr ())" by (metis prod.collapse)
  have h: "\<not> fst (fst (fst ?run))" by code_simp
  have n: "q_name (snd (queueDefinition ex_lib ?rq)) = ''retry-jobs-1.5s''" by code_simp
  have att: "delivery_Attempt ex_lib ex_job = 1" "rq_kind ?rq = ''retry''" "rq_data ?rq = ''{}''" by code_simp+
  have "\<not> dl_complete ex_job" "sent_back (CallRetryDelayed 1500000000) ex_job = Some ?rq"
    "map_wf (ad_headers (dl_delivery ex_job))"
    by (simp_all add: ex_job_def wrapDelivery_def map_wf_def)
  from retry_never_loses [OF ex_amqp_keeps _ this run]
  obtain p where "(''retry-jobs-1.5s'', p) \<in> set (snd (snd (fst (fst ?run))))" "pb_body p = ''{}''"
    "map_of (pb_headers p) HeaderAttempt = Some (VInt (signed_take_bit 63 2))"
    unfolding n att by auto
  moreover have "signed_take_bit 63 (2 :: int) = 2" by (rule signed_take_bit_int_eq_self) simp_all
  ultimately have "(''retry-jobs-1.5s'', p) \<in> set (snd (snd (fst (fst ?run)))) \<and> pb_body p = ''{}'' \<and>
      map_of (pb_headers p) ''x-zote-attempt'' = Some (VInt 2)" by (simp add: HeaderAttempt_def)
  with run h show ?thesis by blast
qed

section \<open>The encoding of a retried message\<close>

text \<open>Retry sends the body as it came in but marks it as not encoded. A delivery that was not encoded is
  parsed on the next attempt as it is on this one; of a compressed delivery the next attempt gets
  the compressed bytes as its JSON text.\<close>

theorem retry_forgets_the_encoding:
  assumes "queueDefinition al (back_message m (ad_body (dl_delivery m)) (ad_contentType (dl_delivery m)) delay ''retry'') = (rq, q)"
    and "messageToPublishing al (RequeueMessage al rq) = Inr p"
    and "ad_contentType (dl_delivery m) = ''application/json''"
  shows "Parse al (wrapDelivery ch name (delivered tag (published_as p (RequeueMessage al rq)))) =
      (if ad_contentEncoding (dl_delivery m) \<in> {[], ''identity''} then Parse al m
       else wrap_res ''parsing decoded message body'' (al_unmarshal al (ad_body (dl_delivery m))))"
  using queueDefinition_once [OF assms(1)] assms(2,3)
  by (auto simp: Parse_def wrapDelivery_def delivered_def published_as_def messageToPublishing_def RequeueMessage_def
      back_message_def Let_def)

definition ex_compressed :: delivery where
  "ex_compressed = wrapDelivery ex_channel ''jobs''
     \<lparr>ad_body = ''z{}'', ad_headers = [], ad_contentType = ''application/json'', ad_contentEncoding = ''compress'', ad_tag = 5\<rparr>"

theorem retry_forgets_the_encoding_witness:
  "\<exists>rq q p. queueDefinition ex_lib (back_message ex_compressed ''z{}'' ''application/json'' 0 ''retry'') = (rq, q) \<and>
     messageToPublishing ex_lib (RequeueMessage ex_lib rq) = Inr p \<and> Parse ex_lib ex_compressed = Inr ''{}'' \<and>
     \<not> is_ok (Parse ex_lib (wrapDelivery ex_channel ''jobs'' (delivered 6 (published_as p (RequeueMessage ex_lib rq)))))"
proof -
  obtain rq q where q: "queueDefinition ex_lib (back_message ex_compressed ''z{}'' ''application/json'' 0 ''retry'') = (rq, q)"
    by (metis surj_pair)
  obtain p where p: "messageToPublishing ex_lib (RequeueMessage ex_lib rq) = Inr p"
    using requeue_publishing_total by blast
  have d: "ad_body (dl_delivery ex_compressed) = ''z{}''" "ad_contentType (dl_delivery ex_compressed) = ''application/json''"
    "ad_contentEncoding (dl_delivery ex_compressed) = ''compress''"
    by (simp_all add: ex_compressed_def wrapDelivery_def)
  have "Parse ex_lib ex_compressed = Inr ''{}''" by code_simp
  moreover have "\<not> is_ok (Parse ex_lib (wrapDelivery ex_channel ''jobs'' (delivered 6 (published_as p (RequeueMessage ex_lib rq)))))"
    using retry_forgets_the_encoding [of ex_lib ex_compressed 0 rq q p ex_channel "''jobs''" 6] q p
    unfolding d by (simp add: ex_lib_def)
  ultimately show ?thesis using q p by blast
qed


end
