(* ===== verification/Zamqp_Consumer.thy ===== *)
theory Zamqp_Consumer
  imports Zamqp "HOL-Library.Multiset"
begin

text \<open>
  The direct consumer, \<^verbatim>\<open>go/zamqp/direct_consumer.go\<close>. \<^verbatim>\<open>Start\<close> up to the first delivery is a function;
  from there on its goroutines are a step relation over the channels and counters they share: the
  main goroutine, the dispatcher, the monitor and the workers. What the program does not decide (the
  broker's deliveries, the end of a context) is a second relation. A step is one communication or
  one change of a shared variable; the order of steps is free, as the order of goroutines is.
  The logging, the statistics ticker and the goroutine that turns a closed channel into a cancelled
  context (the step \<open>cancel\<close>) leave no other trace. \<open>'d\<close> is the type of deliveries.
\<close>

section \<open>Starting\<close>

record direct_consumer =
  dr_conn :: nat
  dr_queueName :: string
  dr_concurrency :: nat
  dr_declarations :: declarations
  dr_started :: bool

definition NewDirectConsumer :: "nat \<Rightarrow> declarations \<Rightarrow> string \<Rightarrow> nat \<Rightarrow> direct_consumer" where
  "NewDirectConsumer conn decls name concurrency =
     \<lparr>dr_conn = conn, dr_queueName = name, dr_concurrency = concurrency, dr_declarations = decls, dr_started = False\<rparr>"

definition errConsumerAlreadyStarted :: error where
  "errConsumerAlreadyStarted = Sentinel ''consumer already started''"

definition makeConsumeChannel :: "'b amqp \<Rightarrow> nat \<Rightarrow> nat \<Rightarrow> 'b \<Rightarrow> 'b \<times> channel res" where
  "makeConsumeChannel am conn concurrency b =
     run_then (wrap_run ''creating channel'' (newChannel am conn b)) (\<lambda>b1 ch.
     run_then (wrap_run ''setting channel qos'' (aq_qos am ch concurrency b1)) (\<lambda>b2 _. (b2, Inr ch)))"

text \<open>The part of \<^verbatim>\<open>Start\<close> that can fail; on an error the deferred \<^verbatim>\<open>Close\<close> runs on the channel it has made.\<close>

definition Start_setup :: "'b amqp \<Rightarrow> direct_consumer \<Rightarrow> 'b \<Rightarrow> 'b \<times> channel res" where
  "Start_setup am c b =
     (if dr_started c then (b, Inl errConsumerAlreadyStarted)
      else run_then (makeConsumeChannel am (dr_conn c) (dr_concurrency c) b) (\<lambda>b1 ch.
        case run_then (ExecuteDeclarations am ch (dr_declarations c) b1) (\<lambda>b2 _.
               wrap_run ''starting channel consume'' (aq_consume am ch (dr_queueName c) b2)) of
          (b3, Inl e) \<Rightarrow> (aq_close am ch b3, Inl e)
        | (b3, Inr _) \<Rightarrow> (b3, Inr ch)))"

section \<open>Running\<close>

text \<open>\<open>Busy d\<close>: the handler runs. \<open>Panicked d\<close>: it has panicked, the delivery is about to be retried.
  \<open>Restarting\<close>: the worker sends its id to the monitor. \<open>Gone\<close>: not started yet, or ended.\<close>

datatype 'd worker = Idle | Busy 'd | Panicked 'd | Restarting | Gone
datatype 'd dispatcher = Receiving | Sending 'd | DispatcherDone
datatype monitor = Ranging | Spawning nat | MonitorDone
datatype main_routine = Starting nat | Running | Waiting | Returned

text \<open>\<open>deliveries\<close> holds what the broker has sent and nobody has received. The last three fields record what
  has happened: the deliveries the dispatcher received, those a handler ended on and whether it
  panicked, and those passed to \<^verbatim>\<open>RetryDelayed\<close>.\<close>

record 'd consumer =
  deliveries :: "'d list"
  deliveriesClosed :: bool
  processDone :: bool
  workerDone :: bool
  dispatcher :: "'d dispatcher"
  messages :: "'d list"
  messagesClosed :: bool
  monitor :: monitor
  restartClosed :: bool
  workers :: "nat \<Rightarrow> 'd worker"
  main_at :: main_routine
  busyCounter :: int
  crashed :: bool
  received :: "'d list"
  handled :: "('d \<times> bool) list"
  retried :: "'d list"

definition started_consumer :: "'d consumer" where
  "started_consumer =
     \<lparr>deliveries = [], deliveriesClosed = False, processDone = False, workerDone = False,
      dispatcher = Receiving, messages = [], messagesClosed = False, monitor = Ranging, restartClosed = False,
      workers = (\<lambda>_. Gone), main_at = Starting 0, busyCounter = 0, crashed = False,
      received = [], handled = [], retried = []\<rparr>"

text \<open>The channel \<^verbatim>\<open>messages\<close> has room for \<open>n\<close> deliveries, \<open>n\<close> being the concurrency; with \<open>n = 0\<close> it is unbuffered
  and nobody ever receives from it. \<^verbatim>\<open>restart\<close> is unbuffered: a worker and the monitor meet.\<close>

inductive routine_step :: "nat \<Rightarrow> 'd consumer \<Rightarrow> 'd consumer \<Rightarrow> bool" for n where
  dispatch_receive:
    "dispatcher s = Receiving \<Longrightarrow> deliveries s = d # ds \<Longrightarrow>
     routine_step n s (s\<lparr>deliveries := ds, dispatcher := Sending d, received := received s @ [d]\<rparr>)"
| dispatch_send:
    "dispatcher s = Sending d \<Longrightarrow> length (messages s) < n \<Longrightarrow>
     routine_step n s (s\<lparr>dispatcher := Receiving, messages := messages s @ [d]\<rparr>)"
| dispatch_end:
    "dispatcher s = Receiving \<Longrightarrow> deliveries s = [] \<Longrightarrow> deliveriesClosed s \<Longrightarrow>
     routine_step n s (s\<lparr>dispatcher := DispatcherDone, messagesClosed := True\<rparr>)"
| spawn:
    "main_at s = Starting k \<Longrightarrow> k < n \<Longrightarrow>
     routine_step n s (s\<lparr>workers := (workers s)(Suc k := Idle), main_at := Starting (Suc k)\<rparr>)"
| spawned:
    "main_at s = Starting k \<Longrightarrow> n \<le> k \<Longrightarrow> routine_step n s (s\<lparr>main_at := Running\<rparr>)"
| shut_down:
    "main_at s = Running \<Longrightarrow> processDone s \<Longrightarrow>
     routine_step n s (s\<lparr>main_at := Waiting, restartClosed := True\<rparr>)"
| return:
    "main_at s = Waiting \<Longrightarrow> dispatcher s = DispatcherDone \<Longrightarrow> monitor s = MonitorDone \<Longrightarrow>
     \<forall>i \<in> {1..n}. workers s i = Gone \<Longrightarrow> routine_step n s (s\<lparr>main_at := Returned\<rparr>)"
| restart:
    "workers s i = Restarting \<Longrightarrow> monitor s = Ranging \<Longrightarrow> \<not> restartClosed s \<Longrightarrow>
     routine_step n s (s\<lparr>workers := (workers s)(i := Gone), monitor := Spawning i\<rparr>)"
| send_on_closed:
    "workers s i = Restarting \<Longrightarrow> restartClosed s \<Longrightarrow> routine_step n s (s\<lparr>crashed := True\<rparr>)"
| respawn:
    "monitor s = Spawning i \<Longrightarrow> routine_step n s (s\<lparr>workers := (workers s)(i := Idle), monitor := Ranging\<rparr>)"
| monitor_end:
    "monitor s = Ranging \<Longrightarrow> restartClosed s \<Longrightarrow> routine_step n s (s\<lparr>monitor := MonitorDone\<rparr>)"

text \<open>What a worker does: the loop of \<^verbatim>\<open>consume\<close> with the deferred calls around the handler\<close>

inductive worker_step :: "'d consumer \<Rightarrow> 'd consumer \<Rightarrow> bool" where
take:
    "workers s i = Idle \<Longrightarrow> messages s = d # ds \<Longrightarrow>
     worker_step s (s\<lparr>workers := (workers s)(i := Busy d), messages := ds, busyCounter := busyCounter s + 1\<rparr>)"
| stop_cancelled:
    "workers s i = Idle \<Longrightarrow> workerDone s \<Longrightarrow> worker_step s (s\<lparr>workers := (workers s)(i := Gone)\<rparr>)"
| stop_closed:
    "workers s i = Idle \<Longrightarrow> messages s = [] \<Longrightarrow> messagesClosed s \<Longrightarrow>
     worker_step s (s\<lparr>workers := (workers s)(i := Gone)\<rparr>)"
| finish:
    "workers s i = Busy d \<Longrightarrow>
     worker_step s (s\<lparr>workers := (workers s)(i := Idle), busyCounter := busyCounter s - 1,
       handled := handled s @ [(d, False)]\<rparr>)"
| panic:
    "workers s i = Busy d \<Longrightarrow>
     worker_step s (s\<lparr>workers := (workers s)(i := Panicked d), busyCounter := busyCounter s - 1,
       handled := handled s @ [(d, True)]\<rparr>)"
| retry:
    "workers s i = Panicked d \<Longrightarrow>
     worker_step s (s\<lparr>workers := (workers s)(i := Restarting), retried := retried s @ [d]\<rparr>)"

definition consumer_step :: "nat \<Rightarrow> 'd consumer \<Rightarrow> 'd consumer \<Rightarrow> bool" where
  "consumer_step n s t \<longleftrightarrow> routine_step n s t \<or> worker_step s t"

text \<open>The broker and the contexts\<close>

inductive environment_step :: "'d consumer \<Rightarrow> 'd consumer \<Rightarrow> bool" where
  arrive: "\<not> deliveriesClosed s \<Longrightarrow> environment_step s (s\<lparr>deliveries := deliveries s @ [d]\<rparr>)"
| close_deliveries: "environment_step s (s\<lparr>deliveriesClosed := True\<rparr>)"
| cancel: "environment_step s (s\<lparr>processDone := True\<rparr>)"
| cancel_workers: "environment_step s (s\<lparr>workerDone := True\<rparr>)"

text \<open>A panic that nothing recovers ends the process: there is no step after it.\<close>

inductive reachable :: "nat \<Rightarrow> 'd consumer \<Rightarrow> bool" for n where
  start: "reachable n started_consumer"
| own: "reachable n s \<Longrightarrow> \<not> crashed s \<Longrightarrow> consumer_step n s t \<Longrightarrow> reachable n t"
| environment: "reachable n s \<Longrightarrow> \<not> crashed s \<Longrightarrow> environment_step s t \<Longrightarrow> reachable n t"

text \<open>The steps, and the case analysis over all of them\<close>

lemma by_routine: "routine_step n s t \<Longrightarrow> consumer_step n s t"
  by (simp add: consumer_step_def)

lemma by_worker: "worker_step s t \<Longrightarrow> consumer_step n s t"
  by (simp add: consumer_step_def)

lemmas step_dispatch_receive = routine_step.dispatch_receive [THEN by_routine]
lemmas step_dispatch_send = routine_step.dispatch_send [THEN by_routine]
lemmas step_dispatch_end = routine_step.dispatch_end [THEN by_routine]
lemmas step_spawn = routine_step.spawn [THEN by_routine]
lemmas step_spawned = routine_step.spawned [THEN by_routine]
lemmas step_shut_down = routine_step.shut_down [THEN by_routine]
lemmas step_return = routine_step.return [THEN by_routine]
lemmas step_restart = routine_step.restart [THEN by_routine]
lemmas step_send_on_closed = routine_step.send_on_closed [THEN by_routine]
lemmas step_respawn = routine_step.respawn [THEN by_routine]
lemmas step_monitor_end = routine_step.monitor_end [THEN by_routine]
lemmas step_take = worker_step.take [THEN by_worker]
lemmas step_stop_cancelled = worker_step.stop_cancelled [THEN by_worker]
lemmas step_stop_closed = worker_step.stop_closed [THEN by_worker]
lemmas step_finish = worker_step.finish [THEN by_worker]
lemmas step_panic = worker_step.panic [THEN by_worker]
lemmas step_retry = worker_step.retry [THEN by_worker]

lemma consumer_step_cases [consumes 1, case_names dispatch_receive dispatch_send dispatch_end spawn spawned shut_down return restart send_on_closed respawn monitor_end take stop_cancelled stop_closed finish panic retry]:
  assumes "consumer_step n s t"
  obtains (dispatch_receive) d ds where "t = s\<lparr>deliveries := ds, dispatcher := Sending d, received := received s @ [d]\<rparr>" "dispatcher s = Receiving" "deliveries s = d # ds"
    | (dispatch_send) d where "t = s\<lparr>dispatcher := Receiving, messages := messages s @ [d]\<rparr>" "dispatcher s = Sending d" "length (messages s) < n"
    | (dispatch_end) "t = s\<lparr>dispatcher := DispatcherDone, messagesClosed := True\<rparr>" "dispatcher s = Receiving" "deliveries s = []" "deliveriesClosed s"
    | (spawn) k where "t = s\<lparr>workers := (workers s)(Suc k := Idle), main_at := Starting (Suc k)\<rparr>" "main_at s = Starting k" "k < n"
    | (spawned) k where "t = s\<lparr>main_at := Running\<rparr>" "main_at s = Starting k" "n \<le> k"
    | (shut_down) "t = s\<lparr>main_at := Waiting, restartClosed := True\<rparr>" "main_at s = Running" "processDone s"
    | (return) "t = s\<lparr>main_at := Returned\<rparr>" "main_at s = Waiting" "dispatcher s = DispatcherDone" "monitor s = MonitorDone" "\<forall>i \<in> {1..n}. workers s i = Gone"
    | (restart) i where "t = s\<lparr>workers := (workers s)(i := Gone), monitor := Spawning i\<rparr>" "workers s i = Restarting" "monitor s = Ranging" "\<not> restartClosed s"
    | (send_on_closed) i where "t = s\<lparr>crashed := True\<rparr>" "workers s i = Restarting" "restartClosed s"
    | (respawn) i where "t = s\<lparr>workers := (workers s)(i := Idle), monitor := Ranging\<rparr>" "monitor s = Spawning i"
    | (monitor_end) "t = s\<lparr>monitor := MonitorDone\<rparr>" "monitor s = Ranging" "restartClosed s"
    | (take) i d ds where "t = s\<lparr>workers := (workers s)(i := Busy d), messages := ds, busyCounter := busyCounter s + 1\<rparr>" "workers s i = Idle" "messages s = d # ds"
    | (stop_cancelled) i where "t = s\<lparr>workers := (workers s)(i := Gone)\<rparr>" "workers s i = Idle" "workerDone s"
    | (stop_closed) i where "t = s\<lparr>workers := (workers s)(i := Gone)\<rparr>" "workers s i = Idle" "messages s = []" "messagesClosed s"
    | (finish) i d where "t = s\<lparr>workers := (workers s)(i := Idle), busyCounter := busyCounter s - 1, handled := handled s @ [(d, False)]\<rparr>" "workers s i = Busy d"
    | (panic) i d where "t = s\<lparr>workers := (workers s)(i := Panicked d), busyCounter := busyCounter s - 1, handled := handled s @ [(d, True)]\<rparr>" "workers s i = Busy d"
    | (retry) i d where "t = s\<lparr>workers := (workers s)(i := Restarting), retried := retried s @ [d]\<rparr>" "workers s i = Panicked d"
proof -
  from assms consider "routine_step n s t" | "worker_step s t" by (auto simp: consumer_step_def)
  then show thesis
  proof cases
    case 1
    then show thesis by (cases rule: routine_step.cases) (rule that; assumption)+
  next
    case 2
    then show thesis by (cases rule: worker_step.cases) (rule that; assumption)+
  qed
qed

section \<open>Counting over the workers\<close>

fun in_work :: "'d worker \<Rightarrow> 'd multiset" where
  "in_work (Busy d) = {#d#}"
| "in_work _ = {#}"

fun in_panic :: "'d worker \<Rightarrow> 'd multiset" where
  "in_panic (Panicked d) = {#d#}"
| "in_panic _ = {#}"

fun is_busy :: "'d worker \<Rightarrow> bool" where
  "is_busy (Busy d) = True"
| "is_busy _ = False"

fun in_transit :: "'d dispatcher \<Rightarrow> 'd multiset" where
  "in_transit (Sending d) = {#d#}"
| "in_transit _ = {#}"

definition over_workers :: "nat \<Rightarrow> ('d worker \<Rightarrow> 'a::comm_monoid_add) \<Rightarrow> (nat \<Rightarrow> 'd worker) \<Rightarrow> 'a" where
  "over_workers n f w = (\<Sum>i \<in> {1..n}. f (w i))"

lemma over_workers_upd:
  fixes f :: "'d worker \<Rightarrow> 'a::cancel_comm_monoid_add"
  assumes "i \<in> {1..n}"
  shows "over_workers n f (w(i := x)) + f (w i) = over_workers n f w + f x"
proof -
  have "over_workers n f (w(i := x)) = f x + (\<Sum>j \<in> {1..n} - {i}. f (w j))"
    using assms by (simp add: over_workers_def sum.remove)
  moreover have "over_workers n f w = f (w i) + (\<Sum>j \<in> {1..n} - {i}. f (w j))"
    using assms by (simp add: over_workers_def sum.remove)
  ultimately show ?thesis by (simp add: ac_simps)
qed

lemma over_workers_same:
  assumes "i \<in> {1..n}" "f (w i) = f x"
  shows "over_workers n f (w(i := x)) = over_workers n f w"
  unfolding over_workers_def by (rule sum.cong) (use assms in auto)

definition busy_workers :: "nat \<Rightarrow> (nat \<Rightarrow> 'd worker) \<Rightarrow> nat" where
  "busy_workers n w = over_workers n (\<lambda>x. if is_busy x then 1 else 0) w"

lemma busy_workers_le: "busy_workers n w \<le> n"
proof -
  have "busy_workers n w \<le> (\<Sum>i \<in> {1..n}. 1)"
    unfolding busy_workers_def over_workers_def by (intro sum_mono) simp
  then show ?thesis by simp
qed

lemma all_gone:
  assumes "\<forall>i. w i = Gone"
  shows "over_workers n in_work w = {#}" "over_workers n in_panic w = {#}" "busy_workers n w = 0"
  using assms by (simp_all add: over_workers_def busy_workers_def)

section \<open>The invariant\<close>

fun spawned_up_to :: "nat \<Rightarrow> main_routine \<Rightarrow> nat" where
  "spawned_up_to n (Starting k) = k"
| "spawned_up_to n _ = n"

definition spawned_inv :: "nat \<Rightarrow> 'd consumer \<Rightarrow> bool" where
  "spawned_inv n s \<longleftrightarrow> spawned_up_to n (main_at s) \<le> n \<and>
     (\<forall>i. i \<notin> {1..spawned_up_to n (main_at s)} \<longrightarrow> workers s i = Gone)"

definition monitor_inv :: "nat \<Rightarrow> 'd consumer \<Rightarrow> bool" where
  "monitor_inv n s \<longleftrightarrow> (\<forall>i. monitor s = Spawning i \<longrightarrow>
     workers s i = Gone \<and> i \<in> {1..spawned_up_to n (main_at s)})"

definition gone_inv :: "nat \<Rightarrow> 'd consumer \<Rightarrow> bool" where
  "gone_inv n s \<longleftrightarrow> (\<forall>i \<in> {1..spawned_up_to n (main_at s)}. workers s i = Gone \<longrightarrow>
     messagesClosed s \<and> messages s = [] \<or> workerDone s \<or> monitor s = Spawning i)"

definition channels_inv :: "nat \<Rightarrow> 'd consumer \<Rightarrow> bool" where
  "channels_inv n s \<longleftrightarrow>
     (messagesClosed s \<longleftrightarrow> dispatcher s = DispatcherDone) \<and>
     (messagesClosed s \<longrightarrow> deliveriesClosed s \<and> deliveries s = []) \<and>
     length (messages s) \<le> n \<and>
     (restartClosed s \<longleftrightarrow> main_at s = Waiting \<or> main_at s = Returned) \<and>
     (monitor s = MonitorDone \<longrightarrow> restartClosed s) \<and>
     (main_at s = Returned \<longrightarrow> dispatcher s = DispatcherDone \<and> monitor s = MonitorDone \<and> (\<forall>i. workers s i = Gone))"

definition accounts_inv :: "nat \<Rightarrow> 'd consumer \<Rightarrow> bool" where
  "accounts_inv n s \<longleftrightarrow>
     mset (received s) = in_transit (dispatcher s) + mset (messages s) + over_workers n in_work (workers s) +
       mset (map fst (handled s)) \<and>
     mset (map fst (filter snd (handled s))) = mset (retried s) + over_workers n in_panic (workers s) \<and>
     busyCounter s = int (busy_workers n (workers s))"

definition consumer_inv :: "nat \<Rightarrow> 'd consumer \<Rightarrow> bool" where
  "consumer_inv n s \<longleftrightarrow> spawned_inv n s \<and> monitor_inv n s \<and> gone_inv n s \<and> channels_inv n s \<and> accounts_inv n s"

lemma live_worker:
  "spawned_inv n s \<Longrightarrow> workers s i \<noteq> Gone \<Longrightarrow> i \<in> {1..n}"
  by (auto simp: spawned_inv_def intro: order_trans)

lemma init_inv: "consumer_inv n started_consumer"
  by (auto simp: consumer_inv_def spawned_inv_def monitor_inv_def gone_inv_def channels_inv_def accounts_inv_def
      started_consumer_def busy_workers_def over_workers_def)

lemma environment_inv: "environment_step s t \<Longrightarrow> consumer_inv n s \<Longrightarrow> consumer_inv n t"
  by (erule environment_step.cases)
    (auto simp: consumer_inv_def spawned_inv_def monitor_inv_def gone_inv_def channels_inv_def accounts_inv_def)

lemma keeps_spawned: "consumer_step n s t \<Longrightarrow> spawned_inv n s \<Longrightarrow> monitor_inv n s \<Longrightarrow> spawned_inv n t"
  by (erule consumer_step_cases; simp only: spawned_inv_def monitor_inv_def) (auto simp del: atLeastAtMost_iff, auto)

lemma keeps_monitor: "consumer_step n s t \<Longrightarrow> spawned_inv n s \<Longrightarrow> monitor_inv n s \<Longrightarrow> monitor_inv n t"
  by (erule consumer_step_cases; simp only: spawned_inv_def monitor_inv_def) (auto simp del: atLeastAtMost_iff, auto)

lemma keeps_gone:
  assumes "consumer_step n s t" "monitor_inv n s" "messagesClosed s \<longleftrightarrow> dispatcher s = DispatcherDone" "gone_inv n s"
  shows "gone_inv n t"
  using assms(1)
proof (cases rule: consumer_step_cases)
  case (spawn k)
  then show ?thesis using assms(4) by (auto simp: gone_inv_def)
next
  case (dispatch_send d)
  then show ?thesis using assms(3,4) by (auto simp: gone_inv_def simp del: atLeastAtMost_iff)
next
  case (dispatch_end)
  then show ?thesis using assms(3,4) by (auto simp: gone_inv_def simp del: atLeastAtMost_iff)
next
  case (dispatch_receive d ds)
  then show ?thesis using assms(3,4) by (auto simp: gone_inv_def simp del: atLeastAtMost_iff)
next
  case (spawned k)
  then show ?thesis using assms(4) by (auto simp: gone_inv_def)
next
  case (take i d ds)
  then show ?thesis using assms(4) by (auto simp: gone_inv_def simp del: atLeastAtMost_iff)
next
  case (restart i)
  then show ?thesis using assms(4) by (auto simp: gone_inv_def simp del: atLeastAtMost_iff)
next
  case (respawn i)
  then show ?thesis using assms(4) by (auto simp: gone_inv_def simp del: atLeastAtMost_iff)
qed (use assms(4) in \<open>auto simp: gone_inv_def simp del: atLeastAtMost_iff\<close>)

lemma keeps_channels:
  "consumer_step n s t \<Longrightarrow> spawned_inv n s \<Longrightarrow> channels_inv n s \<Longrightarrow> channels_inv n t"
  by (erule consumer_step_cases; simp only: spawned_inv_def channels_inv_def) (auto simp del: atLeastAtMost_iff)

text \<open>One worker changes: what is in work and in panic, and how many are busy\<close>

lemma worker_change:
  assumes "i \<in> {1..n}"
  shows "over_workers n in_work (w(i := x)) = over_workers n in_work w + in_work x - in_work (w i)"
    "over_workers n in_panic (w(i := x)) = over_workers n in_panic w + in_panic x - in_panic (w i)"
    "int (busy_workers n (w(i := x))) = int (busy_workers n w) + of_bool (is_busy x) - of_bool (is_busy (w i))"
proof -
  show "over_workers n in_work (w(i := x)) = over_workers n in_work w + in_work x - in_work (w i)"
    using over_workers_upd [OF assms, of in_work w x] by (metis add_diff_cancel_right')
  show "over_workers n in_panic (w(i := x)) = over_workers n in_panic w + in_panic x - in_panic (w i)"
    using over_workers_upd [OF assms, of in_panic w x] by (metis add_diff_cancel_right')
  show "int (busy_workers n (w(i := x))) = int (busy_workers n w) + of_bool (is_busy x) - of_bool (is_busy (w i))"
    using over_workers_upd [OF assms, of "\<lambda>x. if is_busy x then 1 else 0 :: nat" w x]
    by (auto simp: busy_workers_def split: if_splits)
qed

lemma worker_part:
  assumes "i \<in> {1..n}"
  shows "in_work (w i) \<subseteq># over_workers n in_work w" "in_panic (w i) \<subseteq># over_workers n in_panic w"
  using assms by (simp_all add: over_workers_def sum.remove)

lemma keeps_accounts:
  assumes "consumer_step n s t" "spawned_inv n s" "monitor_inv n s" "accounts_inv n s"
  shows "accounts_inv n t"
  using assms(1)
proof (cases rule: consumer_step_cases)
  case (spawn k)
  then have i: "Suc k \<in> {1..n}" "workers s (Suc k) = Gone"
    using assms(2) by (auto simp: spawned_inv_def)
  then show ?thesis using spawn assms(4) worker_change [OF i(1), of "workers s" Idle] by (simp add: accounts_inv_def)
next
  case (take i d ds)
  then have i: "i \<in> {1..n}" using live_worker [OF assms(2), of i] by simp
  then show ?thesis using take assms(4) worker_change [OF i, of "workers s" "Busy d"] by (simp add: accounts_inv_def)
next
  case (stop_cancelled i)
  then have i: "i \<in> {1..n}" using live_worker [OF assms(2), of i] by simp
  then show ?thesis using stop_cancelled assms(4) worker_change [OF i, of "workers s" Gone] by (simp add: accounts_inv_def)
next
  case (stop_closed i)
  then have i: "i \<in> {1..n}" using live_worker [OF assms(2), of i] by simp
  then show ?thesis using stop_closed assms(4) worker_change [OF i, of "workers s" Gone] by (simp add: accounts_inv_def)
next
  case (finish i d)
  then have i: "i \<in> {1..n}" using live_worker [OF assms(2), of i] by simp
  then show ?thesis using finish assms(4) worker_part [OF i, of "workers s"] worker_change [OF i, of "workers s" Idle]
    by (auto simp: accounts_inv_def dest!: multi_member_split)
next
  case (panic i d)
  then have i: "i \<in> {1..n}" using live_worker [OF assms(2), of i] by simp
  then show ?thesis using panic assms(4) worker_part [OF i, of "workers s"] worker_change [OF i, of "workers s" "Panicked d"]
    by (auto simp: accounts_inv_def dest!: multi_member_split)
next
  case (retry i d)
  then have i: "i \<in> {1..n}" using live_worker [OF assms(2), of i] by simp
  then show ?thesis using retry assms(4) worker_part [OF i, of "workers s"] worker_change [OF i, of "workers s" Restarting]
    by (auto simp: accounts_inv_def dest!: multi_member_split)
next
  case (restart i)
  then have i: "i \<in> {1..n}" using live_worker [OF assms(2), of i] by simp
  then show ?thesis using restart assms(4) worker_change [OF i, of "workers s" Gone] by (simp add: accounts_inv_def)
next
  case (respawn i)
  then have i: "i \<in> {1..n}" "workers s i = Gone"
    using assms(2,3) by (auto simp: monitor_inv_def spawned_inv_def)
  then show ?thesis using respawn assms(4) worker_change [OF i(1), of "workers s" Idle] by (simp add: accounts_inv_def)
qed (use assms(4) in \<open>auto simp: accounts_inv_def\<close>)

lemma channels_closed: "channels_inv n s \<Longrightarrow> messagesClosed s \<longleftrightarrow> dispatcher s = DispatcherDone"
  by (simp add: channels_inv_def)

lemma keeps_inv: "consumer_step n s t \<Longrightarrow> consumer_inv n s \<Longrightarrow> consumer_inv n t"
  using keeps_spawned keeps_monitor keeps_gone [OF _ _ channels_closed] keeps_channels keeps_accounts
  unfolding consumer_inv_def by blast

lemma reachable_inv: "reachable n s \<Longrightarrow> consumer_inv n s"
proof (induction rule: reachable.induct)
  case start
  show ?case by (rule init_inv)
qed (blast intro: keeps_inv environment_inv)+

text \<open>C14: The consumer loses and duplicates nothing: in every reachable state, each delivery the dispatcher has
  received is in exactly one place, in transit, in the channel of messages, with one worker, or ended.
  The busy counter is the number of workers in a handler, at most the concurrency, and so is the
  length of the channel; a delivery whose handler panicked is retried or about to be.\<close>

theorem consumer_conserves:
  assumes "reachable n s"
  shows "mset (received s) = in_transit (dispatcher s) + mset (messages s) + over_workers n in_work (workers s) +
      mset (map fst (handled s)) \<and>
    busyCounter s = int (busy_workers n (workers s)) \<and> busyCounter s \<le> int n \<and> length (messages s) \<le> n \<and>
    mset (map fst (filter snd (handled s))) = mset (retried s) + over_workers n in_panic (workers s)"
  using reachable_inv [OF assms] busy_workers_le [of n "workers s"]
  by (simp add: consumer_inv_def accounts_inv_def channels_inv_def)

text \<open>Runs of one worker. A delivery arrives and its handler starts; then it ends and the consumer shuts down.\<close>

lemma own_to: "reachable n s \<Longrightarrow> \<not> crashed s \<Longrightarrow> consumer_step n s t \<Longrightarrow> t = t' \<Longrightarrow> reachable n t'"
  by (auto intro: reachable.own)

lemma environment_to: "reachable n s \<Longrightarrow> \<not> crashed s \<Longrightarrow> environment_step s t \<Longrightarrow> t = t' \<Longrightarrow> reachable n t'"
  by (auto intro: reachable.environment)

definition ex_busy :: "nat consumer" where
  "ex_busy = started_consumer\<lparr>dispatcher := Receiving, received := [7], main_at := Running,
     workers := (\<lambda>i. if i = 1 then Busy 7 else Gone), busyCounter := 1\<rparr>"

lemma ex_busy_reachable: "reachable 1 ex_busy"
proof -
  let ?s = "started_consumer :: nat consumer"
  note d = started_consumer_def
  have "reachable 1 (?s\<lparr>deliveries := [7]\<rparr>)"
    by (rule environment_to [OF reachable.start _ environment_step.arrive]) (simp_all add: d)
  then have "reachable 1 (?s\<lparr>dispatcher := Sending 7, received := [7]\<rparr>)"
    by (rule own_to [OF _ _ step_dispatch_receive]) (simp_all add: d)
  then have "reachable 1 (?s\<lparr>messages := [7], received := [7]\<rparr>)"
    by (rule own_to [OF _ _ step_dispatch_send]) (simp_all add: d)
  then have "reachable 1 (?s\<lparr>messages := [7], received := [7], main_at := Starting 1, workers := (\<lambda>i. if i = 1 then Idle else Gone)\<rparr>)"
    by (rule own_to [OF _ _ step_spawn]) (auto simp: d fun_eq_iff)
  then have "reachable 1 (?s\<lparr>messages := [7], received := [7], main_at := Running, workers := (\<lambda>i. if i = 1 then Idle else Gone)\<rparr>)"
    by (rule own_to [OF _ _ step_spawned]) (auto simp: d)
  then show ?thesis
    by (rule own_to [OF _ _ step_take [of _ 1]]) (auto simp: d ex_busy_def fun_eq_iff)
qed

theorem consumer_conserves_witness:
  "mset (received ex_busy) = {#7#} \<and> in_transit (dispatcher ex_busy) = {#} \<and> messages ex_busy = [] \<and>
   over_workers 1 in_work (workers ex_busy) = {#7#} \<and> busyCounter ex_busy = 1"
  using consumer_conserves [OF ex_busy_reachable] by (simp add: ex_busy_def started_consumer_def over_workers_def)

section \<open>Shutting down\<close>

text \<open>C15: The shutdown is graceful. Once \<^verbatim>\<open>Start\<close> has returned, with at least one worker and the workers'
  context never cancelled, every delivery the broker has sent was received and its handler has ended,
  none is left in a channel or with a worker, all workers are gone, the busy counter is zero, and
  exactly the deliveries whose handler panicked were passed to \<^verbatim>\<open>RetryDelayed\<close>.\<close>

theorem graceful_shutdown:
  assumes "reachable n s" "main_at s = Returned" "\<not> workerDone s" "0 < n"
  shows "deliveries s = [] \<and> messages s = [] \<and> mset (received s) = mset (map fst (handled s)) \<and>
    (\<forall>i. workers s i = Gone) \<and> busyCounter s = 0 \<and>
    mset (retried s) = mset (map fst (filter snd (handled s)))"
proof -
  have inv: "gone_inv n s" "channels_inv n s" "accounts_inv n s"
    using reachable_inv [OF assms(1)] by (simp_all add: consumer_inv_def)
  have c: "dispatcher s = DispatcherDone" "monitor s = MonitorDone" "\<forall>i. workers s i = Gone" "deliveries s = []"
    using inv(2) assms(2) by (auto simp: channels_inv_def)
  have "messages s = []" using inv(1) assms(2-4) c(2,3) by (auto simp: gone_inv_def dest!: bspec [of _ _ 1])
  then show ?thesis using c inv(3) all_gone [OF c(3), of n] by (simp add: accounts_inv_def)
qed

definition ex_returned :: "nat consumer" where
  "ex_returned = ex_busy\<lparr>workers := (\<lambda>i. Gone), busyCounter := 0, handled := [(7, False)], deliveriesClosed := True,
     dispatcher := DispatcherDone, messagesClosed := True, processDone := True, restartClosed := True,
     monitor := MonitorDone, main_at := Returned\<rparr>"

lemma ex_returned_reachable: "reachable 1 ex_returned"
proof -
  let ?b = "ex_busy\<lparr>handled := [(7, False)], busyCounter := 0, workers := (\<lambda>i. if i = 1 then Idle else Gone)\<rparr>"
  let ?c = "ex_busy\<lparr>handled := [(7, False)], busyCounter := 0, workers := (\<lambda>i. Gone), deliveriesClosed := True,
    dispatcher := DispatcherDone, messagesClosed := True\<rparr>"
  note d = ex_busy_def started_consumer_def
  have "reachable 1 ?b"
    by (rule own_to [OF ex_busy_reachable _ step_finish [of _ 1]]) (auto simp: d fun_eq_iff)
  then have "reachable 1 (?b\<lparr>deliveriesClosed := True\<rparr>)"
    by (rule environment_to [OF _ _ environment_step.close_deliveries]) (simp_all add: d)
  then have "reachable 1 (?b\<lparr>deliveriesClosed := True, dispatcher := DispatcherDone, messagesClosed := True\<rparr>)"
    by (rule own_to [OF _ _ step_dispatch_end]) (simp_all add: d)
  then have "reachable 1 ?c"
    by (rule own_to [OF _ _ step_stop_closed [of _ 1]]) (auto simp: d fun_eq_iff)
  then have "reachable 1 (?c\<lparr>processDone := True\<rparr>)"
    by (rule environment_to [OF _ _ environment_step.cancel]) (simp_all add: d)
  then have "reachable 1 (?c\<lparr>processDone := True, main_at := Waiting, restartClosed := True\<rparr>)"
    by (rule own_to [OF _ _ step_shut_down]) (simp_all add: d)
  then have "reachable 1 (?c\<lparr>processDone := True, main_at := Waiting, restartClosed := True, monitor := MonitorDone\<rparr>)"
    by (rule own_to [OF _ _ step_monitor_end]) (simp_all add: d)
  then show ?thesis
    by (rule own_to [OF _ _ step_return]) (simp_all add: d ex_returned_def)
qed

theorem graceful_shutdown_witness:
  "\<exists>s :: nat consumer. reachable 1 s \<and> main_at s = Returned \<and> received s = [7] \<and> mset (map fst (handled s)) = {#7#}"
proof -
  note t = ex_returned_reachable
  have "mset (map fst [(7 :: nat, False)]) = mset [7]"
    using graceful_shutdown [OF t] by (simp add: ex_returned_def ex_busy_def started_consumer_def)
  then show ?thesis by (intro exI [of _ ex_returned] conjI t) (simp_all add: ex_returned_def ex_busy_def started_consumer_def)
qed

text \<open>How much is left to do\<close>

fun worker_weight :: "'d worker \<Rightarrow> nat" where
  "worker_weight Idle = 1"
| "worker_weight (Busy d) = 5"
| "worker_weight (Panicked d) = 4"
| "worker_weight Restarting = 3"
| "worker_weight Gone = 0"

definition work_left :: "nat \<Rightarrow> 'd consumer \<Rightarrow> nat" where
  "work_left n s = 7 * length (deliveries s) + 5 * length (messages s) +
     (case dispatcher s of Receiving \<Rightarrow> 1 | Sending d \<Rightarrow> 7 | DispatcherDone \<Rightarrow> 0) +
     (case main_at s of Starting k \<Rightarrow> 3 + 2 * (n - k) | Running \<Rightarrow> 2 | Waiting \<Rightarrow> 1 | Returned \<Rightarrow> 0) +
     (case monitor s of Ranging \<Rightarrow> 1 | Spawning i \<Rightarrow> 3 | MonitorDone \<Rightarrow> 0) +
     over_workers n worker_weight (workers s) + (if crashed s then 0 else 1)"

lemma step_works:
  assumes "consumer_step n s t" "consumer_inv n s" "\<not> crashed s"
  shows "work_left n t < work_left n s"
proof -
  have inv: "spawned_inv n s" "monitor_inv n s" using assms(2) by (simp_all add: consumer_inv_def)
  note live = live_worker [OF inv(1)]
  from assms(1) show ?thesis
  proof (cases rule: consumer_step_cases)
    case (spawn k)
    then have "Suc k \<in> {1..n}" "workers s (Suc k) = Gone" using inv(1) by (auto simp: spawned_inv_def)
    then show ?thesis using spawn over_workers_upd [of "Suc k" n worker_weight "workers s" Idle] by (simp add: work_left_def)
  next
    case (take i d ds)
    then show ?thesis using live [of i] over_workers_upd [of i n worker_weight "workers s" "Busy d"] by (simp add: work_left_def)
  next
    case (stop_cancelled i)
    then show ?thesis using live [of i] over_workers_upd [of i n worker_weight "workers s" Gone] by (simp add: work_left_def)
  next
    case (stop_closed i)
    then show ?thesis using live [of i] over_workers_upd [of i n worker_weight "workers s" Gone] by (simp add: work_left_def)
  next
    case (finish i d)
    then show ?thesis using live [of i] over_workers_upd [of i n worker_weight "workers s" Idle] by (simp add: work_left_def)
  next
    case (panic i d)
    then show ?thesis using live [of i] over_workers_upd [of i n worker_weight "workers s" "Panicked d"] by (simp add: work_left_def)
  next
    case (retry i d)
    then show ?thesis using live [of i] over_workers_upd [of i n worker_weight "workers s" Restarting] by (simp add: work_left_def)
  next
    case (restart i)
    then show ?thesis using live [of i] over_workers_upd [of i n worker_weight "workers s" Gone] by (simp add: work_left_def)
  next
    case (respawn i)
    then have "i \<in> {1..n}" "workers s i = Gone" using inv by (auto simp: monitor_inv_def spawned_inv_def)
    then show ?thesis using respawn over_workers_upd [of i n worker_weight "workers s" Idle] by (simp add: work_left_def)
  qed (use assms(3) in \<open>simp_all add: work_left_def\<close>)
qed

lemma keeps_flags:
  "consumer_step n s t \<Longrightarrow> processDone t = processDone s \<and> deliveriesClosed t = deliveriesClosed s \<and> workerDone t = workerDone s"
  by (erule consumer_step_cases) simp_all

lemma consumer_progress:
  assumes "consumer_inv n s" "processDone s" "deliveriesClosed s" "\<not> workerDone s" "0 < n" "main_at s \<noteq> Returned"
  shows "\<exists>t. consumer_step n s t"
proof (cases "main_at s")
  case (Starting k)
  show ?thesis
  proof (cases "k < n")
    case True
    show ?thesis by (rule exI, rule step_spawn [OF Starting True])
  next
    case False
    then have "n \<le> k" by simp
    show ?thesis by (rule exI, rule step_spawned [OF Starting \<open>n \<le> k\<close>])
  qed
next
  case Running
  then show ?thesis using assms(2) step_shut_down by blast
next
  case Waiting
  have inv: "gone_inv n s" "channels_inv n s" using assms(1) by (simp_all add: consumer_inv_def)
  have rc: "restartClosed s" using inv(2) Waiting by (simp add: channels_inv_def)
  consider (idle) i where "workers s i = Idle" | (busy) i d where "workers s i = Busy d"
    | (panicked) i d where "workers s i = Panicked d" | (restarting) i where "workers s i = Restarting"
    | (gone) "\<forall>i. workers s i = Gone" using worker.exhaust by metis
  then show ?thesis
  proof cases
    case idle
    show ?thesis
    proof (cases "messages s")
      case (Cons d ds)
      show ?thesis using step_take [OF idle Cons] by blast
    next
      case Nil
      show ?thesis
      proof (cases "dispatcher s")
        case Receiving
        then show ?thesis
          using step_dispatch_end [OF Receiving] step_dispatch_receive [OF Receiving] assms(3)
          by (cases "deliveries s") blast+
      next
        case (Sending d)
        then show ?thesis using step_dispatch_send [OF Sending] Nil assms(5) by auto
      next
        case DispatcherDone
        then show ?thesis using step_stop_closed [OF idle Nil] inv(2) by (auto simp: channels_inv_def)
      qed
    qed
  next
    case gone
    consider (ranging) "monitor s = Ranging" | (spawning) i where "monitor s = Spawning i" | (ended) "monitor s = MonitorDone"
      by (cases "monitor s") auto
    then show ?thesis
    proof cases
      case ranging
      then show ?thesis using step_monitor_end [OF ranging rc] by blast
    next
      case spawning
      then show ?thesis using step_respawn [OF spawning] by blast
    next
      case ended
      then have "messagesClosed s" using inv(1) gone assms(4,5) Waiting by (auto simp: gone_inv_def dest!: bspec [of _ _ 1])
      then have "dispatcher s = DispatcherDone" using inv(2) by (simp add: channels_inv_def)
      then show ?thesis using step_return [OF Waiting] ended gone by blast
    qed
  next
    case busy
    then show ?thesis using step_finish [OF busy] by blast
  next
    case panicked
    then show ?thesis using step_retry [OF panicked] by blast
  next
    case restarting
    then show ?thesis using step_send_on_closed [OF restarting rc] by blast
  qed
qed (use assms(6) in simp)

text \<open>C16: The shutdown completes. When the deliveries and the process context have ended and the workers'
  context has not, the goroutines can only take a bounded number of steps, whatever their order and
  whether handlers panic or not, and they are not at rest before \<^verbatim>\<open>Start\<close> has returned or the process
  has crashed.\<close>

theorem shutdown_completes:
  assumes "reachable n s" "processDone s" "deliveriesClosed s" "\<not> workerDone s" "0 < n"
    and "((\<lambda>s t. \<not> crashed s \<and> consumer_step n s t) ^^ k) s t"
  shows "k \<le> work_left n s \<and> ((\<forall>u. \<not> consumer_step n t u) \<longrightarrow> main_at t = Returned \<or> crashed t)"
proof -
  have "consumer_inv n t \<and> processDone t \<and> deliveriesClosed t \<and> \<not> workerDone t \<and> work_left n t + k \<le> work_left n s"
    using assms(6)
  proof (induction k arbitrary: t)
    case 0
    then show ?case using assms(2-4) reachable_inv [OF assms(1)] by simp
  next
    case (Suc k)
    then obtain u where u: "((\<lambda>s t. \<not> crashed s \<and> consumer_step n s t) ^^ k) s u" "\<not> crashed u" "consumer_step n u t"
      by auto
    note IH = Suc.IH [OF u(1)]
    have "work_left n t < work_left n u" using step_works u IH by blast
    then show ?case using IH keeps_flags [OF u(3)] keeps_inv [OF u(3)] by simp
  qed
  then show ?thesis using consumer_progress [of n t] assms(5) by auto
qed

theorem shutdown_completes_witness:
  "\<exists>s t :: nat consumer. reachable 1 s \<and> work_left 1 s = 10 \<and> consumer_step 1 s t \<and>
     ((\<lambda>s t. \<not> crashed s \<and> consumer_step 1 s t) ^^ 1) s t \<and> 1 \<le> work_left 1 s"
proof -
  let ?s = "ex_busy\<lparr>processDone := True, deliveriesClosed := True\<rparr>"
  note d = ex_busy_def started_consumer_def
  have "reachable 1 (ex_busy\<lparr>processDone := True\<rparr>)"
    by (rule environment_to [OF ex_busy_reachable _ environment_step.cancel]) (simp_all add: d)
  then have s: "reachable 1 ?s"
    by (rule environment_to [OF _ _ environment_step.close_deliveries]) (simp_all add: d)
  obtain t where t: "consumer_step 1 ?s t"
    using step_finish [of ?s 1 7] by (auto simp: d)
  have run: "((\<lambda>s t. \<not> crashed s \<and> consumer_step 1 s t) ^^ 1) ?s t"
    using t by (simp only: relpowp_1) (simp add: d)
  have "1 \<le> work_left 1 ?s"
    using shutdown_completes [OF s _ _ _ _ run] by (simp add: d)
  moreover have "work_left 1 ?s = 10" by (simp add: d work_left_def over_workers_def)
  ultimately show ?thesis using s t run by blast
qed

section \<open>Crashing\<close>

definition crash_inv :: "'d consumer \<Rightarrow> bool" where
  "crash_inv s \<longleftrightarrow>
     (restartClosed s \<longrightarrow> processDone s) \<and> (retried s \<noteq> [] \<longrightarrow> (\<exists>d. (d, True) \<in> set (handled s))) \<and>
     (\<forall>i d. workers s i = Panicked d \<longrightarrow> (d, True) \<in> set (handled s)) \<and>
     ((\<exists>i. workers s i = Restarting) \<or> crashed s \<longrightarrow> retried s \<noteq> []) \<and> (crashed s \<longrightarrow> restartClosed s)"

lemma keeps_crash: "consumer_step n s t \<Longrightarrow> crash_inv s \<Longrightarrow> crash_inv t"
  by (erule consumer_step_cases; simp only: crash_inv_def) (auto split: if_splits)

lemma reachable_crash: "reachable n s \<Longrightarrow> crash_inv s"
proof (induction rule: reachable.induct)
  case start
  show ?case by (simp add: crash_inv_def started_consumer_def)
next
  case (environment s t)
  then show ?case by (auto simp: crash_inv_def elim!: environment_step.cases)
qed (blast intro: keeps_crash)

text \<open>What can still go wrong: a handler that panics while the consumer shuts down. Its worker sends on the
  channel \<^verbatim>\<open>restart\<close>, which \<^verbatim>\<open>Start\<close> has closed by then, and that panic is recovered by nobody. The
  process crashes only in this way, after the end of the process context and after a handler
  panicked; and there it does crash, though the shutdown is meant to wait for all messages.\<close>

theorem crash_needs_panic_in_shutdown:
  assumes "reachable n s" and "crashed s"
  shows "processDone s \<and> restartClosed s \<and> (\<exists>d. (d, True) \<in> set (handled s))"
  using reachable_crash [OF assms(1)] assms(2) by (auto simp: crash_inv_def)

theorem crash_needs_panic_in_shutdown_witness:
  "\<exists>s :: nat consumer. reachable 1 s \<and> crashed s \<and> \<not> workerDone s \<and> processDone s \<and> handled s = [(7, True)] \<and> retried s = [7]"
proof -
  let ?b = "ex_busy\<lparr>processDone := True\<rparr>"
  let ?c = "ex_busy\<lparr>processDone := True, main_at := Waiting, restartClosed := True, busyCounter := 0, handled := [(7, True)]\<rparr>"
  let ?t = "?c\<lparr>workers := (\<lambda>i. if i = 1 then Restarting else Gone), retried := [7], crashed := True\<rparr>"
  note d = ex_busy_def started_consumer_def
  have "reachable 1 ?b"
    by (rule environment_to [OF ex_busy_reachable _ environment_step.cancel]) (simp_all add: d)
  then have "reachable 1 (?b\<lparr>main_at := Waiting, restartClosed := True\<rparr>)"
    by (rule own_to [OF _ _ step_shut_down]) (simp_all add: d)
  then have "reachable 1 (?c\<lparr>workers := (\<lambda>i. if i = 1 then Panicked 7 else Gone)\<rparr>)"
    by (rule own_to [OF _ _ step_panic [of _ 1 7]]) (auto simp: d fun_eq_iff)
  then have "reachable 1 (?c\<lparr>workers := (\<lambda>i. if i = 1 then Restarting else Gone), retried := [7]\<rparr>)"
    by (rule own_to [OF _ _ step_retry [of _ 1 7]]) (auto simp: d fun_eq_iff)
  then have t: "reachable 1 ?t"
    by (rule own_to [OF _ _ step_send_on_closed [of _ 1]]) (auto simp: d)
  have "processDone ?t" using crash_needs_panic_in_shutdown [OF t] by (simp add: d)
  then show ?thesis by (intro exI [of _ ?t] conjI t) (simp_all add: d)
qed

end
