(* ===== verification/Go_Calendar.thy ===== *)
theory Go_Calendar
  imports Go_Strings
begin

text \<open>
  The calendar behind Go's package \<^verbatim>\<open>time\<close>: the proleptic Gregorian days before a year and before a month,
  and the conversion between a day number and year, month, day. The day number and the
  civil date determine each other (\<open>civil_from_days_from_civil\<close>, \<open>days_from_civil_from_days\<close>).
\<close>

section \<open>The calendar\<close>

definition is_leap :: "int \<Rightarrow> bool" where
  "is_leap y \<longleftrightarrow> y mod 4 = 0 \<and> (y mod 100 \<noteq> 0 \<or> y mod 400 = 0)"

text \<open>Days from 0001-01-01 to the first day of the year, from the first day of the year to the first of the
  month, and in the month; months are numbers from 1 to 12.\<close>

definition days_before_year :: "int \<Rightarrow> int" where
  "days_before_year y = 365 * (y - 1) + (y - 1) div 4 - (y - 1) div 100 + (y - 1) div 400"

definition days_before_month :: "bool \<Rightarrow> int \<Rightarrow> int" where
  "days_before_month leap m =
     [0, 0, 31, 59, 90, 120, 151, 181, 212, 243, 273, 304, 334, 365] ! nat m + (if leap \<and> 3 \<le> m then 1 else 0)"

definition days_in :: "int \<Rightarrow> int \<Rightarrow> int" where
  "days_in m y = days_before_month (is_leap y) (m + 1) - days_before_month (is_leap y) m"

definition valid_date :: "int \<Rightarrow> int \<Rightarrow> int \<Rightarrow> bool" where
  "valid_date y m d \<longleftrightarrow> 1 \<le> m \<and> m \<le> 12 \<and> 1 \<le> d \<and> d \<le> days_in m y"

definition days_from_civil :: "int \<Rightarrow> int \<Rightarrow> int \<Rightarrow> int" where
  "days_from_civil y m d = days_before_year y + days_before_month (is_leap y) m + d - 1"

text \<open>The other way: the cycles of 400, 100, 4 and 1 years, then the month.\<close>

definition year_of_days :: "int \<Rightarrow> int" where
  "year_of_days n =
     (let a = n div 146097; r = n mod 146097;
          b = min (r div 36524) 3; r = r - 36524 * b;
          c = r div 1461; r = r mod 1461;
          d = min (r div 365) 3
      in 400 * a + 100 * b + 4 * c + d + 1)"

definition month_of_day :: "bool \<Rightarrow> int \<Rightarrow> int" where
  "month_of_day leap yday =
     int (length (filter (\<lambda>m. days_before_month leap m \<le> yday) [1, 2, 3, 4, 5, 6, 7, 8, 9, 10, 11, 12]))"

definition civil_from_days :: "int \<Rightarrow> int \<times> int \<times> int" where
  "civil_from_days n =
     (let y = year_of_days n; yday = n - days_before_year y; m = month_of_day (is_leap y) yday
      in (y, m, yday - days_before_month (is_leap y) m + 1))"

lemma days_before_year_Suc: "days_before_year (y + 1) = days_before_year y + (if is_leap y then 366 else 365)"
proof -
  have d: "y div k = (y - 1) div k + (if y mod k = 0 then 1 else 0)" if "0 < k" for k :: int
  proof (cases "y mod k = 0")
    case True
    then obtain q where "y = k * q" by (metis dvd_def mod_0_imp_dvd)
    moreover have "(k * q - 1) div k = q - 1"
      using that by (intro int_div_pos_eq [of _ _ _ "k - 1"]) (simp_all add: algebra_simps)
    ultimately show ?thesis using that True by simp
  next
    case False
    have "0 \<le> y mod k" "y mod k < k" using that by simp_all
    then have "(y - 1) div k = y div k"
      using False by (intro int_div_pos_eq [of _ _ _ "y mod k - 1"]) (simp_all add: algebra_simps)
    with False show ?thesis by simp
  qed
  have e: "days_before_year (y + 1) = 365 * y + y div 4 - y div 100 + y div 400" by (simp add: days_before_year_def)
  have dvd: "y mod 100 = 0 \<Longrightarrow> y mod 4 = 0" "y mod 400 = 0 \<Longrightarrow> y mod 100 = 0" by presburger+
  have k: "y div 4 = (y - 1) div 4 + (if y mod 4 = 0 then 1 else 0)"
    "y div 100 = (y - 1) div 100 + (if y mod 100 = 0 then 1 else 0)"
    "y div 400 = (y - 1) div 400 + (if y mod 400 = 0 then 1 else 0)"
    by (rule d, rule zero_less_numeral)+
  have arith: "(p400 \<longrightarrow> p100) \<Longrightarrow> (p100 \<longrightarrow> p4) \<Longrightarrow>
      365 * y + (A + (if p4 then 1 else 0)) - (B + (if p100 then 1 else 0)) + (C + (if p400 then 1 else 0)) =
      365 * (y - 1) + A - B + C + (if p4 \<and> (\<not> p100 \<or> p400) then 366 else 365)" for A B C :: int and p4 p100 p400
    by (cases p4; cases p100; cases p400) auto
  show ?thesis
    unfolding e unfolding k unfolding days_before_year_def is_leap_def by (rule arith) (use dvd in blast)+
qed

lemma days_before_year_mono: "x < y \<Longrightarrow> days_before_year x + 365 \<le> days_before_year y"
proof (induction "nat (y - x)" arbitrary: y)
  case (Suc n)
  show ?case
  proof (cases "y = x + 1")
    case True
    then show ?thesis by (simp add: days_before_year_Suc)
  next
    case False
    with Suc have "days_before_year x + 365 \<le> days_before_year (y - 1)" by (intro Suc.hyps(1)) auto
    then show ?thesis using days_before_year_Suc [of "y - 1"] by simp
  qed
qed simp

lemma year_of_days:
  "days_before_year (year_of_days n) \<le> n \<and> n < days_before_year (year_of_days n + 1)"
proof -
  define a where "a = n div 146097"
  define r where "r = n mod 146097"
  define b where "b = min (r div 36524) 3"
  define r1 where "r1 = r - 36524 * b"
  define c where "c = r1 div 1461"
  define r2 where "r2 = r1 mod 1461"
  define d where "d = min (r2 div 365) 3"
  have n: "n = 146097 * a + r" "0 \<le> r" "r < 146097" by (simp_all add: a_def r_def)
  have quot: "k * (x div k) \<le> x \<and> x < k * (x div k) + k" if "0 < k" for k x :: int
    using that by (metis add_strict_left_mono div_mult_mod_eq le_add_same_cancel1 mult.commute pos_mod_bound pos_mod_sign)
  have b: "0 \<le> b" "b \<le> 3" "0 \<le> r1" "r1 < 36525" "b < 3 \<longrightarrow> r1 < 36524"
  proof -
    have "0 \<le> r div 36524" using n(2) by simp
    then show "0 \<le> b" "b \<le> 3" "0 \<le> r1" "r1 < 36525" "b < 3 \<longrightarrow> r1 < 36524"
      using quot [of 36524 r] n(3) unfolding r1_def b_def by (auto simp: min_def)
  qed
  have c: "0 \<le> c" "c \<le> 24" "0 \<le> r2" "r2 < 1461" "r1 = 1461 * c + r2"
  proof -
    show "0 \<le> c" "0 \<le> r2" "r2 < 1461" using b(3) by (simp_all add: c_def r2_def)
    show "r1 = 1461 * c + r2" by (simp add: c_def r2_def)
    show "c \<le> 24" using quot [of 1461 r1] b(4) unfolding c_def by linarith
  qed
  have d: "0 \<le> d" "d \<le> 3" "365 * d \<le> r2" "r2 < 365 * d + 366" "d < 3 \<longrightarrow> r2 < 365 * d + 365"
  proof -
    have "0 \<le> r2 div 365" using c(3) by simp
    then show "0 \<le> d" "d \<le> 3" "365 * d \<le> r2" "r2 < 365 * d + 366" "d < 3 \<longrightarrow> r2 < 365 * d + 365"
      using quot [of 365 r2] c(4) unfolding d_def by (auto simp: min_def)
  qed
  define q where "q = 400 * a + 100 * b + 4 * c + d"
  have y: "year_of_days n = q + 1"
    by (simp add: year_of_days_def Let_def q_def a_def r_def b_def r1_def c_def r2_def d_def)
  have q4: "q div 4 = 100 * a + 25 * b + c"
    using d(1,2) by (intro int_div_pos_eq [of _ _ _ d]) (simp_all add: q_def)
  have q100: "q div 100 = 4 * a + b"
    using c(1,2) d(1,2) by (intro int_div_pos_eq [of _ _ _ "4 * c + d"]) (simp_all add: q_def)
  have q400: "q div 400 = a"
    using b(1,2) c(1,2) d(1,2) by (intro int_div_pos_eq [of _ _ _ "100 * b + 4 * c + d"]) (simp_all add: q_def)
  have start: "days_before_year (q + 1) = 146097 * a + 36524 * b + 1461 * c + 365 * d"
    by (simp only: days_before_year_def add_diff_cancel_right' q4 q100 q400) (simp only: q_def, simp)
  have here: "n = 146097 * a + 36524 * b + 1461 * c + r2"
    using n(1) c(5) unfolding r1_def by simp
  have "r2 < 365 * d + (if is_leap (q + 1) then 366 else 365)"
  proof (cases "d = 3 \<and> r2 = 365 * d + 365")
    case True
    then have "r2 = 1460" by simp
    have "(q + 1) mod 4 = 0" using True by (simp add: q_def)
    moreover have "(q + 1) mod 100 = 0 \<longrightarrow> c = 24"
    proof (rule impI, rule ccontr)
      assume z: "(q + 1) mod 100 = 0" and "c \<noteq> 24"
      then have lt: "0 < 4 * (c + 1)" "4 * (c + 1) < 100" using c(1,2) by simp_all
      have "q + 1 = 4 * (c + 1) + (4 * a + b) * 100" using True by (simp add: q_def)
      then have "(q + 1) mod 100 = 4 * (c + 1)"
        using lt by (simp only: mod_mult_self1 mod_pos_pos_trivial less_imp_le)
      with z lt(1) show False by linarith
    qed
    moreover have "c = 24 \<longrightarrow> b = 3"
      using b c(5) \<open>r2 = 1460\<close> by auto
    moreover have "b = 3 \<and> c = 24 \<longrightarrow> (q + 1) mod 400 = 0"
      using True by (simp add: q_def)
    ultimately have "is_leap (q + 1)" unfolding is_leap_def by metis
    then show ?thesis using True by simp
  next
    case False
    then show ?thesis using d by (cases "d = 3") auto
  qed
  then show ?thesis
    unfolding y days_before_year_Suc [of "q + 1"] start using here d(3) by simp
qed

lemma year_unique:
  assumes "days_before_year y \<le> n" "n < days_before_year (y + 1)"
  shows "year_of_days n = y"
proof (rule ccontr)
  assume "year_of_days n \<noteq> y"
  then consider "year_of_days n + 1 \<le> y" | "y + 1 \<le> year_of_days n" by linarith
  then show False
  proof cases
    case 1
    then have "days_before_year (year_of_days n + 1) \<le> days_before_year y"
      using days_before_year_mono [of "year_of_days n + 1" y] by (cases "year_of_days n + 1 = y") auto
    then show False using assms year_of_days [of n] by simp
  next
    case 2
    then have "days_before_year (y + 1) \<le> days_before_year (year_of_days n)"
      using days_before_year_mono [of "y + 1" "year_of_days n"] by (cases "y + 1 = year_of_days n") auto
    then show False using assms year_of_days [of n] by simp
  qed
qed

lemma month_cases:
  "1 \<le> m \<Longrightarrow> m \<le> 12 \<Longrightarrow> m \<in> {1, 2, 3, 4, 5, 6, 7, 8, 9, 10, 11, 12 :: int}"
  by (simp only: insert_iff empty_iff) presburger

lemma month_unique:
  assumes "1 \<le> m" "m \<le> 12" "days_before_month l m \<le> yday" "yday < days_before_month l (m + 1)"
  shows "month_of_day l yday = m"
  using month_cases [OF assms(1,2)] assms(3,4)
  by (cases l) (auto simp: month_of_day_def days_before_month_def)

lemma days_before_month_le:
  "1 \<le> m \<Longrightarrow> m \<le> 12 \<Longrightarrow> 0 \<le> days_before_month l m \<and> days_before_month l (m + 1) \<le> (if l then 366 else 365)"
  using month_cases [of m] by (cases l) (auto simp: days_before_month_def)

lemma civil_from_days_from_civil:
  assumes "valid_date y m d"
  shows "civil_from_days (days_from_civil y m d) = (y, m, d)"
proof -
  let ?n = "days_from_civil y m d"
  have m: "1 \<le> m" "m \<le> 12" and d: "1 \<le> d" "days_before_month (is_leap y) m + d - 1 < days_before_month (is_leap y) (m + 1)"
    using assms by (auto simp: valid_date_def days_in_def)
  note b = days_before_month_le [OF m, of "is_leap y"]
  have y: "year_of_days ?n = y"
    using b d by (intro year_unique) (auto simp: days_from_civil_def days_before_year_Suc)
  have "month_of_day (is_leap y) (?n - days_before_year y) = m"
    using d by (intro month_unique [OF m]) (simp_all add: days_from_civil_def)
  then show ?thesis by (simp add: civil_from_days_def y Let_def) (simp add: days_from_civil_def)
qed

lemma month_of_day_bounds:
  assumes "0 \<le> yday" "yday < (if l then 366 else 365)"
  shows "\<exists>m. 1 \<le> m \<and> m \<le> 12 \<and> days_before_month l m \<le> yday \<and> yday < days_before_month l (m + 1)"
proof -
  have step: "\<exists>m. 1 \<le> m \<and> m \<le> 12 \<and> f m \<le> yday \<and> yday < f (m + 1)"
    if "f 1 \<le> yday" "yday < f 13" for f :: "int \<Rightarrow> int"
  proof (rule ccontr)
    assume none: "\<not> ?thesis"
    have "f (1 + int k) \<le> yday" if "k \<le> 12" for k
      using that
    proof (induction k)
      case (Suc k)
      then have "f (1 + int k) \<le> yday" "1 \<le> 1 + int k" "1 + int k \<le> 12" by simp_all
      then have "\<not> yday < f (1 + int k + 1)" using none by blast
      then show ?case by (simp add: add.commute add.left_commute)
    qed (use that(1) \<open>f 1 \<le> yday\<close> in simp)
    from this [of 12] \<open>yday < f 13\<close> show False by simp
  qed
  show ?thesis
    by (rule step) (use assms in \<open>simp_all add: days_before_month_def split: if_splits\<close>)
qed

lemma days_from_civil_from_days:
  assumes "civil_from_days n = (y, m, d)"
  shows "valid_date y m d \<and> days_from_civil y m d = n"
proof -
  let ?y = "year_of_days n"
  let ?yday = "n - days_before_year ?y"
  have b: "0 \<le> ?yday" "?yday < (if is_leap ?y then 366 else 365)"
    using year_of_days [of n] days_before_year_Suc [of ?y] by simp_all
  obtain k where k: "1 \<le> k" "k \<le> 12" "days_before_month (is_leap ?y) k \<le> ?yday"
      "?yday < days_before_month (is_leap ?y) (k + 1)"
    using month_of_day_bounds [OF b] by blast
  have e: "y = ?y" "m = k" "d = ?yday - days_before_month (is_leap ?y) k + 1"
    using assms unfolding civil_from_days_def Let_def month_unique [OF k] by auto
  show ?thesis
    using k by (simp add: e valid_date_def days_in_def days_from_civil_def)
qed

end
