(* ===== verification/Go_Time.thy ===== *)
theory Go_Time
  imports Go_Calendar
begin

text \<open>
  What the program uses of Go's package \<^verbatim>\<open>time\<close>: an instant with its location, \<^verbatim>\<open>time.Date\<close> with its
  normalisation, \<^verbatim>\<open>AddDate\<close>, the accessors, and formatting and parsing for the layouts \<^verbatim>\<open>2006-01-02\<close>,
  \<^verbatim>\<open>2006-01\<close> and \<^verbatim>\<open>15:04:05\<close> with an optional fraction. The time zone database is the argument \<open>zones\<close>: for
  a name, the offset in force at a Unix second with the interval on which it holds. Years and
  seconds are unbounded integers; the 64-bit wrap-around is written out where a count of milli-, micro- or
  nanoseconds is read.
\<close>

section \<open>Instants and locations\<close>

datatype location = UTC | Zone string

record go_time =
  gt_sec :: int       \<comment> \<open>Unix seconds\<close>
  gt_nsec :: int      \<comment> \<open>from 0 to 999999999\<close>
  gt_loc :: location

type_synonym zones = "string \<Rightarrow> (int \<Rightarrow> int \<times> int \<times> int) option"

definition zone_lookup :: "zones \<Rightarrow> location \<Rightarrow> int \<Rightarrow> int \<times> int \<times> int" where
  "zone_lookup Z l u =
     (case l of UTC \<Rightarrow> (0, - (2 ^ 63), 2 ^ 63 - 1)
      | Zone n \<Rightarrow> (case Z n of None \<Rightarrow> (0, - (2 ^ 63), 2 ^ 63 - 1) | Some f \<Rightarrow> f u))"

text \<open>\<^verbatim>\<open>time.LoadLocation\<close>: two names are UTC, one is the local zone, and a name that could leave the
  database's directory is refused.\<close>

definition load_location :: "zones \<Rightarrow> string \<Rightarrow> location res" where
  "load_location Z n =
     (if n = [] \<or> n = ''UTC'' then Inr UTC
      else if n = ''Local'' then Inr (Zone ''Local'')
      else if contains n ''..'' \<or> hd n = CHR ''/'' \<or> hd n = CHR 0x5C
           then Inl (Errorf ''time: invalid location name'')
      else if Z n = None then Inl (Errorf ''unknown time zone'')
      else Inr (Zone n))"

definition location_string :: "location \<Rightarrow> string" where
  "location_string l = (case l of UTC \<Rightarrow> ''UTC'' | Zone n \<Rightarrow> n)"

definition epoch_day :: int where
  "epoch_day = 719162"

definition offset_for :: "zones \<Rightarrow> location \<Rightarrow> int \<Rightarrow> int" where
  "offset_for Z l u =
     (case zone_lookup Z l u of (offset, start, stop) \<Rightarrow>
        if offset = 0 then 0
        else if u - offset < start \<or> stop \<le> u - offset then fst (zone_lookup Z l (u - offset)) else offset)"

text \<open>\<^verbatim>\<open>time.Date\<close>: out-of-range months, days, hours and so on are normalised; the offset is the one in
  force when the clock shows the time asked, looked up a second time when the first guess falls in
  another interval.\<close>

definition go_date :: "zones \<Rightarrow> int \<Rightarrow> int \<Rightarrow> int \<Rightarrow> int \<Rightarrow> int \<Rightarrow> int \<Rightarrow> int \<Rightarrow> location \<Rightarrow> go_time" where
  "go_date Z y mon d h mi s ns l =
     (let day = days_from_civil (y + (mon - 1) div 12) ((mon - 1) mod 12 + 1) d - epoch_day;
          u = day * 86400 + h * 3600 + mi * 60 + s + ns div 1000000000
      in \<lparr>gt_sec = u - offset_for Z l u, gt_nsec = ns mod 1000000000, gt_loc = l\<rparr>)"

definition wall_sec :: "zones \<Rightarrow> go_time \<Rightarrow> int" where
  "wall_sec Z t = gt_sec t + fst (zone_lookup Z (gt_loc t) (gt_sec t))"

text \<open>\<^verbatim>\<open>t.Date()\<close> (\<^verbatim>\<open>Year\<close>, \<^verbatim>\<open>Month\<close>, \<^verbatim>\<open>Day\<close>) and \<^verbatim>\<open>t.Clock()\<close> (\<^verbatim>\<open>Hour\<close>, \<^verbatim>\<open>Minute\<close>, \<^verbatim>\<open>Second\<close>)\<close>

definition date_of :: "zones \<Rightarrow> go_time \<Rightarrow> int \<times> int \<times> int" where
  "date_of Z t = civil_from_days (wall_sec Z t div 86400 + epoch_day)"

definition clock_of :: "zones \<Rightarrow> go_time \<Rightarrow> int \<times> int \<times> int" where
  "clock_of Z t = (let s = wall_sec Z t mod 86400 in (s div 3600, s mod 3600 div 60, s mod 60))"

definition add_date :: "zones \<Rightarrow> go_time \<Rightarrow> int \<Rightarrow> int \<Rightarrow> int \<Rightarrow> go_time" where
  "add_date Z t years months days =
     (case date_of Z t of (y, m, d) \<Rightarrow> case clock_of Z t of (h, mi, s) \<Rightarrow>
        go_date Z (y + years) (m + months) (d + days) h mi s (gt_nsec t) (gt_loc t))"

text \<open>\<^verbatim>\<open>time.Unix(0, n)\<close> and the readers of the count; \<^verbatim>\<open>UnixMilli\<close> and its likes wrap at 64 bits.\<close>

definition wrap64 :: "int \<Rightarrow> int" where
  "wrap64 i = (i + 2 ^ 63) mod 2 ^ 64 - 2 ^ 63"

definition time_unix :: "int \<Rightarrow> int \<Rightarrow> go_time" where
  "time_unix s ns =
     \<lparr>gt_sec = s + ns div 1000000000, gt_nsec = ns mod 1000000000, gt_loc = Zone ''Local''\<rparr>"

definition unix_count :: "int \<Rightarrow> go_time \<Rightarrow> int" where
  "unix_count per_sec t = wrap64 (gt_sec t * per_sec + gt_nsec t div (1000000000 div per_sec))"

section \<open>Formatting\<close>

definition pad :: "nat \<Rightarrow> nat \<Rightarrow> string" where
  "pad w n = replicate (w - length (nat_str n)) CHR ''0'' @ nat_str n"

definition append_int :: "nat \<Rightarrow> int \<Rightarrow> string" where
  "append_int w i = (if i < 0 then CHR ''-'' # pad w (nat (- i)) else pad w (nat i))"

text \<open>The layouts: the empty one, \<^verbatim>\<open>2006-01-02\<close>, \<^verbatim>\<open>2006-01\<close>, and \<^verbatim>\<open>15:04:05\<close> followed by a point and
  \<open>k\<close> nines.\<close>

datatype layout = Empty_layout | Date_only | Year_month | Clock nat

definition layout_string :: "layout \<Rightarrow> string" where
  "layout_string l =
     (case l of Empty_layout \<Rightarrow> '''' | Date_only \<Rightarrow> ''2006-01-02'' | Year_month \<Rightarrow> ''2006-01''
      | Clock k \<Rightarrow> ''15:04:05'' @ (if k = 0 then '''' else CHR ''.'' # replicate k CHR ''9''))"

definition trim_zeros :: "string \<Rightarrow> string" where
  "trim_zeros s = rev (dropWhile (\<lambda>c. c = CHR ''0'') (rev s))"

text \<open>Nines leave trailing zeros out, and the point as well when no digit is left.\<close>

definition fraction :: "nat \<Rightarrow> int \<Rightarrow> string" where
  "fraction k ns =
     (let ds = trim_zeros (take k (pad 9 (nat ns))) in if ds = [] then [] else CHR ''.'' # ds)"

definition format_time :: "zones \<Rightarrow> layout \<Rightarrow> go_time \<Rightarrow> string" where
  "format_time Z l t =
     (case date_of Z t of (y, m, d) \<Rightarrow> case clock_of Z t of (h, mi, s) \<Rightarrow>
        case l of
          Empty_layout \<Rightarrow> ''''
        | Date_only \<Rightarrow> append_int 4 y @ ''-'' @ append_int 2 m @ ''-'' @ append_int 2 d
        | Year_month \<Rightarrow> append_int 4 y @ ''-'' @ append_int 2 m
        | Clock k \<Rightarrow> append_int 2 h @ '':'' @ append_int 2 mi @ '':'' @ append_int 2 s @ fraction k (gt_nsec t))"

section \<open>Parsing\<close>

text \<open>A parser returns its value and the rest of the text.\<close>

definition bad_time :: error where
  "bad_time = Errorf ''parsing time: cannot parse''"

definition out_of_range :: error where
  "out_of_range = Errorf ''parsing time: out of range''"

definition extra_text :: error where
  "extra_text = Errorf ''parsing time: extra text''"

fun getnum :: "bool \<Rightarrow> string \<Rightarrow> (int \<times> string) res" where
  "getnum fixed [] = Inl bad_time"
| "getnum fixed [c] = (if is_digit c \<and> \<not> fixed then Inr (int (digits_val 0 [c]), []) else Inl bad_time)"
| "getnum fixed (c # d # s) =
     (if \<not> is_digit c then Inl bad_time
      else if is_digit d then Inr (int (digits_val 0 [c, d]), s)
      else if fixed then Inl bad_time
      else Inr (int (digits_val 0 [c]), d # s))"

definition get_year :: "string \<Rightarrow> (int \<times> string) res" where
  "get_year s =
     (if length s < 4 \<or> \<not> list_all is_digit (take 4 s) then Inl bad_time
      else Inr (int (digits_val 0 (take 4 s)), drop 4 s))"

definition skip_char :: "char \<Rightarrow> string \<Rightarrow> string res" where
  "skip_char c s = (if s \<noteq> [] \<and> hd s = c then Inr (tl s) else Inl bad_time)"

definition in_range :: "int \<Rightarrow> int \<Rightarrow> int \<times> string \<Rightarrow> (int \<times> string) res" where
  "in_range lo hi p = (if lo \<le> fst p \<and> fst p < hi then Inr p else Inl out_of_range)"

text \<open>The fraction is optional, with a point or a comma and any number of digits, of which nine count;
  \<^verbatim>\<open>time.Parse\<close> accepts it after the seconds whether the layout has one or not.\<close>

definition get_fraction :: "string \<Rightarrow> int \<times> string" where
  "get_fraction s =
     (case s of
        c # d # _ \<Rightarrow>
          if (c = CHR ''.'' \<or> c = CHR '','') \<and> is_digit d
          then let ds = takeWhile is_digit (tl s)
               in (int (digits_val 0 (take 9 ds) * 10 ^ (9 - length ds)), dropWhile is_digit (tl s))
          else (0, s)
      | _ \<Rightarrow> (0, s))"

definition parse_ymd :: "string \<Rightarrow> (int \<times> int \<times> int) res" where
  "parse_ymd s =
     bind_res (get_year s) (\<lambda>(y, s). bind_res (skip_char CHR ''-'' s) (\<lambda>s.
     bind_res (bind_res (getnum True s) (in_range 1 13)) (\<lambda>(m, s). bind_res (skip_char CHR ''-'' s) (\<lambda>s.
     bind_res (getnum True s) (\<lambda>(d, s).
       if s \<noteq> [] then Inl extra_text
       else if d < 1 \<or> days_in m y < d then Inl out_of_range
       else Inr (y, m, d))))))"

definition parse_ym :: "string \<Rightarrow> (int \<times> int) res" where
  "parse_ym s =
     bind_res (get_year s) (\<lambda>(y, s). bind_res (skip_char CHR ''-'' s) (\<lambda>s.
     bind_res (bind_res (getnum True s) (in_range 1 13)) (\<lambda>(m, s).
       if s \<noteq> [] then Inl extra_text else Inr (y, m))))"

definition parse_hms :: "string \<Rightarrow> (int \<times> int \<times> int \<times> int) res" where
  "parse_hms s =
     bind_res (bind_res (getnum False s) (in_range 0 24)) (\<lambda>(h, s). bind_res (skip_char CHR '':'' s) (\<lambda>s.
     bind_res (bind_res (getnum True s) (in_range 0 60)) (\<lambda>(mi, s). bind_res (skip_char CHR '':'' s) (\<lambda>s.
     bind_res (bind_res (getnum True s) (in_range 0 60)) (\<lambda>(sec, s).
       case get_fraction s of (ns, s) \<Rightarrow> if s \<noteq> [] then Inl extra_text else Inr (h, mi, sec, ns))))))"

text \<open>\<^verbatim>\<open>time.Parse\<close>: what the layout leaves out is the year 0, January, the first, midnight; the result is
  in UTC.\<close>

definition parse_layout :: "zones \<Rightarrow> layout \<Rightarrow> string \<Rightarrow> go_time res" where
  "parse_layout Z l s =
     (case l of
        Empty_layout \<Rightarrow> if s = [] then Inr (go_date Z 0 1 1 0 0 0 0 UTC) else Inl extra_text
      | Date_only \<Rightarrow> bind_res (parse_ymd s) (\<lambda>(y, m, d). Inr (go_date Z y m d 0 0 0 0 UTC))
      | Year_month \<Rightarrow> bind_res (parse_ym s) (\<lambda>(y, m). Inr (go_date Z y m 1 0 0 0 0 UTC))
      | Clock k \<Rightarrow> bind_res (parse_hms s) (\<lambda>(h, mi, sec, ns). Inr (go_date Z 0 1 1 h mi sec ns UTC)))"

section \<open>Reading back what was built\<close>

lemma div_mod_day:
  fixes u v :: int
  assumes "0 \<le> v" "v < 86400"
  shows "(u * 86400 + v) div 86400 = u" and "(u * 86400 + v) mod 86400 = v"
  using assms by simp_all

lemma split_clock:
  fixes h mi s :: int
  assumes "0 \<le> h" "0 \<le> mi" "mi < 60" "0 \<le> s" "s < 60"
  shows "(h * 3600 + mi * 60 + s) div 3600 = h"
    and "(h * 3600 + mi * 60 + s) mod 3600 div 60 = mi"
    and "(h * 3600 + mi * 60 + s) mod 60 = s"
proof -
  have b: "0 \<le> mi * 60 + s" "mi * 60 + s < 3600" using assms by simp_all
  show "(h * 3600 + mi * 60 + s) div 3600 = h"
    using b by (intro int_div_pos_eq [of _ _ _ "mi * 60 + s"]) simp_all
  have "(h * 3600 + mi * 60 + s) mod 3600 = mi * 60 + s"
    using b by (intro int_mod_pos_eq [of _ _ h]) simp_all
  moreover have "(mi * 60 + s) div 60 = mi" using assms by (intro int_div_pos_eq [of _ _ _ s]) simp_all
  ultimately show "(h * 3600 + mi * 60 + s) mod 3600 div 60 = mi" by simp
  show "(h * 3600 + mi * 60 + s) mod 60 = s"
    using assms by (intro int_mod_pos_eq [of _ _ "h * 60 + mi"]) simp_all
qed

definition valid_clock :: "int \<Rightarrow> int \<Rightarrow> int \<Rightarrow> bool" where
  "valid_clock h mi s \<longleftrightarrow> 0 \<le> h \<and> h < 24 \<and> 0 \<le> mi \<and> mi < 60 \<and> 0 \<le> s \<and> s < 60"

lemma norm_month: "1 \<le> m \<Longrightarrow> m \<le> 12 \<Longrightarrow> (m - 1) div 12 = 0 \<and> (m - 1) mod 12 + 1 = (m :: int)"
  by (simp add: div_pos_pos_trivial mod_pos_pos_trivial)

text \<open>The clock shows what was asked whenever the offset used is the one in force at the result.\<close>

lemma go_date_reads_back:
  assumes "valid_date y m d" "valid_clock h mi s" "0 \<le> ns" "ns < 1000000000"
    and "t = go_date Z y m d h mi s ns l"
    and "wall_sec Z t = (days_from_civil y m d - epoch_day) * 86400 + (h * 3600 + mi * 60 + s)"
  shows "date_of Z t = (y, m, d)" and "clock_of Z t = (h, mi, s)" and "gt_nsec t = ns" and "gt_loc t = l"
proof -
  let ?v = "h * 3600 + mi * 60 + s"
  have v: "0 \<le> ?v" "?v < 86400" using assms(2) by (simp_all add: valid_clock_def)
  show "date_of Z t = (y, m, d)"
    unfolding date_of_def assms(6) div_mod_day(1) [OF v]
    using civil_from_days_from_civil [OF assms(1)] by simp
  show "clock_of Z t = (h, mi, s)"
    unfolding clock_of_def assms(6) div_mod_day(2) [OF v] Let_def
    using assms(2) by (simp add: split_clock valid_clock_def)
  show "gt_nsec t = ns" "gt_loc t = l"
    using assms(3,4) by (simp_all add: assms(5) go_date_def Let_def)
qed

lemma go_date_seconds:
  assumes "1 \<le> m" "m \<le> 12" "0 \<le> ns" "ns < 1000000000"
    and "u = (days_from_civil y m d - epoch_day) * 86400 + (h * 3600 + mi * 60 + s)"
  shows "gt_sec (go_date Z y m d h mi s ns l) = u - offset_for Z l u"
    and "gt_loc (go_date Z y m d h mi s ns l) = l"
proof -
  have "ns div 1000000000 = 0" using assms(3,4) by (rule div_pos_pos_trivial)
  then show "gt_sec (go_date Z y m d h mi s ns l) = u - offset_for Z l u"
    unfolding go_date_def Let_def using norm_month [OF assms(1,2)] by (simp add: assms(5) add.assoc)
qed (simp add: go_date_def Let_def)

lemma offset_utc [simp]: "offset_for Z UTC u = 0" "fst (zone_lookup Z UTC u) = 0"
  by (simp_all add: offset_for_def zone_lookup_def)

lemma go_date_utc:
  assumes "valid_date y m d" "valid_clock h mi s" "0 \<le> ns" "ns < 1000000000"
    and "t = go_date Z y m d h mi s ns UTC"
  shows "date_of Z t = (y, m, d)" and "clock_of Z t = (h, mi, s)" and "gt_nsec t = ns" and "gt_loc t = UTC"
proof -
  have m: "1 \<le> m" "m \<le> 12" using assms(1) by (simp_all add: valid_date_def)
  have "wall_sec Z t = (days_from_civil y m d - epoch_day) * 86400 + (h * 3600 + mi * 60 + s)"
    using go_date_seconds [OF m assms(3,4) refl] by (simp add: wall_sec_def assms(5))
  note go_date_reads_back [OF assms(1-4) assms(5) this]
  then show "date_of Z t = (y, m, d)" "clock_of Z t = (h, mi, s)" "gt_nsec t = ns" "gt_loc t = UTC" .
qed

lemma first_valid [simp]: "1 \<le> m \<Longrightarrow> m \<le> 12 \<Longrightarrow> valid_date y m 1"
  using month_cases [of m] by (cases "is_leap y") (auto simp: valid_date_def days_in_def days_before_month_def)

lemma midnight_valid [simp]: "valid_clock 0 0 0"
  by (simp add: valid_clock_def)

lemma date_of_valid: "date_of Z t = (y, m, d) \<Longrightarrow> valid_date y m d"
  unfolding date_of_def using days_from_civil_from_days by blast

lemma clock_of_valid: "clock_of Z t = (h, mi, s) \<Longrightarrow> valid_clock h mi s"
proof -
  assume "clock_of Z t = (h, mi, s)"
  moreover define v where "v = wall_sec Z t mod 86400"
  moreover have "0 \<le> v" "v < 86400" by (simp_all add: v_def)
  ultimately have e: "h = v div 3600" "mi = v mod 3600 div 60" "s = v mod 60" and v: "0 \<le> v" "v < 86400"
    by (simp_all add: clock_of_def Let_def)
  have "v div 3600 < 24" using v by linarith
  moreover have "v mod 3600 < 3600" by simp
  then have "v mod 3600 div 60 < 60" by linarith
  ultimately show ?thesis using v(1) by (simp add: valid_clock_def e pos_imp_zdiv_nonneg_iff)
qed

section \<open>Formatting and parsing\<close>

lemma digits_val_zeros: "digits_val 0 (replicate k CHR ''0'' @ s) = digits_val 0 s"
  by (induction k) (simp_all add: digits_val_def)

lemma pad_length: "n < 10 ^ w \<Longrightarrow> 0 < w \<Longrightarrow> length (pad w n) = w"
  using length_nat_str_le [of n w] by (simp add: pad_def)

lemma pad_value [simp]: "digits_val 0 (pad w n) = n"
  by (simp add: pad_def digits_val_zeros digits_val_nat_str)

lemma pad_digits: "c \<in> set (pad w n) \<Longrightarrow> is_digit c"
  by (auto simp: pad_def dest: nat_str_digits) (simp add: is_digit_def)

lemma append_int_nonneg: "0 \<le> i \<Longrightarrow> append_int w i = pad w (nat i)"
  by (simp add: append_int_def)

lemma getnum_pad:
  assumes "n < 100"
  shows "getnum f (pad 2 n @ r) = Inr (int n, r)"
proof -
  have "length (pad 2 n) = 2" using assms by (intro pad_length) simp_all
  then obtain a b where ab: "pad 2 n = [a, b]"
    by (metis (no_types, lifting) One_nat_def Suc_1 length_0_conv length_Suc_conv)
  then have "is_digit a" "is_digit b" using pad_digits [of _ 2 n] by simp_all
  moreover have "digits_val 0 [a, b] = n" using pad_value [of 2 n] ab by simp
  ultimately show ?thesis by (simp add: ab)
qed

lemma get_year_pad: "n < 10000 \<Longrightarrow> get_year (pad 4 n @ r) = Inr (int n, r)"
proof -
  assume "n < 10000"
  then have "length (pad 4 n) = 4" by (intro pad_length) simp_all
  then show ?thesis by (simp add: get_year_def list_all_iff pad_digits)
qed

lemma getnum_append_int: "0 \<le> i \<Longrightarrow> i < 100 \<Longrightarrow> getnum f (append_int 2 i @ r) = Inr (i, r)"
  using getnum_pad [of "nat i"] by (simp add: append_int_nonneg)

lemma get_year_append_int: "0 \<le> i \<Longrightarrow> i < 10000 \<Longrightarrow> get_year (append_int 4 i @ r) = Inr (i, r)"
  using get_year_pad [of "nat i"] by (simp add: append_int_nonneg)

lemma skip_char_Cons [simp]: "skip_char c (c # s) = Inr s"
  by (simp add: skip_char_def)

lemma in_range_ok: "lo \<le> i \<Longrightarrow> i < hi \<Longrightarrow> in_range lo hi (i, s) = Inr (i, s)"
  by (simp add: in_range_def)

lemma days_in_le: "1 \<le> m \<Longrightarrow> m \<le> 12 \<Longrightarrow> days_in m y \<le> 31"
  using month_cases [of m] by (cases "is_leap y") (auto simp: days_in_def days_before_month_def)

lemma parse_ymd_format:
  assumes "valid_date y m d" "0 \<le> y" "y < 10000"
  shows "parse_ymd (append_int 4 y @ ''-'' @ append_int 2 m @ ''-'' @ append_int 2 d) = Inr (y, m, d)"
proof -
  have m: "1 \<le> m" "m \<le> 12" and d: "1 \<le> d" "d \<le> days_in m y" using assms(1) by (simp_all add: valid_date_def)
  have "d < 100" using days_in_le [OF m, of y] d(2) by simp
  then have "getnum True (append_int 2 d) = Inr (d, [])"
    using getnum_append_int [of d True "[]"] d(1) by simp
  then show ?thesis
    using assms(2,3) m d by (simp add: parse_ymd_def get_year_append_int getnum_append_int in_range_ok)
qed

lemma parse_ym_format:
  assumes "1 \<le> m" "m \<le> 12" "0 \<le> y" "y < 10000"
  shows "parse_ym (append_int 4 y @ ''-'' @ append_int 2 m) = Inr (y, m)"
  using assms getnum_append_int [of m True "[]"]
  by (simp add: parse_ym_def get_year_append_int in_range_ok)

end
