(* ===== verification/Ztime.thy ===== *)
theory Ztime
  imports Go_Time
begin

text \<open>
  Package \<^verbatim>\<open>go/ztime\<close>: the types \<^verbatim>\<open>Date\<close>, \<^verbatim>\<open>Month\<close>, \<^verbatim>\<open>Time\<close>, \<^verbatim>\<open>Unix\<close> and \<^verbatim>\<open>Timezone\<close>. Each wraps a Go
  time or location; \<^verbatim>\<open>UnmarshalJSON\<close> and \<^verbatim>\<open>Scan\<close> write to their receiver, so they take its value and return
  the one it has afterwards beside the result. What \<^verbatim>\<open>encoding/json\<close> does to a string is the pair of
  arguments \<open>quote\<close> and \<open>unquote\<close>.
\<close>

section \<open>Data\<close>

record zdate =
  zd_time :: go_time

record zmonth =
  zm_time :: go_time

text \<open>A resolution is a duration in nanoseconds.\<close>

type_synonym resolution = int

definition ResolutionSecond :: resolution where "ResolutionSecond = 1000000000"
definition ResolutionMilli :: resolution where "ResolutionMilli = 1000000"
definition ResolutionMicro :: resolution where "ResolutionMicro = 1000"
definition ResolutionNano :: resolution where "ResolutionNano = 1"

record ztime =
  zt_time :: go_time
  zt_res :: resolution

record zunix =
  zu_time :: go_time
  zu_res :: resolution

text \<open>A time zone may hold no location.\<close>

record timezone =
  tz_location :: "location option"

definition timeFormats :: "(resolution \<times> layout) list" where
  "timeFormats =
     [(ResolutionSecond, Clock 0), (ResolutionMilli, Clock 3), (ResolutionMicro, Clock 6), (ResolutionNano, Clock 9)]"

text \<open>Indexing the map: the empty layout for a resolution it does not hold.\<close>

definition timeFormat :: "resolution \<Rightarrow> layout" where
  "timeFormat r = (case map_of timeFormats r of None \<Rightarrow> Empty_layout | Some l \<Rightarrow> l)"

text \<open>What a database driver hands to \<^verbatim>\<open>Scan\<close> and takes from \<^verbatim>\<open>Value\<close>.\<close>

datatype driver_value =
  DInt64 int | DFloat64 | DBool bool | DBytes string | DString string | DTime go_time | DNil

section \<open>Construction\<close>

definition NewDate :: "go_time \<Rightarrow> zdate" where
  "NewDate t = \<lparr>zd_time = t\<rparr>"

definition NewDateFromValues :: "zones \<Rightarrow> int \<Rightarrow> int \<Rightarrow> int \<Rightarrow> zdate" where
  "NewDateFromValues Z year month day = NewDate (go_date Z year month day 0 0 0 0 UTC)"

definition NewMonth :: "go_time \<Rightarrow> zmonth" where
  "NewMonth t = \<lparr>zm_time = t\<rparr>"

definition NewMonthFromValues :: "zones \<Rightarrow> int \<Rightarrow> int \<Rightarrow> zmonth" where
  "NewMonthFromValues Z year month = NewMonth (go_date Z year month 1 0 0 0 0 UTC)"

definition NewMonthFromDate :: "zones \<Rightarrow> zdate \<Rightarrow> zmonth" where
  "NewMonthFromDate Z d = (case date_of Z (zd_time d) of (y, m, _) \<Rightarrow> NewMonthFromValues Z y m)"

definition NewTime :: "go_time \<Rightarrow> resolution \<Rightarrow> ztime" where
  "NewTime t res = \<lparr>zt_time = t, zt_res = res\<rparr>"

definition NewTimeFromValues :: "zones \<Rightarrow> int \<Rightarrow> int \<Rightarrow> int \<Rightarrow> resolution \<Rightarrow> ztime" where
  "NewTimeFromValues Z hour minute second res = NewTime (go_date Z 2005 1 1 hour minute second 0 UTC) res"

definition NewUnix :: "go_time \<Rightarrow> resolution \<Rightarrow> zunix" where
  "NewUnix t res = \<lparr>zu_time = t, zu_res = res\<rparr>"

definition NewTimezone :: "location \<Rightarrow> timezone" where
  "NewTimezone l = \<lparr>tz_location = Some l\<rparr>"

definition Time_SetResolution :: "ztime \<Rightarrow> resolution \<Rightarrow> ztime" where
  "Time_SetResolution t res = t\<lparr>zt_res := res\<rparr>"

definition Unix_SetResolution :: "zunix \<Rightarrow> resolution \<Rightarrow> zunix" where
  "Unix_SetResolution t res = t\<lparr>zu_res := res\<rparr>"

section \<open>Text\<close>

definition Date_String :: "zones \<Rightarrow> zdate \<Rightarrow> string" where
  "Date_String Z d = format_time Z Date_only (zd_time d)"

definition Month_String :: "zones \<Rightarrow> zmonth \<Rightarrow> string" where
  "Month_String Z m = format_time Z Year_month (zm_time m)"

definition Time_String :: "zones \<Rightarrow> ztime \<Rightarrow> string" where
  "Time_String Z t = format_time Z (timeFormat (zt_res t)) (zt_time t)"

definition parseDate :: "zones \<Rightarrow> string \<Rightarrow> zdate res" where
  "parseDate Z s =
     bind_res (wrap_res ''unmarshalling ztime.Date: parsing date'' (parse_layout Z Date_only s)) (\<lambda>v. Inr \<lparr>zd_time = v\<rparr>)"

definition ParseMonth :: "zones \<Rightarrow> string \<Rightarrow> zmonth res" where
  "ParseMonth Z s =
     bind_res (wrap_res ''unmarshalling ztime.Month: parsing date'' (parse_layout Z Year_month s))
       (\<lambda>v. Inr \<lparr>zm_time = v\<rparr>)"

text \<open>The resolution is the one whose layout has the length of the text; the code ranges over the map in an
  unspecified order, the argument \<open>formats\<close>. Without a match it is 0, and the layout is empty.\<close>

definition resolution_of_length :: "(resolution \<times> layout) list \<Rightarrow> string \<Rightarrow> resolution" where
  "resolution_of_length formats s =
     (case List.find (\<lambda>(r, f). length s = length (layout_string f)) formats of None \<Rightarrow> 0 | Some (r, _) \<Rightarrow> r)"

definition parseTime :: "zones \<Rightarrow> string \<Rightarrow> ztime res" where
  "parseTime Z s =
     (let res = resolution_of_length timeFormats s
      in bind_res (wrap_res ''parsing ztime.Time'' (parse_layout Z (timeFormat res) s))
           (\<lambda>v. Inr \<lparr>zt_time = v, zt_res = res\<rparr>))"

section \<open>JSON\<close>

text \<open>The shape the four \<^verbatim>\<open>UnmarshalJSON\<close> of quoted values share: \<^verbatim>\<open>null\<close> only assigns the local receiver, so the
  value stays; an error leaves the value as well.\<close>

definition unmarshal_text ::
  "string \<Rightarrow> string \<Rightarrow> (string \<Rightarrow> string res) \<Rightarrow> (string \<Rightarrow> 'a res) \<Rightarrow> string \<Rightarrow> 'a \<Rightarrow> 'a \<times> unit res" where
  "unmarshal_text m1 m2 unquote parse data v =
     (if data = ''null'' then (v, Inr ())
      else case wrap_res m1 (unquote data) of
             Inl e \<Rightarrow> (v, Inl e)
           | Inr s \<Rightarrow> (case wrap_res m2 (parse s) of Inl e \<Rightarrow> (v, Inl e) | Inr x \<Rightarrow> (x, Inr ())))"

definition Date_UnmarshalJSON :: "(string \<Rightarrow> string res) \<Rightarrow> zones \<Rightarrow> string \<Rightarrow> zdate \<Rightarrow> zdate \<times> unit res" where
  "Date_UnmarshalJSON unquote Z =
     unmarshal_text ''unmarshalling ztime.Date: parsing json string'' ''unmarshalling ztime.Date: parsing''
       unquote (parseDate Z)"

definition Date_MarshalJSON :: "(string \<Rightarrow> string) \<Rightarrow> zones \<Rightarrow> zdate \<Rightarrow> string" where
  "Date_MarshalJSON quote Z d = quote (Date_String Z d)"

definition Month_UnmarshalJSON :: "(string \<Rightarrow> string res) \<Rightarrow> zones \<Rightarrow> string \<Rightarrow> zmonth \<Rightarrow> zmonth \<times> unit res" where
  "Month_UnmarshalJSON unquote Z =
     unmarshal_text ''unmarshalling ztime.Month: parsing json string'' ''unmarshalling ztime.Month: parsing''
       unquote (ParseMonth Z)"

definition Month_MarshalJSON :: "(string \<Rightarrow> string) \<Rightarrow> zones \<Rightarrow> zmonth \<Rightarrow> string" where
  "Month_MarshalJSON quote Z m = quote (Month_String Z m)"

definition Time_UnmarshalJSON :: "(string \<Rightarrow> string res) \<Rightarrow> zones \<Rightarrow> string \<Rightarrow> ztime \<Rightarrow> ztime \<times> unit res" where
  "Time_UnmarshalJSON unquote Z =
     unmarshal_text ''unmarshalling ztime.Time: parsing json string'' ''unmarshalling ztime.Time: parsing''
       unquote (parseTime Z)"

definition Time_MarshalJSON :: "(string \<Rightarrow> string) \<Rightarrow> zones \<Rightarrow> ztime \<Rightarrow> string" where
  "Time_MarshalJSON quote Z t = quote (Time_String Z t)"

definition Timezone_UnmarshalJSON ::
  "(string \<Rightarrow> string res) \<Rightarrow> zones \<Rightarrow> string \<Rightarrow> timezone \<Rightarrow> timezone \<times> unit res" where
  "Timezone_UnmarshalJSON unquote Z =
     unmarshal_text ''unmarshalling timezone: parsing value into string'' ''unmarshalling timezone: loading''
       unquote (\<lambda>s. bind_res (load_location Z s) (\<lambda>l. Inr \<lparr>tz_location = Some l\<rparr>))"

text \<open>The name of no location is \<^verbatim>\<open>UTC\<close>.\<close>

definition Timezone_String :: "timezone \<Rightarrow> string" where
  "Timezone_String tz = (case tz_location tz of None \<Rightarrow> ''UTC'' | Some l \<Rightarrow> location_string l)"

definition Timezone_MarshalJSON :: "(string \<Rightarrow> string) \<Rightarrow> timezone \<Rightarrow> string" where
  "Timezone_MarshalJSON quote tz = quote (Timezone_String tz)"

text \<open>A Unix time is a bare number. The zero is what \<^verbatim>\<open>String\<close> prints for a resolution it does not know.\<close>

definition Unix_String :: "zunix \<Rightarrow> string" where
  "Unix_String t =
     int_str (if zu_res t = ResolutionSecond then unix_count 1 (zu_time t)
              else if zu_res t = ResolutionMilli then unix_count 1000 (zu_time t)
              else if zu_res t = ResolutionMicro then unix_count 1000000 (zu_time t)
              else if zu_res t = ResolutionNano then unix_count 1000000000 (zu_time t)
              else 0)"

definition Unix_MarshalJSON :: "zunix \<Rightarrow> string" where
  "Unix_MarshalJSON t = Unix_String t"

definition Unix_UnmarshalJSON :: "string \<Rightarrow> zunix \<Rightarrow> zunix \<times> unit res" where
  "Unix_UnmarshalJSON b t =
     (case parse_int64 b of
        None \<Rightarrow> (t, Inl (Wrap ''parsing timestamp as int'' (Errorf ''strconv.ParseInt'')))
      | Some i \<Rightarrow>
          if length b \<le> 12 then (\<lparr>zu_time = time_unix i 0, zu_res = ResolutionSecond\<rparr>, Inr ())
          else if length b \<le> 15
               then (\<lparr>zu_time = time_unix (i div 1000) (i mod 1000 * 1000000), zu_res = ResolutionMilli\<rparr>, Inr ())
          else if length b \<le> 18
               then (\<lparr>zu_time = time_unix (i div 1000000) (i mod 1000000 * 1000), zu_res = ResolutionMicro\<rparr>, Inr ())
          else if length b \<le> 21 then (\<lparr>zu_time = time_unix 0 i, zu_res = ResolutionNano\<rparr>, Inr ())
          else (t, Inl (Errorf ''parsing identifying timestamp resolution'')))"

section \<open>Database values\<close>

text \<open>Integers and floats have empty cases: they leave the switch and end in the last error.\<close>

definition scan_text ::
  "string \<Rightarrow> (string \<Rightarrow> 'a res) \<Rightarrow> (go_time \<Rightarrow> 'a res) \<Rightarrow> driver_value \<Rightarrow> 'a \<Rightarrow> 'a \<times> unit res" where
  "scan_text what parse of_time data v =
     (let target = (case data of DBytes b \<Rightarrow> DString b | _ \<Rightarrow> data);
          r = (case target of
                 DString s \<Rightarrow> parse s
               | DTime t \<Rightarrow> of_time t
               | DNil \<Rightarrow> Inr v
               | DBool b \<Rightarrow> Inl (Errorf (what @ '': invalid input type''))
               | _ \<Rightarrow> Inl (Errorf (what @ '': unrecognized type'')))
      in case r of Inl e \<Rightarrow> (v, Inl e) | Inr x \<Rightarrow> (x, Inr ()))"

definition Date_Scan :: "zones \<Rightarrow> driver_value \<Rightarrow> zdate \<Rightarrow> zdate \<times> unit res" where
  "Date_Scan Z =
     scan_text ''scanning ztime.Date''
       (\<lambda>s. bind_res (wrap_res ''scanning ztime.Date: parsing date'' (parse_layout Z Date_only s)) (\<lambda>v. Inr \<lparr>zd_time = v\<rparr>))
       (\<lambda>t. Inr \<lparr>zd_time = t\<rparr>)"

definition Month_Scan :: "zones \<Rightarrow> driver_value \<Rightarrow> zmonth \<Rightarrow> zmonth \<times> unit res" where
  "Month_Scan Z =
     scan_text ''scanning ztime.Month''
       (\<lambda>s. bind_res (wrap_res ''scanning ztime.Month: parsing date'' (parse_layout Z Year_month s)) (\<lambda>v. Inr \<lparr>zm_time = v\<rparr>))
       (\<lambda>t. Inr \<lparr>zm_time = t\<rparr>)"

definition Time_Scan :: "zones \<Rightarrow> driver_value \<Rightarrow> ztime \<Rightarrow> ztime \<times> unit res" where
  "Time_Scan Z =
     scan_text ''scanning ztime.Time'' (\<lambda>s. wrap_res ''scanning ztime.Time: parsing'' (parseTime Z s))
       (\<lambda>t. Inr \<lparr>zt_time = t, zt_res = ResolutionNano\<rparr>)"

text \<open>For a time zone a boolean's case is empty as well, and a time is the invalid type.\<close>

definition Timezone_Scan :: "zones \<Rightarrow> driver_value \<Rightarrow> timezone \<Rightarrow> timezone \<times> unit res" where
  "Timezone_Scan Z data tz =
     (let target = (case data of DBytes b \<Rightarrow> DString b | _ \<Rightarrow> data)
      in case target of
           DString s \<Rightarrow>
             (case wrap_res ''scanning timezone: loading location'' (load_location Z s) of
                Inl e \<Rightarrow> (tz, Inl e)
              | Inr l \<Rightarrow> (\<lparr>tz_location = Some l\<rparr>, Inr ()))
         | DNil \<Rightarrow> (tz, Inr ())
         | DTime t \<Rightarrow> (tz, Inl (Errorf ''scanning timezone: invalid input type''))
         | _ \<Rightarrow> (tz, Inl (Errorf ''scanning timezone: unrecognized type'')))"

definition Date_Value :: "zdate \<Rightarrow> driver_value" where
  "Date_Value d = DTime (zd_time d)"

definition Month_Value :: "zmonth \<Rightarrow> driver_value" where
  "Month_Value m = DTime (zm_time m)"

definition Time_Value :: "ztime \<Rightarrow> driver_value" where
  "Time_Value t = DTime (zt_time t)"

definition Timezone_Value :: "timezone \<Rightarrow> driver_value" where
  "Timezone_Value tz = DString (Timezone_String tz)"

section \<open>Arithmetic\<close>

definition Month_Prev :: "zones \<Rightarrow> zmonth \<Rightarrow> zmonth" where
  "Month_Prev Z m = NewMonth (add_date Z (zm_time m) 0 (- 1) 0)"

definition Month_Next :: "zones \<Rightarrow> zmonth \<Rightarrow> zmonth" where
  "Month_Next Z m = NewMonth (add_date Z (zm_time m) 0 1 0)"

definition Month_Add :: "zones \<Rightarrow> zmonth \<Rightarrow> int \<Rightarrow> zmonth" where
  "Month_Add Z m n = NewMonth (add_date Z (zm_time m) 0 n 0)"

definition Month_OnDay :: "zones \<Rightarrow> zmonth \<Rightarrow> int \<Rightarrow> zdate" where
  "Month_OnDay Z m day = (case date_of Z (zm_time m) of (y, mon, _) \<Rightarrow> NewDateFromValues Z y mon day)"

text \<open>\<^verbatim>\<open>time.Date\<close> panics without a location.\<close>

definition Date_At :: "zones \<Rightarrow> zdate \<Rightarrow> ztime \<Rightarrow> timezone \<Rightarrow> go_time res" where
  "Date_At Z d t tz =
     (case tz_location tz of
        None \<Rightarrow> Inl (Panic ''time: missing Location in call to Date'')
      | Some l \<Rightarrow>
          case date_of Z (zd_time d) of (y, mon, day) \<Rightarrow> case clock_of Z (zt_time t) of (h, mi, s) \<Rightarrow>
            Inr (go_date Z y mon day h mi s (gt_nsec (zt_time t)) l))"

definition Time_On :: "zones \<Rightarrow> ztime \<Rightarrow> zdate \<Rightarrow> timezone \<Rightarrow> go_time res" where
  "Time_On Z t d tz =
     (case tz_location tz of
        None \<Rightarrow> Inl (Panic ''time: missing Location in call to Date'')
      | Some l \<Rightarrow>
          case date_of Z (zd_time d) of (y, mon, day) \<Rightarrow> case clock_of Z (zt_time t) of (h, mi, s) \<Rightarrow>
            Inr (go_date Z y mon day h mi s (gt_nsec (zt_time t)) l))"

end
