(* ===== verification/Ztime_Laws.thy ===== *)
theory Ztime_Laws
  imports Ztime
begin

text \<open>
  What the types of \<^verbatim>\<open>ztime\<close> keep: dates and months survive JSON for the years of four digits, times keep the
  clock but their resolution and even their readability depend on trailing zeros, Unix times survive
  within the range their number of digits stands for, and months form the arithmetic of their first days.
\<close>

section \<open>Fractions\<close>

definition kept :: "nat \<Rightarrow> int \<Rightarrow> nat" where
  "kept k ns = length (trim_zeros (take k (pad 9 (nat ns))))"

lemma trim_zeros_split: "\<exists>j. s = trim_zeros s @ replicate j CHR ''0''"
proof -
  let ?z = "takeWhile (\<lambda>c. c = CHR ''0'') (rev s)"
  have "?z = replicate (length ?z) CHR ''0''"
    by (rule replicate_length_same [symmetric]) (blast dest: set_takeWhileD)
  then have "rev ?z = replicate (length ?z) CHR ''0''" by (metis rev_replicate)
  moreover have "s = trim_zeros s @ rev ?z"
    by (simp only: trim_zeros_def rev_append [symmetric] takeWhile_dropWhile_id rev_rev_ident)
  ultimately show ?thesis by metis
qed

lemma digits_val_zeros_right: "digits_val a (s @ replicate j CHR ''0'') = digits_val a s * 10 ^ j"
proof -
  have "digits_val b (replicate j CHR ''0'') = b * 10 ^ j" for b
    by (induction j arbitrary: b) (simp_all add: digits_val_def)
  then show ?thesis by (simp add: digits_val_append)
qed

lemma digits_val_start: "digits_val a s = a * 10 ^ length s + digits_val 0 s"
proof (induction s arbitrary: a)
  case (Cons c s)
  have "digits_val a (c # s) = digits_val (10 * a + (of_char c - 48)) s" for a
    by (simp add: digits_val_def)
  from this [of a] this [of 0] Cons [of "10 * a + (of_char c - 48)"] Cons [of "of_char c - 48"]
  show ?case by (simp add: algebra_simps)
qed (simp add: digits_val_def)

lemma digits_val_less: "list_all is_digit s \<Longrightarrow> digits_val 0 s < 10 ^ length s"
proof (induction s rule: rev_induct)
  case (snoc c s)
  then have "(of_char c :: nat) \<le> 57" "digits_val 0 s + 1 \<le> 10 ^ length s" by (simp_all add: is_digit_def)
  moreover have "digits_val 0 (s @ [c]) = 10 * digits_val 0 s + (of_char c - 48)" by (simp add: digits_val_def)
  ultimately show ?case by simp
qed (simp add: digits_val_def)

lemma digits_val_take:
  assumes "list_all is_digit s" "k \<le> length s"
  shows "digits_val 0 (take k s) = digits_val 0 s div 10 ^ (length s - k)"
proof -
  have "digits_val 0 s = digits_val (digits_val 0 (take k s)) (drop k s)"
    by (metis append_take_drop_id digits_val_append)
  also have "\<dots> = digits_val 0 (take k s) * 10 ^ (length s - k) + digits_val 0 (drop k s)"
    by (subst digits_val_start) simp
  finally have e: "digits_val 0 s = digits_val 0 (take k s) * 10 ^ (length s - k) + digits_val 0 (drop k s)" .
  have "digits_val 0 (drop k s) < 10 ^ (length s - k)"
    using digits_val_less [of "drop k s"] assms(1) by (simp add: list_all_iff) (metis in_set_dropD)
  then show ?thesis unfolding e by simp
qed

text \<open>Leaving zeros out does not change what a fraction is read as.\<close>

lemma get_fraction_fraction:
  assumes "k \<le> 9" "0 \<le> ns" "ns < 1000000000"
  shows "get_fraction (fraction k ns) = (ns div 10 ^ (9 - k) * 10 ^ (9 - k), [])"
proof -
  let ?p = "pad 9 (nat ns)"
  define ds where "ds = trim_zeros (take k ?p)"
  have len: "length ?p = 9" using assms(2,3) by (intro pad_length) simp_all
  have dig: "list_all is_digit ?p" by (simp add: list_all_iff pad_digits)
  obtain j where j: "take k ?p = ds @ replicate j CHR ''0''" using trim_zeros_split unfolding ds_def by blast
  have lk: "length ds + j = k" using arg_cong [OF j, of length] len assms(1) by simp
  have "digits_val 0 (take k ?p) = nat ns div 10 ^ (9 - k)"
    using digits_val_take [OF dig, of k] len assms(1) by simp
  then have v: "digits_val 0 ds * 10 ^ j = nat ns div 10 ^ (9 - k)" by (simp add: j digits_val_zeros_right)
  have i: "int (nat ns div 10 ^ (9 - k)) = ns div 10 ^ (9 - k)"
    using assms(2) by (simp add: zdiv_int)
  show ?thesis
  proof (cases ds)
    case Nil
    then have "ns div 10 ^ (9 - k) = 0" using v i by (simp add: digits_val_def)
    then show ?thesis using Nil by (simp add: fraction_def ds_def [symmetric] get_fraction_def)
  next
    case (Cons d u)
    have "set ds \<subseteq> set (take k ?p)" unfolding j by simp
    then have dd: "\<forall>c \<in> set ds. is_digit c" using dig set_take_subset [of k ?p] by (auto simp: list_all_iff)
    have f: "fraction k ns = CHR ''.'' # ds" using Cons by (simp add: fraction_def Let_def ds_def [symmetric])
    have l: "length ds \<le> 9" "9 - length ds = j + (9 - k)" using lk assms(1) by simp_all
    have h: "is_digit d" "takeWhile is_digit u = u" "dropWhile is_digit u = []" "length u \<le> 8"
      using dd Cons l(1) by (simp_all add: takeWhile_eq_all_conv)
    have "get_fraction (fraction k ns) = (int (digits_val 0 ds * 10 ^ (9 - length ds)), [])"
      unfolding f get_fraction_def by (simp add: Cons h)
    also have "digits_val 0 ds * 10 ^ (9 - length ds) = nat ns div 10 ^ (9 - k) * 10 ^ (9 - k)"
      unfolding l(2) power_add v [symmetric] by simp
    finally show ?thesis using i by (simp only: of_nat_mult of_nat_power of_nat_numeral)
  qed
qed

lemma fraction_length: "length (fraction k ns) = (if kept k ns = 0 then 0 else 1 + kept k ns)"
  by (simp add: fraction_def kept_def Let_def)

lemma kept_le: "kept k ns \<le> k"
proof -
  obtain j where "take k (pad 9 (nat ns)) = trim_zeros (take k (pad 9 (nat ns))) @ replicate j CHR ''0''"
    using trim_zeros_split by blast
  from arg_cong [OF this, of length] show ?thesis unfolding kept_def by simp
qed

section \<open>Times\<close>

lemma parse_hms_format:
  assumes "valid_clock h mi s" "k \<le> 9" "0 \<le> ns" "ns < 1000000000"
  shows "parse_hms (append_int 2 h @ '':'' @ append_int 2 mi @ '':'' @ append_int 2 s @ fraction k ns) =
    Inr (h, mi, s, ns div 10 ^ (9 - k) * 10 ^ (9 - k))"
  using assms(1) get_fraction_fraction [OF assms(2-4)]
  by (simp add: parse_hms_def valid_clock_def getnum_append_int in_range_ok)

lemma append_int_length: "0 \<le> i \<Longrightarrow> i < 100 \<Longrightarrow> length (append_int 2 i) = 2"
  using pad_length [of "nat i" 2] by (simp add: append_int_nonneg)

lemma find_unique:
  assumes "set xs = set ys" "\<And>x y. x \<in> set xs \<Longrightarrow> y \<in> set xs \<Longrightarrow> P x \<Longrightarrow> P y \<Longrightarrow> x = y"
  shows "List.find P xs = List.find P ys"
proof -
  have mem: "x \<in> set zs \<and> P x" if "List.find P zs = Some x" for x zs
    using that by (induction zs) (auto split: if_splits)
  show ?thesis
  proof (cases "List.find P ys")
    case None
    then have "List.find P xs = None" unfolding find_None_iff using assms(1) by blast
    with None show ?thesis by simp
  next
    case (Some y)
    then have y: "y \<in> set xs" "P y" using mem assms(1) by blast+
    then obtain x where x: "List.find P xs = Some x" by (metis find_None_iff not_None_eq)
    with mem have "x \<in> set xs" "P x" by blast+
    with y assms(2) have "x = y" by blast
    with x Some show ?thesis by simp
  qed
qed

text \<open>The layouts have different lengths, so the order in which the map is visited does not matter.\<close>

lemma formats_order_irrelevant:
  assumes "set fs = set timeFormats"
  shows "resolution_of_length fs s = resolution_of_length timeFormats s"
proof -
  let ?P = "\<lambda>(r :: resolution, f). length s = length (layout_string f)"
  have "x = y" if "x \<in> set fs" "y \<in> set fs" "?P x" "?P y" for x y
    using that unfolding assms by (auto simp: timeFormats_def layout_string_def)
  then have "List.find ?P fs = List.find ?P timeFormats" by (intro find_unique assms) blast
  then show ?thesis by (simp add: resolution_of_length_def)
qed

definition read_resolution :: "nat \<Rightarrow> resolution" where
  "read_resolution n = (if n \<in> {0, 3, 6, 9} then 10 ^ (9 - n) else 0)"

lemma resolution_of_time:
  assumes "length s = 8 + (if n = 0 then 0 else 1 + n)" "n \<le> 9"
  shows "resolution_of_length timeFormats s = read_resolution n"
  using assms
  by (auto simp: resolution_of_length_def timeFormats_def layout_string_def read_resolution_def
      ResolutionSecond_def ResolutionMilli_def ResolutionMicro_def ResolutionNano_def split: if_splits)

lemma timeFormat_read_resolution:
  "n \<le> 9 \<Longrightarrow> timeFormat (read_resolution n) = (if n \<in> {0, 3, 6, 9} then Clock n else Empty_layout)"
  by (auto simp: timeFormat_def timeFormats_def read_resolution_def
      ResolutionSecond_def ResolutionMilli_def ResolutionMicro_def ResolutionNano_def)

text \<open>What a printed time is read as: the clock cut to its resolution, in the resolution of the digits that
  are left; when trailing zeros leave another number of digits, an error.\<close>

lemma parse_printed_time:
  assumes "timeFormat (zt_res t) = Clock k" "k \<le> 9" "clock_of Z (zt_time t) = (h, mi, s)"
    and "0 \<le> gt_nsec (zt_time t)" "gt_nsec (zt_time t) < 1000000000"
    and "n = kept k (gt_nsec (zt_time t))"
  shows "parseTime Z (Time_String Z t) =
    (if n \<in> {0, 3, 6, 9}
     then Inr \<lparr>zt_time = go_date Z 0 1 1 h mi s (gt_nsec (zt_time t) div 10 ^ (9 - k) * 10 ^ (9 - k)) UTC,
               zt_res = 10 ^ (9 - n)\<rparr>
     else Inl (Wrap ''parsing ztime.Time'' extra_text))"
proof -
  let ?ns = "gt_nsec (zt_time t)"
  let ?s = "append_int 2 h @ '':'' @ append_int 2 mi @ '':'' @ append_int 2 s @ fraction k ?ns"
  have v: "valid_clock h mi s" using clock_of_valid [OF assms(3)] .
  have s: "Time_String Z t = ?s"
    by (simp add: Time_String_def format_time_def assms(1,3) split: prod.split)
  have len: "length ?s = 8 + (if n = 0 then 0 else 1 + n)"
    using v by (simp add: valid_clock_def append_int_length fraction_length assms(6))
  have n: "n \<le> 9" using kept_le [of k ?ns] assms(2,6) by simp
  have res: "resolution_of_length timeFormats ?s = read_resolution n" using resolution_of_time [OF len n] .
  have ne: "?s \<noteq> []" using len by (metis add_eq_0_iff_both_eq_0 list.size(3) zero_neq_numeral)
  show ?thesis
  proof (cases "n \<in> {0, 3, 6, 9}")
    case True
    then show ?thesis
      unfolding parseTime_def s res Let_def timeFormat_read_resolution [OF n]
      using parse_hms_format [OF v assms(2,4,5)] by (simp add: parse_layout_def read_resolution_def)
  next
    case False
    then show ?thesis
      unfolding parseTime_def s res Let_def timeFormat_read_resolution [OF n]
      using ne by (simp add: parse_layout_def wrap_err_def extra_text_def del: append_eq_conv_conj append.simps)
  qed
qed

section \<open>Dates and months\<close>

lemma parse_printed_date:
  assumes "date_of Z (zd_time d) = (y, m, day)" "0 \<le> y" "y < 10000"
  shows "parseDate Z (Date_String Z d) = Inr (NewDateFromValues Z y m day)"
proof -
  obtain h mi s where c: "clock_of Z (zd_time d) = (h, mi, s)" by (cases "clock_of Z (zd_time d)") auto
  show ?thesis
    using parse_ymd_format [OF date_of_valid [OF assms(1)] assms(2,3)]
    by (simp add: parseDate_def Date_String_def format_time_def assms(1) c parse_layout_def
        NewDateFromValues_def NewDate_def)
qed

lemma parse_printed_month:
  assumes "date_of Z (zm_time M) = (y, m, day)" "0 \<le> y" "y < 10000"
  shows "ParseMonth Z (Month_String Z M) = Inr (NewMonthFromValues Z y m)"
proof -
  obtain h mi s where c: "clock_of Z (zm_time M) = (h, mi, s)" by (cases "clock_of Z (zm_time M)") auto
  have "1 \<le> m" "m \<le> 12" using date_of_valid [OF assms(1)] by (simp_all add: valid_date_def)
  from parse_ym_format [OF this assms(2,3)] show ?thesis
    by (simp add: ParseMonth_def Month_String_def format_time_def assms(1) c parse_layout_def
        NewMonthFromValues_def NewMonth_def)
qed

lemma unmarshal_text_quoted:
  assumes "unquote (quote s) = Inr s" "quote s \<noteq> ''null''"
  shows "unmarshal_text m1 m2 unquote parse (quote s) v =
    (case wrap_res m2 (parse s) of Inl e \<Rightarrow> (v, Inl e) | Inr x \<Rightarrow> (x, Inr ()))"
  using assms by (simp add: unmarshal_text_def)

text \<open>A month is its number of months from the year 0.\<close>

lemma go_date_month_index: "go_date Z y m d h mi s ns l = go_date Z 0 (12 * y + m) d h mi s ns l"
proof -
  have "12 * y + m - 1 = (m - 1) + y * 12" by simp
  then have "(12 * y + m - 1) div 12 = (m - 1) div 12 + y" "(12 * y + m - 1) mod 12 = (m - 1) mod 12"
    by (simp_all only: div_mult_self1 mod_mult_self1 zero_neq_numeral not_False_eq_True add.commute)
  then show ?thesis by (simp add: go_date_def add.commute)
qed

lemma first_of_month:
  fixes y m :: int
  obtains y' m' where "12 * y + m = 12 * y' + m'" "1 \<le> m'" "m' \<le> 12"
proof
  let ?i = "12 * y + m - 1"
  show "12 * y + m = 12 * (?i div 12) + (?i mod 12 + 1)" using div_mult_mod_eq [of ?i 12] by linarith
  show "1 \<le> ?i mod 12 + 1" by simp
  have "?i mod 12 < 12" by simp
  then show "?i mod 12 + 1 \<le> 12" by linarith
qed

lemma add_months:
  "add_date Z (go_date Z y m 1 0 0 0 0 UTC) 0 n 0 = go_date Z y (m + n) 1 0 0 0 0 UTC"
proof -
  obtain y' m' where i: "12 * y + m = 12 * y' + m'" and m: "1 \<le> m'" "m' \<le> 12"
    using first_of_month [of y m] by blast
  have e: "go_date Z y m 1 0 0 0 0 UTC = go_date Z y' m' 1 0 0 0 0 UTC"
    by (subst (1 2) go_date_month_index) (simp only: i)
  have v: "valid_date y' m' 1" using m by simp
  have "add_date Z (go_date Z y m 1 0 0 0 0 UTC) 0 n 0 = go_date Z y' (m' + n) 1 0 0 0 0 UTC"
    using go_date_utc [OF v midnight_valid _ _ e] by (simp add: add_date_def e)
  also have "\<dots> = go_date Z y (m + n) 1 0 0 0 0 UTC"
    using i by (subst (1 2) go_date_month_index) (simp only: add.assoc [symmetric])
  finally show ?thesis .
qed

lemma Month_Add_values: "Month_Add Z (NewMonthFromValues Z y m) n = NewMonthFromValues Z y (m + n)"
  by (simp add: Month_Add_def NewMonthFromValues_def NewMonth_def add_months)

lemma Month_step: "Month_Next Z M = Month_Add Z M 1" "Month_Prev Z M = Month_Add Z M (- 1)"
  by (simp_all add: Month_Next_def Month_Prev_def Month_Add_def)

section \<open>Unix times\<close>

definition digits_between :: "nat \<Rightarrow> nat \<Rightarrow> int \<Rightarrow> bool" where
  "digits_between a b i \<longleftrightarrow> (if a = 0 then 0 \<le> i else 10 ^ a \<le> i) \<and> i < 10 ^ b"

lemma int_str_length:
  assumes "digits_between a b i" "0 < b"
  shows "a < length (int_str i)" and "length (int_str i) \<le> b"
proof -
  have i: "0 \<le> i" "i < 10 ^ b" using assms(1) by (auto simp: digits_between_def split: if_splits intro: order_trans [rotated])
  then have s: "int_str i = nat_str (nat i)" by (simp add: int_str_def)
  have "nat i < 10 ^ b" using i by (simp add: nat_less_iff)
  then show "length (int_str i) \<le> b" unfolding s using length_nat_str_le assms(2) by blast
  show "a < length (int_str i)"
  proof (cases a)
    case 0
    then show ?thesis by (simp add: s)
  next
    case (Suc k)
    then have "10 ^ a \<le> i" using assms(1) by (simp add: digits_between_def)
    then have "10 ^ a \<le> nat i" by (simp add: le_nat_iff)
    then show ?thesis unfolding s by (rule length_nat_str_gt)
  qed
qed

text \<open>The counts whose number of digits stands for the resolution.\<close>

definition unix_window :: "resolution \<Rightarrow> int \<Rightarrow> bool" where
  "unix_window r i \<longleftrightarrow>
     r = ResolutionSecond \<and> digits_between 0 12 i \<or> r = ResolutionMilli \<and> digits_between 12 15 i \<or>
     r = ResolutionMicro \<and> digits_between 15 18 i \<or> r = ResolutionNano \<and> digits_between 18 21 i \<and> i < 2 ^ 63"

lemma wrap64_id: "0 \<le> i \<Longrightarrow> i < 2 ^ 63 \<Longrightarrow> wrap64 i = i"
  by (simp add: wrap64_def)

lemma window_range: "unix_window r i \<Longrightarrow> 0 \<le> i \<and> i < 2 ^ 63"
  by (auto simp: unix_window_def digits_between_def)

lemma parse_window: "unix_window r i \<Longrightarrow> parse_int64 (int_str i) = Some i"
  using window_range [of r i] by (intro parse_int_str) simp_all

text \<open>Reading a count: the resolution follows from the number of digits alone.\<close>

lemma unix_reads:
  assumes "unix_window r i"
  shows "Unix_UnmarshalJSON (int_str i) u =
    (\<lparr>zu_time = \<lparr>gt_sec = i div (1000000000 div r), gt_nsec = i mod (1000000000 div r) * r, gt_loc = Zone ''Local''\<rparr>,
      zu_res = r\<rparr>, Inr ())"
proof -
  note p = parse_window [OF assms]
  consider "r = ResolutionSecond" "digits_between 0 12 i" | "r = ResolutionMilli" "digits_between 12 15 i"
    | "r = ResolutionMicro" "digits_between 15 18 i" | "r = ResolutionNano" "digits_between 18 21 i"
    using assms unfolding unix_window_def by blast
  then show ?thesis
  proof cases
    case 1
    with int_str_length [OF 1(2)] p show ?thesis
      by (simp add: Unix_UnmarshalJSON_def time_unix_def ResolutionSecond_def)
  next
    case 2
    have "i mod 1000 * 1000000 div 1000000000 = 0" "i mod 1000 * 1000000 mod 1000000000 = i mod 1000 * 1000000"
      using pos_mod_bound [of 1000 i] by (simp_all add: div_pos_pos_trivial mod_pos_pos_trivial)
    with int_str_length [OF 2(2)] p show ?thesis
      by (simp add: Unix_UnmarshalJSON_def time_unix_def 2(1) ResolutionMilli_def)
  next
    case 3
    have "i mod 1000000 * 1000 div 1000000000 = 0" "i mod 1000000 * 1000 mod 1000000000 = i mod 1000000 * 1000"
      using pos_mod_bound [of 1000000 i] by (simp_all add: div_pos_pos_trivial mod_pos_pos_trivial)
    with int_str_length [OF 3(2)] p show ?thesis
      by (simp add: Unix_UnmarshalJSON_def time_unix_def 3(1) ResolutionMicro_def)
  next
    case 4
    with int_str_length [OF 4(2)] p show ?thesis
      by (simp add: Unix_UnmarshalJSON_def time_unix_def ResolutionNano_def)
  qed
qed

lemma unix_prints:
  assumes "unix_window r (gt_sec (zu_time t) * (1000000000 div r) + gt_nsec (zu_time t) div r)" "zu_res t = r"
    and "0 \<le> gt_nsec (zu_time t)" "gt_nsec (zu_time t) < 1000000000"
  shows "Unix_MarshalJSON t = int_str (gt_sec (zu_time t) * (1000000000 div r) + gt_nsec (zu_time t) div r)"
proof -
  note w = wrap64_id [OF conjunct1 [OF window_range [OF assms(1)]] conjunct2 [OF window_range [OF assms(1)]]]
  consider "r = ResolutionSecond" | "r = ResolutionMilli" | "r = ResolutionMicro" | "r = ResolutionNano"
    using assms(1) unfolding unix_window_def by blast
  then show ?thesis
    using w assms(2) by cases
      (simp_all add: Unix_MarshalJSON_def Unix_String_def unix_count_def ResolutionSecond_def ResolutionMilli_def
        ResolutionMicro_def ResolutionNano_def)
qed

lemma count_splits:
  fixes s n :: int
  assumes "unix_window r (s * (1000000000 div r) + n div r)" "0 \<le> n" "n < 1000000000"
  shows "(s * (1000000000 div r) + n div r) div (1000000000 div r) = s"
    and "(s * (1000000000 div r) + n div r) mod (1000000000 div r) = n div r"
proof -
  define q where "q = 1000000000 div r"
  have q: "r * q = 1000000000" "0 < r" "0 < q"
    using assms(1) unfolding unix_window_def q_def
    by (auto simp: ResolutionSecond_def ResolutionMilli_def ResolutionMicro_def ResolutionNano_def)
  have "n div r < q"
  proof (rule ccontr)
    assume "\<not> n div r < q"
    then have "r * q \<le> r * (n div r)" using q(2) by simp
    also have "\<dots> \<le> n" using pos_mod_sign [OF q(2), of n] mult_div_mod_eq [of r n] by linarith
    finally show False using q(1) assms(3) by simp
  qed
  moreover have "0 \<le> n div r" using assms(2) q(2) by (simp add: pos_imp_zdiv_nonneg_iff)
  ultimately show "(s * (1000000000 div r) + n div r) div (1000000000 div r) = s"
    "(s * (1000000000 div r) + n div r) mod (1000000000 div r) = n div r"
    using q(3) unfolding q_def [symmetric] by simp_all
qed

section \<open>Properties\<close>

text \<open>C30: A date in the years 0 to 9999 comes back from JSON as its calendar day at midnight UTC, and a month as its
  first day, whatever the location of the time inside and whatever the receiver held.\<close>

theorem date_and_month_json_roundtrip:
  assumes "\<And>s. unquote (quote s) = Inr s" "\<And>s. quote s \<noteq> ''null''"
    and "date_of Z (zd_time d) = (y, m, day)" "0 \<le> y" "y < 10000"
    and "date_of Z (zm_time M) = (y, m, day')"
  shows "Date_UnmarshalJSON unquote Z (Date_MarshalJSON quote Z d) v = (NewDateFromValues Z y m day, Inr ()) \<and>
    Month_UnmarshalJSON unquote Z (Month_MarshalJSON quote Z M) w = (NewMonthFromValues Z y m, Inr ())"
  by (simp_all add: Date_UnmarshalJSON_def Date_MarshalJSON_def Month_UnmarshalJSON_def Month_MarshalJSON_def
      unmarshal_text_quoted [of unquote quote, OF assms(1,2)] parse_printed_date [OF assms(3-5)] parse_printed_month [OF assms(6,4,5)])

text \<open>Quoting for the witnesses: the text between quotation marks.\<close>

definition ex_quote :: "string \<Rightarrow> string" where
  "ex_quote s = CHR 0x22 # s @ [CHR 0x22]"

definition ex_unquote :: "string \<Rightarrow> string res" where
  "ex_unquote s = (case s of c # t \<Rightarrow> (if c = CHR 0x22 then Inr (butlast t) else Inl (Errorf ''json'')) | [] \<Rightarrow> Inl (Errorf ''json''))"

lemma ex_quote_laws: "ex_unquote (ex_quote s) = Inr s" "ex_quote s \<noteq> ''null''"
  by (simp_all add: ex_quote_def ex_unquote_def)

theorem date_and_month_json_roundtrip_witness:
  "Date_UnmarshalJSON ex_unquote (\<lambda>_. None) (Date_MarshalJSON ex_quote (\<lambda>_. None) (NewDateFromValues (\<lambda>_. None) 2024 2 29))
     (NewDateFromValues (\<lambda>_. None) 1 1 1) = (NewDateFromValues (\<lambda>_. None) 2024 2 29, Inr ())"
proof -
  have d: "date_of (\<lambda>_. None) (zd_time (NewDateFromValues (\<lambda>_. None) 2024 2 29)) = (2024, 2, 29)"
    "date_of (\<lambda>_. None) (zm_time (NewMonthFromValues (\<lambda>_. None) 2024 2)) = (2024, 2, 1)"
    by code_simp+
  show ?thesis
    using date_and_month_json_roundtrip [of ex_unquote ex_quote, OF ex_quote_laws d(1) _ _ d(2)] by simp
qed

text \<open>C31: What JSON does to a time of day, exactly. The clock comes back cut to the resolution; the digits after the
  point are printed without trailing zeros, so the resolution read is that of the digits left, and with any
  number of digits but 0, 3, 6 or 9 the time does not parse and the receiver keeps its value.\<close>

theorem time_json_roundtrip:
  assumes "\<And>s. unquote (quote s) = Inr s" "\<And>s. quote s \<noteq> ''null''"
    and "timeFormat (zt_res t) = Clock k" "k \<le> 9" "clock_of Z (zt_time t) = (h, mi, s)"
    and "0 \<le> gt_nsec (zt_time t)" "gt_nsec (zt_time t) < 1000000000"
    and "n = kept k (gt_nsec (zt_time t))"
  shows "Time_UnmarshalJSON unquote Z (Time_MarshalJSON quote Z t) v =
    (if n \<in> {0, 3, 6, 9}
     then (\<lparr>zt_time = go_date Z 0 1 1 h mi s (gt_nsec (zt_time t) div 10 ^ (9 - k) * 10 ^ (9 - k)) UTC,
            zt_res = 10 ^ (9 - n)\<rparr>, Inr ())
     else (v, Inl (Wrap ''unmarshalling ztime.Time: parsing'' (Wrap ''parsing ztime.Time'' extra_text))))"
  unfolding Time_UnmarshalJSON_def Time_MarshalJSON_def unmarshal_text_quoted [of unquote quote, OF assms(1,2)]
    parse_printed_time [OF assms(3-8)]
  by (simp add: wrap_err_def)

text \<open>A time of 120 milliseconds, at the resolution of milliseconds, is not read back.\<close>

theorem time_json_roundtrip_witness:
  "Time_UnmarshalJSON ex_unquote (\<lambda>_. None)
     (Time_MarshalJSON ex_quote (\<lambda>_. None) (NewTime (go_date (\<lambda>_. None) 2005 1 1 15 4 5 120000000 UTC) ResolutionMilli))
     (NewTimeFromValues (\<lambda>_. None) 1 2 3 ResolutionSecond) =
   (NewTimeFromValues (\<lambda>_. None) 1 2 3 ResolutionSecond,
    Inl (Wrap ''unmarshalling ztime.Time: parsing'' (Wrap ''parsing ztime.Time'' extra_text)))"
proof -
  let ?t = "NewTime (go_date (\<lambda>_. None) 2005 1 1 15 4 5 120000000 UTC) ResolutionMilli"
  have c: "timeFormat (zt_res ?t) = Clock 3" "clock_of (\<lambda>_. None) (zt_time ?t) = (15, 4, 5)"
    "gt_nsec (zt_time ?t) = 120000000" "kept 3 120000000 = 2"
    subgoal by (simp add: timeFormat_def timeFormats_def NewTime_def ResolutionMilli_def ResolutionSecond_def)
    subgoal using go_date_utc(2) [of 2005 1 1 15 4 5 120000000 _ "\<lambda>_. None", OF _ _ _ _ refl]
      by (simp add: NewTime_def valid_clock_def)
    subgoal by (simp add: NewTime_def go_date_def Let_def)
    subgoal by (simp add: kept_def pad_def nat_str.simps trim_zeros_def) code_simp
    done
  show ?thesis
    using time_json_roundtrip [of ex_unquote ex_quote, OF ex_quote_laws c(1) _ c(2), of 2] c(3,4) by simp
qed


text \<open>A month made of another day is not: the next month of the 31st of January is in March.\<close>

lemma next_of_the_31st:
  "Month_String (\<lambda>_. None) (Month_Next (\<lambda>_. None) (NewMonth (go_date (\<lambda>_. None) 2025 1 31 0 0 0 0 UTC))) = ''2025-03''"
  by code_simp

text \<open>C33: A Unix time comes back from JSON with its resolution and its instant, cut to that resolution, when its count has
  the number of digits the resolution stands for: up to 12 for seconds, 13 to 15 for milliseconds, 16 to 18
  for microseconds, 19 for nanoseconds.\<close>

theorem unix_json_roundtrip:
  assumes "0 \<le> gt_nsec (zu_time t)" "gt_nsec (zu_time t) < 1000000000"
    and "unix_window (zu_res t) (gt_sec (zu_time t) * (1000000000 div zu_res t) + gt_nsec (zu_time t) div zu_res t)"
  shows "Unix_UnmarshalJSON (Unix_MarshalJSON t) u =
    (\<lparr>zu_time = \<lparr>gt_sec = gt_sec (zu_time t), gt_nsec = gt_nsec (zu_time t) div zu_res t * zu_res t,
                 gt_loc = Zone ''Local''\<rparr>, zu_res = zu_res t\<rparr>, Inr ())"
  unfolding unix_prints [OF assms(3) refl assms(1,2)] unix_reads [OF assms(3)] count_splits [OF assms(3,1,2)] ..

theorem unix_json_roundtrip_witness:
  "Unix_UnmarshalJSON (Unix_MarshalJSON (NewUnix \<lparr>gt_sec = 1700000000, gt_nsec = 123456789, gt_loc = UTC\<rparr> ResolutionMilli))
     (NewUnix \<lparr>gt_sec = 0, gt_nsec = 0, gt_loc = UTC\<rparr> ResolutionSecond) =
    (\<lparr>zu_time = \<lparr>gt_sec = 1700000000, gt_nsec = 123000000, gt_loc = Zone ''Local''\<rparr>, zu_res = ResolutionMilli\<rparr>, Inr ())"
proof -
  let ?t = "NewUnix \<lparr>gt_sec = 1700000000, gt_nsec = 123456789, gt_loc = UTC\<rparr> ResolutionMilli"
  have "unix_window (zu_res ?t) (gt_sec (zu_time ?t) * (1000000000 div zu_res ?t) + gt_nsec (zu_time ?t) div zu_res ?t)"
    by (simp add: unix_window_def NewUnix_def ResolutionMilli_def digits_between_def)
  from unix_json_roundtrip [OF _ _ this, of "NewUnix \<lparr>gt_sec = 0, gt_nsec = 0, gt_loc = UTC\<rparr> ResolutionSecond"] show ?thesis by (simp add: NewUnix_def ResolutionMilli_def)
qed

text \<open>Outside that range the instant changes: a count of milliseconds from before September 2001 is read as one of
  seconds.\<close>

lemma early_milliseconds_are_read_as_seconds:
  assumes "0 \<le> s" "s < 1000000000"
  shows "Unix_UnmarshalJSON (Unix_MarshalJSON (NewUnix \<lparr>gt_sec = s, gt_nsec = 0, gt_loc = UTC\<rparr> ResolutionMilli)) u =
    (\<lparr>zu_time = \<lparr>gt_sec = 1000 * s, gt_nsec = 0, gt_loc = Zone ''Local''\<rparr>, zu_res = ResolutionSecond\<rparr>, Inr ())"
proof -
  have w: "unix_window ResolutionSecond (s * 1000)" using assms by (simp add: unix_window_def digits_between_def)
  have "Unix_MarshalJSON (NewUnix \<lparr>gt_sec = s, gt_nsec = 0, gt_loc = UTC\<rparr> ResolutionMilli) = int_str (s * 1000)"
    using wrap64_id [of "s * 1000"] assms
    by (simp add: Unix_MarshalJSON_def Unix_String_def NewUnix_def unix_count_def ResolutionMilli_def ResolutionSecond_def)
  with unix_reads [OF w] show ?thesis by (simp add: ResolutionSecond_def mult.commute)
qed

end
