(* ===== verification/Zstats.thy ===== *)
theory Zstats
  imports Go_Strings Go_Values
begin

text \<open>
  Package \<^verbatim>\<open>go/zstats\<close>: the object callers report through (\<^verbatim>\<open>stats.go\<close>), the adapter interface
  (\<^verbatim>\<open>zstats.go\<close>), the adapter that drops everything (\<^verbatim>\<open>null_adapter.go\<close>) and the one for statsd
  (\<^verbatim>\<open>zstatsd/zstatsd.go\<close>).

  Objects are shared by pointer and changed in place by the \<^verbatim>\<open>Add\<close> methods, so they live in a store (the
  list of all objects made so far, an address being an index) and a method returns the store and the
  address of its result. An adapter is the record of its three operations over a world \<open>'w\<close>; a timer's
  callback is a function of the world that may panic.
\<close>

section \<open>Adapters\<close>

type_synonym tags = "(string, string) gomap"

type_synonym 'w callback = "'w \<Rightarrow> 'w \<times> unit res"

record 'w stats_adapter =
  ad_count :: "string \<Rightarrow> gofloat \<Rightarrow> tags \<Rightarrow> 'w \<Rightarrow> 'w \<times> unit res"
  ad_gauge :: "string \<Rightarrow> gofloat \<Rightarrow> tags \<Rightarrow> 'w \<Rightarrow> 'w \<times> unit res"
  ad_timer :: "string \<Rightarrow> 'w callback \<Rightarrow> tags \<Rightarrow> 'w \<Rightarrow> 'w \<times> unit res"

definition NewNullAdapter :: "'w stats_adapter" where
  "NewNullAdapter =
     \<lparr>ad_count = (\<lambda>name value tags w. (w, Inr ())),
      ad_gauge = (\<lambda>name value tags w. (w, Inr ())),
      ad_timer = (\<lambda>name cb tags w. cb w)\<rparr>"

text \<open>A deferred report: it runs after the callback whether that returned or panicked, and the callback's panic
  goes on unless the report panics itself.\<close>

definition defer_report :: "'w callback \<Rightarrow> 'w callback \<Rightarrow> 'w callback" where
  "defer_report report cb w =
     (case cb w of (w1, r) \<Rightarrow> case report w1 of (w2, Inl e) \<Rightarrow> (w2, Inl e) | (w2, Inr _) \<Rightarrow> (w2, r))"

text \<open>The statsd client is third-party: its three calls are arguments. \<open>elapsed\<close> reads the nanoseconds since the
  timer started; they are handed to a client whose timings are milliseconds.\<close>

record 'w statsd_client =
  sd_incr :: "string \<Rightarrow> gofloat \<Rightarrow> tags \<Rightarrow> 'w \<Rightarrow> 'w"
  sd_gauge :: "string \<Rightarrow> gofloat \<Rightarrow> tags \<Rightarrow> 'w \<Rightarrow> 'w"
  sd_timing :: "string \<Rightarrow> int \<Rightarrow> tags \<Rightarrow> 'w \<Rightarrow> 'w"

definition statsd_adapter :: "'w statsd_client \<Rightarrow> ('w \<Rightarrow> int) \<Rightarrow> 'w stats_adapter" where
  "statsd_adapter client elapsed =
     \<lparr>ad_count = (\<lambda>name value tags w. (sd_incr client name value tags w, Inr ())),
      ad_gauge = (\<lambda>name value tags w. (sd_gauge client name value tags w, Inr ())),
      ad_timer = (\<lambda>name cb tags. defer_report (\<lambda>w. (sd_timing client name (elapsed w) tags w, Inr ())) cb)\<rparr>"

section \<open>The stats object\<close>

record 'w stats =
  st_adapter :: "'w stats_adapter"
  st_prefix :: string
  st_tags :: tags

type_synonym 'w stats_store = "'w stats list"

definition NewStats :: "'w stats_adapter \<Rightarrow> 'w stats_store \<Rightarrow> 'w stats_store \<times> nat" where
  "NewStats a h = (h @ [\<lparr>st_adapter = a, st_prefix = [], st_tags = []\<rparr>], length h)"

text \<open>The order in which the range over a map visits its keys does not matter: a map has one value for a key.\<close>

definition WithTags :: "nat \<Rightarrow> tags \<Rightarrow> 'w stats_store \<Rightarrow> 'w stats_store \<times> nat" where
  "WithTags s tags h =
     (h @ [\<lparr>st_adapter = st_adapter (h ! s), st_prefix = st_prefix (h ! s), st_tags = map_merge (st_tags (h ! s)) tags\<rparr>],
      length h)"

definition WithTag :: "nat \<Rightarrow> string \<Rightarrow> string \<Rightarrow> 'w stats_store \<Rightarrow> 'w stats_store \<times> nat" where
  "WithTag s key val h = WithTags s [(key, val)] h"

definition AddTag :: "nat \<Rightarrow> string \<Rightarrow> string \<Rightarrow> 'w stats_store \<Rightarrow> 'w stats_store \<times> nat" where
  "AddTag s key val h = (h[s := (h ! s)\<lparr>st_tags := map_put key val (st_tags (h ! s))\<rparr>], s)"

definition AddTags :: "nat \<Rightarrow> tags \<Rightarrow> 'w stats_store \<Rightarrow> 'w stats_store \<times> nat" where
  "AddTags s tags h = (h[s := (h ! s)\<lparr>st_tags := map_merge (st_tags (h ! s)) tags\<rparr>], s)"

definition AddPrefix :: "nat \<Rightarrow> string \<Rightarrow> 'w stats_store \<Rightarrow> 'w stats_store \<times> nat" where
  "AddPrefix s prefix h =
     (h[s := (h ! s)\<lparr>st_prefix :=
        (if st_prefix (h ! s) = [] then prefix else st_prefix (h ! s) @ ''.'' @ prefix)\<rparr>], s)"

definition WithPrefix :: "nat \<Rightarrow> string \<Rightarrow> 'w stats_store \<Rightarrow> 'w stats_store \<times> nat" where
  "WithPrefix s prefix h = AddPrefix (length h) prefix (h @ [h ! s])"

definition prefixedName :: "'w stats \<Rightarrow> string \<Rightarrow> string" where
  "prefixedName s name = (if st_prefix s = [] then name else st_prefix s @ ''.'' @ name)"

definition stats_Count :: "'w stats \<Rightarrow> string \<Rightarrow> gofloat \<Rightarrow> 'w callback" where
  "stats_Count s name v = ad_count (st_adapter s) (prefixedName s name) v (st_tags s)"

definition stats_Gauge :: "'w stats \<Rightarrow> string \<Rightarrow> gofloat \<Rightarrow> 'w callback" where
  "stats_Gauge s name v = ad_gauge (st_adapter s) (prefixedName s name) v (st_tags s)"

definition stats_Timer :: "'w stats \<Rightarrow> string \<Rightarrow> 'w callback \<Rightarrow> 'w callback" where
  "stats_Timer s name cb = ad_timer (st_adapter s) (prefixedName s name) cb (st_tags s)"

section \<open>Deriving objects\<close>

text \<open>One step of a caller, its receiver an address it holds.\<close>

datatype stats_op =
  With_tags nat tags | Add_tags nat tags | With_prefix nat string | Add_prefix nat string

fun run_stats_op :: "stats_op \<Rightarrow> 'w stats_store \<Rightarrow> 'w stats_store \<times> nat" where
  "run_stats_op (With_tags s tags) h = WithTags s tags h"
| "run_stats_op (Add_tags s tags) h = AddTags s tags h"
| "run_stats_op (With_prefix s p) h = WithPrefix s p h"
| "run_stats_op (Add_prefix s p) h = AddPrefix s p h"

fun op_receiver :: "stats_op \<Rightarrow> nat" where
  "op_receiver (With_tags s _) = s"
| "op_receiver (Add_tags s _) = s"
| "op_receiver (With_prefix s _) = s"
| "op_receiver (Add_prefix s _) = s"

fun op_derives :: "stats_op \<Rightarrow> bool" where
  "op_derives (With_tags _ _) = True"
| "op_derives (With_prefix _ _) = True"
| "op_derives _ = False"

text \<open>What the object looks like a step has returned, as a function of the receiver before it.\<close>

fun op_effect :: "stats_op \<Rightarrow> 'w stats \<Rightarrow> 'w stats" where
  "op_effect (With_tags _ tags) o1 = o1\<lparr>st_tags := map_merge (st_tags o1) tags\<rparr>"
| "op_effect (Add_tags _ tags) o1 = o1\<lparr>st_tags := map_merge (st_tags o1) tags\<rparr>"
| "op_effect (With_prefix _ p) o1 = o1\<lparr>st_prefix := (if st_prefix o1 = [] then p else st_prefix o1 @ ''.'' @ p)\<rparr>"
| "op_effect (Add_prefix _ p) o1 = o1\<lparr>st_prefix := (if st_prefix o1 = [] then p else st_prefix o1 @ ''.'' @ p)\<rparr>"

lemma WithTags_copy:
  "WithTags s tags h = (h @ [(h ! s)\<lparr>st_tags := map_merge (st_tags (h ! s)) tags\<rparr>], length h)"
  by (cases "h ! s") (simp add: WithTags_def)

lemma WithPrefix_copy:
  "WithPrefix s p h = (h @ [(h ! s)\<lparr>st_prefix := (if st_prefix (h ! s) = [] then p else st_prefix (h ! s) @ ''.'' @ p)\<rparr>],
    length h)"
  by (simp add: WithPrefix_def AddPrefix_def)

lemma stats_op_run:
  "run_stats_op x h =
    (if op_derives x then (h @ [op_effect x (h ! op_receiver x)], length h)
     else (h[op_receiver x := op_effect x (h ! op_receiver x)], op_receiver x))"
  by (cases x) (simp_all add: WithTags_copy WithPrefix_copy AddTags_def AddPrefix_def)

lemma stats_op_step:
  assumes "op_receiver x < length h" "run_stats_op x h = (h', r)"
  shows "r < length h'" and "h' ! r = op_effect x (h ! op_receiver x)"
    and "length h' = (if op_derives x then length h + 1 else length h)"
    and "r = (if op_derives x then length h else op_receiver x)"
    and "i < length h \<Longrightarrow> op_derives x \<or> i \<noteq> op_receiver x \<Longrightarrow> h' ! i = h ! i"
  using assms unfolding stats_op_run by (auto simp: nth_append split: if_splits)

lemma WithTag_is_WithTags: "WithTag s k v h = run_stats_op (With_tags s [(k, v)]) h"
  by (simp add: WithTag_def)

lemma AddTag_is_AddTags: "AddTag s k v h = run_stats_op (Add_tags s [(k, v)]) h"
  by (simp add: AddTag_def AddTags_def map_merge_def)

text \<open>Steps only ever change what they were asked to change.\<close>

fun run_stats_ops :: "stats_op list \<Rightarrow> 'w stats_store \<Rightarrow> 'w stats_store" where
  "run_stats_ops [] h = h"
| "run_stats_ops (x # xs) h = run_stats_ops xs (fst (run_stats_op x h))"

fun ops_wf :: "stats_op list \<Rightarrow> nat \<Rightarrow> bool" where
  "ops_wf [] n = True"
| "ops_wf (x # xs) n \<longleftrightarrow> op_receiver x < n \<and> ops_wf xs (if op_derives x then n + 1 else n)"

lemma untouched_object_kept:
  assumes "ops_wf xs (length h)" "i < length h"
    and "list_all (\<lambda>x. op_derives x \<or> op_receiver x \<noteq> i) xs"
  shows "run_stats_ops xs h ! i = h ! i"
  using assms
proof (induction xs arbitrary: h)
  case (Cons x xs)
  obtain h' r where x: "run_stats_op x h = (h', r)" by (cases "run_stats_op x h")
  note s = stats_op_step [OF _ x]
  have rec: "op_receiver x < length h" using Cons.prems(1) by simp
  have "h' ! i = h ! i" using s(5) [OF rec Cons.prems(2)] Cons.prems(3) by auto
  moreover have "run_stats_ops xs h' ! i = h' ! i"
    using Cons.prems s(3) [OF rec] by (intro Cons.IH) (auto split: if_splits)
  ultimately show ?case using x by simp
qed simp

text \<open>The name a chain of prefixes gives: they are joined by dots in the order they were added.\<close>

lemma prefixedName_effect:
  assumes "op_effect (With_prefix s p) o1 = o2" "p \<noteq> []"
  shows "prefixedName o2 name = prefixedName o1 (p @ ''.'' @ name)"
proof -
  have "st_prefix o2 = (if st_prefix o1 = [] then p else st_prefix o1 @ ''.'' @ p)" using assms(1) by auto
  then show ?thesis using assms(2) by (simp add: prefixedName_def)
qed

fun derive_prefixes :: "string list \<Rightarrow> nat \<Rightarrow> 'w stats_store \<Rightarrow> 'w stats_store \<times> nat" where
  "derive_prefixes [] s h = (h, s)"
| "derive_prefixes (p # ps) s h = (case WithPrefix s p h of (h', s') \<Rightarrow> derive_prefixes ps s' h')"

lemma derive_prefixes_name:
  assumes "s < length h" "\<forall>p \<in> set ps. p \<noteq> []" "derive_prefixes ps s h = (h', s')"
  shows "prefixedName (h' ! s') name = prefixedName (h ! s) (join ''.'' (ps @ [name])) \<and>
    st_tags (h' ! s') = st_tags (h ! s) \<and> st_adapter (h' ! s') = st_adapter (h ! s) \<and> take (length h) h' = h"
  using assms
proof (induction ps arbitrary: s h)
  case (Cons p ps)
  obtain h1 s1 where p: "run_stats_op (With_prefix s p) h = (h1, s1)" by (cases "run_stats_op (With_prefix s p) h")
  note st = stats_op_step [OF _ p]
  have l: "s1 < length h1" "length h1 = length h + 1" using st(1,3) Cons.prems(1) by simp_all
  have o1: "h1 ! s1 = op_effect (With_prefix s p) (h ! s)" using st(2) Cons.prems(1) by simp
  have t: "take (length h) h1 = h"
    using st(5) Cons.prems(1) l(2) by (intro nth_equalityI) auto
  have "prefixedName (h' ! s') name = prefixedName (h1 ! s1) (join ''.'' (ps @ [name])) \<and>
    st_tags (h' ! s') = st_tags (h1 ! s1) \<and> st_adapter (h' ! s') = st_adapter (h1 ! s1) \<and> take (length h1) h' = h1"
    using Cons.prems p l(1) by (intro Cons.IH) simp_all
  moreover have "prefixedName (h1 ! s1) n = prefixedName (h ! s) (p @ ''.'' @ n)" for n
    using prefixedName_effect [OF o1 [symmetric]] Cons.prems(2) by simp
  moreover have "take (length h) (take (length h1) h') = take (length h) h'" using l(2) by simp
  ultimately show ?case using t o1 by (simp add: join_Cons)
qed simp

end
