(* ===== verification/Zprometheus.thy ===== *)
theory Zprometheus
  imports Zstats "HOL-Library.List_Lexorder"
begin

text \<open>
  Package \<^verbatim>\<open>go/zstats/zprometheus\<close>. The adapter keeps, for each of three kinds of metric, two maps from a metric's
  key: the vector that was created for it and the label names seen so far. The client library is third-party:
  creating a vector, registering it and observing a value are the record \<open>prom_lib\<close> over the registry's
  state \<open>'r\<close>; what its documentation says of them is the locale \<open>prom_laws\<close>.

  A call on a metric that exists starts a goroutine that adds the call's label names to the second map. Such
  an update is pending in the state until some later moment; \<open>run_pending\<close> runs one. The part of a call between two
  points where other goroutines can run is one definition.
\<close>

section \<open>State\<close>

datatype metric_kind = Counter | Gauge | Histogram

record 'v metric_info =
  mi_vectors :: "(string, 'v) gomap"
  mi_labels :: "(string, string list) gomap"
  mi_prefix :: string
  mi_help :: string

record ('v, 'r) prom =
  pr_registry :: 'r
  pr_counter :: "'v metric_info"
  pr_gauge :: "'v metric_info"
  pr_hist :: "'v metric_info"
  pr_pending :: "(metric_kind \<times> string \<times> string list) list"

record ('v, 'r) prom_lib =
  pl_new :: "metric_kind \<Rightarrow> string \<Rightarrow> string \<Rightarrow> string list \<Rightarrow> 'v"
  pl_register :: "'v \<Rightarrow> 'r \<Rightarrow> 'r res"
  pl_observe :: "'v \<Rightarrow> tags \<Rightarrow> gofloat \<Rightarrow> 'r \<Rightarrow> 'r res"

text \<open>Documented behaviour of the client: a vector has the label names it was created with, and \<^verbatim>\<open>With\<close> panics for
  labels of other names.\<close>

definition prom_documented :: "('v, 'r) prom_lib \<Rightarrow> ('v \<Rightarrow> string list) \<Rightarrow> bool" where
  "prom_documented lib vlabels \<longleftrightarrow>
     (\<forall>k n h ls. vlabels (pl_new lib k n h ls) = ls) \<and>
     (\<forall>v labels x r. set (map fst labels) \<noteq> set (vlabels v) \<longrightarrow> (\<exists>m. pl_observe lib v labels x r = Inl (Panic m)))"

definition NewAdapter :: "'r \<Rightarrow> ('v, 'r) prom" where
  "NewAdapter registry =
     \<lparr>pr_registry = registry,
      pr_counter = \<lparr>mi_vectors = [], mi_labels = [], mi_prefix = ''counter'', mi_help = ''Counter metric: ''\<rparr>,
      pr_gauge = \<lparr>mi_vectors = [], mi_labels = [], mi_prefix = ''gauge'', mi_help = ''Gauge metric: ''\<rparr>,
      pr_hist = \<lparr>mi_vectors = [], mi_labels = [], mi_prefix = ''histogram'', mi_help = ''Histogram metric: ''\<rparr>,
      pr_pending = []\<rparr>"

fun info_of :: "metric_kind \<Rightarrow> ('v, 'r) prom \<Rightarrow> 'v metric_info" where
  "info_of Counter a = pr_counter a"
| "info_of Gauge a = pr_gauge a"
| "info_of Histogram a = pr_hist a"

fun set_info :: "metric_kind \<Rightarrow> 'v metric_info \<Rightarrow> ('v, 'r) prom \<Rightarrow> ('v, 'r) prom" where
  "set_info Counter i a = a\<lparr>pr_counter := i\<rparr>"
| "set_info Gauge i a = a\<lparr>pr_gauge := i\<rparr>"
| "set_info Histogram i a = a\<lparr>pr_hist := i\<rparr>"

lemma info_set_info [simp]: "info_of k (set_info k' i a) = (if k = k' then i else info_of k a)"
  by (cases k; cases k') simp_all

lemma set_info_frame [simp]:
  "pr_pending (set_info k i a) = pr_pending a" "pr_registry (set_info k i a) = pr_registry a"
  "info_of k (a\<lparr>pr_pending := ps\<rparr>) = info_of k a" "info_of k (a\<lparr>pr_registry := r\<rparr>) = info_of k a"
  by (cases k; simp)+

section \<open>Names and labels\<close>

definition is_letter :: "char \<Rightarrow> bool" where
  "is_letter c \<longleftrightarrow> CHR ''a'' \<le> c \<and> c \<le> CHR ''z'' \<or> CHR ''A'' \<le> c \<and> c \<le> CHR ''Z''"

text \<open>Only the characters after the first have their dots replaced.\<close>

definition prometheusName :: "string \<Rightarrow> string" where
  "prometheusName name =
     (case name of
        [] \<Rightarrow> []
      | c # t \<Rightarrow> (if is_letter c \<or> c = CHR ''_'' then [c] else [CHR ''_'', c]) @
                 map (\<lambda>r. if r = CHR ''.'' then CHR ''_'' else r) t)"

definition getOrUpdateLabelNames ::
  "(string, string list) gomap \<Rightarrow> string \<Rightarrow> string list \<Rightarrow> (string, string list) gomap \<times> string list" where
  "getOrUpdateLabelNames labelMap key newLabels =
     (case map_of labelMap key of
        Some existing \<Rightarrow>
          let union = sort (remdups (existing @ newLabels))
          in (if length existing < length union then map_put key union labelMap else labelMap, union)
      | None \<Rightarrow> let sorted = sort newLabels in (map_put key sorted labelMap, sorted))"

definition getLabelNamesAndValues :: "tags \<Rightarrow> string list \<times> string list" where
  "getLabelNamesAndValues tags =
     (let names = sort (map fst tags) in (names, map (\<lambda>n. the (map_of tags n)) names))"

definition getLabelsForCanonicalSet :: "string list \<Rightarrow> tags \<Rightarrow> tags" where
  "getLabelsForCanonicalSet canonical tags =
     map (\<lambda>n. (n, case map_of tags n of Some v \<Rightarrow> if v \<noteq> '''' then v else ''unknown'' | None \<Rightarrow> ''unknown'')) canonical"

definition metric_key :: "'v metric_info \<Rightarrow> string \<Rightarrow> string" where
  "metric_key info name = mi_prefix info @ '':'' @ name"

definition getCanonicalLabels :: "'v metric_info \<Rightarrow> string \<Rightarrow> string list \<Rightarrow> string list" where
  "getCanonicalLabels info name current =
     (case map_of (mi_labels info) (metric_key info name) of Some ls \<Rightarrow> ls | None \<Rightarrow> current)"

section \<open>Vectors\<close>

text \<open>The update of the label names, as the goroutine and the creation do it under the mutex.\<close>

definition update_labels ::
  "metric_kind \<Rightarrow> string \<Rightarrow> string list \<Rightarrow> ('v, 'r) prom \<Rightarrow> ('v, 'r) prom \<times> string list" where
  "update_labels k key labelNames a =
     (case getOrUpdateLabelNames (mi_labels (info_of k a)) key labelNames of
        (m, ls) \<Rightarrow> (set_info k ((info_of k a)\<lparr>mi_labels := m\<rparr>) a, ls))"

text \<open>The locked part: another goroutine may have created the vector since the first look. The vector is stored
  before it is registered, and stays stored when registering panics.\<close>

definition create_locked ::
  "('v, 'r) prom_lib \<Rightarrow> metric_kind \<Rightarrow> string \<Rightarrow> string list \<Rightarrow> ('v, 'r) prom \<Rightarrow> ('v, 'r) prom \<times> 'v res" where
  "create_locked lib k name labelNames a =
     (let key = metric_key (info_of k a) name in
      case map_of (mi_vectors (info_of k a)) key of
        Some v \<Rightarrow> (fst (update_labels k key labelNames a), Inr v)
      | None \<Rightarrow>
          let (a1, canonical) = update_labels k key labelNames a;
              v = pl_new lib k (prometheusName name) (mi_help (info_of k a) @ name) canonical;
              i = info_of k a1;
              a2 = set_info k (i\<lparr>mi_vectors := map_put key v (mi_vectors i)\<rparr>) a1
          in (case pl_register lib v (pr_registry a2) of
                Inl e \<Rightarrow> (a2, Inl e)
              | Inr r \<Rightarrow> (a2\<lparr>pr_registry := r\<rparr>, Inr v)))"

definition getOrCreateVec ::
  "('v, 'r) prom_lib \<Rightarrow> metric_kind \<Rightarrow> string \<Rightarrow> string list \<Rightarrow> ('v, 'r) prom \<Rightarrow> ('v, 'r) prom \<times> 'v res" where
  "getOrCreateVec lib k name labelNames a =
     (let key = metric_key (info_of k a) name in
      case map_of (mi_vectors (info_of k a)) key of
        Some v \<Rightarrow> (a\<lparr>pr_pending := pr_pending a @ [(k, key, labelNames)]\<rparr>, Inr v)
      | None \<Rightarrow> create_locked lib k name labelNames a)"

text \<open>The end of a call: the label names as they are now, their values, and the observation.\<close>

definition observe ::
  "('v, 'r) prom_lib \<Rightarrow> metric_kind \<Rightarrow> string \<Rightarrow> gofloat \<Rightarrow> tags \<Rightarrow> 'v \<Rightarrow> ('v, 'r) prom \<Rightarrow> ('v, 'r) prom \<times> unit res" where
  "observe lib k name value tags v a =
     (let canonical = getCanonicalLabels (info_of k a) name (fst (getLabelNamesAndValues tags))
      in case pl_observe lib v (getLabelsForCanonicalSet canonical tags) value (pr_registry a) of
           Inl e \<Rightarrow> (a, Inl e)
         | Inr r \<Rightarrow> (a\<lparr>pr_registry := r\<rparr>, Inr ()))"

definition report ::
  "('v, 'r) prom_lib \<Rightarrow> metric_kind \<Rightarrow> string \<Rightarrow> gofloat \<Rightarrow> tags \<Rightarrow> ('v, 'r) prom \<Rightarrow> ('v, 'r) prom \<times> unit res" where
  "report lib k name value tags a =
     run_then (getOrCreateVec lib k name (fst (getLabelNamesAndValues tags)) a)
       (\<lambda>a v. observe lib k name value tags v a)"

definition getOrCreateCounterVec ::
  "('v, 'r) prom_lib \<Rightarrow> string \<Rightarrow> string list \<Rightarrow> ('v, 'r) prom \<Rightarrow> ('v, 'r) prom \<times> 'v res" where
  "getOrCreateCounterVec lib = getOrCreateVec lib Counter"

definition getOrCreateGaugeVec ::
  "('v, 'r) prom_lib \<Rightarrow> string \<Rightarrow> string list \<Rightarrow> ('v, 'r) prom \<Rightarrow> ('v, 'r) prom \<times> 'v res" where
  "getOrCreateGaugeVec lib = getOrCreateVec lib Gauge"

definition getOrCreateHistogramVec ::
  "('v, 'r) prom_lib \<Rightarrow> string \<Rightarrow> string list \<Rightarrow> ('v, 'r) prom \<Rightarrow> ('v, 'r) prom \<times> 'v res" where
  "getOrCreateHistogramVec lib = getOrCreateVec lib Histogram"

definition prom_Count :: "('v, 'r) prom_lib \<Rightarrow> string \<Rightarrow> gofloat \<Rightarrow> tags \<Rightarrow> ('v, 'r) prom callback" where
  "prom_Count lib name value tags a =
     run_then (getOrCreateCounterVec lib name (fst (getLabelNamesAndValues tags)) a)
       (\<lambda>a v. observe lib Counter name value tags v a)"

definition prom_Gauge :: "('v, 'r) prom_lib \<Rightarrow> string \<Rightarrow> gofloat \<Rightarrow> tags \<Rightarrow> ('v, 'r) prom callback" where
  "prom_Gauge lib name value tags a =
     run_then (getOrCreateGaugeVec lib name (fst (getLabelNamesAndValues tags)) a)
       (\<lambda>a v. observe lib Gauge name value tags v a)"

definition prom_Timer ::
  "('v, 'r) prom_lib \<Rightarrow> (('v, 'r) prom \<Rightarrow> gofloat) \<Rightarrow> string \<Rightarrow> ('v, 'r) prom callback \<Rightarrow> tags \<Rightarrow> ('v, 'r) prom callback" where
  "prom_Timer lib elapsed name cb tags =
     defer_report (\<lambda>a.
       run_then (getOrCreateHistogramVec lib name (fst (getLabelNamesAndValues tags)) a)
         (\<lambda>a' v. observe lib Histogram name (elapsed a) tags v a')) cb"

text \<open>The three calls have one shape.\<close>

lemma prom_calls_report:
  "prom_Count lib name value tags = report lib Counter name value tags"
  "prom_Gauge lib name value tags = report lib Gauge name value tags"
  "prom_Timer lib elapsed name cb tags = defer_report (\<lambda>a. report lib Histogram name (elapsed a) tags a) cb"
  by (simp_all add: fun_eq_iff prom_Count_def prom_Gauge_def prom_Timer_def report_def
      getOrCreateCounterVec_def getOrCreateGaugeVec_def getOrCreateHistogramVec_def)

definition prom_adapter :: "('v, 'r) prom_lib \<Rightarrow> (('v, 'r) prom \<Rightarrow> gofloat) \<Rightarrow> ('v, 'r) prom stats_adapter" where
  "prom_adapter lib elapsed =
     \<lparr>ad_count = prom_Count lib, ad_gauge = prom_Gauge lib, ad_timer = prom_Timer lib elapsed\<rparr>"

text \<open>One of the goroutines runs.\<close>

definition run_pending :: "nat \<Rightarrow> ('v, 'r) prom \<Rightarrow> ('v, 'r) prom" where
  "run_pending j a =
     (case pr_pending a ! j of (k, key, labelNames) \<Rightarrow>
        fst (update_labels k key labelNames (a\<lparr>pr_pending := take j (pr_pending a) @ drop (Suc j) (pr_pending a)\<rparr>)))"

text \<open>The steps of the adapter while any number of goroutines reports: a lookup that finds the vector or misses it, the
  locked creation after a miss, an observation with a vector handed out earlier, and the update of a
  goroutine. Label names are the keys of a map.\<close>

inductive prom_step :: "('v, 'r) prom_lib \<Rightarrow> ('v, 'r) prom \<Rightarrow> ('v, 'r) prom \<Rightarrow> bool" for lib where
  lookup: "distinct labelNames \<Longrightarrow> prom_step lib a (fst (getOrCreateVec lib k name labelNames a))"
| create: "distinct labelNames \<Longrightarrow> prom_step lib a (fst (create_locked lib k name labelNames a))"
| observes: "prom_step lib a (fst (observe lib k name value tags v a))"
| pending: "j < length (pr_pending a) \<Longrightarrow> prom_step lib a (run_pending j a)"

end
