(* ===== verification/Zprometheus_Laws.thy ===== *)
theory Zprometheus_Laws
  imports Zprometheus
begin

text \<open>
  The label names of a metric only grow and its vector never changes, whatever the goroutines do; hence a
  report with the label names of the vector is observed with all of them, and one new label, once
  recorded, makes every later report of the metric panic.
\<close>

section \<open>Updating label names\<close>

lemma getOrUpdate_new:
  assumes "getOrUpdateLabelNames m key new = (m', ls)"
  shows "sorted ls" and "set new \<subseteq> set ls"
    and "map_of m' = (if m' = m then map_of m else (map_of m)(key \<mapsto> ls))"
    and "map_of m key = Some old \<Longrightarrow> set old \<subseteq> set ls"
    and "distinct new \<Longrightarrow> (\<And>old. map_of m key = Some old \<Longrightarrow> distinct old) \<Longrightarrow>
      distinct ls \<and> (\<exists>now. map_of m' key = Some now \<and> set now = set ls)"
proof -
  consider "map_of m key = None" "m' = map_put key (sort new) m" "ls = sort new"
    | old where "map_of m key = Some old" "ls = sort (remdups (old @ new))"
        "m' = (if length old < length ls then map_put key ls m else m)"
  proof (cases "map_of m key")
    case None
    then show thesis using assms by (intro that(1)) (auto simp: getOrUpdateLabelNames_def Let_def)
  next
    case (Some old)
    have "(if length old < length (sort (remdups (old @ new))) then map_put key (sort (remdups (old @ new))) m else m,
        sort (remdups (old @ new))) = (m', ls)"
      using assms unfolding getOrUpdateLabelNames_def Some option.case Let_def .
    then show thesis by (intro that(2) [OF Some]) blast+
  qed
  note cs = this
  show "sorted ls" using cs by cases simp_all
  show "set new \<subseteq> set ls" using cs by cases simp_all
  show "map_of m' = (if m' = m then map_of m else (map_of m)(key \<mapsto> ls))"
    using cs by cases (metis map_of_map_put)+
  show "set old \<subseteq> set ls" if "map_of m key = Some old"
    using cs that by cases simp_all
  assume d: "distinct new" "\<And>old. map_of m key = Some old \<Longrightarrow> distinct old"
  from cs show "distinct ls \<and> (\<exists>now. map_of m' key = Some now \<and> set now = set ls)"
  proof cases
    case 1
    then show ?thesis using d(1) by simp
  next
    case (2 old)
    have l: "set ls = set old \<union> set new" "distinct ls" by (simp_all add: 2(2))
    show ?thesis
    proof (cases "length old < length ls")
      case True
      then show ?thesis using 2(3) l(2) by simp
    next
      case False
      have "card (set ls) \<le> card (set old)"
        using False l(2) d(2) [OF 2(1)] by (simp add: distinct_card)
      then have "set old = set ls" using l(1) by (intro card_seteq) auto
      then show ?thesis using False 2(1,3) l(2) by simp
    qed
  qed
qed

section \<open>Invariant\<close>

definition info_inv :: "('v \<Rightarrow> string list) \<Rightarrow> 'v metric_info \<Rightarrow> bool" where
  "info_inv vlabels i \<longleftrightarrow>
     (\<forall>key ls. map_of (mi_labels i) key = Some ls \<longrightarrow> sorted ls \<and> distinct ls) \<and>
     (\<forall>key v. map_of (mi_vectors i) key = Some v \<longrightarrow>
        (\<exists>ls. map_of (mi_labels i) key = Some ls \<and> set (vlabels v) \<subseteq> set ls))"

definition prom_inv :: "('v \<Rightarrow> string list) \<Rightarrow> ('v, 'r) prom \<Rightarrow> bool" where
  "prom_inv vlabels a \<longleftrightarrow>
     (\<forall>k. info_inv vlabels (info_of k a)) \<and> (\<forall>k key new. (k, key, new) \<in> set (pr_pending a) \<longrightarrow> distinct new)"

text \<open>What a step may do to one kind of metric: the vectors that exist stay, and label names are only added.\<close>

definition info_grows :: "'v metric_info \<Rightarrow> 'v metric_info \<Rightarrow> bool" where
  "info_grows i i' \<longleftrightarrow>
     mi_prefix i' = mi_prefix i \<and> mi_help i' = mi_help i \<and>
     (\<forall>key v. map_of (mi_vectors i) key = Some v \<longrightarrow> map_of (mi_vectors i') key = Some v) \<and>
     (\<forall>key ls. map_of (mi_labels i) key = Some ls \<longrightarrow>
        (\<exists>ls'. map_of (mi_labels i') key = Some ls' \<and> set ls \<subseteq> set ls'))"

definition prom_grows :: "('v, 'r) prom \<Rightarrow> ('v, 'r) prom \<Rightarrow> bool" where
  "prom_grows a a' \<longleftrightarrow> (\<forall>k. info_grows (info_of k a) (info_of k a'))"

lemma info_invD:
  assumes "info_inv vlabels i"
  shows "map_of (mi_labels i) key = Some ls \<Longrightarrow> sorted ls" and "map_of (mi_labels i) key = Some ls \<Longrightarrow> distinct ls"
    and "map_of (mi_vectors i) key = Some v \<Longrightarrow> \<exists>ls. map_of (mi_labels i) key = Some ls \<and> set (vlabels v) \<subseteq> set ls"
  using assms unfolding info_inv_def by blast+

lemma prom_invD: "prom_inv vlabels a \<Longrightarrow> info_inv vlabels (info_of k a)"
  by (simp add: prom_inv_def)

lemma info_grows_refl [simp]: "info_grows i i"
  by (auto simp: info_grows_def)

lemma info_grows_trans: "info_grows i i' \<Longrightarrow> info_grows i' i'' \<Longrightarrow> info_grows i i''"
  unfolding info_grows_def by (elim conjE, intro conjI, simp, simp, blast, meson order_trans)

lemma prom_grows_refl [simp]: "prom_grows a a"
  by (simp add: prom_grows_def)

lemma prom_grows_trans: "prom_grows a b \<Longrightarrow> prom_grows b c \<Longrightarrow> prom_grows a c"
  unfolding prom_grows_def using info_grows_trans by blast

lemma update_labels_info:
  assumes "update_labels k key new a = (a', ls)" "prom_inv vlabels a" "distinct new"
  shows "prom_inv vlabels a'" and "prom_grows a a'" and "sorted ls" and "distinct ls" and "set new \<subseteq> set ls"
    and "\<exists>now. map_of (mi_labels (info_of k a')) key = Some now \<and> set now = set ls"
    and "pr_registry a' = pr_registry a" and "pr_pending a' = pr_pending a"
    and "mi_vectors (info_of k a') = mi_vectors (info_of k a)"
proof -
  let ?i = "info_of k a"
  obtain m where m: "getOrUpdateLabelNames (mi_labels ?i) key new = (m, ls)"
    and a': "a' = set_info k (?i\<lparr>mi_labels := m\<rparr>) a"
    using assms(1) by (cases "getOrUpdateLabelNames (mi_labels ?i) key new") (auto simp: update_labels_def)
  have inv: "info_inv vlabels ?i" using assms(2) by (simp add: prom_inv_def)
  note g = getOrUpdate_new [OF m]
  have old: "distinct old" if "map_of (mi_labels ?i) key = Some old" for old
    using info_invD(2) [OF inv that] .
  note g5 = g(5) [OF assms(3) old]
  have grow: "\<exists>ls'. map_of m x = Some ls' \<and> set l \<subseteq> set ls'" if "map_of (mi_labels ?i) x = Some l" for x l
  proof (cases "m = mi_labels ?i \<or> x \<noteq> key")
    case True
    then show ?thesis using that g(3) by (cases "m = mi_labels ?i") simp_all
  next
    case False
    then show ?thesis using that g(3) g(4) [of l] by simp
  qed
  have sd: "sorted l \<and> distinct l" if "map_of m x = Some l" for x l
  proof (cases "m = mi_labels ?i \<or> x \<noteq> key")
    case True
    then have "map_of (mi_labels ?i) x = Some l" using that g(3) by (cases "m = mi_labels ?i") simp_all
    then show ?thesis using info_invD(1,2) [OF inv] by blast
  next
    case False
    then show ?thesis using that g(1,3) g5 by simp
  qed
  have "info_grows ?i (?i\<lparr>mi_labels := m\<rparr>)" using grow by (auto simp: info_grows_def)
  then show "prom_grows a a'" by (simp add: prom_grows_def a')
  have "info_inv vlabels (?i\<lparr>mi_labels := m\<rparr>)"
    unfolding info_inv_def
  proof (intro conjI allI impI)
    fix x v
    assume "map_of (mi_vectors (?i\<lparr>mi_labels := m\<rparr>)) x = Some v"
    then obtain l where "map_of (mi_labels ?i) x = Some l" "set (vlabels v) \<subseteq> set l"
      using info_invD(3) [OF inv, of x v] by auto
    with grow show "\<exists>ls. map_of (mi_labels (?i\<lparr>mi_labels := m\<rparr>)) x = Some ls \<and> set (vlabels v) \<subseteq> set ls"
      by (metis metric_info.select_convs(2) metric_info.surjective metric_info.update_convs(2) order_trans)
  next
    fix x l
    assume "map_of (mi_labels (?i\<lparr>mi_labels := m\<rparr>)) x = Some l"
    then have "map_of m x = Some l" by simp
    then show "sorted l" "distinct l" using sd by blast+
  qed
  then show "prom_inv vlabels a'" using assms(2) by (auto simp: prom_inv_def a')
  show "sorted ls" "distinct ls" "set new \<subseteq> set ls" using g(1,2) g5 by simp_all
  show "\<exists>now. map_of (mi_labels (info_of k a')) key = Some now \<and> set now = set ls" using g5 by (simp add: a')
qed (use assms(1) in \<open>auto simp: update_labels_def split: prod.splits\<close>)

lemma create_locked_keeps:
  assumes "prom_inv vlabels a" "distinct new" "prom_documented lib vlabels"
  shows "prom_inv vlabels (fst (create_locked lib k name new a)) \<and> prom_grows a (fst (create_locked lib k name new a))"
proof -
  let ?key = "metric_key (info_of k a) name"
  obtain a1 ls where u: "update_labels k ?key new a = (a1, ls)" by (cases "update_labels k ?key new a")
  note l = update_labels_info [OF u assms(1,2)]
  show ?thesis
  proof (cases "map_of (mi_vectors (info_of k a)) ?key")
    case (Some v)
    then show ?thesis using u l(1,2) by (simp add: create_locked_def Let_def)
  next
    case None
    let ?v = "pl_new lib k (prometheusName name) (mi_help (info_of k a) @ name) ls"
    let ?i = "info_of k a1"
    let ?a2 = "set_info k (?i\<lparr>mi_vectors := map_put ?key ?v (mi_vectors ?i)\<rparr>) a1"
    have st: "\<exists>r. fst (create_locked lib k name new a) = ?a2\<lparr>pr_registry := r\<rparr>"
    proof (cases "pl_register lib ?v (pr_registry ?a2)")
      case (Inl e)
      then have "fst (create_locked lib k name new a) = ?a2" using None u by (simp add: create_locked_def Let_def)
      also have "\<dots> = ?a2\<lparr>pr_registry := pr_registry ?a2\<rparr>" by simp
      finally show ?thesis by blast
    next
      case (Inr r)
      then show ?thesis using None u by (auto simp: create_locked_def Let_def)
    qed
    have v: "vlabels ?v = ls" using assms(3) by (simp add: prom_documented_def)
    have none: "map_of (mi_vectors ?i) ?key = None" using None l(9) by simp
    have "info_grows ?i (?i\<lparr>mi_vectors := map_put ?key ?v (mi_vectors ?i)\<rparr>)"
      using none by (auto simp: info_grows_def)
    then have "prom_grows a1 (?a2\<lparr>pr_registry := r\<rparr>)" for r by (simp add: prom_grows_def)
    then have g: "prom_grows a (?a2\<lparr>pr_registry := r\<rparr>)" for r using l(2) prom_grows_trans by blast
    have inv: "info_inv vlabels ?i" using prom_invD [OF l(1)] .
    have "info_inv vlabels (?i\<lparr>mi_vectors := map_put ?key ?v (mi_vectors ?i)\<rparr>)"
      unfolding info_inv_def
    proof (intro conjI allI impI)
      fix x w
      assume "map_of (mi_vectors (?i\<lparr>mi_vectors := map_put ?key ?v (mi_vectors ?i)\<rparr>)) x = Some w"
      then have "(x = ?key \<and> w = ?v) \<or> map_of (mi_vectors ?i) x = Some w" by (cases "x = ?key") simp_all
      then have "\<exists>now. map_of (mi_labels ?i) x = Some now \<and> set (vlabels w) \<subseteq> set now"
        using l(6) v info_invD(3) [OF inv, of x w] by (elim disjE) (metis order_refl, blast)
      then show "\<exists>now. map_of (mi_labels (?i\<lparr>mi_vectors := map_put ?key ?v (mi_vectors ?i)\<rparr>)) x = Some now \<and>
        set (vlabels w) \<subseteq> set now" by simp
    next
      fix x l
      assume "map_of (mi_labels (?i\<lparr>mi_vectors := map_put ?key ?v (mi_vectors ?i)\<rparr>)) x = Some l"
      then have "map_of (mi_labels ?i) x = Some l" by simp
      then show "sorted l" "distinct l" using info_invD(1,2) [OF inv] by blast+
    qed
    then have "prom_inv vlabels (?a2\<lparr>pr_registry := r\<rparr>)" for r
      using l(1) by (simp add: prom_inv_def)
    with g st show ?thesis by metis
  qed
qed

lemma getOrCreateVec_keeps:
  assumes "prom_inv vlabels a" "distinct new" "prom_documented lib vlabels"
  shows "prom_inv vlabels (fst (getOrCreateVec lib k name new a)) \<and> prom_grows a (fst (getOrCreateVec lib k name new a))"
  using assms create_locked_keeps [OF assms]
  by (cases "map_of (mi_vectors (info_of k a)) (metric_key (info_of k a) name)")
    (auto simp: getOrCreateVec_def Let_def prom_inv_def prom_grows_def)

lemma observe_keeps:
  "prom_inv vlabels a \<Longrightarrow>
    prom_inv vlabels (fst (observe lib k name x tags v a)) \<and> prom_grows a (fst (observe lib k name x tags v a))"
  by (auto simp: observe_def Let_def prom_inv_def prom_grows_def split: sum.splits)

lemma run_pending_keeps:
  assumes "prom_inv vlabels a" "j < length (pr_pending a)"
  shows "prom_inv vlabels (run_pending j a) \<and> prom_grows a (run_pending j a)"
proof -
  obtain k key new where p: "pr_pending a ! j = (k, key, new)" by (cases "pr_pending a ! j")
  let ?b = "a\<lparr>pr_pending := take j (pr_pending a) @ drop (Suc j) (pr_pending a)\<rparr>"
  have d: "distinct new" using assms p nth_mem [OF assms(2)] by (auto simp: prom_inv_def)
  have b: "prom_inv vlabels ?b" "prom_grows a ?b"
    using assms(1) by (auto simp: prom_inv_def prom_grows_def dest: in_set_takeD in_set_dropD)
  obtain a' ls where u: "update_labels k key new ?b = (a', ls)" by (cases "update_labels k key new ?b")
  show ?thesis
    using update_labels_info(1,2) [OF u b(1) d] b(2) prom_grows_trans p u by (auto simp: run_pending_def)
qed

lemma prom_step_keeps:
  assumes "prom_step lib a a'" "prom_inv vlabels a" "prom_documented lib vlabels"
  shows "prom_inv vlabels a' \<and> prom_grows a a'"
  using assms
  by cases (simp_all add: create_locked_keeps getOrCreateVec_keeps observe_keeps run_pending_keeps)

lemma prom_steps_keep:
  assumes "(prom_step lib)\<^sup>*\<^sup>* a a'" "prom_inv vlabels a" "prom_documented lib vlabels"
  shows "prom_inv vlabels a' \<and> prom_grows a a'"
  using assms
proof (induction rule: rtranclp_induct)
  case (step b c)
  then show ?case using prom_step_keeps [of lib b c vlabels] prom_grows_trans by blast
qed simp

lemma prom_inv_new: "prom_inv vlabels (NewAdapter r)"
proof -
  have "info_inv vlabels (info_of k (NewAdapter r))" for k
    by (cases k) (simp_all add: NewAdapter_def info_inv_def)
  then show ?thesis by (simp add: prom_inv_def NewAdapter_def)
qed

section \<open>Reports\<close>

text \<open>A report on a metric whose vector has exactly the label names recorded is observed with these names in order, each with
  the tag's value or \<^verbatim>\<open>unknown\<close>.\<close>

lemma observe_canonical:
  assumes "map_of (mi_labels (info_of k a)) (metric_key (info_of k a) name) = Some ls"
  shows "observe lib k name x tags v a =
    (case pl_observe lib v (getLabelsForCanonicalSet ls tags) x (pr_registry a) of
       Inl e \<Rightarrow> (a, Inl e) | Inr r \<Rightarrow> (a\<lparr>pr_registry := r\<rparr>, Inr ()))"
  using assms by (simp add: observe_def getCanonicalLabels_def Let_def)

lemma canonical_names [simp]: "map fst (getLabelsForCanonicalSet ls tags) = ls"
  by (induction ls) (simp_all add: getLabelsForCanonicalSet_def)

lemma report_existing:
  assumes "map_of (mi_vectors (info_of k a)) (metric_key (info_of k a) name) = Some v"
  shows "report lib k name x tags a =
    observe lib k name x tags v
      (a\<lparr>pr_pending := pr_pending a @ [(k, metric_key (info_of k a) name, fst (getLabelNamesAndValues tags))]\<rparr>)"
  using assms by (simp add: report_def getOrCreateVec_def)

lemma report_foreign_label_panics:
  assumes "prom_documented lib vlabels"
    and "map_of (mi_vectors (info_of k a)) (metric_key (info_of k a) name) = Some v"
    and "map_of (mi_labels (info_of k a)) (metric_key (info_of k a) name) = Some ls"
    and "l \<in> set ls" "l \<notin> set (vlabels v)"
  shows "\<exists>a' m. report lib k name x tags a = (a', Inl (Panic m))"
proof -
  let ?a = "a\<lparr>pr_pending := pr_pending a @ [(k, metric_key (info_of k a) name, fst (getLabelNamesAndValues tags))]\<rparr>"
  have "set (map fst (getLabelsForCanonicalSet ls tags)) \<noteq> set (vlabels v)" using assms(4,5) by (simp only: canonical_names) blast
  then obtain m where "pl_observe lib v (getLabelsForCanonicalSet ls tags) x (pr_registry ?a) = Inl (Panic m)"
    using assms(1) unfolding prom_documented_def by blast
  moreover have "map_of (mi_labels (info_of k ?a)) (metric_key (info_of k ?a) name) = Some ls" using assms(3) by simp
  ultimately have "observe lib k name x tags v ?a = (?a, Inl (Panic m))" by (simp add: observe_canonical)
  then show ?thesis using report_existing [OF assms(2)] by simp
qed

lemma grows_keeps_foreign:
  assumes "prom_grows a a'"
    and "map_of (mi_vectors (info_of k a)) (metric_key (info_of k a) name) = Some v"
    and "map_of (mi_labels (info_of k a)) (metric_key (info_of k a) name) = Some ls" "l \<in> set ls"
  shows "\<exists>ls'. map_of (mi_vectors (info_of k a')) (metric_key (info_of k a') name) = Some v \<and>
    map_of (mi_labels (info_of k a')) (metric_key (info_of k a') name) = Some ls' \<and> l \<in> set ls'"
proof -
  have g: "info_grows (info_of k a) (info_of k a')" using assms(1) by (simp add: prom_grows_def)
  then have "metric_key (info_of k a') name = metric_key (info_of k a) name"
    by (simp add: info_grows_def metric_key_def)
  with g assms(2-4) show ?thesis unfolding info_grows_def by fastforce
qed

section \<open>Properties\<close>

text \<open>C27: Whatever the interleaving of reports and of the goroutines that update label names, from a new adapter on: for
  each kind of metric the recorded label names are sorted and without duplicates, every vector has recorded
  names that include its own, no vector is ever replaced, and recorded names are never lost.\<close>

theorem metric_labels_invariant:
  assumes "prom_documented lib vlabels" "(prom_step lib)\<^sup>*\<^sup>* (NewAdapter r) a" "(prom_step lib)\<^sup>*\<^sup>* a a'"
  shows "(\<forall>ls. map_of (mi_labels (info_of k a)) key = Some ls \<longrightarrow>
        sorted ls \<and> distinct ls \<and> (\<exists>ls'. map_of (mi_labels (info_of k a')) key = Some ls' \<and> set ls \<subseteq> set ls')) \<and>
      (\<forall>v. map_of (mi_vectors (info_of k a)) key = Some v \<longrightarrow>
        (\<exists>ls. map_of (mi_labels (info_of k a)) key = Some ls \<and> set (vlabels v) \<subseteq> set ls) \<and>
        map_of (mi_vectors (info_of k a')) key = Some v)"
proof -
  have inv: "prom_inv vlabels a" using prom_steps_keep [OF assms(2) prom_inv_new assms(1)] by blast
  have g: "info_grows (info_of k a) (info_of k a')"
    using prom_steps_keep [OF assms(3) inv assms(1)] by (simp add: prom_grows_def)
  note i = info_invD [OF prom_invD [OF inv]]
  have l: "sorted ls \<and> distinct ls \<and> (\<exists>ls'. map_of (mi_labels (info_of k a')) key = Some ls' \<and> set ls \<subseteq> set ls')"
    if "map_of (mi_labels (info_of k a)) key = Some ls" for ls
    using i(1,2) [OF that] g that unfolding info_grows_def by blast
  have v: "(\<exists>ls. map_of (mi_labels (info_of k a)) key = Some ls \<and> set (vlabels v) \<subseteq> set ls) \<and>
      map_of (mi_vectors (info_of k a')) key = Some v"
    if "map_of (mi_vectors (info_of k a)) key = Some v" for v
    using i(3) [OF that] g that unfolding info_grows_def by blast
  show ?thesis using l v by blast
qed

text \<open>The client for the witnesses: a vector is its label names, the registry the list of observations.\<close>

definition ex_prom :: "(string list, tags list) prom_lib" where
  "ex_prom =
     \<lparr>pl_new = (\<lambda>k n h ls. ls), pl_register = (\<lambda>v r. Inr r),
      pl_observe = (\<lambda>v labels x r. if set (map fst labels) = set v then Inr (r @ [labels]) else Inl (Panic ''inconsistent labels''))\<rparr>"

lemma ex_prom_documented: "prom_documented ex_prom (\<lambda>v. v)"
  by (simp add: prom_documented_def ex_prom_def)

definition ex_prom_used :: "(string list, tags list) prom" where
  "ex_prom_used = fst (getOrCreateVec ex_prom Counter ''hits'' [''code''] (NewAdapter []))"

lemma ex_prom_used_reach: "(prom_step ex_prom)\<^sup>*\<^sup>* (NewAdapter []) ex_prom_used"
  unfolding ex_prom_used_def by (rule r_into_rtranclp, rule prom_step.lookup) simp

theorem metric_labels_invariant_witness:
  "set [''code''] \<subseteq> set (the (map_of (mi_labels (info_of Counter ex_prom_used)) ''counter:hits'')) \<and>
   map_of (mi_vectors (info_of Counter ex_prom_used)) ''counter:hits'' = Some [''code'']"
proof -
  have v: "map_of (mi_vectors (info_of Counter ex_prom_used)) ''counter:hits'' = Some [''code'']" by code_simp
  from metric_labels_invariant [OF ex_prom_documented ex_prom_used_reach rtranclp.rtrancl_refl, of Counter "''counter:hits''"]
  have "\<exists>ls. map_of (mi_labels (info_of Counter ex_prom_used)) ''counter:hits'' = Some ls \<and> set [''code''] \<subseteq> set ls"
    using v by blast
  then show ?thesis using v by (elim exE conjE) simp
qed

text \<open>C26: One new label ends a metric. When the goroutine of a call records a label name the metric's vector was not
  created with, then every later report of that metric, with whatever tags and after whatever steps, panics:
  the recorded names are those the values are looked up by, and the vector refuses them.\<close>

theorem new_label_breaks_metric:
  assumes "prom_documented lib vlabels" "(prom_step lib)\<^sup>*\<^sup>* (NewAdapter r) a"
    and "map_of (mi_vectors (info_of k a)) (metric_key (info_of k a) name) = Some v"
    and "j < length (pr_pending a)" "pr_pending a ! j = (k, metric_key (info_of k a) name, names)"
    and "l \<in> set names" "l \<notin> set (vlabels v)"
    and "(prom_step lib)\<^sup>*\<^sup>* (run_pending j a) a'"
  shows "\<exists>a'' m. report lib k name x tags a' = (a'', Inl (Panic m))"
proof -
  have inv: "prom_inv vlabels a" using prom_steps_keep [OF assms(2) prom_inv_new assms(1)] by blast
  note rp = run_pending_keeps [OF inv assms(4)]
  let ?b = "a\<lparr>pr_pending := take j (pr_pending a) @ drop (Suc j) (pr_pending a)\<rparr>"
  let ?key = "metric_key (info_of k a) name"
  have d: "distinct names" using inv assms(4,5) nth_mem [OF assms(4)] unfolding prom_inv_def by metis
  have b: "prom_inv vlabels ?b" using inv by (auto simp: prom_inv_def dest: in_set_takeD in_set_dropD)
  obtain c ls where u: "update_labels k ?key names ?b = (c, ls)" by (cases "update_labels k ?key names ?b")
  have c: "run_pending j a = c" using u assms(5) by (simp add: run_pending_def)
  note l = update_labels_info [OF u b d]
  obtain now where now: "map_of (mi_labels (info_of k c)) ?key = Some now" "set now = set ls" using l(6) by blast
  have ln: "l \<in> set now" using now(2) l(5) assms(6) by blast
  have key: "metric_key (info_of k c) name = ?key"
    using rp c unfolding prom_grows_def info_grows_def metric_key_def by metis
  have vc: "map_of (mi_vectors (info_of k c)) ?key = Some v" using assms(3) l(9) by simp
  have g: "prom_grows c a'" using prom_steps_keep [OF assms(8)] rp assms(1) c by blast
  obtain ls' where "map_of (mi_vectors (info_of k a')) (metric_key (info_of k a') name) = Some v"
    "map_of (mi_labels (info_of k a')) (metric_key (info_of k a') name) = Some ls'" "l \<in> set ls'"
    using grows_keeps_foreign [OF g, of k name v now l] vc now(1) ln unfolding key by blast
  from report_foreign_label_panics [OF assms(1) this assms(7)] show ?thesis .
qed

definition ex_prom_pending :: "(string list, tags list) prom" where
  "ex_prom_pending = fst (getOrCreateVec ex_prom Counter ''hits'' [''method''] ex_prom_used)"

theorem new_label_breaks_metric_witness:
  "\<exists>a m. prom_Count ex_prom ''hits'' (Finite 1) [(''code'', ''200'')] (run_pending 0 ex_prom_pending) = (a, Inl (Panic m))"
proof -
  have "prom_step ex_prom ex_prom_used ex_prom_pending"
    unfolding ex_prom_pending_def by (rule prom_step.lookup) simp
  then have r: "(prom_step ex_prom)\<^sup>*\<^sup>* (NewAdapter []) ex_prom_pending"
    using ex_prom_used_reach by (rule rtranclp.rtrancl_into_rtrancl [rotated])
  have p: "map_of (mi_vectors (info_of Counter ex_prom_pending)) (metric_key (info_of Counter ex_prom_pending) ''hits'') = Some [''code'']"
    "0 < length (pr_pending ex_prom_pending)"
    "pr_pending ex_prom_pending ! 0 = (Counter, metric_key (info_of Counter ex_prom_pending) ''hits'', [''method''])"
    by code_simp+
  show ?thesis
    unfolding prom_calls_report
    by (rule new_label_breaks_metric [OF ex_prom_documented r p, of "''method''"]) simp_all
qed

end
