(* ===== verification/Zlog.thy ===== *)
theory Zlog
  imports Zote_Prelude
begin

text \<open>
  Packages \<^verbatim>\<open>go/zlog\<close> (\<^verbatim>\<open>zlog.go\<close>, \<^verbatim>\<open>logger.go\<close>, \<^verbatim>\<open>context.go\<close>) and \<^verbatim>\<open>go/zlog/zlogrus\<close>.

  Loggers are shared by pointer and \<^verbatim>\<open>AddField\<close>, \<^verbatim>\<open>AddDestination\<close> and \<^verbatim>\<open>SetLevel\<close> change them in place: they live in
  a store, the list of the loggers made so far. A destination is the record of its operations over a
  world \<open>'w\<close>. The fields of a logger are a map that may be nil (\<open>None\<close>): reading a nil map is allowed, writing to
  it panics. Formatting a message is outside the model: the methods with a format send the text they are
  given. The third-party logger behind \<^verbatim>\<open>zlogrus\<close> is its level and the entries it has written.
\<close>

section \<open>Levels\<close>

type_synonym level = int

definition LevelFatal :: level where "LevelFatal = 1"
definition LevelError :: level where "LevelError = 2"
definition LevelWarn :: level where "LevelWarn = 3"
definition LevelInfo :: level where "LevelInfo = 4"
definition LevelDebug :: level where "LevelDebug = 5"
definition LevelTrace :: level where "LevelTrace = 6"

lemmas level_defs = LevelFatal_def LevelError_def LevelWarn_def LevelInfo_def LevelDebug_def LevelTrace_def

definition Level_String :: "level \<Rightarrow> string" where
  "Level_String l =
     (if l = LevelFatal then ''fatal'' else if l = LevelError then ''error'' else if l = LevelWarn then ''warn''
      else if l = LevelInfo then ''info'' else if l = LevelDebug then ''debug'' else if l = LevelTrace then ''trace''
      else ''unknown'')"

section \<open>Loggers\<close>

type_synonym 'v log_fields = "(string, 'v) gomap"

record ('v, 'w) destination =
  ds_send :: "level \<Rightarrow> 'v log_fields \<Rightarrow> string \<Rightarrow> 'w \<Rightarrow> 'w"
  ds_level :: "'w \<Rightarrow> level"
  ds_set_level :: "level \<Rightarrow> 'w \<Rightarrow> 'w"

record ('v, 'w) logger =
  lg_destinations :: "('v, 'w) destination list"
  lg_fields :: "'v log_fields option"
  lg_level :: level

type_synonym ('v, 'w) loggers = "('v, 'w) logger list"

definition logger_new :: "level \<Rightarrow> ('v, 'w) destination list \<Rightarrow> ('v, 'w) loggers \<Rightarrow> ('v, 'w) loggers \<times> nat" where
  "logger_new level destinations h =
     (h @ [\<lparr>lg_destinations = destinations, lg_fields = Some [], lg_level = level\<rparr>], length h)"

definition AddDestination :: "nat \<Rightarrow> ('v, 'w) destination \<Rightarrow> ('v, 'w) loggers \<Rightarrow> ('v, 'w) loggers" where
  "AddDestination l d h = h[l := (h ! l)\<lparr>lg_destinations := lg_destinations (h ! l) @ [d]\<rparr>]"

definition logger_Level :: "nat \<Rightarrow> ('v, 'w) loggers \<Rightarrow> level" where
  "logger_Level l h = lg_level (h ! l)"

definition logger_SetLevel :: "nat \<Rightarrow> level \<Rightarrow> ('v, 'w) loggers \<Rightarrow> ('v, 'w) loggers" where
  "logger_SetLevel l level h = h[l := (h ! l)\<lparr>lg_level := level\<rparr>]"

text \<open>The fields as a range over the map sees them.\<close>

definition field_list :: "('v, 'w) logger \<Rightarrow> 'v log_fields" where
  "field_list lg = (case lg_fields lg of None \<Rightarrow> [] | Some fs \<Rightarrow> fs)"

definition AddFields :: "nat \<Rightarrow> 'v log_fields \<Rightarrow> ('v, 'w) loggers \<Rightarrow> ('v, 'w) loggers \<times> unit res" where
  "AddFields l flds h =
     (case lg_fields (h ! l) of
        None \<Rightarrow> if flds = [] then (h, Inr ()) else (h, Inl (Panic ''assignment to entry in nil map''))
      | Some fs \<Rightarrow> (h[l := (h ! l)\<lparr>lg_fields := Some (map_merge fs flds)\<rparr>], Inr ()))"

definition AddField :: "nat \<Rightarrow> string \<Rightarrow> 'v \<Rightarrow> ('v, 'w) loggers \<Rightarrow> ('v, 'w) loggers \<times> unit res" where
  "AddField l key v h =
     (case lg_fields (h ! l) of
        None \<Rightarrow> (h, Inl (Panic ''assignment to entry in nil map''))
      | Some fs \<Rightarrow> (h[l := (h ! l)\<lparr>lg_fields := Some (map_put key v fs)\<rparr>], Inr ()))"

definition withFields :: "nat \<Rightarrow> 'v log_fields \<Rightarrow> ('v, 'w) loggers \<Rightarrow> ('v, 'w) loggers \<times> nat" where
  "withFields l flds h =
     (h @ [\<lparr>lg_destinations = lg_destinations (h ! l),
            lg_fields = Some (map_merge (map_merge [] (field_list (h ! l))) flds), lg_level = lg_level (h ! l)\<rparr>],
      length h)"

definition withField :: "nat \<Rightarrow> string \<Rightarrow> 'v \<Rightarrow> ('v, 'w) loggers \<Rightarrow> ('v, 'w) loggers \<times> nat" where
  "withField l key v h = withFields l [(key, v)] h"

text \<open>The level of the logger is not asked: every destination gets every message.\<close>

definition logger_send :: "('v, 'w) logger \<Rightarrow> level \<Rightarrow> string \<Rightarrow> 'w \<Rightarrow> 'w" where
  "logger_send lg level message w = foldl (\<lambda>w d. ds_send d level (field_list lg) message w) w (lg_destinations lg)"

definition log_Fatal :: "('v, 'w) logger \<Rightarrow> string \<Rightarrow> 'w \<Rightarrow> 'w" where "log_Fatal lg = logger_send lg LevelFatal"
definition log_Error :: "('v, 'w) logger \<Rightarrow> string \<Rightarrow> 'w \<Rightarrow> 'w" where "log_Error lg = logger_send lg LevelError"
definition log_Warn :: "('v, 'w) logger \<Rightarrow> string \<Rightarrow> 'w \<Rightarrow> 'w" where "log_Warn lg = logger_send lg LevelWarn"
definition log_Info :: "('v, 'w) logger \<Rightarrow> string \<Rightarrow> 'w \<Rightarrow> 'w" where "log_Info lg = logger_send lg LevelInfo"
definition log_Debug :: "('v, 'w) logger \<Rightarrow> string \<Rightarrow> 'w \<Rightarrow> 'w" where "log_Debug lg = logger_send lg LevelDebug"
definition log_Trace :: "('v, 'w) logger \<Rightarrow> string \<Rightarrow> 'w \<Rightarrow> 'w" where "log_Trace lg = logger_send lg LevelTrace"

text \<open>A context holds a logger or does not; without one (the warning on the standard output aside) there is a new
  logger whose map is nil.\<close>

definition log_FromContext :: "nat option \<Rightarrow> ('v, 'w) loggers \<Rightarrow> ('v, 'w) loggers \<times> nat" where
  "log_FromContext ctx h =
     (case ctx of
        Some l \<Rightarrow> (h, l)
      | None \<Rightarrow> (h @ [\<lparr>lg_destinations = [], lg_fields = None, lg_level = 0\<rparr>], length h))"

section \<open>The destination of zlogrus\<close>

text \<open>The library's levels are numbered like the program's, 0 being the one that panics. Indexing the map with another level
  gives 0.\<close>

definition logrus_level :: "level \<Rightarrow> int" where
  "logrus_level l = (if 1 \<le> l \<and> l \<le> 6 then l else 0)"

record 'v logrus_dest =
  ld_level :: level
  ld_logger_level :: int
  ld_entries :: "(int \<times> 'v log_fields \<times> string) list"

definition logrus_Wrap :: "(int \<times> 'v log_fields \<times> string) list \<Rightarrow> level \<Rightarrow> 'v logrus_dest" where
  "logrus_Wrap entries level = \<lparr>ld_level = level, ld_logger_level = logrus_level level, ld_entries = entries\<rparr>"

text \<open>The library writes an entry when its level lets it pass.\<close>

definition logrus_Log :: "int \<Rightarrow> 'v log_fields \<Rightarrow> string \<Rightarrow> 'v logrus_dest \<Rightarrow> 'v logrus_dest" where
  "logrus_Log level flds message d =
     (if level \<le> ld_logger_level d then d\<lparr>ld_entries := ld_entries d @ [(level, flds, message)]\<rparr> else d)"

definition logrus_Send :: "level \<Rightarrow> 'v log_fields \<Rightarrow> string \<Rightarrow> 'v logrus_dest \<Rightarrow> 'v logrus_dest" where
  "logrus_Send level flds message d =
     (if ld_level d < level then d else logrus_Log (logrus_level level) flds message d)"

text \<open>\<^verbatim>\<open>New\<close>: a library logger with the formatter of the format; with any other format the library's own stays.\<close>

type_synonym log_format = string

definition FormatText :: log_format where "FormatText = ''text''"
definition FormatJSON :: log_format where "FormatJSON = ''json''"

datatype formatter = Default_formatter | Prefixed_formatter string bool bool | JSON_formatter string

definition logrus_New :: "level \<Rightarrow> log_format \<Rightarrow> formatter \<times> 'v logrus_dest" where
  "logrus_New level format =
     ((if format = FormatText then Prefixed_formatter ''2006-01-02 15:04:05'' True True
       else if format = FormatJSON then JSON_formatter ''2006-01-02T15:04:05Z07:00''
       else Default_formatter), logrus_Wrap [] level)"

definition logrus_SetLevel :: "level \<Rightarrow> 'v logrus_dest \<Rightarrow> 'v logrus_dest" where
  "logrus_SetLevel level d = d\<lparr>ld_level := level, ld_logger_level := logrus_level level\<rparr>"

definition logrus_destination :: "('v, 'v logrus_dest) destination" where
  "logrus_destination = \<lparr>ds_send = logrus_Send, ds_level = ld_level, ds_set_level = logrus_SetLevel\<rparr>"

section \<open>What is written\<close>

definition levels_agree :: "'v logrus_dest \<Rightarrow> bool" where
  "levels_agree d \<longleftrightarrow> ld_logger_level d = logrus_level (ld_level d)"

lemma levels_agree_kept [simp]:
  "levels_agree (logrus_Wrap es l)" "levels_agree (logrus_SetLevel l d)"
  "levels_agree d \<Longrightarrow> levels_agree (logrus_Send l fs m d)"
  by (simp_all add: levels_agree_def logrus_Wrap_def logrus_SetLevel_def logrus_Send_def logrus_Log_def)

text \<open>A message of one of the six levels is written when the destination's level is at least its own and one of
  the six; a destination set to a number above them writes nothing at all.\<close>

lemma logrus_Send_writes:
  assumes "levels_agree d" "1 \<le> l" "l \<le> 6"
  shows "ld_entries (logrus_Send l fs m d) =
    (if l \<le> ld_level d \<and> ld_level d \<le> 6 then ld_entries d @ [(l, fs, m)] else ld_entries d)"
  using assms by (auto simp: logrus_Send_def logrus_Log_def levels_agree_def logrus_level_def)

text \<open>Loggers derived by \<^verbatim>\<open>WithFields\<close> are new: those that exist are not changed, and the message of the new one carries
  the fields of both, the newer winning.\<close>

lemma withFields_fields:
  assumes "withFields l flds h = (h', l')" "map_wf flds" "map_wf (field_list (h ! l))"
  shows "map_of (field_list (h' ! l')) = map_of (field_list (h ! l)) ++ map_of flds"
    and "take (length h) h' = h" and "lg_destinations (h' ! l') = lg_destinations (h ! l)"
  using assms
  by (auto simp: withFields_def field_list_def map_of_merge nth_append split: option.splits)

text \<open>The logger a context without one falls back to takes no field.\<close>

lemma fallback_logger_panics:
  assumes "log_FromContext None h = (h', l)"
  shows "AddField l key v h' = (h', Inl (Panic ''assignment to entry in nil map''))"
  using assms by (auto simp: log_FromContext_def AddField_def)

end
