(* ===== verification/Zsql_Connection.thy ===== *)
theory Zsql_Connection
  imports Zsql Zlog Ztime
begin

text \<open>
  The rest of package \<^verbatim>\<open>go/zsql\<close>: connections and transactions over \<^verbatim>\<open>database/sql\<close> (\<^verbatim>\<open>zsql.go\<close>), the wrappers
  that log (\<^verbatim>\<open>logging.go\<close>), and columns that hold JSON (\<^verbatim>\<open>json.go\<close>).

  A transaction or connection is the record of its operations over a world \<open>'w\<close>, as the Go interfaces
  are; a context \<open>'c\<close> is handed through. \<^verbatim>\<open>Begin\<close> returns a transaction beside its error, whichever it is.
\<close>

section \<open>Connections\<close>

record ('c, 'w, 'r, 'x) sql_tx =
  sx_driver :: driver
  sx_query :: "'c \<Rightarrow> string \<Rightarrow> gval list \<Rightarrow> 'w \<Rightarrow> 'w \<times> 'r res"
  sx_exec :: "'c \<Rightarrow> string \<Rightarrow> gval list \<Rightarrow> 'w \<Rightarrow> 'w \<times> 'x res"
  sx_commit :: "'w \<Rightarrow> 'w \<times> unit res"
  sx_rollback :: "'w \<Rightarrow> 'w \<times> unit res"

record ('c, 'w, 'r, 'x) sql_conn =
  sc_driver :: driver
  sc_query :: "'c \<Rightarrow> string \<Rightarrow> gval list \<Rightarrow> 'w \<Rightarrow> 'w \<times> 'r res"
  sc_exec :: "'c \<Rightarrow> string \<Rightarrow> gval list \<Rightarrow> 'w \<Rightarrow> 'w \<times> 'x res"
  sc_begin :: "'c \<Rightarrow> 'w \<Rightarrow> 'w \<times> ('c, 'w, 'r, 'x) sql_tx \<times> unit res"
  sc_close :: "'w \<Rightarrow> 'w \<times> unit res"

text \<open>What the connection holds: \<^verbatim>\<open>*sql.DB\<close> and \<^verbatim>\<open>*sql.Tx\<close>, the latter an opaque handle its operations take.\<close>

record ('c, 'w, 'r, 'x, 't) go_db =
  db_QueryContext :: "'c \<Rightarrow> string \<Rightarrow> gval list \<Rightarrow> 'w \<Rightarrow> 'w \<times> 'r res"
  db_ExecContext :: "'c \<Rightarrow> string \<Rightarrow> gval list \<Rightarrow> 'w \<Rightarrow> 'w \<times> 'x res"
  db_BeginTx :: "'c \<Rightarrow> 'w \<Rightarrow> 'w \<times> 't \<times> unit res"
  db_Close :: "'w \<Rightarrow> 'w \<times> unit res"
  tx_QueryContext :: "'t \<Rightarrow> 'c \<Rightarrow> string \<Rightarrow> gval list \<Rightarrow> 'w \<Rightarrow> 'w \<times> 'r res"
  tx_ExecContext :: "'t \<Rightarrow> 'c \<Rightarrow> string \<Rightarrow> gval list \<Rightarrow> 'w \<Rightarrow> 'w \<times> 'x res"
  tx_Commit :: "'t \<Rightarrow> 'w \<Rightarrow> 'w \<times> unit res"
  tx_Rollback :: "'t \<Rightarrow> 'w \<Rightarrow> 'w \<times> unit res"

definition sql_transaction :: "('c, 'w, 'r, 'x, 't) go_db \<Rightarrow> driver \<Rightarrow> 't \<Rightarrow> ('c, 'w, 'r, 'x) sql_tx" where
  "sql_transaction db d t =
     \<lparr>sx_driver = d, sx_query = tx_QueryContext db t, sx_exec = tx_ExecContext db t,
      sx_commit = tx_Commit db t, sx_rollback = tx_Rollback db t\<rparr>"

definition NewConnection :: "('c, 'w, 'r, 'x, 't) go_db \<Rightarrow> driver \<Rightarrow> ('c, 'w, 'r, 'x) sql_conn" where
  "NewConnection db d =
     \<lparr>sc_driver = d, sc_query = db_QueryContext db, sc_exec = db_ExecContext db,
      sc_begin = (\<lambda>ctx w. case db_BeginTx db ctx w of (w', t, r) \<Rightarrow> (w', sql_transaction db d t, r)),
      sc_close = db_Close db\<rparr>"

section \<open>Logging\<close>

text \<open>The logger of a context writes a message at level debug to its own part of the world.\<close>

type_synonym ('c, 'l) ctx_logger = "'c \<Rightarrow> string \<Rightarrow> 'l \<Rightarrow> 'l"

definition on_left :: "('s \<Rightarrow> 's \<times> 'a) \<Rightarrow> 's \<times> 'l \<Rightarrow> ('s \<times> 'l) \<times> 'a" where
  "on_left f w = (case w of (s, l) \<Rightarrow> case f s of (s', a) \<Rightarrow> ((s', l), a))"

definition logQuery ::
  "('c, 'l) ctx_logger \<Rightarrow> (gval list \<Rightarrow> string) \<Rightarrow> ('c \<Rightarrow> string \<Rightarrow> gval list \<Rightarrow> 's \<Rightarrow> 's \<times> 'r res) \<Rightarrow>
   'c \<Rightarrow> string \<Rightarrow> gval list \<Rightarrow> 's \<times> 'l \<Rightarrow> ('s \<times> 'l) \<times> 'r res" where
  "logQuery logger showv q ctx query args w =
     on_left (q ctx query args) (fst w, logger ctx (''SQL|Q: '' @ query @ '' | '' @ showv args) (snd w))"

definition logExec ::
  "('c, 'l) ctx_logger \<Rightarrow> (gval list \<Rightarrow> string) \<Rightarrow> ('c \<Rightarrow> string \<Rightarrow> gval list \<Rightarrow> 's \<Rightarrow> 's \<times> 'x res) \<Rightarrow>
   'c \<Rightarrow> string \<Rightarrow> gval list \<Rightarrow> 's \<times> 'l \<Rightarrow> ('s \<times> 'l) \<times> 'x res" where
  "logExec logger showv e ctx query args w =
     on_left (e ctx query args) (fst w, logger ctx (''SQL|E: '' @ query @ '' | '' @ showv args) (snd w))"

definition logCommit :: "(string \<Rightarrow> 'l \<Rightarrow> 'l) \<Rightarrow> ('s \<Rightarrow> 's \<times> unit res) \<Rightarrow> 's \<times> 'l \<Rightarrow> ('s \<times> 'l) \<times> unit res" where
  "logCommit logger commit w = on_left commit (fst w, logger ''SQL|Commit'' (snd w))"

definition logRollback :: "(string \<Rightarrow> 'l \<Rightarrow> 'l) \<Rightarrow> ('s \<Rightarrow> 's \<times> unit res) \<Rightarrow> 's \<times> 'l \<Rightarrow> ('s \<times> 'l) \<times> unit res" where
  "logRollback logger rollback w = on_left rollback (fst w, logger ''SQL|Rollback'' (snd w))"

text \<open>A transaction keeps the logger of the context it was begun with, for its end.\<close>

definition LoggingTransaction ::
  "('c, 'l) ctx_logger \<Rightarrow> (gval list \<Rightarrow> string) \<Rightarrow> ('c, 's, 'r, 'x) sql_tx \<Rightarrow> (string \<Rightarrow> 'l \<Rightarrow> 'l) \<Rightarrow>
   ('c, 's \<times> 'l, 'r, 'x) sql_tx" where
  "LoggingTransaction logger showv tx end_logger =
     \<lparr>sx_driver = sx_driver tx, sx_query = logQuery logger showv (sx_query tx), sx_exec = logExec logger showv (sx_exec tx),
      sx_commit = logCommit end_logger (sx_commit tx), sx_rollback = logRollback end_logger (sx_rollback tx)\<rparr>"

definition logBegin ::
  "('c, 'l) ctx_logger \<Rightarrow> ('c \<Rightarrow> 's \<Rightarrow> 's \<times> 't) \<Rightarrow> 'c \<Rightarrow> 's \<times> 'l \<Rightarrow> ('s \<times> 'l) \<times> 't" where
  "logBegin logger b ctx w = on_left (b ctx) (fst w, logger ctx ''SQL|Begin'' (snd w))"

definition logging_begin ::
  "('c, 'l) ctx_logger \<Rightarrow> (gval list \<Rightarrow> string) \<Rightarrow> ('c \<Rightarrow> 's \<Rightarrow> 's \<times> ('c, 's, 'r, 'x) sql_tx \<times> unit res) \<Rightarrow>
   'c \<Rightarrow> 's \<times> 'l \<Rightarrow> ('s \<times> 'l) \<times> ('c, 's \<times> 'l, 'r, 'x) sql_tx \<times> unit res" where
  "logging_begin logger showv b ctx w =
     (case logBegin logger b ctx w of (w', tx, r) \<Rightarrow> (w', LoggingTransaction logger showv tx (logger ctx), r))"

definition LoggingConnection ::
  "('c, 'l) ctx_logger \<Rightarrow> (gval list \<Rightarrow> string) \<Rightarrow> ('c, 's, 'r, 'x) sql_conn \<Rightarrow> ('c, 's \<times> 'l, 'r, 'x) sql_conn" where
  "LoggingConnection logger showv c =
     \<lparr>sc_driver = sc_driver c, sc_query = logQuery logger showv (sc_query c), sc_exec = logExec logger showv (sc_exec c),
      sc_begin = logging_begin logger showv (sc_begin c), sc_close = on_left (sc_close c)\<rparr>"

text \<open>The two wrappers of smaller interfaces: a transactor is a connection that is not closed, a query executor only
  runs statements.\<close>

record ('c, 'w, 'r, 'x) sql_transactor =
  st_driver :: driver
  st_query :: "'c \<Rightarrow> string \<Rightarrow> gval list \<Rightarrow> 'w \<Rightarrow> 'w \<times> 'r res"
  st_exec :: "'c \<Rightarrow> string \<Rightarrow> gval list \<Rightarrow> 'w \<Rightarrow> 'w \<times> 'x res"
  st_begin :: "'c \<Rightarrow> 'w \<Rightarrow> 'w \<times> ('c, 'w, 'r, 'x) sql_tx \<times> unit res"

record ('c, 'w, 'r, 'x) sql_executor =
  se_driver :: driver
  se_query :: "'c \<Rightarrow> string \<Rightarrow> gval list \<Rightarrow> 'w \<Rightarrow> 'w \<times> 'r res"
  se_exec :: "'c \<Rightarrow> string \<Rightarrow> gval list \<Rightarrow> 'w \<Rightarrow> 'w \<times> 'x res"

definition LoggingTransactor ::
  "('c, 'l) ctx_logger \<Rightarrow> (gval list \<Rightarrow> string) \<Rightarrow> ('c, 's, 'r, 'x) sql_transactor \<Rightarrow> ('c, 's \<times> 'l, 'r, 'x) sql_transactor" where
  "LoggingTransactor logger showv c =
     \<lparr>st_driver = st_driver c, st_query = logQuery logger showv (st_query c), st_exec = logExec logger showv (st_exec c),
      st_begin = logging_begin logger showv (st_begin c)\<rparr>"

definition LoggingQueryExecutor ::
  "('c, 'l) ctx_logger \<Rightarrow> (gval list \<Rightarrow> string) \<Rightarrow> ('c, 's, 'r, 'x) sql_executor \<Rightarrow> ('c, 's \<times> 'l, 'r, 'x) sql_executor" where
  "LoggingQueryExecutor logger showv c =
     \<lparr>se_driver = se_driver c, se_query = logQuery logger showv (se_query c), se_exec = logExec logger showv (se_exec c)\<rparr>"

section \<open>Clients\<close>

text \<open>A client: what it calls next depends on the results it has seen; a call inside a transaction names it by the
  order in which the client has begun them.\<close>

datatype 'c sql_call =
  Query_conn 'c string "gval list" | Exec_conn 'c string "gval list" | Begin_conn 'c | Close_conn
| Query_tx nat 'c string "gval list" | Exec_tx nat 'c string "gval list" | Commit_tx nat | Rollback_tx nat

datatype ('r, 'x) sql_result = Rows "'r res" | Affected "'x res" | Ended "unit res" | No_transaction

record ('c, 'w, 'r, 'x) client_state =
  cs_world :: 'w
  cs_txs :: "('c, 'w, 'r, 'x) sql_tx list"
  cs_results :: "('r, 'x) sql_result list"

definition in_client_tx ::
  "(('c, 'w, 'r, 'x) sql_tx \<Rightarrow> 'w \<Rightarrow> 'w \<times> 'a) \<Rightarrow> ('a \<Rightarrow> ('r, 'x) sql_result) \<Rightarrow> nat \<Rightarrow>
   ('c, 'w, 'r, 'x) client_state \<Rightarrow> 'w \<times> ('r, 'x) sql_result" where
  "in_client_tx f wrap i s =
     (if i < length (cs_txs s) then (case f (cs_txs s ! i) (cs_world s) of (w, a) \<Rightarrow> (w, wrap a))
      else (cs_world s, No_transaction))"

fun client_call :: "('c, 'w, 'r, 'x) sql_conn \<Rightarrow> 'c sql_call \<Rightarrow> ('c, 'w, 'r, 'x) client_state \<Rightarrow>
    'w \<times> ('c, 'w, 'r, 'x) sql_tx list \<times> ('r, 'x) sql_result" where
  "client_call db (Query_conn ctx q args) s =
     (case sc_query db ctx q args (cs_world s) of (w, r) \<Rightarrow> (w, [], Rows r))"
| "client_call db (Exec_conn ctx q args) s =
     (case sc_exec db ctx q args (cs_world s) of (w, r) \<Rightarrow> (w, [], Affected r))"
| "client_call db (Begin_conn ctx) s =
     (case sc_begin db ctx (cs_world s) of (w, tx, r) \<Rightarrow> (w, [tx], Ended r))"
| "client_call db Close_conn s = (case sc_close db (cs_world s) of (w, r) \<Rightarrow> (w, [], Ended r))"
| "client_call db (Query_tx i ctx q args) s =
     (case in_client_tx (\<lambda>tx. sx_query tx ctx q args) Rows i s of (w, r) \<Rightarrow> (w, [], r))"
| "client_call db (Exec_tx i ctx q args) s =
     (case in_client_tx (\<lambda>tx. sx_exec tx ctx q args) Affected i s of (w, r) \<Rightarrow> (w, [], r))"
| "client_call db (Commit_tx i) s = (case in_client_tx sx_commit Ended i s of (w, r) \<Rightarrow> (w, [], r))"
| "client_call db (Rollback_tx i) s = (case in_client_tx sx_rollback Ended i s of (w, r) \<Rightarrow> (w, [], r))"

fun run_client :: "('c, 'w, 'r, 'x) sql_conn \<Rightarrow> (('r, 'x) sql_result list \<Rightarrow> 'c sql_call option) \<Rightarrow> nat \<Rightarrow>
    ('c, 'w, 'r, 'x) client_state \<Rightarrow> ('c, 'w, 'r, 'x) client_state" where
  "run_client db client 0 s = s"
| "run_client db client (Suc n) s =
     (case client (cs_results s) of
        None \<Rightarrow> s
      | Some c \<Rightarrow>
          (case client_call db c s of
             (w, txs, r) \<Rightarrow>
               run_client db client n
                 \<lparr>cs_world = w, cs_txs = cs_txs s @ txs, cs_results = cs_results s @ [r]\<rparr>))"

text \<open>A logging client state and a plain one that agree on everything but the log.\<close>

definition logs_over ::
  "('c, 'l) ctx_logger \<Rightarrow> (gval list \<Rightarrow> string) \<Rightarrow> ('c, 's \<times> 'l, 'r, 'x) client_state \<Rightarrow> ('c, 's, 'r, 'x) client_state \<Rightarrow> bool" where
  "logs_over logger showv t s \<longleftrightarrow>
     fst (cs_world t) = cs_world s \<and> cs_results t = cs_results s \<and>
     list_all2 (\<lambda>x y. \<exists>g. x = LoggingTransaction logger showv y g) (cs_txs t) (cs_txs s)"

lemma in_client_tx_logs:
  assumes "logs_over logger showv t s"
    and "\<And>y g l. \<exists>l'. f (LoggingTransaction logger showv y g) (cs_world s, l) =
      ((fst (h y (cs_world s)), l'), snd (h y (cs_world s)))"
  shows "\<exists>l'. in_client_tx f wrap i t = ((fst (in_client_tx h wrap i s), l'), snd (in_client_tx h wrap i s))"
proof (cases "i < length (cs_txs s)")
  case True
  have len: "length (cs_txs t) = length (cs_txs s)" using assms(1) by (auto simp: logs_over_def dest: list_all2_lengthD)
  obtain g where g: "cs_txs t ! i = LoggingTransaction logger showv (cs_txs s ! i) g"
    using assms(1) True len by (auto simp: logs_over_def list_all2_conv_all_nth)
  obtain l where l: "cs_world t = (cs_world s, l)" using assms(1) by (cases "cs_world t") (simp add: logs_over_def)
  show ?thesis
    using assms(2) [of "cs_txs s ! i" g l] True len g l
    by (auto simp: in_client_tx_def split: prod.splits)
next
  case False
  have "length (cs_txs t) = length (cs_txs s)" using assms(1) by (auto simp: logs_over_def dest: list_all2_lengthD)
  with False assms(1) show ?thesis by (cases "cs_world t") (auto simp: in_client_tx_def logs_over_def)
qed

lemma logging_call:
  assumes "logs_over logger showv t s" "client_call c call s = (w, txs, r)"
  shows "\<exists>l txs'. client_call (LoggingConnection logger showv c) call t = ((w, l), txs', r) \<and>
    list_all2 (\<lambda>x y. \<exists>g. x = LoggingTransaction logger showv y g) txs' txs"
proof -
  obtain l where l: "cs_world t = (cs_world s, l)" using assms(1) by (cases "cs_world t") (simp add: logs_over_def)
  note defs = LoggingConnection_def LoggingTransaction_def logQuery_def logExec_def logCommit_def logRollback_def
    logging_begin_def logBegin_def on_left_def
  show ?thesis
  proof (cases call)
    case (Query_tx i ctx q args)
    have "\<exists>l'. in_client_tx (\<lambda>tx. sx_query tx ctx q args) Rows i t =
      ((fst (in_client_tx (\<lambda>tx. sx_query tx ctx q args) Rows i s), l'), snd (in_client_tx (\<lambda>tx. sx_query tx ctx q args) Rows i s))"
      by (rule in_client_tx_logs [OF assms(1)]) (simp add: defs split: prod.split)
    then show ?thesis using assms(2) Query_tx by (auto split: prod.splits)
  next
    case (Exec_tx i ctx q args)
    have "\<exists>l'. in_client_tx (\<lambda>tx. sx_exec tx ctx q args) Affected i t =
      ((fst (in_client_tx (\<lambda>tx. sx_exec tx ctx q args) Affected i s), l'), snd (in_client_tx (\<lambda>tx. sx_exec tx ctx q args) Affected i s))"
      by (rule in_client_tx_logs [OF assms(1)]) (simp add: defs split: prod.split)
    then show ?thesis using assms(2) Exec_tx by (auto split: prod.splits)
  next
    case (Commit_tx i)
    have "\<exists>l'. in_client_tx sx_commit Ended i t =
      ((fst (in_client_tx sx_commit Ended i s), l'), snd (in_client_tx sx_commit Ended i s))"
      by (rule in_client_tx_logs [OF assms(1)]) (simp add: defs split: prod.split)
    then show ?thesis using assms(2) Commit_tx by (auto split: prod.splits)
  next
    case (Rollback_tx i)
    have "\<exists>l'. in_client_tx sx_rollback Ended i t =
      ((fst (in_client_tx sx_rollback Ended i s), l'), snd (in_client_tx sx_rollback Ended i s))"
      by (rule in_client_tx_logs [OF assms(1)]) (simp add: defs split: prod.split)
    then show ?thesis using assms(2) Rollback_tx by (auto split: prod.splits)
  next
    case (Begin_conn ctx)
    then show ?thesis using assms(2) l by (auto simp: LoggingConnection_def logging_begin_def logBegin_def on_left_def split: prod.splits)
  qed (use assms(2) l in \<open>auto simp: LoggingConnection_def logQuery_def logExec_def on_left_def split: prod.splits\<close>)
qed

lemma logging_client:
  assumes "logs_over logger showv t s"
  shows "logs_over logger showv (run_client (LoggingConnection logger showv c) client n t) (run_client c client n s)"
  using assms
proof (induction n arbitrary: t s)
  case (Suc n)
  have res: "cs_results t = cs_results s" using Suc.prems by (simp add: logs_over_def)
  show ?case
  proof (cases "client (cs_results s)")
    case None
    then show ?thesis using Suc.prems res by simp
  next
    case (Some call)
    obtain w txs r where s: "client_call c call s = (w, txs, r)" by (cases "client_call c call s")
    obtain l txs' where t: "client_call (LoggingConnection logger showv c) call t = ((w, l), txs', r)"
      and a: "list_all2 (\<lambda>x y. \<exists>g. x = LoggingTransaction logger showv y g) txs' txs"
      using logging_call [OF Suc.prems s] by blast
    have "logs_over logger showv
      \<lparr>cs_world = (w, l), cs_txs = cs_txs t @ txs', cs_results = cs_results t @ [r]\<rparr>
      \<lparr>cs_world = w, cs_txs = cs_txs s @ txs, cs_results = cs_results s @ [r]\<rparr>"
      using Suc.prems a res by (simp add: logs_over_def list_all2_appendI)
    from Suc.IH [OF this] show ?thesis using Some s t res by simp
  qed
qed simp

text \<open>C28: A logging connection is the connection. Whatever a client does with it, its transactions included, every result
  is the one it would have seen and the database ends in the same state; only the log differs.\<close>

theorem logging_is_transparent:
  fixes client :: "('r, 'x) sql_result list \<Rightarrow> 'c sql_call option" and c :: "('c, 's, 'r, 'x) sql_conn"
    and logger :: "('c, 'l) ctx_logger" and showv n s l
  shows "let plain = run_client c client n \<lparr>cs_world = s, cs_txs = [], cs_results = []\<rparr>;
             logged = run_client (LoggingConnection logger showv c) client n \<lparr>cs_world = (s, l), cs_txs = [], cs_results = []\<rparr>
         in fst (cs_world logged) = cs_world plain \<and> cs_results logged = cs_results plain"
proof -
  have "logs_over logger showv \<lparr>cs_world = (s, l), cs_txs = [], cs_results = []\<rparr> \<lparr>cs_world = s, cs_txs = [], cs_results = []\<rparr>"
    by (simp add: logs_over_def)
  from logging_client [OF this, of c client n] show ?thesis by (simp add: logs_over_def Let_def)
qed

section \<open>JSON columns\<close>

text \<open>\<open>unmarshal\<close> is \<^verbatim>\<open>json.Unmarshal\<close> into the value behind the pointer, \<open>zero\<close> the zero value of its type.\<close>

definition ScanJSON :: "'a \<Rightarrow> (string \<Rightarrow> 'a \<Rightarrow> 'a \<times> unit res) \<Rightarrow> driver_value \<Rightarrow> 'a \<Rightarrow> 'a \<times> unit res" where
  "ScanJSON zero unmarshal val ptr =
     (case val of
        DNil \<Rightarrow> (zero, Inr ())
      | DBytes b \<Rightarrow> unmarshal b ptr
      | DString s \<Rightarrow> unmarshal s ptr
      | _ \<Rightarrow> (ptr, Inl (Errorf ''cannot scan'')))"

definition ValueJSON :: "('a \<Rightarrow> string res) \<Rightarrow> 'a option \<Rightarrow> driver_value res" where
  "ValueJSON marshal ptr = (case ptr of None \<Rightarrow> Inr DNil | Some x \<Rightarrow> bind_res (marshal x) (\<lambda>b. Inr (DBytes b)))"

lemma json_column_roundtrip:
  assumes "\<And>b old. marshal x = Inr b \<Longrightarrow> unmarshal b old = (x, Inr ())" "ValueJSON marshal p = Inr v"
    and "p = Some x \<or> p = None \<and> x = zero"
  shows "ScanJSON zero unmarshal v old = (x, Inr ())"
  using assms by (auto simp: ValueJSON_def ScanJSON_def bind_res_Inr)

end
