(* ===== verification/Zencodeio.thy ===== *)
theory Zencodeio
  imports Zote_Prelude
begin

text \<open>
  Package \<^verbatim>\<open>go/zencodeio\<close>: an encoder is a reader that marshals its value on the first read
  (\<^verbatim>\<open>marshaller.go\<close>), a decoder collects what is written and unmarshals it when it is closed, and
  \<^verbatim>\<open>Read\<close> (\<^verbatim>\<open>zencodeio.go\<close>) pumps a reader into a decoder. A read returns the bytes, and an error beside them; the end
  of the stream is the sentinel \<^verbatim>\<open>EOF\<close>. How large the buffers of the pump are is an argument, the list \<open>sizes\<close>, one for
  each read; \<^verbatim>\<open>io.ReadAll\<close> never offers an empty one.
\<close>

type_synonym bytes = string

definition EOF :: error where
  "EOF = Sentinel ''EOF''"

section \<open>Encoders\<close>

record 'v encoder =
  en_v :: "'v option"
  en_marshal :: "'v \<Rightarrow> bytes res"
  en_buf :: bytes

definition NewMarshallerEncoder :: "'v option \<Rightarrow> ('v \<Rightarrow> bytes res) \<Rightarrow> 'v encoder" where
  "NewMarshallerEncoder v marshal = \<lparr>en_v = v, en_marshal = marshal, en_buf = []\<rparr>"

text \<open>The part of \<^verbatim>\<open>Read\<close> that hands out the buffer, into \<open>k\<close> bytes.\<close>

definition encoder_drain :: "'v encoder \<Rightarrow> nat \<Rightarrow> 'v encoder \<times> bytes \<times> error option" where
  "encoder_drain e k =
     (let rest = drop k (en_buf e)
      in (e\<lparr>en_buf := rest\<rparr>, take k (en_buf e), if rest = [] then Some EOF else None))"

definition encoder_Read :: "'v encoder \<Rightarrow> nat \<Rightarrow> 'v encoder \<times> bytes \<times> error option" where
  "encoder_Read e k =
     (case en_v e of
        None \<Rightarrow> encoder_drain e k
      | Some v \<Rightarrow>
          (case en_marshal e v of
             Inl err \<Rightarrow> (e, [], Some (wrap_err ''marshaling'' err))
           | Inr data \<Rightarrow> encoder_drain (e\<lparr>en_buf := data, en_v := None\<rparr>) k))"

section \<open>Decoders\<close>

text \<open>The target of a decoder is a pointer: its value is part of the state. \<open>de_unmarshal\<close> gives the target's value after
  unmarshalling and whether it failed.\<close>

record 'v decoder =
  de_target :: 'v
  de_encoding :: string
  de_unmarshal :: "bytes \<Rightarrow> 'v \<Rightarrow> 'v \<times> unit res"
  de_closed :: bool
  de_buf :: bytes

definition NewMarshallerDecoder :: "'v \<Rightarrow> string \<Rightarrow> (bytes \<Rightarrow> 'v \<Rightarrow> 'v \<times> unit res) \<Rightarrow> 'v decoder" where
  "NewMarshallerDecoder target encoding unmarshal =
     \<lparr>de_target = target, de_encoding = encoding, de_unmarshal = unmarshal, de_closed = False, de_buf = []\<rparr>"

definition decoder_Write :: "'v decoder \<Rightarrow> bytes \<Rightarrow> 'v decoder \<times> nat res" where
  "decoder_Write d p =
     (if de_closed d then (d, Inl (Sentinel ''io: read/write on closed pipe''))
      else (d\<lparr>de_buf := de_buf d @ p\<rparr>, Inr (length p)))"

definition decoder_Close :: "'v decoder \<Rightarrow> 'v decoder \<times> unit res" where
  "decoder_Close d =
     (if de_closed d then (d, Inr ())
      else case de_unmarshal d (de_buf d) (de_target d) of
             (v, Inl e) \<Rightarrow> (d\<lparr>de_target := v\<rparr>, Inl (wrap_err ''unmarshaling'' e))
           | (v, Inr _) \<Rightarrow> (d\<lparr>de_target := v, de_closed := True\<rparr>, Inr ()))"

definition NewJSONEncoder :: "('v \<Rightarrow> bytes res) \<Rightarrow> 'v option \<Rightarrow> 'v encoder" where
  "NewJSONEncoder json_marshal v = NewMarshallerEncoder v json_marshal"

definition NewJSONDecoder :: "(bytes \<Rightarrow> 'v \<Rightarrow> 'v \<times> unit res) \<Rightarrow> 'v \<Rightarrow> 'v decoder" where
  "NewJSONDecoder json_unmarshal v = NewMarshallerDecoder v ''application/json'' json_unmarshal"

section \<open>Pumping\<close>

text \<open>One read through \<^verbatim>\<open>io.TeeReader\<close>: what was read is written to the decoder first; an error of the writing is the
  read's.\<close>

definition tee_read ::
  "('r \<Rightarrow> nat \<Rightarrow> 'r \<times> bytes \<times> error option) \<Rightarrow> 'r \<Rightarrow> 'v decoder \<Rightarrow> nat \<Rightarrow> 'r \<times> 'v decoder \<times> bytes \<times> error option" where
  "tee_read rd r d k =
     (case rd r k of (r', bs, e) \<Rightarrow>
        if bs = [] then (r', d, bs, e)
        else case decoder_Write d bs of
               (d', Inl we) \<Rightarrow> (r', d', bs, Some we)
             | (d', Inr _) \<Rightarrow> (r', d', bs, e))"

text \<open>\<^verbatim>\<open>io.ReadAll\<close> of it: until an error, the end of the stream being none. \<open>None\<close> when the sizes run out first.\<close>

fun pump ::
  "('r \<Rightarrow> nat \<Rightarrow> 'r \<times> bytes \<times> error option) \<Rightarrow> nat list \<Rightarrow> 'r \<Rightarrow> 'v decoder \<Rightarrow> ('r \<times> 'v decoder \<times> unit res) option" where
  "pump rd [] r d = None"
| "pump rd (k # ks) r d =
     (case tee_read rd r d k of
        (r', d', bs, None) \<Rightarrow> pump rd ks r' d'
      | (r', d', bs, Some e) \<Rightarrow> Some (r', d', if e = EOF then Inr () else Inl e))"

definition zencodeio_Read ::
  "('r \<Rightarrow> nat \<Rightarrow> 'r \<times> bytes \<times> error option) \<Rightarrow> nat list \<Rightarrow> 'r \<Rightarrow> 'v decoder \<Rightarrow> ('v decoder \<times> unit res) option" where
  "zencodeio_Read rd sizes r d =
     (case pump rd sizes r d of
        None \<Rightarrow> None
      | Some (_, d', Inl e) \<Rightarrow> Some (d', Inl (wrap_err ''reading into decoder'' e))
      | Some (_, d', Inr _) \<Rightarrow>
          (case decoder_Close d' of (d'', r) \<Rightarrow> Some (d'', wrap_res ''closing decoder'' r)))"

section \<open>What arrives\<close>

text \<open>A marshalled encoder hands out its buffer whatever the sizes, and enough of them always reach the end.\<close>

lemma pump_drains:
  assumes "en_v e = None" "\<not> de_closed d" "list_all (\<lambda>k. 0 < k) ks" "length (en_buf e) < length ks"
  shows "\<exists>e'. pump encoder_Read ks e d = Some (e', d\<lparr>de_buf := de_buf d @ en_buf e\<rparr>, Inr ())"
  using assms
proof (induction ks arbitrary: e d)
  case (Cons k ks)
  let ?e = "e\<lparr>en_buf := drop k (en_buf e)\<rparr>"
  have w: "decoder_Write d bs = (d\<lparr>de_buf := de_buf d @ bs\<rparr>, Inr (length bs))" for bs
    using Cons.prems(2) by (simp add: decoder_Write_def)
  have rd: "encoder_Read e k = (?e, take k (en_buf e), if drop k (en_buf e) = [] then Some EOF else None)"
    using Cons.prems(1) by (simp add: encoder_Read_def encoder_drain_def Let_def)
  have k: "0 < k" using Cons.prems(3) by simp
  have tee: "tee_read encoder_Read e d k =
    (?e, d\<lparr>de_buf := de_buf d @ take k (en_buf e)\<rparr>, take k (en_buf e), if drop k (en_buf e) = [] then Some EOF else None)"
    using rd w k by (cases "en_buf e") (simp_all add: tee_read_def)
  show ?case
  proof (cases "drop k (en_buf e) = []")
    case True
    then show ?thesis using tee by simp
  next
    case False
    have "length (drop k (en_buf e)) < length ks" using Cons.prems(4) k False by simp
    then obtain e' where "pump encoder_Read ks ?e (d\<lparr>de_buf := de_buf d @ take k (en_buf e)\<rparr>) =
        Some (e', d\<lparr>de_buf := (de_buf d @ take k (en_buf e)) @ drop k (en_buf e)\<rparr>, Inr ())"
      using Cons.IH [of ?e "d\<lparr>de_buf := de_buf d @ take k (en_buf e)\<rparr>"] Cons.prems(1-3) by auto
    then show ?thesis using tee False by simp
  qed
qed simp

lemma pump_encoder:
  assumes "en_v e = Some v" "en_marshal e v = Inr data" "\<not> de_closed d" "list_all (\<lambda>k. 0 < k) ks" "length data < length ks"
  shows "\<exists>e'. pump encoder_Read ks e d = Some (e', d\<lparr>de_buf := de_buf d @ data\<rparr>, Inr ())"
proof -
  let ?e = "e\<lparr>en_buf := data, en_v := None\<rparr>"
  obtain k ks' where ks: "ks = k # ks'" using assms(5) by (cases ks) auto
  have "encoder_Read e k = encoder_Read ?e k" using assms(1,2) by (simp add: encoder_Read_def)
  then have "pump encoder_Read ks e d = pump encoder_Read ks ?e d" by (simp add: ks tee_read_def)
  then show ?thesis using pump_drains [of ?e d ks] assms(3-5) by simp
qed

text \<open>C29: What an encoder was given arrives in the decoder's target, whatever the sizes of the buffers in between: with
  one positive size more than there are bytes the pump ends, and the decoder holds what unmarshalling the
  marshalled value gives, its error included. When marshalling fails, that error is returned and the target
  is untouched.\<close>

theorem encoder_to_decoder:
  assumes "list_all (\<lambda>k. 0 < k) sizes"
    and "case marshal v of Inl _ \<Rightarrow> sizes \<noteq> [] | Inr data \<Rightarrow> length data < length sizes"
    and "\<And>e. marshal v = Inl e \<Longrightarrow> \<not> is_sentinel ''EOF'' e \<and> \<not> is_panic e"
  shows "zencodeio_Read encoder_Read sizes (NewMarshallerEncoder (Some v) marshal) (NewMarshallerDecoder target enc unmarshal) =
    Some (case marshal v of
            Inl e \<Rightarrow> (NewMarshallerDecoder target enc unmarshal, Inl (Wrap ''reading into decoder'' (Wrap ''marshaling'' e)))
          | Inr data \<Rightarrow>
              (let (x, r) = unmarshal data target
               in (\<lparr>de_target = x, de_encoding = enc, de_unmarshal = unmarshal, de_closed = is_ok r, de_buf = data\<rparr>,
                   wrap_res ''closing decoder'' (wrap_res ''unmarshaling'' r))))"
proof (cases "marshal v")
  case (Inl e)
  then obtain k ks where s: "sizes = k # ks" using assms(2) by (cases sizes) auto
  have "pump encoder_Read sizes (NewMarshallerEncoder (Some v) marshal) (NewMarshallerDecoder target enc unmarshal) =
    Some (NewMarshallerEncoder (Some v) marshal, NewMarshallerDecoder target enc unmarshal, Inl (Wrap ''marshaling'' e))"
    using Inl assms(3) [OF Inl]
    by (simp add: s tee_read_def encoder_Read_def NewMarshallerEncoder_def wrap_err_def EOF_def)
  then show ?thesis using Inl by (simp add: zencodeio_Read_def wrap_err_def)
next
  case (Inr data)
  let ?e = "NewMarshallerEncoder (Some v) marshal" and ?d = "NewMarshallerDecoder target enc unmarshal"
  obtain e' where "pump encoder_Read sizes ?e ?d = Some (e', ?d\<lparr>de_buf := de_buf ?d @ data\<rparr>, Inr ())"
    using pump_encoder [of ?e v data ?d sizes] assms(1,2) Inr
    by (auto simp: NewMarshallerEncoder_def NewMarshallerDecoder_def)
  then have p: "pump encoder_Read sizes ?e ?d =
      Some (e', \<lparr>de_target = target, de_encoding = enc, de_unmarshal = unmarshal, de_closed = False, de_buf = data\<rparr>, Inr ())"
    by (simp add: NewMarshallerDecoder_def)
  obtain x r where u: "unmarshal data target = (x, r)" by (cases "unmarshal data target")
  show ?thesis
    using Inr p u by (cases r) (simp_all add: zencodeio_Read_def decoder_Close_def)
qed

definition ex_marshal :: "int \<Rightarrow> bytes res" where
  "ex_marshal i = (if i < 0 then Inl (Errorf ''negative'') else Inr (replicate (nat i) CHR ''1''))"

definition ex_unmarshal :: "bytes \<Rightarrow> int \<Rightarrow> int \<times> unit res" where
  "ex_unmarshal bs old = (if bs = [] then (old, Inl (Errorf ''unexpected end of input'')) else (int (length bs), Inr ()))"

theorem encoder_to_decoder_witness:
  "map_option (\<lambda>p. (de_target (fst p), snd p))
     (zencodeio_Read encoder_Read [2, 1, 7, 7] (NewMarshallerEncoder (Some 3) ex_marshal) (NewMarshallerDecoder 0 ''x'' ex_unmarshal)) =
   Some (3, Inr ())"
proof -
  have m: "ex_marshal 3 = Inr [CHR ''1'', CHR ''1'', CHR ''1'']" by (simp add: ex_marshal_def numeral_eq_Suc)
  show ?thesis
    by (subst encoder_to_decoder) (simp_all add: m ex_unmarshal_def)
qed

text \<open>A nil value is never marshalled: the decoder is closed on no bytes at all.\<close>

lemma nil_value_is_not_marshalled:
  "k \<noteq> 0 \<Longrightarrow> zencodeio_Read encoder_Read (k # ks) (NewMarshallerEncoder None marshal) (NewMarshallerDecoder target enc unmarshal) =
    Some (let (x, r) = unmarshal [] target
          in (\<lparr>de_target = x, de_encoding = enc, de_unmarshal = unmarshal, de_closed = is_ok r, de_buf = []\<rparr>,
              wrap_res ''closing decoder'' (wrap_res ''unmarshaling'' r)))"
  by (cases "unmarshal [] target"; cases "snd (unmarshal [] target)")
    (simp_all add: zencodeio_Read_def tee_read_def encoder_Read_def encoder_drain_def NewMarshallerEncoder_def
      NewMarshallerDecoder_def decoder_Close_def EOF_def)

text \<open>Closing is final: a closed decoder takes nothing more and does not unmarshal again; after a failed close it is still
  open.\<close>

lemma closed_decoder:
  assumes "decoder_Close d = (d', Inr ())"
  shows "decoder_Close d' = (d', Inr ())" and "decoder_Write d' p = (d', Inl (Sentinel ''io: read/write on closed pipe''))"
  using assms by (auto simp: decoder_Close_def decoder_Write_def split: if_splits prod.splits sum.splits)

end
