(* ===== verification/Zsig.thy ===== *)
theory Zsig
  imports Zote_Prelude
begin

text \<open>
  Package \<^verbatim>\<open>go/zsig\<close>: \<^verbatim>\<open>Listen\<close> starts a goroutine that serves signals from a channel of capacity one. The
  environment sends signals (one that finds the channel full is lost) and may cancel the context; the
  goroutine is between two rounds of its loop, has taken a signal, or has returned. The state counts the runs of
  the \<^verbatim>\<open>Reload\<close> callback.
\<close>

datatype signal = SIGTERM | SIGINT | SIGUSR1 | Other_signal nat

text \<open>The goroutine: waiting in the select, holding a signal it received, after the callback, returned.\<close>

datatype listener = Waiting | Received signal | Called signal | Returned

record sig_state =
  sg_reload :: bool          \<comment> \<open>a reload callback was given\<close>
  sg_cancelled :: bool
  sg_channel :: "signal option"
  sg_listener :: listener
  sg_reloads :: nat
  sg_ignored :: bool         \<comment> \<open>\<^verbatim>\<open>signal.Ignore()\<close> was called: all signals are ignored\<close>
  sg_lost :: "signal list"   \<comment> \<open>signals that found the channel full\<close>

definition Listen :: "bool \<Rightarrow> bool \<Rightarrow> sig_state" where
  "Listen cancelled has_reload =
     \<lparr>sg_reload = has_reload, sg_cancelled = cancelled, sg_channel = None, sg_listener = Waiting,
      sg_reloads = 0, sg_ignored = False, sg_lost = []\<rparr>"

text \<open>The signals the channel was registered for.\<close>

definition notified :: "bool \<Rightarrow> signal \<Rightarrow> bool" where
  "notified has_reload s \<longleftrightarrow> s = SIGTERM \<or> s = SIGINT \<or> has_reload \<and> s = SIGUSR1"

definition deliver :: "signal \<Rightarrow> sig_state \<Rightarrow> sig_state" where
  "deliver s st =
     (if \<not> notified (sg_reload st) s \<or> sg_ignored st then st
      else case sg_channel st of
             None \<Rightarrow> st\<lparr>sg_channel := Some s\<rparr>
           | Some _ \<Rightarrow> st\<lparr>sg_lost := sg_lost st @ [s]\<rparr>)"

definition run_callback :: "signal \<Rightarrow> sig_state \<Rightarrow> sig_state" where
  "run_callback s st =
     (if s = SIGTERM \<or> s = SIGINT then st\<lparr>sg_cancelled := True\<rparr>
      else if s = SIGUSR1 \<and> sg_reload st then st\<lparr>sg_reloads := sg_reloads st + 1\<rparr>
      else st)"

definition after_callback :: "signal \<Rightarrow> sig_state \<Rightarrow> sig_state" where
  "after_callback s st =
     (if s = SIGTERM \<or> s = SIGINT then st\<lparr>sg_ignored := True, sg_listener := Returned\<rparr>
      else st\<lparr>sg_listener := Waiting\<rparr>)"

text \<open>The steps of the goroutine; with both a cancelled context and a signal, the select takes either.\<close>

inductive listen_step :: "sig_state \<Rightarrow> sig_state \<Rightarrow> bool" where
  ctx_done: "sg_listener st = Waiting \<Longrightarrow> sg_cancelled st \<Longrightarrow> listen_step st (st\<lparr>sg_listener := Returned\<rparr>)"
| receive: "sg_listener st = Waiting \<Longrightarrow> sg_channel st = Some s \<Longrightarrow>
    listen_step st (st\<lparr>sg_channel := None, sg_listener := Received s\<rparr>)"
| callback: "sg_listener st = Received s \<Longrightarrow> listen_step st (run_callback s st\<lparr>sg_listener := Called s\<rparr>)"
| round: "sg_listener st = Called s \<Longrightarrow> listen_step st (after_callback s st)"

inductive outside_step :: "sig_state \<Rightarrow> sig_state \<Rightarrow> bool" where
  arrives: "outside_step st (deliver s st)"
| cancels: "outside_step st (st\<lparr>sg_cancelled := True\<rparr>)"

definition sig_step :: "sig_state \<Rightarrow> sig_state \<Rightarrow> bool" where
  "sig_step st st' \<longleftrightarrow> listen_step st st' \<or> outside_step st st'"

section \<open>Safety and progress\<close>

text \<open>What every reachable state satisfies. \<open>c0\<close> says whether the context was cancelled from the start.\<close>

definition sig_inv :: "sig_state \<Rightarrow> bool" where
  "sig_inv st \<longleftrightarrow>
     (sg_ignored st \<longrightarrow> sg_listener st = Returned) \<and>
     (sg_listener st = Returned \<longrightarrow> sg_cancelled st) \<and>
     (sg_listener st \<in> {Called SIGTERM, Called SIGINT} \<longrightarrow> sg_cancelled st) \<and>
     (case sg_channel st of None \<Rightarrow> True | Some s \<Rightarrow> notified (sg_reload st) s) \<and>
     (case sg_listener st of Received s \<Rightarrow> notified (sg_reload st) s | Called s \<Rightarrow> notified (sg_reload st) s | _ \<Rightarrow> True)"

lemma sig_inv_listen: "sig_inv (Listen c r)"
  by (simp add: sig_inv_def Listen_def)

lemma listen_step_inv: "listen_step st st' \<Longrightarrow> sig_inv st \<Longrightarrow> sig_inv st'"
proof (induction rule: listen_step.induct)
  case (callback st s)
  then show ?case by (cases s; cases "sg_channel st"; cases "sg_reload st") (simp_all add: sig_inv_def run_callback_def)
next
  case (round st s)
  then show ?case by (cases s) (simp_all add: sig_inv_def after_callback_def cong: option.case_cong)
qed (simp_all add: sig_inv_def cong: option.case_cong)

lemma outside_step_inv: "outside_step st st' \<Longrightarrow> sig_inv st \<Longrightarrow> sig_inv st'"
proof (induction rule: outside_step.induct)
  case (arrives st s)
  then show ?case
    by (cases "sg_channel st") (simp_all add: sig_inv_def deliver_def cong: listener.case_cong)
next
  case (cancels st)
  then show ?case by (cases "sg_channel st") (simp_all add: sig_inv_def cong: listener.case_cong)
qed

lemma sig_steps_inv: "sig_step\<^sup>*\<^sup>* st st' \<Longrightarrow> sig_inv st \<Longrightarrow> sig_inv st'"
  by (induction rule: rtranclp_induct) (auto simp: sig_step_def dest: listen_step_inv outside_step_inv)

text \<open>Once the goroutine holds a terminating signal, its own next two steps, the only ones it can take, cancel the
  context and end it.\<close>

lemma terminating_signal_ends:
  assumes "sg_listener st = Received s" "s = SIGTERM \<or> s = SIGINT" "listen_step st st1" "listen_step st1 st2"
  shows "sg_cancelled st2" and "sg_listener st2 = Returned" and "sg_ignored st2" and "sg_reloads st2 = sg_reloads st"
proof -
  have 1: "st1 = st\<lparr>sg_cancelled := True, sg_listener := Called s\<rparr>"
    using assms(3) by cases (use assms(1,2) in \<open>auto simp: run_callback_def\<close>)
  have 2: "st2 = st1\<lparr>sg_ignored := True, sg_listener := Returned\<rparr>"
    using assms(4) by cases (use 1 assms(2) in \<open>auto simp: after_callback_def\<close>)
  show "sg_cancelled st2" "sg_listener st2 = Returned" "sg_ignored st2" "sg_reloads st2 = sg_reloads st"
    by (simp_all add: 1 2)
qed

text \<open>A listener that has returned runs no callback any more.\<close>

lemma returned_is_final:
  assumes "sig_step\<^sup>*\<^sup>* st st'" "sg_listener st = Returned"
  shows "sg_listener st' = Returned \<and> sg_reloads st' = sg_reloads st"
  using assms
proof (induction rule: rtranclp_induct)
  case (step b c)
  have b: "sg_listener b = Returned \<and> sg_reloads b = sg_reloads st" using step by blast
  from step(2) show ?case
    unfolding sig_step_def
  proof
    assume "listen_step b c"
    then show ?thesis by cases (use b in simp_all)
  next
    assume "outside_step b c"
    then show ?thesis by cases (use b in \<open>simp_all add: deliver_def split: option.split\<close>)
  qed
qed simp

text \<open>While no signal is in the channel, a terminating one is not lost: it is taken next.\<close>

lemma signal_is_taken:
  assumes "sg_listener st = Waiting" "sg_channel st = None" "\<not> sg_ignored st" "notified (sg_reload st) s" "\<not> sg_cancelled st"
    and "listen_step (deliver s st) st'"
  shows "sg_listener st' = Received s"
  using assms(6) by cases (use assms(1-5) in \<open>auto simp: deliver_def\<close>)

lemma chain5:
  "r a b \<Longrightarrow> r b c \<Longrightarrow> r c d \<Longrightarrow> r d e \<Longrightarrow> r e f \<Longrightarrow> r\<^sup>*\<^sup>* a f"
  by (meson converse_rtranclp_into_rtranclp r_into_rtranclp)

text \<open>One that arrives while another is waiting is lost, and with it the termination: the listener goes on serving.\<close>

lemma termination_can_be_lost:
  "\<exists>st. sig_step\<^sup>*\<^sup>* (Listen False True) st \<and> SIGTERM \<in> set (sg_lost st) \<and>
     sg_listener st = Waiting \<and> \<not> sg_cancelled st \<and> sg_channel st = None"
proof -
  let ?s0 = "Listen False True"
  let ?s1 = "deliver SIGUSR1 ?s0"
  let ?s2 = "deliver SIGTERM ?s1"
  let ?s3 = "?s2\<lparr>sg_channel := None, sg_listener := Received SIGUSR1\<rparr>"
  let ?s4 = "run_callback SIGUSR1 ?s3\<lparr>sg_listener := Called SIGUSR1\<rparr>"
  let ?s5 = "after_callback SIGUSR1 ?s4"
  have "sig_step ?s0 ?s1" "sig_step ?s1 ?s2" unfolding sig_step_def by (rule disjI2, rule outside_step.arrives)+
  moreover have "sig_step ?s2 ?s3"
    unfolding sig_step_def by (rule disjI1, rule receive) (simp_all add: deliver_def Listen_def notified_def)
  moreover have "sig_step ?s3 ?s4" unfolding sig_step_def by (rule disjI1, rule callback) simp
  moreover have "sig_step ?s4 ?s5" unfolding sig_step_def by (rule disjI1, rule round) simp
  ultimately have "sig_step\<^sup>*\<^sup>* ?s0 ?s5"
    by (rule chain5)
  moreover have "SIGTERM \<in> set (sg_lost ?s5) \<and> sg_listener ?s5 = Waiting \<and> \<not> sg_cancelled ?s5 \<and> sg_channel ?s5 = None"
    by (simp add: deliver_def Listen_def notified_def run_callback_def after_callback_def)
  ultimately show ?thesis by blast
qed

end
