(* ===== verification/Zapi_Lifecycle.thy ===== *)
theory Zapi_Lifecycle
  imports Zote_Prelude
begin

text \<open>
  Starting and stopping the server of \<^verbatim>\<open>go/zapi/server.go\<close>: \<^verbatim>\<open>ListenAndServe\<close> and \<^verbatim>\<open>Shutdown\<close>, called by
  different goroutines, over the documented behaviour of \<^verbatim>\<open>http.Server\<close>: once a shutdown has begun no request is
  accepted and \<^verbatim>\<open>ListenAndServe\<close> of the standard library ends with \<^verbatim>\<open>ErrServerClosed\<close> at once, while
  \<^verbatim>\<open>Shutdown\<close> waits for the open requests or for the end of its context. The channel \<^verbatim>\<open>shutdown\<close> makes the
  server's own \<^verbatim>\<open>ListenAndServe\<close> wait for that.
\<close>

datatype listen_state = Not_called | In_serve | Waiting | Listen_returned "unit res"

text \<open>\<open>lc_server\<close> is the field \<^verbatim>\<open>server\<close> (nil before the first call of \<^verbatim>\<open>ListenAndServe\<close>), with whether its
  shutdown has begun; \<open>lc_calls\<close> counts the calls of \<^verbatim>\<open>Shutdown\<close> under way; \<open>lc_ended\<close> holds what the calls that
  ended have returned.\<close>

record lifecycle =
  lc_listen :: listen_state
  lc_server :: "bool option"
  lc_closed :: bool
  lc_requests :: nat
  lc_calls :: nat
  lc_ended :: "unit res list"

definition new_lifecycle :: lifecycle where
  "new_lifecycle =
     \<lparr>lc_listen = Not_called, lc_server = None, lc_closed = False, lc_requests = 0, lc_calls = 0, lc_ended = []\<rparr>"

text \<open>\<^verbatim>\<open>close(s.shutdown)\<close>, deferred: closing a closed channel panics, whatever the call was about to return.\<close>

definition close_shutdown :: "unit res \<Rightarrow> lifecycle \<Rightarrow> lifecycle" where
  "close_shutdown r s =
     s\<lparr>lc_closed := True,
       lc_ended := lc_ended s @ [if lc_closed s then Inl (Panic ''close of closed channel'') else r]\<rparr>"

inductive lifecycle_step :: "lifecycle \<Rightarrow> lifecycle \<Rightarrow> bool" where
  listen: "lc_listen s = Not_called \<Longrightarrow> lifecycle_step s (s\<lparr>lc_listen := In_serve, lc_server := Some False\<rparr>)"
| listen_fails: "lc_listen s = In_serve \<Longrightarrow> lc_server s = Some False \<Longrightarrow> \<not> is_sentinel ''http.ErrServerClosed'' e \<Longrightarrow>
    lifecycle_step s (s\<lparr>lc_listen := Listen_returned (Inl e)\<rparr>)"
| serve_ends: "lc_listen s = In_serve \<Longrightarrow> lc_server s = Some True \<Longrightarrow> lifecycle_step s (s\<lparr>lc_listen := Waiting\<rparr>)"
| listen_returns: "lc_listen s = Waiting \<Longrightarrow> lc_closed s \<Longrightarrow> lifecycle_step s (s\<lparr>lc_listen := Listen_returned (Inr ())\<rparr>)"
| request: "lc_listen s = In_serve \<Longrightarrow> lc_server s = Some False \<Longrightarrow> lifecycle_step s (s\<lparr>lc_requests := lc_requests s + 1\<rparr>)"
| answer: "0 < lc_requests s \<Longrightarrow> lifecycle_step s (s\<lparr>lc_requests := lc_requests s - 1\<rparr>)"
| shutdown_without_server: "lc_server s = None \<Longrightarrow>
    lifecycle_step s (close_shutdown (Inl (Panic ''invalid memory address or nil pointer dereference'')) s)"
| shutdown_begins: "lc_server s = Some b \<Longrightarrow> lifecycle_step s (s\<lparr>lc_server := Some True, lc_calls := lc_calls s + 1\<rparr>)"
| shutdown_drained: "0 < lc_calls s \<Longrightarrow> lc_requests s = 0 \<Longrightarrow>
    lifecycle_step s (close_shutdown (Inr ()) (s\<lparr>lc_calls := lc_calls s - 1\<rparr>))"
| shutdown_gives_up: "0 < lc_calls s \<Longrightarrow>
    lifecycle_step s (close_shutdown (Inl (Sentinel ''context.Canceled'')) (s\<lparr>lc_calls := lc_calls s - 1\<rparr>))"

inductive_cases lifecycle_stepE: "lifecycle_step s s'"

section \<open>Stopping\<close>

text \<open>A server that waits or has returned was shut down; a shutdown under way has a server; once one has drained it, no
  request is open any more.\<close>

definition lifecycle_inv :: "lifecycle \<Rightarrow> bool" where
  "lifecycle_inv s \<longleftrightarrow>
     (lc_listen s = Not_called \<longleftrightarrow> lc_server s = None) \<and>
     (lc_server s = None \<longrightarrow> lc_requests s = 0) \<and>
     (0 < lc_calls s \<longrightarrow> lc_server s = Some True) \<and>
     (lc_listen s \<in> {Waiting, Listen_returned (Inr ())} \<longrightarrow> lc_server s = Some True) \<and>
     (lc_listen s = Listen_returned (Inr ()) \<longrightarrow> lc_closed s) \<and>
     (lc_closed s \<longleftrightarrow> lc_ended s \<noteq> []) \<and>
     (Inr () \<in> set (lc_ended s) \<longrightarrow> lc_server s = Some True \<and> lc_requests s = 0)"

lemma lifecycle_inv_new: "lifecycle_inv new_lifecycle"
  by (simp add: lifecycle_inv_def new_lifecycle_def)

lemma lifecycle_inv_step: "lifecycle_step s s' \<Longrightarrow> lifecycle_inv s \<Longrightarrow> lifecycle_inv s'"
  unfolding lifecycle_inv_def by (erule lifecycle_stepE) (auto simp: close_shutdown_def)

lemma lifecycle_reach_inv: "lifecycle_step\<^sup>*\<^sup>* new_lifecycle s \<Longrightarrow> lifecycle_inv s"
  by (induction rule: rtranclp_induct) (auto intro: lifecycle_inv_new lifecycle_inv_step)

text \<open>\<^verbatim>\<open>ListenAndServe\<close> without an error is the end: some call of \<^verbatim>\<open>Shutdown\<close> has ended before, and if the first one drained
  the server, no request is open then or later.\<close>

lemma server_drained:
  assumes "lifecycle_step\<^sup>*\<^sup>* new_lifecycle s" "lc_listen s = Listen_returned (Inr ())"
  shows "lc_ended s \<noteq> []" and "hd (lc_ended s) = Inr () \<Longrightarrow> lifecycle_step\<^sup>*\<^sup>* s s' \<Longrightarrow> lc_requests s' = 0"
proof -
  have inv: "lifecycle_inv s" using lifecycle_reach_inv [OF assms(1)] .
  then show e: "lc_ended s \<noteq> []" using assms(2) unfolding lifecycle_inv_def by blast
  assume hd: "hd (lc_ended s) = Inr ()" and steps: "lifecycle_step\<^sup>*\<^sup>* s s'"
  have "Inr () \<in> set (lc_ended s')" using steps
  proof (induction rule: rtranclp_induct)
    case base
    then show ?case using hd e by (metis list.set_sel(1))
  next
    case (step t u)
    from step.hyps(2) step.IH show ?case by (elim lifecycle_stepE) (auto simp: close_shutdown_def)
  qed
  moreover have "lifecycle_inv s'" using lifecycle_reach_inv rtranclp_trans [OF assms(1) steps] by blast
  ultimately show "lc_requests s' = 0" by (simp add: lifecycle_inv_def)
qed

text \<open>Only the first call of \<^verbatim>\<open>Shutdown\<close> can return; every later one panics on the channel it closes again.\<close>

lemma second_shutdown_panics:
  assumes "lifecycle_step\<^sup>*\<^sup>* new_lifecycle s" "0 < i" "i < length (lc_ended s)"
  shows "lc_ended s ! i = Inl (Panic ''close of closed channel'')"
proof -
  have "\<forall>r \<in> set (tl (lc_ended s)). r = Inl (Panic ''close of closed channel'')"
    using assms(1)
  proof (induction rule: rtranclp_induct)
    case (step t u)
    have c: "lc_closed t \<longleftrightarrow> lc_ended t \<noteq> []" using lifecycle_reach_inv [OF step.hyps(1)] by (simp add: lifecycle_inv_def)
    from step.hyps(2) step.IH show ?case
      by (elim lifecycle_stepE) (cases "lc_ended t"; auto simp: close_shutdown_def c)+
  qed (simp add: new_lifecycle_def)
  moreover have "lc_ended s ! i = tl (lc_ended s) ! (i - 1)" using assms(2,3) by (cases "lc_ended s") (auto simp: nth_Cons')
  moreover have "i - 1 < length (tl (lc_ended s))" using assms(2,3) by simp
  ultimately show ?thesis by (metis nth_mem)
qed

end
