(* ===== verification/Zapi_Paths.thy ===== *)
theory Zapi_Paths
  imports Zapi Go_Url
begin

text \<open>
  \<^verbatim>\<open>RenderPathf\<close> of \<^verbatim>\<open>go/zapi/util.go\<close>: the path of a resource below the root a request came in by. The parameters
  are the texts \<^verbatim>\<open>fmt.Sprintf\<close> makes of them. Each is escaped as one segment, but the result is the \<^verbatim>\<open>Path\<close> of
  a URL, which is the unescaped one.
\<close>

definition RenderPathf :: "source_info \<Rightarrow> string \<Rightarrow> string list \<Rightarrow> string" where
  "RenderPathf source template params =
     url_JoinPath (so_root source) (sprintf_s template (map (url_escape ''$&+:=@'') params))"

text \<open>The template with one segment for each parameter\<close>

definition slots :: "nat \<Rightarrow> string" where
  "slots n = concat (replicate n ''/%s'')"

lemma sprintf_slots: "sprintf_s (slots (length ps)) ps = concat (map ((#) CHR ''/'') ps)"
  by (induction ps) (auto simp: slots_def)

lemma split_slots: "split_on CHR ''/'' (concat (map ((#) CHR ''/'') ps)) = [] # concat (map (split_on CHR ''/'') ps)"
proof (induction ps rule: rev_induct)
  case (snoc p ps)
  then show ?case using split_on_sep [of "CHR ''/''" "concat (map ((#) CHR ''/'') ps)" p] by simp
qed simp

lemma escape_slash: "CHR ''/'' \<notin> set keep \<Longrightarrow> CHR ''/'' \<notin> set (url_escape keep s)"
  using url_escape_chars [of "CHR ''/''" keep s] by (auto simp: is_alnum_def is_digit_def)

lemma escape_Nil_iff: "url_escape keep s = [] \<longleftrightarrow> s = []"
  by (cases s) (auto simp: url_escape_Cons url_escape_def split: if_splits)

lemma escape_plain: "CHR ''%'' \<notin> set keep \<Longrightarrow> plain_segment (url_escape keep s) \<longleftrightarrow> plain_segment s"
proof -
  assume k: "CHR ''%'' \<notin> set keep"
  have "url_escape keep ''.'' = ''.''" "url_escape keep ''..'' = ''..''" by (simp_all add: url_escape_def)
  then have "url_escape keep s = ''.'' \<longleftrightarrow> s = ''.''" "url_escape keep s = ''..'' \<longleftrightarrow> s = ''..''"
    using url_escape_inj [OF k, of s "''.''"] url_escape_inj [OF k, of s "''..''"] by auto
  then show ?thesis by (simp add: plain_segment_def escape_Nil_iff)
qed

lemma escape_join: "CHR ''/'' \<in> set keep \<Longrightarrow> url_escape keep (join ''/'' xs) = join ''/'' (map (url_escape keep) xs)"
proof (induction xs)
  case (Cons x xs)
  have "url_escape keep (x @ CHR ''/'' # s) = url_escape keep x @ CHR ''/'' # url_escape keep s" for s
    using Cons.prems by (simp add: url_escape_def)
  then show ?case using Cons by (cases "xs = []") (simp_all add: join_Cons)
qed simp

text \<open>Unescaping a path unescapes its segments.\<close>

lemma unescape_join:
  "list_all2 (\<lambda>u v. \<forall>t. url_unescape (u @ t) = map_option ((@) v) (url_unescape t)) us vs \<Longrightarrow>
   url_unescape (join ''/'' us) = Some (join ''/'' vs)"
proof (induction rule: list_all2_induct)
  case (Cons u us v vs)
  have u: "url_unescape (u @ t) = map_option ((@) v) (url_unescape t)" for t using Cons.hyps(1) by blast
  show ?case
  proof (cases "us = []")
    case True
    then show ?thesis using Cons.hyps(2) u [of "[]"] by simp
  next
    case False
    moreover have "vs \<noteq> []" using False Cons.hyps(2) by auto
    ultimately show ?thesis using Cons.IH u by (simp add: join_Cons)
  qed
qed simp

lemma escaped_parts:
  "CHR ''%'' \<notin> set keep \<Longrightarrow>
   list_all2 (\<lambda>u v. \<forall>t. url_unescape (u @ t) = map_option ((@) v) (url_unescape t)) (map (url_escape keep) xs) xs"
  by (simp add: list_all2_map1 list_all2_same unescape_escape_append)

text \<open>The path is the segments of the root followed by the parameters, character for character; so a slash in a
  parameter is a separator in the result.\<close>

theorem rendered_path:
  assumes root: "\<forall>s \<in> set rs. plain_segment s \<and> CHR ''/'' \<notin> set s" "so_root source = CHR ''/'' # join ''/'' rs"
    and params: "\<forall>p \<in> set ps. plain_segment p" "ps \<noteq> []"
  shows "RenderPathf source (slots (length ps)) ps = CHR ''/'' # join ''/'' (rs @ ps)"
proof -
  let ?f = "url_escape ''$&+,/:;=@''" and ?g = "url_escape ''$&+:=@''"
  let ?elem = "concat (map ((#) CHR ''/'') (map ?g ps))"
  have no_slash: "CHR ''/'' \<notin> set (?g p)" for p by (rule escape_slash) simp
  have plain_g: "plain_segment (?g p) = plain_segment p" and plain_f: "plain_segment (?f p) = plain_segment p" for p
    by (rule escape_plain, simp)+
  have slash: "?f ''/'' = ''/''"
    by (simp add: url_escape_def)
  have e: "escaped_path (so_root source) = CHR ''/'' # ?f (join ''/'' rs)"
    using root(2) slash(1) url_escape_Cons [of "''$&+,/:;=@''" "CHR ''/''" "join ''/'' rs"] by (simp add: escaped_path_def)
  have elem: "sprintf_s (slots (length ps)) (map ?g ps) = ?elem" using sprintf_slots [of "map ?g ps"] by simp
  have fs: "\<forall>x \<in> set (map ?f rs). CHR ''/'' \<notin> set x"
    using root(1) url_escape_keeps_out [of "CHR ''/''"] by (fastforce simp: is_alnum_def is_digit_def)
  have split_root: "filter (\<lambda>p. p \<noteq> []) (split_on CHR ''/'' (?f (join ''/'' rs))) = map ?f rs"
  proof (cases "rs = []")
    case False
    then have "split_on CHR ''/'' (?f (join ''/'' rs)) = map ?f rs"
      using split_on_join [OF _ fs] by (simp add: escape_join)
    then show ?thesis using root(1) by (auto simp: filter_id_conv escape_Nil_iff plain_segment_def)
  qed simp
  have split_ps: "concat (map (split_on CHR ''/'') (map ?g ps)) = map ?g ps"
    using split_on_plain [OF no_slash] by (induction ps) auto
  have segs: "split_on CHR ''/'' ((CHR ''/'' # ?f (join ''/'' rs)) @ CHR ''/'' # ?elem) =
      [] # split_on CHR ''/'' (?f (join ''/'' rs)) @ [] # map ?g ps"
    by (simp add: split_on_sep split_slots split_ps del: map_map)
  have plain_rs: "\<forall>p \<in> set (split_on CHR ''/'' (?f (join ''/'' rs))). p = [] \<or> plain_segment p"
  proof
    fix p assume "p \<in> set (split_on CHR ''/'' (?f (join ''/'' rs)))"
    then have "p = [] \<or> p \<in> set (map ?f rs)" unfolding split_root [symmetric] by auto
    then show "p = [] \<or> plain_segment p" using root(1) plain_f by auto
  qed
  have clean: "path_Clean ((CHR ''/'' # ?f (join ''/'' rs)) @ CHR ''/'' # ?elem) = CHR ''/'' # join ''/'' (map ?f rs @ map ?g ps)"
    unfolding path_Clean_def segs
    using plain_rs params(1) plain_g
    by (subst clean_plain) (auto simp: split_root filter_id_conv escape_Nil_iff plain_segment_def)
  have "list_all2 (\<lambda>u v. \<forall>t. url_unescape (u @ t) = map_option ((@) v) (url_unescape t)) (map ?f rs @ map ?g ps) (rs @ ps)"
    by (intro list_all2_appendI escaped_parts) simp_all
  then have u: "url_unescape (join ''/'' (map ?f rs @ map ?g ps)) = Some (join ''/'' (rs @ ps))" by (rule unescape_join)
  have "url_unescape (CHR ''/'' # s) = map_option ((#) CHR ''/'') (url_unescape s)" for s by simp
  then have unescape: "url_unescape (CHR ''/'' # join ''/'' (map ?f rs @ map ?g ps)) = Some (CHR ''/'' # join ''/'' (rs @ ps))"
    by (simp only: u option.map)
  obtain qs q where ps: "ps = qs @ [q]" using params(2) by (cases ps rule: rev_cases) auto
  have q: "?g q \<noteq> []" "CHR ''/'' \<notin> set (?g q)" using params(1) ps no_slash by (auto simp: escape_Nil_iff plain_segment_def)
  have "?elem = concat (map ((#) CHR ''/'') (map ?g qs)) @ CHR ''/'' # ?g q" using ps by simp
  then have "last ?elem = last (?g q)" using q(1) by (simp del: map_map)
  then have "last ?elem \<noteq> CHR ''/''" using last_in_set [OF q(1)] q(2) by metis
  then show ?thesis unfolding RenderPathf_def url_JoinPath_def elem e
    using clean unescape by (simp add: has_prefix_def Let_def)
qed

text \<open>A parameter with a slash cannot be told from two parameters, and one of two dots leads out of the path.\<close>

lemma parameters_run_together:
  assumes "plain_segment a" "plain_segment b" "plain_segment (a @ ''/'' @ b)"
  shows "RenderPathf \<lparr>so_scheme = s, so_host = h, so_remote = r, so_root = ''/''\<rparr> ''/%s'' [a @ ''/'' @ b] =
         RenderPathf \<lparr>so_scheme = s, so_host = h, so_remote = r, so_root = ''/''\<rparr> ''/%s/%s'' [a, b]"
  using rendered_path [of "[]" "\<lparr>so_scheme = s, so_host = h, so_remote = r, so_root = ''/''\<rparr>" "[a @ ''/'' @ b]"]
    rendered_path [of "[]" "\<lparr>so_scheme = s, so_host = h, so_remote = r, so_root = ''/''\<rparr>" "[a, b]"] assms
  by (simp add: slots_def numeral_2_eq_2)

lemma dots_lead_out:
  "RenderPathf \<lparr>so_scheme = s, so_host = h, so_remote = r, so_root = ''/api''\<rparr> ''/%s/%s'' [''..'', ''..''] = ''/''"
  by code_simp

end
