(* ===== verification/Zcmd.thy ===== *)
theory Zcmd
  imports Go_Strings
begin

text \<open>
  Package \<^verbatim>\<open>go/zcmd\<close>: applications and their commands (\<^verbatim>\<open>app.go\<close>, \<^verbatim>\<open>cmd.go\<close>), flags (\<^verbatim>\<open>flags.go\<close>), the
  environment a command runs in (\<^verbatim>\<open>env.go\<close>) and the configuration file (\<^verbatim>\<open>file.go\<close>).

  An aspect is the list of the calls it makes on what it configures. Parsing the command line is the work of
  the third-party \<^verbatim>\<open>cli\<close> package: the context it hands to a command is the record \<open>cli_context\<close>; the conversion
  to upper snake case, \<^verbatim>\<open>cast.ToIntE\<close>, printing a value with \<^verbatim>\<open>%s\<close> and the parser of the file are arguments.
\<close>

section \<open>Flags\<close>

datatype flag_value = FBool bool | FInt int | FString string

datatype flag_kind = Bool_flag | Int_flag | String_flag

record flag =
  fl_kind :: flag_kind
  fl_name :: string
  fl_required :: bool
  fl_env :: "string list"
  fl_value :: flag_value

record cli_command =
  cm_name :: string
  cm_flags :: "flag list"

record zapp =
  za_name :: string
  za_envPrefix :: string
  za_flags :: "flag list"
  za_commands :: "cli_command list"

definition envVar :: "(string \<Rightarrow> string) \<Rightarrow> string \<Rightarrow> string \<Rightarrow> string" where
  "envVar upper_snake prefix name = upper_snake (join ''_'' [trim_char CHR ''_'' prefix, name])"

definition newBoolFlag :: "(string \<Rightarrow> string) \<Rightarrow> string \<Rightarrow> flag" where
  "newBoolFlag env name =
     \<lparr>fl_kind = Bool_flag, fl_name = name, fl_required = False, fl_env = [env name], fl_value = FBool False\<rparr>"

definition newIntFlag :: "(string \<Rightarrow> string) \<Rightarrow> string \<Rightarrow> flag" where
  "newIntFlag env name =
     \<lparr>fl_kind = Int_flag, fl_name = name, fl_required = True, fl_env = [env name], fl_value = FInt 0\<rparr>"

definition newStringFlag :: "(string \<Rightarrow> string) \<Rightarrow> string \<Rightarrow> flag" where
  "newStringFlag env name =
     \<lparr>fl_kind = String_flag, fl_name = name, fl_required = True, fl_env = [env name], fl_value = FString ''''\<rparr>"

definition IntFlag_Default :: "flag \<Rightarrow> int \<Rightarrow> flag" where
  "IntFlag_Default f i = f\<lparr>fl_value := FInt i, fl_required := False\<rparr>"

definition StringFlag_Default :: "flag \<Rightarrow> string \<Rightarrow> flag" where
  "StringFlag_Default f s = f\<lparr>fl_value := FString s, fl_required := False\<rparr>"

section \<open>Aspects\<close>

text \<open>A call of an aspect, with the default it sets on the flag it gets back.\<close>

datatype config_call = AddBool string | AddInt string "int option" | AddString string "string option"

fun flag_of_call :: "(string \<Rightarrow> string) \<Rightarrow> config_call \<Rightarrow> flag" where
  "flag_of_call env (AddBool name) = newBoolFlag env name"
| "flag_of_call env (AddInt name v) =
     (case v of None \<Rightarrow> newIntFlag env name | Some i \<Rightarrow> IntFlag_Default (newIntFlag env name) i)"
| "flag_of_call env (AddString name v) =
     (case v of None \<Rightarrow> newStringFlag env name | Some s \<Rightarrow> StringFlag_Default (newStringFlag env name) s)"

type_synonym aspect = "config_call list"

definition apply_command :: "(string \<Rightarrow> string) \<Rightarrow> aspect \<Rightarrow> cli_command \<Rightarrow> cli_command" where
  "apply_command env calls c = foldl (\<lambda>c x. c\<lparr>cm_flags := cm_flags c @ [flag_of_call env x]\<rparr>) c calls"

definition apply_app :: "(string \<Rightarrow> string) \<Rightarrow> aspect \<Rightarrow> zapp \<Rightarrow> zapp" where
  "apply_app env calls a = foldl (\<lambda>a x. a\<lparr>za_flags := za_flags a @ [flag_of_call env x]\<rparr>) a calls"

definition newCmd :: "string \<Rightarrow> cli_command" where
  "newCmd name = \<lparr>cm_name = name, cm_flags = []\<rparr>"

text \<open>The commands come in the order in which the map is visited.\<close>

definition NewApp :: "(string \<Rightarrow> string) \<Rightarrow> string \<Rightarrow> string \<Rightarrow> aspect option \<Rightarrow> (string \<times> aspect option) list \<Rightarrow> zapp" where
  "NewApp upper_snake name envPrefix config commands =
     (let env = envVar upper_snake envPrefix;
          cmds = map (\<lambda>(n, c). case c of None \<Rightarrow> newCmd n | Some calls \<Rightarrow> apply_command env calls (newCmd n)) commands;
          app = \<lparr>za_name = name, za_envPrefix = envPrefix, za_flags = [], za_commands = cmds\<rparr>
      in case config of None \<Rightarrow> app | Some calls \<Rightarrow> apply_app env calls app)"

text \<open>The start of \<^verbatim>\<open>RunArgs\<close>: the flags of the application move to its commands.\<close>

definition push_flags :: "zapp \<Rightarrow> zapp" where
  "push_flags a =
     a\<lparr>za_commands := map (\<lambda>c. c\<lparr>cm_flags := cm_flags c @ za_flags a\<rparr>) (za_commands a), za_flags := []\<rparr>"

section \<open>The environment of a command\<close>

text \<open>The flags of the commands in the context's lineage (\<open>None\<close> for a context without a command), innermost first.\<close>

record cli_context =
  cx_command :: string
  cx_lineage :: "flag list option list"
  cx_app_flags :: "flag list option"
  cx_names :: "flag \<Rightarrow> string list"
  cx_value :: "string \<Rightarrow> flag_value option"
  cx_isset :: "string \<Rightarrow> bool"

fun first_named :: "(flag \<Rightarrow> string list) \<Rightarrow> string \<Rightarrow> flag list \<Rightarrow> flag option" where
  "first_named names n [] = None"
| "first_named names n (f # fs) = (if n \<in> set (names f) then Some f else first_named names n fs)"

fun lineage_flag :: "(flag \<Rightarrow> string list) \<Rightarrow> string \<Rightarrow> flag list option list \<Rightarrow> flag option" where
  "lineage_flag names n [] = None"
| "lineage_flag names n (None # cs) = lineage_flag names n cs"
| "lineage_flag names n (Some fs # cs) =
     (case first_named names n fs of Some f \<Rightarrow> Some f | None \<Rightarrow> lineage_flag names n cs)"

definition env_flag :: "cli_context \<Rightarrow> string \<Rightarrow> flag option" where
  "env_flag c n =
     (case lineage_flag (cx_names c) n (cx_lineage c) of
        Some f \<Rightarrow> Some f
      | None \<Rightarrow> (case cx_app_flags c of None \<Rightarrow> None | Some fs \<Rightarrow> first_named (cx_names c) n fs))"

definition CommandName :: "cli_context \<Rightarrow> string" where
  "CommandName c = cx_command c"

definition env_Bool :: "cli_context \<Rightarrow> string \<Rightarrow> bool" where
  "env_Bool c n = (case env_flag c n of None \<Rightarrow> False | Some f \<Rightarrow> fl_kind f = Bool_flag \<and> cx_isset c n)"

definition env_Int :: "(flag_value option \<Rightarrow> int option) \<Rightarrow> cli_context \<Rightarrow> string \<Rightarrow> int" where
  "env_Int toInt c n = (case toInt (cx_value c n) of Some i \<Rightarrow> i | None \<Rightarrow> 0)"

definition env_String :: "(flag_value option \<Rightarrow> string) \<Rightarrow> cli_context \<Rightarrow> string \<Rightarrow> string" where
  "env_String sprint c n =
     (case env_flag c n of
        Some f \<Rightarrow>
          (case cx_value c n of
             Some (FString s) \<Rightarrow> if fl_kind f = String_flag then s else sprint (cx_value c n)
           | _ \<Rightarrow> sprint (cx_value c n))
      | None \<Rightarrow> sprint (cx_value c n))"

section \<open>The configuration file\<close>

type_synonym os_env = "(string, string) gomap"

fun load_entries :: "string \<Rightarrow> (string \<times> string) list \<Rightarrow> os_env \<Rightarrow> os_env" where
  "load_entries prefix [] env = env"
| "load_entries prefix ((key, v) # es) env =
     (let realKey = prefix @ ''_'' @ key
      in load_entries prefix es (if map_of env realKey = None then map_put (to_upper realKey) v env else env))"

text \<open>Opening a file and parsing it are arguments.\<close>

definition readEnvFile ::
  "(string \<Rightarrow> 'f res) \<Rightarrow> ('f \<Rightarrow> (string, string) gomap res) \<Rightarrow> string \<Rightarrow> (string, string) gomap res" where
  "readEnvFile open_file parse filename =
     bind_res (wrap_res ''opening environment file'' (open_file filename)) parse"

definition LoadFile :: "(string \<Rightarrow> (string, string) gomap res) \<Rightarrow> string \<Rightarrow> string \<Rightarrow> os_env \<Rightarrow> os_env \<times> unit res" where
  "LoadFile reader filename prefix env =
     (case reader filename of
        Inl e \<Rightarrow> (env, Inl (wrap_err ''reading environment file'' e))
      | Inr entries \<Rightarrow> (load_entries prefix entries env, Inr ()))"

section \<open>Running\<close>

text \<open>What a run logs, and the code it exits with when it does: \<open>home\<close> is the user's home directory, \<open>run\<close> the run of
  the command line library on the application.\<close>

datatype run_log = Warned string error | Debugged string | Failed string error

definition load_config ::
  "(string \<Rightarrow> (string, string) gomap res) \<Rightarrow> string res \<Rightarrow> zapp \<Rightarrow> os_env \<Rightarrow> os_env \<times> run_log list" where
  "load_config reader home a env =
     (case home of
        Inl e \<Rightarrow> (env, [Warned ''Finding user home dir for configuration file.'' e])
      | Inr dir \<Rightarrow>
          (case LoadFile reader (dir @ ''/'' @ ''.'' @ za_name a) (za_envPrefix a) env of
             (env', Inr _) \<Rightarrow> (env', [])
           | (env', Inl e) \<Rightarrow>
               (env', [if is_sentinel ''fs.ErrNotExist'' e then Debugged ''Configuration file not found in user home dir.''
                       else Warned ''Reading configuration file at '' e])))"

definition RunArgs ::
  "(string \<Rightarrow> (string, string) gomap res) \<Rightarrow> (zapp \<Rightarrow> string list \<Rightarrow> os_env \<Rightarrow> unit res) \<Rightarrow> string res \<Rightarrow>
   zapp \<Rightarrow> string list \<Rightarrow> os_env \<Rightarrow> run_log list \<times> int option" where
  "RunArgs reader run home a args env =
     (let a' = push_flags a; (env', logs) = load_config reader home a' env
      in case run a' args env' of
           Inl e \<Rightarrow> (logs @ [Failed ''Application terminated with error.'' e], Some 1)
         | Inr _ \<Rightarrow> (logs, None))"

section \<open>What holds\<close>

text \<open>Whatever happens to the configuration file, the command runs, and the process exits with 1 exactly when it failed; a
  file that is not there only leaves a debug line.\<close>

lemma RunArgs_exit:
  "snd (RunArgs reader run home a args env) =
    (if is_ok (run (push_flags a) args (fst (load_config reader home (push_flags a) env))) then None else Some 1)"
  by (simp add: RunArgs_def Let_def is_ok_def split: prod.split sum.split)

lemma missing_file_is_no_error:
  assumes "open_file (dir @ ''/.'' @ za_name a) = Inl (Sentinel ''fs.ErrNotExist'')"
  shows "load_config (readEnvFile open_file parse) (Inr dir) a env =
    (env, [Debugged ''Configuration file not found in user home dir.''])"
  using assms by (simp add: load_config_def LoadFile_def readEnvFile_def wrap_err_def)

text \<open>A prefix written with its underscore names the flags' variables as one without does, and the file's variables
  otherwise: no flag reads what the file sets.\<close>

lemma underscored_prefix:
  "envVar (\<lambda>s. s) ''APP_'' ''PORT'' = ''APP_PORT''"
  "LoadFile (\<lambda>_. Inr [(''PORT'', ''80'')]) f ''APP_'' [] = ([(''APP__PORT'', ''80'')], Inr ())"
  by code_simp+

text \<open>After \<^verbatim>\<open>RunArgs\<close> has started, every flag is found by its name where it was declared: a command's own flags first, then
  the application's, which every command has.\<close>

lemma first_named_append:
  "first_named names n (xs @ ys) = (case first_named names n xs of Some f \<Rightarrow> Some f | None \<Rightarrow> first_named names n ys)"
  by (induction xs) simp_all

lemma apply_command_flags: "cm_flags (apply_command env calls c) = cm_flags c @ map (flag_of_call env) calls"
  unfolding apply_command_def by (induction calls arbitrary: c) simp_all

lemma apply_command_name: "cm_name (apply_command env calls c) = cm_name c"
  unfolding apply_command_def by (induction calls arbitrary: c) simp_all

lemma apply_app_flags:
  "za_flags (apply_app env calls a) = za_flags a @ map (flag_of_call env) calls"
  "za_commands (apply_app env calls a) = za_commands a"
  unfolding apply_app_def by (induction calls arbitrary: a) simp_all

lemma command_flags:
  assumes "(n, c) \<in> set commands"
  shows "\<lparr>cm_name = n, cm_flags = map (flag_of_call (envVar upper p)) (case c of None \<Rightarrow> [] | Some calls \<Rightarrow> calls) @
      map (flag_of_call (envVar upper p)) (case config of None \<Rightarrow> [] | Some calls \<Rightarrow> calls)\<rparr>
    \<in> set (za_commands (push_flags (NewApp upper name p config commands)))"
proof -
  let ?env = "envVar upper p" and ?a = "NewApp upper name p config commands"
  define cmd where "cmd = (case c of None \<Rightarrow> newCmd n | Some calls \<Rightarrow> apply_command ?env calls (newCmd n))"
  have cmd: "cm_name cmd = n" "cm_flags cmd = map (flag_of_call ?env) (case c of None \<Rightarrow> [] | Some calls \<Rightarrow> calls)"
    by (cases c; simp add: cmd_def newCmd_def apply_command_flags apply_command_name)+
  have fl: "za_flags ?a = map (flag_of_call ?env) (case config of None \<Rightarrow> [] | Some calls \<Rightarrow> calls)"
    by (cases config) (simp_all add: NewApp_def Let_def apply_app_flags)
  have "cmd \<in> set (za_commands ?a)"
    using assms unfolding cmd_def by (cases config) (force simp: NewApp_def Let_def apply_app_flags)+
  then have "cmd\<lparr>cm_flags := cm_flags cmd @ za_flags ?a\<rparr> \<in> set (za_commands (push_flags ?a))"
    by (simp add: push_flags_def)
  moreover have "cmd\<lparr>cm_flags := cm_flags cmd @ za_flags ?a\<rparr> = \<lparr>cm_name = n, cm_flags = cm_flags cmd @ za_flags ?a\<rparr>"
    using cmd(1) by (cases cmd) simp
  ultimately show ?thesis unfolding cmd(2) fl by simp
qed

text \<open>Moving the flags a second time changes nothing.\<close>

lemma push_flags_idem: "push_flags (push_flags a) = push_flags a"
  by (cases a) (simp add: push_flags_def)

text \<open>A boolean flag counts as true when it was set, whatever it was set to.\<close>

lemma env_Bool_ignores_the_value:
  "env_Bool c n = env_Bool (c\<lparr>cx_value := v\<rparr>) n"
  by (simp add: env_Bool_def env_flag_def cong: option.case_cong)

text \<open>The file, when all its names with the prefix are in upper case, only adds: a variable that is set keeps its value, and one
  that is not gets the file's.\<close>

lemma load_entries_upper:
  assumes "map_wf es" "\<forall>(key, v) \<in> set es. to_upper (prefix @ ''_'' @ key) = prefix @ ''_'' @ key"
  shows "map_of (load_entries prefix es env) x =
    (case map_of env x of
       Some v \<Rightarrow> Some v
     | None \<Rightarrow> map_of (map (\<lambda>(key, v). (prefix @ ''_'' @ key, v)) es) x)"
  using assms
proof (induction es arbitrary: env)
  case (Cons e es)
  obtain key v where e: "e = (key, v)" by (cases e)
  let ?k = "prefix @ ''_'' @ key"
  have wf: "map_wf es" "key \<notin> set (map fst es)" using Cons.prems(1) e by (auto simp: map_wf_def)
  have up: "to_upper ?k = ?k" "\<forall>(key, v) \<in> set es. to_upper (prefix @ ''_'' @ key) = prefix @ ''_'' @ key"
    using Cons.prems(2) e by auto
  have absent: "map_of (map (\<lambda>(key, v). (prefix @ ''_'' @ key, v)) es) ?k = None"
    using wf(2) by (force simp: map_of_eq_None_iff)
  have "map_of (load_entries prefix (e # es) env) x =
    (case map_of (if map_of env ?k = None then map_put ?k v env else env) x of
       Some v \<Rightarrow> Some v | None \<Rightarrow> map_of (map (\<lambda>(key, v). (prefix @ ''_'' @ key, v)) es) x)"
    using Cons.IH [OF wf(1) up(2)] up(1) e by (simp add: Let_def)
  then show ?case
    using absent e by (cases "x = ?k") (auto split: option.splits)
qed (simp split: option.split)

text \<open>A lower-case key escapes the test and overwrites the variable it is then stored under.\<close>

lemma lower_case_key_overwrites:
  "load_entries ''APP'' [(''port'', ''80'')] [(''APP_PORT'', ''8080'')] = [(''APP_PORT'', ''80'')]"
  by code_simp

end
