(* ===== verification/Zaspect.thy ===== *)
theory Zaspect
  imports Zcmd Zlog Zstats Zsql_Connection Zamqp_Consumer "HOL-Library.List_Lexorder"
begin

text \<open>
  The aspects of the packages: \<^verbatim>\<open>zcmd/zaspect\<close>, \<^verbatim>\<open>zredis\<close>, \<^verbatim>\<open>zsql/zmysql\<close>, \<^verbatim>\<open>zamqp/zamqpcmd\<close>,
  \<^verbatim>\<open>zts/ztimescaledb\<close>, \<^verbatim>\<open>zts/zinfluxdb\<close>, \<^verbatim>\<open>zlog/zlogcmd\<close>, \<^verbatim>\<open>zstats/zstatscmd\<close> and \<^verbatim>\<open>zstats/zstatsd\<close>. An aspect
  declares the options of one client and later builds the client from the values of these options. Both sides are
  modelled: \<open>Apply\<close> as the calls it makes, the client's settings as a function of the environment. Connecting
  is the work of third-party clients; the settings handed to them are records, the constructors arguments.
\<close>

section \<open>Names and values of options\<close>

definition aspect_Prefix :: "string \<Rightarrow> string \<Rightarrow> string" where
  "aspect_Prefix prefix attr = (if prefix = [] then attr else prefix @ ''-'' @ attr)"

text \<open>\<^verbatim>\<open>fmt.Sprintf\<close> for strings: each \<^verbatim>\<open>%s\<close> takes the next argument, and Go reports missing and extra ones in
  the text.\<close>

fun aspect_Format :: "string \<Rightarrow> string list \<Rightarrow> string" where
  "aspect_Format [] args =
     (if args = [] then [] else ''%!(EXTRA '' @ join '', '' (map (\<lambda>a. ''string='' @ a) args) @ '')'')"
| "aspect_Format (c # s) args =
     (if c = CHR ''%'' \<and> has_prefix s ''s''
      then (case args of [] \<Rightarrow> ''%!s(MISSING)'' @ aspect_Format (tl s) [] | a # as \<Rightarrow> a @ aspect_Format (tl s) as)
      else c # aspect_Format s args)"

text \<open>The environment as the clients see it.\<close>

record zenv =
  ze_String :: "string \<Rightarrow> string"
  ze_Int :: "string \<Rightarrow> int"
  ze_Bool :: "string \<Rightarrow> bool"

definition env_of :: "(flag_value option \<Rightarrow> int option) \<Rightarrow> (flag_value option \<Rightarrow> string) \<Rightarrow> cli_context \<Rightarrow> zenv" where
  "env_of toInt sprint c = \<lparr>ze_String = env_String sprint c, ze_Int = env_Int toInt c, ze_Bool = env_Bool c\<rparr>"

definition host_port :: "string \<Rightarrow> int \<Rightarrow> string" where
  "host_port host port = host @ '':'' @ int_str port"

section \<open>Listening\<close>

definition Listen_Apply :: "string \<Rightarrow> aspect" where
  "Listen_Apply prefix =
     [AddString (aspect_Prefix prefix ''listen-ip'') (Some ''0.0.0.0''), AddInt (aspect_Prefix prefix ''listen-port'') (Some 5000)]"

definition ListenPort :: "string \<Rightarrow> zenv \<Rightarrow> int" where
  "ListenPort prefix env = ze_Int env (aspect_Prefix prefix ''listen-port'')"

definition ListenIP :: "string \<Rightarrow> zenv \<Rightarrow> string" where
  "ListenIP prefix env = ze_String env (aspect_Prefix prefix ''listen-ip'')"

definition ListenAddr :: "string \<Rightarrow> zenv \<Rightarrow> string" where
  "ListenAddr prefix env = host_port (ListenIP prefix env) (ListenPort prefix env)"

section \<open>Redis\<close>

definition redis_host :: "string \<Rightarrow> string" where "redis_host name = aspect_Format ''redis-%s-host'' [name]"
definition redis_port :: "string \<Rightarrow> string" where "redis_port name = aspect_Format ''redis-%s-port'' [name]"

definition redis_Apply :: "string \<Rightarrow> aspect" where
  "redis_Apply name = [AddString (redis_host name) (Some ''localhost''), AddInt (redis_port name) (Some 6379)]"

text \<open>The addresses of the cluster client.\<close>

definition redis_Client :: "string \<Rightarrow> zenv \<Rightarrow> string list" where
  "redis_Client name env = [host_port (ze_String env (redis_host name)) (ze_Int env (redis_port name))]"

section \<open>MySQL\<close>

definition mysql_host :: "string \<Rightarrow> string" where "mysql_host name = aspect_Format ''mysql-%s-host'' [name]"
definition mysql_port :: "string \<Rightarrow> string" where "mysql_port name = aspect_Format ''mysql-%s-port'' [name]"
definition mysql_user :: "string \<Rightarrow> string" where "mysql_user name = aspect_Format ''mysql-%s-user'' [name]"
definition mysql_pass :: "string \<Rightarrow> string" where "mysql_pass name = aspect_Format ''mysql-%s-pass'' [name]"
definition mysql_database :: "string \<Rightarrow> string" where "mysql_database name = aspect_Format ''mysql-%s-database'' [name]"
definition mysql_debug :: "string \<Rightarrow> string" where "mysql_debug name = aspect_Format ''mysql-%s-debug'' [name]"

lemmas mysql_options = mysql_host_def mysql_port_def mysql_user_def mysql_pass_def mysql_database_def mysql_debug_def

definition mysql_Apply :: "string \<Rightarrow> aspect" where
  "mysql_Apply name =
     [AddString (mysql_host name) (Some ''localhost''), AddString (mysql_user name) None, AddString (mysql_pass name) None,
      AddString (mysql_database name) (Some ''mysql''), AddInt (mysql_port name) (Some 3306), AddBool (mysql_debug name)]"

text \<open>\<^verbatim>\<open>mysql.Config\<close> of the third-party driver, and \<^verbatim>\<open>FormatDSN\<close> as an argument; the values of options printed by \<open>sprint\<close>.\<close>

record mysql_config =
  mc_user :: string
  mc_passwd :: string
  mc_addr :: string
  mc_db :: string
  mc_params :: "(string, string) gomap"
  mc_net :: string

datatype option_value = OString string | OBool bool | ODuration int

definition mysql_DefaultOptions :: "option_value sql_options" where
  "mysql_DefaultOptions =
     [(''collation'', OString ''utf8mb4_bin''), (''charset'', OString ''utf8mb4''), (''clientFoundRows'', OBool True),
      (''parseTime'', OBool True), (''timeout'', ODuration 5000000000)]"

definition TCPConnectionString ::
  "(option_value \<Rightarrow> string) \<Rightarrow> (mysql_config \<Rightarrow> string) \<Rightarrow> string \<Rightarrow> string \<Rightarrow> string \<Rightarrow> int \<Rightarrow> string \<Rightarrow>
   option_value sql_options option \<Rightarrow> string" where
  "TCPConnectionString sprint formatDSN user pass host port db opts =
     (let o1 = (case opts of None \<Rightarrow> mysql_DefaultOptions | Some x \<Rightarrow> x)
      in formatDSN \<lparr>mc_user = user, mc_passwd = pass, mc_addr = host_port host port, mc_db = db,
           mc_params = toStringMapString sprint o1, mc_net = ''tcp''\<rparr>)"

text \<open>A connection that logs has a world of its own: the result is one or the other.\<close>

definition mysql_Connection ::
  "(option_value \<Rightarrow> string) \<Rightarrow> (mysql_config \<Rightarrow> string) \<Rightarrow> (string \<Rightarrow> ('c, 'w, 'r, 'x, 't) go_db res) \<Rightarrow>
   ('c, 'l) ctx_logger \<Rightarrow> (gval list \<Rightarrow> string) \<Rightarrow> string \<Rightarrow> zenv \<Rightarrow> option_value sql_options option \<Rightarrow>
   (('c, 'w, 'r, 'x) sql_conn + ('c, 'w \<times> 'l, 'r, 'x) sql_conn) res" where
  "mysql_Connection sprint formatDSN sql_open logger showv name env options =
     (let dsn = TCPConnectionString sprint formatDSN (ze_String env (mysql_user name)) (ze_String env (mysql_pass name))
                  (ze_String env (mysql_host name)) (ze_Int env (mysql_port name)) (ze_String env (mysql_database name)) options
      in bind_res (wrap_res ''opening mysql connection'' (sql_open dsn)) (\<lambda>db.
           let conn = NewConnection db mysql_driver
           in Inr (if ze_Bool env (mysql_debug name) then Inr (LoggingConnection logger showv conn) else Inl conn)))"

text \<open>\<^verbatim>\<open>Open\<close> of the two driver packages: the limits it sets on the pool, in nanoseconds and connections.\<close>

record pool_limits =
  pool_idleTime :: int
  pool_maxIdle :: int
  pool_maxOpen :: int

definition pool_of_size :: "int \<Rightarrow> pool_limits" where
  "pool_of_size n = \<lparr>pool_idleTime = 5 * 60 * 1000000000, pool_maxIdle = n sdiv 2 + 1, pool_maxOpen = n\<rparr>"

definition mysql_Open ::
  "(string \<Rightarrow> ('c, 'w, 'r, 'x, 't) go_db res) \<Rightarrow> string \<Rightarrow> int \<Rightarrow> (pool_limits \<times> ('c, 'w, 'r, 'x) sql_conn) res" where
  "mysql_Open sql_open dsn poolSize =
     bind_res (wrap_res ''opening mysql connection'' (sql_open dsn)) (\<lambda>db. Inr (pool_of_size poolSize, NewConnection db mysql_driver))"

definition sqlite3_Open ::
  "(string \<Rightarrow> ('c, 'w, 'r, 'x, 't) go_db res) \<Rightarrow> string \<Rightarrow> int \<Rightarrow> (pool_limits \<times> ('c, 'w, 'r, 'x) sql_conn) res" where
  "sqlite3_Open sql_open dsn poolSize =
     bind_res (wrap_res ''opening sqlite3 connection'' (sql_open dsn)) (\<lambda>db. Inr (pool_of_size poolSize, NewConnection db sqlite3_driver))"

section \<open>SQLite\<close>

text \<open>\<^verbatim>\<open>url.QueryEscape\<close> and \<^verbatim>\<open>Values.Encode\<close>: keys in order, a space as a plus sign.\<close>

definition query_escape :: "string \<Rightarrow> string" where
  "query_escape s = replace_char (url_escape '' '' s) CHR '' '' ''+''"

definition values_encode :: "(string, string list) gomap \<Rightarrow> string" where
  "values_encode params =
     join ''&'' (concat (map (\<lambda>k. map (\<lambda>v. query_escape k @ ''='' @ query_escape v) (the (map_of params k)))
       (sort (map fst params))))"

definition sqlite3_DefaultOptions :: "option_value sql_options" where
  "sqlite3_DefaultOptions = [(''cache'', OString ''shared''), (''_foreign_keys'', OString ''on'')]"

definition sqlite3_connectionString :: "(option_value \<Rightarrow> string) \<Rightarrow> string \<Rightarrow> option_value sql_options option \<Rightarrow> string" where
  "sqlite3_connectionString sprint path opts =
     (let o1 = (case opts of None \<Rightarrow> sqlite3_DefaultOptions | Some x \<Rightarrow> x);
          params = foldl (\<lambda>p (k, v). map_put k [sprint v] p) [] o1
      in path @ ''?'' @ values_encode params)"

definition FileConnectionString :: "(option_value \<Rightarrow> string) \<Rightarrow> string \<Rightarrow> option_value sql_options option \<Rightarrow> string" where
  "FileConnectionString sprint filepath opts = sqlite3_connectionString sprint filepath opts"

definition MemoryConnectionString :: "(option_value \<Rightarrow> string) \<Rightarrow> option_value sql_options option \<Rightarrow> string" where
  "MemoryConnectionString sprint opts = sqlite3_connectionString sprint '':memory:'' opts"

section \<open>AMQP\<close>

definition amqp_host :: "string \<Rightarrow> string" where "amqp_host name = aspect_Format ''amqp-%s-host'' [name]"
definition amqp_port :: "string \<Rightarrow> string" where "amqp_port name = aspect_Format ''amqp-%s-port'' [name]"
definition amqp_user :: "string \<Rightarrow> string" where "amqp_user name = aspect_Format ''amqp-%s-user'' [name]"
definition amqp_pass :: "string \<Rightarrow> string" where "amqp_pass name = aspect_Format ''amqp-%s-pass'' [name]"
definition amqp_vhost :: "string \<Rightarrow> string" where "amqp_vhost name = aspect_Format ''amqp-%s-vhost'' [name]"

lemmas amqp_options = amqp_host_def amqp_port_def amqp_user_def amqp_pass_def amqp_vhost_def

definition amqp_Apply :: "string \<Rightarrow> aspect" where
  "amqp_Apply name =
     [AddString (amqp_host name) (Some ''localhost''), AddString (amqp_user name) None, AddString (amqp_pass name) None,
      AddString (amqp_vhost name) (Some ''/''), AddInt (amqp_port name) (Some 5671)]"

definition amqp_Details :: "string \<Rightarrow> zenv \<Rightarrow> connection_details" where
  "amqp_Details name env =
     NewConnectionDetails (ze_String env (amqp_user name)) (ze_String env (amqp_pass name)) (ze_String env (amqp_host name))
       (ze_Int env (amqp_port name)) (ze_String env (amqp_vhost name))"

definition amqp_Connection :: "'b amqp \<Rightarrow> string \<Rightarrow> zenv \<Rightarrow> 'b \<Rightarrow> 'b \<times> nat res" where
  "amqp_Connection am name env b = wrap_run ''opening amqp connection'' (Dial am (amqp_Details name env) b)"

text \<open>A direct consumer has one more option, the same for every name; a publisher has none.\<close>

definition consumer_Apply :: "string \<Rightarrow> aspect" where
  "consumer_Apply name = amqp_Apply name @ [AddInt ''concurrency'' None]"

definition aspect_Consumer ::
  "'b amqp \<Rightarrow> string \<Rightarrow> zenv \<Rightarrow> declarations \<Rightarrow> string \<Rightarrow> 'b \<Rightarrow> 'b \<times> direct_consumer res" where
  "aspect_Consumer am name env decls queueName b =
     run_then (wrap_run ''getting amqp connection'' (amqp_Connection am name env b)) (\<lambda>b1 conn.
       (b1, Inr (NewDirectConsumer conn decls queueName (nat (ze_Int env ''concurrency'')))))"

definition publisher_Apply :: "string \<Rightarrow> aspect" where
  "publisher_Apply name = amqp_Apply name"

definition aspect_Publisher :: "'v amqp_lib \<Rightarrow> 'b amqp \<Rightarrow> string \<Rightarrow> zenv \<Rightarrow> message \<Rightarrow> 'b \<Rightarrow> 'b \<times> unit res" where
  "aspect_Publisher al am name env = dsnPublisher_Publish al am (amqp_Details name env)"

section \<open>Time series\<close>

definition timescale_opt :: "string \<Rightarrow> string \<Rightarrow> string" where
  "timescale_opt name opt = aspect_Format ''timescaledb-%s-%s'' [name, opt]"

definition timescale_Apply :: "string \<Rightarrow> aspect" where
  "timescale_Apply name =
     [AddString (timescale_opt name ''scheme'') (Some ''postgres''), AddString (timescale_opt name ''host'') (Some ''localhost''),
      AddInt (timescale_opt name ''port'') (Some 5432), AddString (timescale_opt name ''database'') None,
      AddString (timescale_opt name ''user'') None, AddString (timescale_opt name ''password'') None,
      AddString (timescale_opt name ''sslmode'') (Some ''disable'')]"

text \<open>The address of the database, and the client: opening and the first ping may fail, and then it panics.\<close>

definition timescale_URL :: "string \<Rightarrow> zenv \<Rightarrow> string" where
  "timescale_URL name env =
     (let s = (\<lambda>o1. ze_String env (timescale_opt name o1)); scheme = s ''scheme''
      in (if scheme = [] then [] else scheme @ '':'') @ ''//'' @ url_escape ''$&+,;='' (s ''user'') @ '':'' @
         url_escape ''$&+,;='' (s ''password'') @ ''@'' @
         url_escape ([CHR 0x27, CHR 0x22] @ ''!$&()*+,;=:[]<>'') (host_port (s ''host'') (ze_Int env (timescale_opt name ''port''))) @
         url_escape ''$&+,/:;=@'' (CHR ''/'' # s ''database'') @ ''?'' @ values_encode [(''sslmode'', [s ''sslmode''])])"

definition timescale_Client ::
  "(string \<Rightarrow> 'd res) \<Rightarrow> ('d \<Rightarrow> unit res) \<Rightarrow> string \<Rightarrow> zenv \<Rightarrow> ('d \<times> string) res" where
  "timescale_Client sql_open ping name env =
     (case sql_open (timescale_URL name env) of
        Inl e \<Rightarrow> Inl (Panic (''failed to create TimescaleDB client: '' @ error_text e))
      | Inr db \<Rightarrow>
          (case ping db of
             Inl e \<Rightarrow> Inl (Panic (''failed to connect to TimescaleDB: '' @ error_text e))
           | Inr _ \<Rightarrow> Inr (db, ze_String env (timescale_opt name ''database''))))"

definition influx_opt :: "string \<Rightarrow> string \<Rightarrow> string" where
  "influx_opt name opt = aspect_Format ''influxdb-%s-%s'' [name, opt]"

definition influx_Apply :: "string \<Rightarrow> aspect" where
  "influx_Apply name =
     [AddString (influx_opt name ''scheme'') (Some ''http''), AddString (influx_opt name ''host'') (Some ''localhost''),
      AddInt (influx_opt name ''port'') (Some 80), AddString (influx_opt name ''org'') None,
      AddString (influx_opt name ''bucket'') None, AddString (influx_opt name ''user'') None,
      AddString (influx_opt name ''token'') None]"

definition influx_URL :: "string \<Rightarrow> zenv \<Rightarrow> string" where
  "influx_URL name env =
     (let scheme = ze_String env (influx_opt name ''scheme'')
      in (if scheme = [] then [] else scheme @ '':'') @ ''//'' @
         url_escape ([CHR 0x27, CHR 0x22] @ ''!$&()*+,;=:[]<>'')
           (host_port (ze_String env (influx_opt name ''host'')) (ze_Int env (influx_opt name ''port''))))"

record 'k influx_client =
  ic_client :: 'k
  ic_org :: string
  ic_bucket :: string

definition influx_Client ::
  "(string \<Rightarrow> string \<Rightarrow> 'o \<Rightarrow> 'k) \<Rightarrow> 'o \<Rightarrow> string \<Rightarrow> zenv \<Rightarrow> 'o option \<Rightarrow> 'k influx_client" where
  "influx_Client newClient defaults name env options =
     \<lparr>ic_client = newClient (influx_URL name env) (ze_String env (influx_opt name ''token''))
                   (case options of None \<Rightarrow> defaults | Some x \<Rightarrow> x),
      ic_org = ze_String env (influx_opt name ''org''), ic_bucket = ze_String env (influx_opt name ''bucket'')\<rparr>"

section \<open>Logs and statistics\<close>

definition logcmd_Apply :: aspect where
  "logcmd_Apply = [AddString ''log-level'' (Some ''info''), AddString ''log-format'' (Some ''text'')]"

definition LogFormat :: "zenv \<Rightarrow> string" where
  "LogFormat env = (if to_lower (ze_String env ''log-format'') = ''json'' then ''json'' else ''text'')"

definition LogLevel :: "level \<Rightarrow> zenv \<Rightarrow> level" where
  "LogLevel defaultLevel env =
     (let s = to_lower (ze_String env ''log-level'')
      in if s \<in> {''fatal'', ''panic'', ''ftl''} then LevelFatal
         else if s \<in> {''error'', ''err''} then LevelError
         else if s \<in> {''warning'', ''warn'', ''wrn''} then LevelWarn
         else if s \<in> {''info'', ''inf'', ''default''} then LevelInfo
         else if s \<in> {''debug'', ''dbg''} then LevelDebug
         else if s \<in> {''trace'', ''trc''} then LevelTrace
         else defaultLevel)"

definition statscmd_Apply :: aspect where
  "statscmd_Apply = [AddString ''stats-prefix'' None, AddString ''stats-tags'' None]"

text \<open>\<open>unmarshal\<close> is \<^verbatim>\<open>json.Unmarshal\<close> into a map of strings.\<close>

definition stats_Configure ::
  "(string \<Rightarrow> tags res) \<Rightarrow> zenv \<Rightarrow> nat \<Rightarrow> 'w stats_store \<Rightarrow> 'w stats_store \<times> nat res" where
  "stats_Configure unmarshal env s h =
     (let prefix = ze_String env ''stats-prefix'';
          h1 = (if prefix \<noteq> [] then fst (AddPrefix s prefix h) else h);
          tags = ze_String env ''stats-tags''
      in if tags \<noteq> []
         then (case unmarshal tags of
                 Inl e \<Rightarrow> (h1, Inl (wrap_err ''failed to unmarshal stats tags'' e))
               | Inr m \<Rightarrow> (fst (AddTags s m h1), Inr s))
         else (h1, Inr s))"

definition statsd_Apply :: aspect where
  "statsd_Apply = [AddString ''statsd-addr'' None, AddString ''statsd-tag-style'' None]"

datatype tag_format = TagFormatDatadog | TagFormatGraphite | TagFormatInfluxDB

definition statsd_Client :: "(string \<Rightarrow> tag_format \<Rightarrow> 'k) \<Rightarrow> zenv \<Rightarrow> 'k res" where
  "statsd_Client newClient env =
     (let addr = ze_String env ''statsd-addr''; tagStyle = ze_String env ''statsd-tag-style''
      in if tagStyle = ''datadog'' then Inr (newClient addr TagFormatDatadog)
         else if tagStyle = ''graphite'' then Inr (newClient addr TagFormatGraphite)
         else if tagStyle = ''influxdb'' then Inr (newClient addr TagFormatInfluxDB)
         else Inl (Errorf (''invalid statsd tag style: '' @ tagStyle)))"

end
