(* ===== verification/Zaspect_Laws.thy ===== *)
theory Zaspect_Laws
  imports Zaspect
begin

text \<open>
  What an aspect declares is what its client reads; the options of different services never meet; the defaults reach
  the clients; the address of a broker determines its connection details.
\<close>

section \<open>Declared and read\<close>

fun call_name :: "config_call \<Rightarrow> string" where
  "call_name (AddBool n) = n"
| "call_name (AddInt n d) = n"
| "call_name (AddString n d) = n"

fun same_value :: "zenv \<Rightarrow> zenv \<Rightarrow> config_call \<Rightarrow> bool" where
  "same_value e e' (AddBool n) = (ze_Bool e n = ze_Bool e' n)"
| "same_value e e' (AddInt n d) = (ze_Int e n = ze_Int e' n)"
| "same_value e e' (AddString n d) = (ze_String e n = ze_String e' n)"

text \<open>Two environments that give the declared options the same values, each read as the kind it was declared with.\<close>

definition agree_on :: "aspect \<Rightarrow> zenv \<Rightarrow> zenv \<Rightarrow> bool" where
  "agree_on calls e e' = list_all (same_value e e') calls"

lemma agree_on_simps [simp]:
  "agree_on [] e e'"
  "agree_on (c # cs) e e' \<longleftrightarrow> same_value e e' c \<and> agree_on cs e e'"
  "agree_on (xs @ ys) e e' \<longleftrightarrow> agree_on xs e e' \<and> agree_on ys e e'"
  by (simp_all add: agree_on_def)

lemma amqp_Details_agree: "agree_on (amqp_Apply name) e e' \<Longrightarrow> amqp_Details name e = amqp_Details name e'"
  by (simp add: amqp_Apply_def amqp_Details_def)

section \<open>Names\<close>

lemma format_options:
  "redis_host n = (''redis-'' @ n) @ CHR ''-'' # ''host''" "redis_port n = (''redis-'' @ n) @ CHR ''-'' # ''port''"
  "mysql_host n = (''mysql-'' @ n) @ CHR ''-'' # ''host''" "mysql_port n = (''mysql-'' @ n) @ CHR ''-'' # ''port''"
  "mysql_user n = (''mysql-'' @ n) @ CHR ''-'' # ''user''" "mysql_pass n = (''mysql-'' @ n) @ CHR ''-'' # ''pass''"
  "mysql_database n = (''mysql-'' @ n) @ CHR ''-'' # ''database''" "mysql_debug n = (''mysql-'' @ n) @ CHR ''-'' # ''debug''"
  "amqp_host n = (''amqp-'' @ n) @ CHR ''-'' # ''host''" "amqp_port n = (''amqp-'' @ n) @ CHR ''-'' # ''port''"
  "amqp_user n = (''amqp-'' @ n) @ CHR ''-'' # ''user''" "amqp_pass n = (''amqp-'' @ n) @ CHR ''-'' # ''pass''"
  "amqp_vhost n = (''amqp-'' @ n) @ CHR ''-'' # ''vhost''"
  by (simp_all add: redis_host_def redis_port_def mysql_options amqp_options has_prefix_def)

lemma format_opts:
  "timescale_opt n x = (''timescaledb-'' @ n) @ CHR ''-'' # x"
  "influx_opt n x = (''influxdb-'' @ n) @ CHR ''-'' # x"
  by (simp_all add: timescale_opt_def influx_opt_def has_prefix_def)

datatype service = Redis | MySQL | AMQP | TimescaleDB | InfluxDB

fun service_Apply :: "service \<Rightarrow> string \<Rightarrow> aspect" where
  "service_Apply Redis = redis_Apply"
| "service_Apply MySQL = mysql_Apply"
| "service_Apply AMQP = amqp_Apply"
| "service_Apply TimescaleDB = timescale_Apply"
| "service_Apply InfluxDB = influx_Apply"

definition service_options :: "service \<Rightarrow> string \<Rightarrow> string list" where
  "service_options s name = map call_name (service_Apply s name)"

fun service_name :: "service \<Rightarrow> string" where
  "service_name Redis = ''redis''"
| "service_name MySQL = ''mysql''"
| "service_name AMQP = ''amqp''"
| "service_name TimescaleDB = ''timescaledb''"
| "service_name InfluxDB = ''influxdb''"

fun service_opts :: "service \<Rightarrow> string list" where
  "service_opts Redis = [''host'', ''port'']"
| "service_opts MySQL = [''host'', ''user'', ''pass'', ''database'', ''port'', ''debug'']"
| "service_opts AMQP = [''host'', ''user'', ''pass'', ''vhost'', ''port'']"
| "service_opts TimescaleDB = [''scheme'', ''host'', ''port'', ''database'', ''user'', ''password'', ''sslmode'']"
| "service_opts InfluxDB = [''scheme'', ''host'', ''port'', ''org'', ''bucket'', ''user'', ''token'']"

lemma service_options_eq:
  "service_options s name = map (\<lambda>x. (service_name s @ ''-'' @ name) @ CHR ''-'' # x) (service_opts s)"
  by (cases s) (simp_all add: service_options_def redis_Apply_def mysql_Apply_def amqp_Apply_def timescale_Apply_def
      influx_Apply_def format_options format_opts)

lemma service_opts_plain: "x \<in> set (service_opts s) \<Longrightarrow> CHR ''-'' \<notin> set x"
  by (cases s) auto

lemma service_name_inj: "service_name s @ CHR ''-'' # a = service_name s' @ CHR ''-'' # b \<Longrightarrow> s = s' \<and> a = b"
  by (subst (asm) sep_unique_left) (cases s; cases s'; simp)+

lemma service_option_inj:
  assumes "o1 \<in> set (service_options s a)" "o1 \<in> set (service_options s' b)"
  shows "s = s' \<and> a = b"
proof -
  obtain x y where x: "x \<in> set (service_opts s)" "y \<in> set (service_opts s')"
    and eq: "(service_name s @ ''-'' @ a) @ CHR ''-'' # x = (service_name s' @ ''-'' @ b) @ CHR ''-'' # y"
    using assms unfolding service_options_eq by auto
  from eq have "service_name s @ ''-'' @ a = service_name s' @ ''-'' @ b"
    unfolding sep_unique_right [OF service_opts_plain [OF x(1)] service_opts_plain [OF x(2)]] by simp
  then show ?thesis using service_name_inj by simp
qed

lemma service_options_distinct: "distinct (service_options s a)"
  by (cases s) (simp_all add: service_options_eq)

text \<open>The exception is the option of a direct consumer, which has no name in it: a command with two consumers declares it
  twice.\<close>

lemma consumers_share_an_option:
  "call_name (last (consumer_Apply a)) = call_name (last (consumer_Apply b))"
  by (simp add: consumer_Apply_def)

section \<open>Defaults\<close>

fun default_value :: "config_call \<Rightarrow> flag_value" where
  "default_value (AddBool n) = FBool False"
| "default_value (AddInt n d) = FInt (case d of None \<Rightarrow> 0 | Some i \<Rightarrow> i)"
| "default_value (AddString n d) = FString (case d of None \<Rightarrow> [] | Some s \<Rightarrow> s)"

text \<open>The context in which a command runs when it has the flags of these calls and nothing was given for any of them: the
  library's value of an option is the flag's.\<close>

definition default_context :: "(string \<Rightarrow> string) \<Rightarrow> aspect \<Rightarrow> cli_context" where
  "default_context env calls =
     \<lparr>cx_command = ''run'', cx_lineage = [Some (map (flag_of_call env) calls)], cx_app_flags = None,
      cx_names = (\<lambda>f. [fl_name f]),
      cx_value = (\<lambda>n. map_option fl_value (List.find (\<lambda>f. fl_name f = n) (map (flag_of_call env) calls))),
      cx_isset = (\<lambda>n. False)\<rparr>"

definition cast_int :: "flag_value option \<Rightarrow> int option" where
  "cast_int v = (case v of Some (FInt i) \<Rightarrow> Some i | _ \<Rightarrow> None)"

lemma flag_of_call [simp]:
  "fl_name (flag_of_call env c) = call_name c"
  "fl_value (flag_of_call env c) = default_value c"
  by (cases c; simp add: newBoolFlag_def newIntFlag_def newStringFlag_def IntFlag_Default_def StringFlag_Default_def
      split: option.split)+

lemma first_named_call:
  "distinct (map call_name calls) \<Longrightarrow> c \<in> set calls \<Longrightarrow>
    first_named (\<lambda>f. [fl_name f]) (call_name c) (map (flag_of_call env) calls) = Some (flag_of_call env c)"
  by (induction calls) (auto, metis imageI)

lemma find_call:
  "distinct (map call_name calls) \<Longrightarrow> c \<in> set calls \<Longrightarrow>
    List.find (\<lambda>f. fl_name f = call_name c) (map (flag_of_call env) calls) = Some (flag_of_call env c)"
proof (induction calls)
  case (Cons a calls)
  show ?case
  proof (cases "c = a")
    case False
    then have "c \<in> set calls" "call_name a \<noteq> call_name c" "distinct (map call_name calls)"
      using Cons.prems by (auto simp: image_iff)
    then show ?thesis using Cons.IH by simp
  qed simp
qed simp

lemma default_string:
  assumes "distinct (map call_name calls)" "AddString n (Some s) \<in> set calls"
  shows "ze_String (env_of cast_int sprint (default_context env calls)) n = s"
  using first_named_call [OF assms, of env] find_call [OF assms, of env]
  by (simp add: env_of_def env_String_def env_flag_def default_context_def newStringFlag_def StringFlag_Default_def)

lemma default_int:
  assumes "distinct (map call_name calls)" "AddInt n (Some i) \<in> set calls"
  shows "ze_Int (env_of cast_int sprint (default_context env calls)) n = i"
  using find_call [OF assms, of env]
  by (simp add: env_of_def env_Int_def default_context_def cast_int_def IntFlag_Default_def)

lemma default_bool: "\<not> ze_Bool (env_of cast_int sprint (default_context env calls)) n"
  by (simp add: env_of_def env_Bool_def default_context_def split: option.split)

text \<open>The level a program hands to its log aspect is never reached by default: without a flag the level is info.\<close>

lemma default_log_level:
  "LogLevel level (env_of cast_int sprint (default_context env logcmd_Apply)) = LevelInfo"
proof -
  have "ze_String (env_of cast_int sprint (default_context env logcmd_Apply)) ''log-level'' = ''info''"
    by (rule default_string) (simp_all add: logcmd_Apply_def)
  moreover have "to_lower ''info'' = ''info''" by code_simp
  ultimately show ?thesis by (simp add: LogLevel_def)
qed

lemma default_listen:
  "ListenAddr prefix (env_of cast_int sprint (default_context env (Listen_Apply prefix))) = ''0.0.0.0:5000''"
proof -
  have d: "distinct (map call_name (Listen_Apply prefix))" by (simp add: Listen_Apply_def aspect_Prefix_def)
  have "ListenIP prefix (env_of cast_int sprint (default_context env (Listen_Apply prefix))) = ''0.0.0.0''"
    unfolding ListenIP_def by (rule default_string [OF d]) (simp add: Listen_Apply_def)
  moreover have "ListenPort prefix (env_of cast_int sprint (default_context env (Listen_Apply prefix))) = 5000"
    unfolding ListenPort_def by (rule default_int [OF d]) (simp add: Listen_Apply_def)
  ultimately show ?thesis by (simp add: ListenAddr_def host_port_def int_str_def nat_str.simps) code_simp
qed

section \<open>Addresses\<close>

lemma not_escaped:
  "CHR '':'' \<notin> set (url_escape ''$&+,;='' s)" "CHR ''@'' \<notin> set (url_escape ''$&+,;='' s)"
  "CHR ''/'' \<notin> set (url_escape ([CHR 0x27, CHR 0x22] @ ''!$&()*+,;=:[]<>'') s)"
  using url_escape_chars [of "CHR '':''" "''$&+,;=''" s] url_escape_chars [of "CHR ''@''" "''$&+,;=''" s]
    url_escape_chars [of "CHR ''/''" "[CHR 0x27, CHR 0x22] @ ''!$&()*+,;=:[]<>''" s]
  by (auto simp: is_alnum_def is_digit_def)

lemma int_str_no_colon: "CHR '':'' \<notin> set (int_str i)"
  using nat_str_digits [of "CHR '':''"] by (auto simp: int_str_def is_digit_def)

lemma int_str_inj: "int_str i = int_str j \<Longrightarrow> i = j"
proof -
  assume eq: "int_str i = int_str j"
  have n: "nat_str m \<noteq> CHR ''-'' # x" for m x using nat_str_hd by blast
  have inj: "nat_str m = nat_str k \<Longrightarrow> m = k" for m k by (metis option.inject parse_nat_str)
  show ?thesis
  proof (cases "i < 0"; cases "j < 0")
    assume "i < 0" "j < 0"
    then show ?thesis using eq inj [of "nat (- i)" "nat (- j)"] by (simp add: int_str_def)
  next
    assume "\<not> i < 0" "\<not> j < 0"
    then show ?thesis using eq inj [of "nat i" "nat j"] by (simp add: int_str_def)
  next
    assume "i < 0" "\<not> j < 0"
    then show ?thesis using eq n [of "nat j" "nat_str (nat (- i))"] by (simp add: int_str_def)
  next
    assume "\<not> i < 0" "j < 0"
    then show ?thesis using eq n [of "nat i" "nat_str (nat (- j))"] by (simp add: int_str_def)
  qed
qed

text \<open>The path of the address: nothing for no virtual host, an escaped slash for the default one.\<close>

definition vhost_path :: "string \<Rightarrow> string" where
  "vhost_path v = (if v = ''/'' then ''/%2F'' else if v \<noteq> [] then url_escape ''$&+,/:;=@'' (CHR ''/'' # v) else [])"

lemma slash_kept: "url_escape ''$&+,/:;=@'' (CHR ''/'' # v) = CHR ''/'' # url_escape ''$&+,/:;=@'' v"
  by (simp add: url_escape_def)

lemma never_escaped_slash: "url_escape ''$&+,/:;=@'' v \<noteq> ''%2F''"
proof
  assume eq: "url_escape ''$&+,/:;=@'' v = ''%2F''"
  then obtain c w where v: "v = c # w" by (cases v) simp_all
  show False
  proof (cases "is_alnum c \<or> c \<in> set ''-_.~'' \<or> c \<in> set ''$&+,/:;=@''")
    case True
    then have "c = CHR ''%''" using eq by (simp add: v url_escape_def)
    then show False using True percent_escaped by auto
  next
    case False
    have h: "hex_digit 2 = CHR ''2''" "hex_digit 15 = CHR ''F''" by code_simp+
    have "hex_digit (of_char c div 16) = hex_digit 2 \<and> hex_digit (of_char c mod 16) = hex_digit 15"
      using eq False h by (simp add: v url_escape_def)
    moreover have "(of_char c :: nat) div 16 < 16" by (rule char_div16)
    ultimately have "(of_char c :: nat) div 16 = 2" "(of_char c :: nat) mod 16 = 15"
      using hex_digit_inj [of "of_char c div 16" 2] hex_digit_inj [of "of_char c mod 16" 15] by auto
    then have "c = CHR ''/''" by (intro char_hex) simp_all
    then show False using False by simp
  qed
qed

lemma vhost_path_inj: "vhost_path v = vhost_path w \<Longrightarrow> v = w"
  using url_escape_inj [of "''$&+,/:;=@''" v w] never_escaped_slash [of v] never_escaped_slash [of w]
  by (auto simp: vhost_path_def slash_kept split: if_splits)

lemma vhost_path_cases: "vhost_path v = [] \<or> (\<exists>x. vhost_path v = CHR ''/'' # x)"
  by (simp add: vhost_path_def slash_kept)

lemma before_slash:
  assumes "CHR ''/'' \<notin> set a" "CHR ''/'' \<notin> set b" "a @ vhost_path v = b @ vhost_path w"
  shows "a = b \<and> vhost_path v = vhost_path w"
  using assms vhost_path_cases [of v] vhost_path_cases [of w] sep_unique_left [OF assms(1,2)]
  by (elim disjE exE) auto

text \<open>Different connection details have different addresses, whatever characters user, password and virtual host hold: the
  address says all there is to know about a connection.\<close>

theorem connection_URI_inj: "connection_URI d = connection_URI d' \<longleftrightarrow> d = d'"
proof
  let ?keepU = "''$&+,;=''" and ?keepH = "[CHR 0x27, CHR 0x22] @ ''!$&()*+,;=:[]<>''"
  let ?H = "\<lambda>d. url_escape ?keepH (cd_host d @ '':'' @ int_str (cd_port d))"
  have uri: "connection_URI d = ''amqp://'' @ url_escape ?keepU (cd_user d) @ CHR '':'' # url_escape ?keepU (cd_pass d) @
      CHR ''@'' # ?H d @ vhost_path (cd_vhost d)" for d
    by (simp add: connection_URI_def vhost_path_def Let_def)
  assume "connection_URI d = connection_URI d'"
  then have "url_escape ?keepU (cd_user d) @ CHR '':'' # url_escape ?keepU (cd_pass d) @ CHR ''@'' # ?H d @ vhost_path (cd_vhost d) =
      url_escape ?keepU (cd_user d') @ CHR '':'' # url_escape ?keepU (cd_pass d') @ CHR ''@'' # ?H d' @ vhost_path (cd_vhost d')"
    unfolding uri by (rule same_append_eq [THEN iffD1])
  then have u: "url_escape ?keepU (cd_user d) = url_escape ?keepU (cd_user d')"
    and rest: "url_escape ?keepU (cd_pass d) @ CHR ''@'' # ?H d @ vhost_path (cd_vhost d) =
      url_escape ?keepU (cd_pass d') @ CHR ''@'' # ?H d' @ vhost_path (cd_vhost d')"
    by (simp_all only: sep_unique_left [OF not_escaped(1) not_escaped(1)])
  from rest have p: "url_escape ?keepU (cd_pass d) = url_escape ?keepU (cd_pass d')"
    and rest': "?H d @ vhost_path (cd_vhost d) = ?H d' @ vhost_path (cd_vhost d')"
    by (simp_all only: sep_unique_left [OF not_escaped(2) not_escaped(2)])
  note h = before_slash [OF not_escaped(3) not_escaped(3) rest']
  have "cd_host d @ CHR '':'' # int_str (cd_port d) = cd_host d' @ CHR '':'' # int_str (cd_port d')"
    using url_escape_inj [of ?keepH] h by simp
  then have "cd_host d = cd_host d'" "cd_port d = cd_port d'"
    using int_str_inj by (simp_all add: sep_unique_right [OF int_str_no_colon int_str_no_colon])
  moreover have "cd_user d = cd_user d'" "cd_pass d = cd_pass d'" using url_escape_inj [of ?keepU] u p by simp_all
  moreover have "cd_vhost d = cd_vhost d'" using vhost_path_inj h by blast
  ultimately show "d = d'" by (cases d; cases d') simp
qed simp

section \<open>Properties\<close>

text \<open>The map of options may be visited in any order: the text of the connection is the same, its keys being sorted.\<close>

lemma params_of_options:
  "map_of (foldl (\<lambda>p (k, v). map_put k [f v] p) p opts) n =
    (case map_of (rev opts) n of Some v \<Rightarrow> Some [f v] | None \<Rightarrow> map_of p n)"
  by (induction opts arbitrary: p) (auto simp: map_add_def split: option.splits)

lemma map_wf_params: "map_wf p \<Longrightarrow> map_wf (foldl (\<lambda>p (k, v). map_put k [f v] p) p opts)"
  by (induction opts arbitrary: p) auto

lemma values_encode_cong:
  assumes "map_wf p" "map_wf q" "map_of p = map_of q"
  shows "values_encode p = values_encode q"
proof -
  have "set (map fst p) = set (map fst q)" using assms(3) by (metis dom_map_of_conv_image_fst list.set_map)
  then have "sort (map fst p) = sort (map fst q)"
    using assms(1,2) by (simp add: map_wf_def sorted_distinct_set_unique)
  then show ?thesis using assms(3) by (simp add: values_encode_def)
qed

text \<open>The text of a SQLite connection does not depend on the order in which Go visits the map of options: its keys are
  sorted when they are encoded.\<close>

theorem connectionString_order:
  assumes "mset opts = mset opts'" "map_wf opts"
  shows "FileConnectionString sprint path (Some opts) = FileConnectionString sprint path (Some opts')"
proof -
  have wf: "map_wf opts'" using assms mset_eq_imp_distinct_iff [of "map fst opts" "map fst opts'"]
    by (simp add: map_wf_def)
  have "map_of opts = map_of opts'"
    using assms wf mset_eq_setD [OF assms(1)] by (simp add: map_wf_def map_of_inject_set)
  then have "map_of (foldl (\<lambda>p (k, v). map_put k [sprint v] p) [] opts) =
      map_of (foldl (\<lambda>p (k, v). map_put k [sprint v] p) [] opts')"
    using map_of_rev_wf [OF assms(2)] map_of_rev_wf [OF wf] by (auto simp: params_of_options)
  from values_encode_cong [OF map_wf_params map_wf_params this] show ?thesis
    by (simp add: FileConnectionString_def sqlite3_connectionString_def)
qed

text \<open>What a client reads is what its aspect declares, as the kind it declares it with: environments that agree on the
  declared options give the same settings, for every service and for every way of using it.\<close>

theorem clients_read_their_options:
  "(agree_on (redis_Apply name) e e' \<longrightarrow> redis_Client name e = redis_Client name e') \<and>
   (agree_on (mysql_Apply name) e e' \<longrightarrow>
      mysql_Connection sprint dsn open_db logger showv name e opts = mysql_Connection sprint dsn open_db logger showv name e' opts) \<and>
   (agree_on (publisher_Apply name) e e' \<longrightarrow> aspect_Publisher al am name e = aspect_Publisher al am name e') \<and>
   (agree_on (consumer_Apply name) e e' \<longrightarrow> aspect_Consumer am name e = aspect_Consumer am name e') \<and>
   (agree_on (timescale_Apply name) e e' \<longrightarrow> timescale_Client open_ts ping name e = timescale_Client open_ts ping name e') \<and>
   (agree_on (influx_Apply name) e e' \<longrightarrow> influx_Client new_client defs name e io = influx_Client new_client defs name e' io) \<and>
   (agree_on logcmd_Apply e e' \<longrightarrow> LogLevel level e = LogLevel level e' \<and> LogFormat e = LogFormat e') \<and>
   (agree_on statscmd_Apply e e' \<longrightarrow> stats_Configure unmarshal e = stats_Configure unmarshal e') \<and>
   (agree_on statsd_Apply e e' \<longrightarrow> statsd_Client new_statsd e = statsd_Client new_statsd e') \<and>
   (agree_on (Listen_Apply name) e e' \<longrightarrow> ListenAddr name e = ListenAddr name e')"
proof (intro conjI impI)
  show "redis_Client name e = redis_Client name e'" if "agree_on (redis_Apply name) e e'"
    using that by (simp add: redis_Apply_def redis_Client_def)
  show "mysql_Connection sprint dsn open_db logger showv name e opts = mysql_Connection sprint dsn open_db logger showv name e' opts"
    if "agree_on (mysql_Apply name) e e'"
    using that by (simp add: mysql_Apply_def mysql_Connection_def)
  show "aspect_Publisher al am name e = aspect_Publisher al am name e'" if "agree_on (publisher_Apply name) e e'"
    using amqp_Details_agree that by (simp add: publisher_Apply_def aspect_Publisher_def)
  show "aspect_Consumer am name e = aspect_Consumer am name e'" if "agree_on (consumer_Apply name) e e'"
    using amqp_Details_agree [of name e e'] that by (intro ext) (simp add: consumer_Apply_def aspect_Consumer_def amqp_Connection_def)
  show "timescale_Client open_ts ping name e = timescale_Client open_ts ping name e'" if "agree_on (timescale_Apply name) e e'"
  proof -
    have "timescale_URL name e = timescale_URL name e'"
      using that by (simp add: timescale_Apply_def timescale_URL_def Let_def)
    then show ?thesis using that by (simp add: timescale_Apply_def timescale_Client_def cong: sum.case_cong)
  qed
  show "influx_Client new_client defs name e io = influx_Client new_client defs name e' io" if "agree_on (influx_Apply name) e e'"
    using that by (simp add: influx_Apply_def influx_Client_def influx_URL_def)
  show "LogLevel level e = LogLevel level e'" "LogFormat e = LogFormat e'" if "agree_on logcmd_Apply e e'"
    using that by (simp_all add: logcmd_Apply_def LogLevel_def LogFormat_def)
  show "stats_Configure unmarshal e = stats_Configure unmarshal e'" if "agree_on statscmd_Apply e e'"
    using that by (intro ext) (simp add: statscmd_Apply_def stats_Configure_def)
  show "statsd_Client new_statsd e = statsd_Client new_statsd e'" if "agree_on statsd_Apply e e'"
    using that by (simp add: statsd_Apply_def statsd_Client_def)
  show "ListenAddr name e = ListenAddr name e'" if "agree_on (Listen_Apply name) e e'"
    using that by (simp add: Listen_Apply_def ListenAddr_def ListenIP_def ListenPort_def)
qed

text \<open>A redis client reads two options: the address it is given is theirs, whatever else the environment says.\<close>

theorem clients_read_their_options_witness:
  "redis_Client ''cache'' \<lparr>ze_String = (\<lambda>n. if n = ''redis-cache-host'' then ''r1'' else ''x''),
       ze_Int = (\<lambda>n. if n = ''redis-cache-port'' then 7 else 0), ze_Bool = (\<lambda>_. False)\<rparr> =
   redis_Client ''cache'' \<lparr>ze_String = (\<lambda>n. if n = ''redis-cache-host'' then ''r1'' else ''y''),
       ze_Int = (\<lambda>n. if n = ''redis-cache-port'' then 7 else 1), ze_Bool = (\<lambda>_. True)\<rparr>"
proof -
  let ?e = "\<lparr>ze_String = (\<lambda>n. if n = ''redis-cache-host'' then ''r1'' else ''x''),
       ze_Int = (\<lambda>n. if n = ''redis-cache-port'' then 7 else 0), ze_Bool = (\<lambda>_. False)\<rparr>"
  let ?e' = "\<lparr>ze_String = (\<lambda>n. if n = ''redis-cache-host'' then ''r1'' else ''y''),
       ze_Int = (\<lambda>n. if n = ''redis-cache-port'' then 7 else 1), ze_Bool = (\<lambda>_. True)\<rparr>"
  have "agree_on (redis_Apply ''cache'') ?e ?e'" by (simp add: redis_Apply_def format_options)
  with clients_read_their_options [THEN conjunct1] show ?thesis by (rule mp)
qed

end
