(* ===== verification/Zhttpclient.thy ===== *)
theory Zhttpclient
  imports Zote_Prelude
begin

text \<open>
  Package \<^verbatim>\<open>go/zhttpclient\<close>: the options of a client and the transport it gets. Durations are nanoseconds. The standard
  library's dialers are arguments: what a dialer does with its limits, and what is left of the default transport
  it is cloned from. A dial changes a world \<open>'w\<close> and gives a connection.
\<close>

definition go_second :: int where "go_second = 1000000000"

record http_timeouts =
  ht_expectContinue :: int
  ht_responseHeader :: int

record network_timeouts =
  nt_connection :: int
  nt_tls :: int

record client_timeouts =
  ct_timeLimit :: int
  ct_http :: http_timeouts
  ct_network :: network_timeouts

record 't client_options =
  co_secureOnly :: bool
  co_timeouts :: client_timeouts
  co_tls :: 't

text \<open>\<open>tls13\<close> is a \<^verbatim>\<open>tls.Config\<close> with the minimal version set to TLS 1.3 and nothing else.\<close>

definition DefaultOptions :: "'t \<Rightarrow> 't client_options" where
  "DefaultOptions tls13 =
     \<lparr>co_secureOnly = True,
      co_timeouts = \<lparr>ct_timeLimit = 60 * go_second,
        ct_http = \<lparr>ht_expectContinue = 5 * go_second, ht_responseHeader = 0\<rparr>,
        ct_network = \<lparr>nt_connection = 5 * go_second, nt_tls = 5 * go_second\<rparr>\<rparr>,
      co_tls = tls13\<rparr>"

record net_dialer =
  nd_timeout :: int
  nd_keepAlive :: int

type_synonym ('w, 'n) dial = "string \<Rightarrow> string \<Rightarrow> 'w \<Rightarrow> 'w \<times> 'n res"

record ('b, 'w, 'n) transport =
  tr_base :: 'b
  tr_maxIdleConns :: nat
  tr_maxConnsPerHost :: nat
  tr_maxIdleConnsPerHost :: nat
  tr_idleConnTimeout :: int
  tr_dial :: "('w, 'n) dial"
  tr_dialTLS :: "('w, 'n) dial"
  tr_tlsHandshakeTimeout :: int
  tr_expectContinueTimeout :: int
  tr_responseHeaderTimeout :: int

record ('b, 'w, 'n) http_client =
  hc_timeout :: int
  hc_transport :: "('b, 'w, 'n) transport"

definition http_New ::
  "(net_dialer \<Rightarrow> ('w, 'n) dial) \<Rightarrow> (net_dialer \<Rightarrow> 't \<Rightarrow> ('w, 'n) dial) \<Rightarrow> 'b \<Rightarrow> 't client_options \<Rightarrow> ('b, 'w, 'n) http_client" where
  "http_New dial dialTLS default_transport options =
     (let netDialer = \<lparr>nd_timeout = nt_connection (ct_network (co_timeouts options)), nd_keepAlive = 2500000000\<rparr>;
          t = \<lparr>tr_base = default_transport, tr_maxIdleConns = 100, tr_maxConnsPerHost = 100, tr_maxIdleConnsPerHost = 100,
               tr_idleConnTimeout = 60 * go_second,
               tr_dial = (if co_secureOnly options
                          then (\<lambda>network addr w. (w, Inl (Errorf ''insecure http requests are disabled, please use https'')))
                          else dial netDialer),
               tr_dialTLS = dialTLS netDialer (co_tls options),
               tr_tlsHandshakeTimeout = nt_tls (ct_network (co_timeouts options)),
               tr_expectContinueTimeout = ht_expectContinue (ct_http (co_timeouts options)),
               tr_responseHeaderTimeout = ht_responseHeader (ct_http (co_timeouts options))\<rparr>
      in \<lparr>hc_timeout = ct_timeLimit (co_timeouts options), hc_transport = t\<rparr>)"

text \<open>The connection a transport opens for a request, as \<^verbatim>\<open>net/http\<close> documents it: the dialer for TLS when the scheme is
  https, the plain one otherwise.\<close>

definition request_dial :: "('b, 'w, 'n) transport \<Rightarrow> string \<Rightarrow> string \<Rightarrow> 'w \<Rightarrow> 'w \<times> 'n res" where
  "request_dial t scheme addr = (if scheme = ''https'' then tr_dialTLS t ''tcp'' addr else tr_dial t ''tcp'' addr)"

text \<open>A client made from the default options never opens a plain connection: such a request fails before anything is sent,
  and every connection it does open is made by the dialer for TLS with the options' configuration.\<close>

lemma secure_only:
  assumes "request_dial (hc_transport (http_New dial dialTLS base (DefaultOptions tls13))) scheme addr w = (w', Inr c)"
  shows "scheme = ''https'' \<and>
    dialTLS \<lparr>nd_timeout = 5 * go_second, nd_keepAlive = 2500000000\<rparr> tls13 ''tcp'' addr w = (w', Inr c)"
  using assms by (auto simp: request_dial_def http_New_def DefaultOptions_def Let_def split: if_splits)

lemma plain_request_touches_nothing:
  assumes "co_secureOnly options" "scheme \<noteq> ''https''"
  shows "fst (request_dial (hc_transport (http_New dial dialTLS base options)) scheme addr w) = w"
  using assms by (simp add: request_dial_def http_New_def Let_def)

text \<open>The limit of a TLS handshake is no setting of a connection that is made: the dialer for TLS is made of the
  connection's limit alone.\<close>

lemma handshake_limit_has_no_effect:
  "request_dial (hc_transport (http_New dial dialTLS base
     (options\<lparr>co_timeouts := (co_timeouts options)\<lparr>ct_network := (ct_network (co_timeouts options))\<lparr>nt_tls := x\<rparr>\<rparr>\<rparr>))) scheme =
   request_dial (hc_transport (http_New dial dialTLS base options)) scheme"
  by (intro ext) (simp add: request_dial_def http_New_def Let_def)

end
