(* ===== verification/Zormtest_Suite.thy ===== *)
theory Zormtest_Suite
  imports Zormsql_Repo Zormtest_Models "HOL-Library.List_Lexorder"
begin

text \<open>
  The suite of \<^verbatim>\<open>go/zorm/zormtest\<close> that every repository of \<^verbatim>\<open>zorm\<close> has to pass, and the generic functions of
  \<^verbatim>\<open>zorm.go\<close> it goes through. The interface \<^verbatim>\<open>Queryer\<close> is the record of its operations over a world \<open>'w\<close>, which
  return the caller's slice as they leave it. A scenario is a predicate of the world its setup gives: a test passes
  when no assertion fails and nothing panics, so a failed assertion, fatal or not, and a nil pointer that is followed
  make it false. Logging is left out.
\<close>

section \<open>The repository as its callers see it\<close>

record 'w orm_queryer =
  qr_Find :: "gotype option \<Rightarrow> gval list \<Rightarrow> nat \<Rightarrow> find_options \<Rightarrow> 'w \<Rightarrow> 'w \<times> gval list \<times> unit res"
  qr_Get :: "gotype option \<Rightarrow> gval list \<Rightarrow> include_opts \<Rightarrow> 'w \<Rightarrow> 'w \<times> gval list \<times> unit res"
  qr_Put :: "gotype option \<Rightarrow> gval list \<Rightarrow> put_options \<Rightarrow> 'w \<Rightarrow> 'w \<times> gval list \<times> unit res"
  qr_Delete :: "gotype option \<Rightarrow> gval list \<Rightarrow> include_opts \<Rightarrow> 'w \<Rightarrow> 'w \<times> gval list \<times> unit res"

text \<open>\<open>T\<close> is the type argument; a slice made for \<^verbatim>\<open>Find\<close> has its elements and its capacity.\<close>

definition zorm_Get :: "'w orm_queryer \<Rightarrow> gotype \<Rightarrow> gval list \<Rightarrow> include_opts \<Rightarrow> 'w \<Rightarrow> 'w \<times> gval list \<times> unit res" where
  "zorm_Get r T objs opts = qr_Get r (Some (TSlice (TPtr T))) objs opts"

definition zorm_Find :: "'w orm_queryer \<Rightarrow> gotype \<Rightarrow> gval list \<Rightarrow> nat \<Rightarrow> find_options \<Rightarrow> 'w \<Rightarrow> 'w \<times> gval list \<times> unit res" where
  "zorm_Find r T objs capacity opts = qr_Find r (Some (TPtr (TSlice (TPtr T)))) objs capacity opts"

definition zorm_Put :: "'w orm_queryer \<Rightarrow> gotype \<Rightarrow> gval list \<Rightarrow> put_options \<Rightarrow> 'w \<Rightarrow> 'w \<times> gval list \<times> unit res" where
  "zorm_Put r T objs opts = qr_Put r (Some (TSlice (TPtr T))) objs opts"

definition zorm_Delete :: "'w orm_queryer \<Rightarrow> gotype \<Rightarrow> gval list \<Rightarrow> include_opts \<Rightarrow> 'w \<Rightarrow> 'w \<times> gval list \<times> unit res" where
  "zorm_Delete r T objs opts = qr_Delete r (Some (TSlice (TPtr T))) objs opts"

text \<open>The repository of \<^verbatim>\<open>zormsql\<close> over a database.\<close>

definition zormsql_queryer :: "'d repo_env \<Rightarrow> config \<Rightarrow> 'd orm_queryer" where
  "zormsql_queryer env cfg =
     \<lparr>qr_Find = (\<lambda>ty objs capacity opts db.
        case repo_Find (find_env_at env db) cfg ty objs capacity opts of Inl e \<Rightarrow> (db, objs, Inl e) | Inr objs' \<Rightarrow> (db, objs', Inr ())),
      qr_Get = (\<lambda>ty objs incl db. (db, repo_Get env cfg db ty objs incl)),
      qr_Put = (\<lambda>ty objs opts db. case repo_Put env cfg db ty objs opts of ((db', objs'), r) \<Rightarrow> (db', objs', r)),
      qr_Delete = (\<lambda>ty objs incl db. case repo_Delete env cfg db ty objs incl of ((db', objs'), r) \<Rightarrow> (db', objs', r))\<rparr>"

section \<open>Values and assertions\<close>

definition AccountT :: gotype where "AccountT = TStruct zormtest_pkg ''Account''"
definition UserT :: gotype where "UserT = TStruct zormtest_pkg ''User''"

text \<open>A composite literal: the fields that are given, the others zero.\<close>

definition lit :: "mapping \<Rightarrow> (string \<times> gval) list \<Rightarrow> gval" where
  "lit m fs = VPtr (foldl (\<lambda>v (f, x). struct_set v f x) (new_struct m) fs)"

definition fld :: "gval \<Rightarrow> string \<Rightarrow> gval" where
  "fld v f = (case v of VPtr u \<Rightarrow> (case struct_get u f of Some x \<Rightarrow> x | None \<Rightarrow> VNil) | _ \<Rightarrow> VNil)"

definition set_fld :: "gval \<Rightarrow> string \<Rightarrow> gval \<Rightarrow> gval" where
  "set_fld v f x = VPtr (struct_set (deref v) f x)"

definition elems :: "gval \<Rightarrow> string \<Rightarrow> gval list" where
  "elems v f = slice_elems (fld v f)"

definition text_of :: "gval \<Rightarrow> string" where
  "text_of v = (case v of VStr s \<Rightarrow> s | _ \<Rightarrow> [])"

definition no_error :: "unit res \<Rightarrow> bool" where
  "no_error r = (r = Inr ())"

definition error_is :: "unit res \<Rightarrow> error \<Rightarrow> bool" where
  "error_is r e = (case (r, e) of (Inl x, Sentinel n) \<Rightarrow> is_sentinel n x | _ \<Rightarrow> False)"

definition not_nil :: "gval \<Rightarrow> bool" where
  "not_nil v \<longleftrightarrow> v \<noteq> VNil \<and> v \<noteq> VNilPtr \<and> v \<noteq> VNilSlice"

text \<open>\<^verbatim>\<open>sort.SliceIsSorted\<close>\<close>

definition slice_is_sorted :: "('a \<Rightarrow> 'a \<Rightarrow> bool) \<Rightarrow> 'a list \<Rightarrow> bool" where
  "slice_is_sorted lt xs = list_all (\<lambda>i. \<not> lt (xs ! i) (xs ! (i - 1))) [1..<length xs]"

definition by_field :: "string \<Rightarrow> bool \<Rightarrow> gval \<Rightarrow> gval \<Rightarrow> bool" where
  "by_field f descending x y =
     (if descending then text_of (fld y f) < text_of (fld x f) else text_of (fld x f) < text_of (fld y f))"

definition rel :: "(string \<times> relation_opts) list \<Rightarrow> relation_opts" where
  "rel rels = RelationOpts (Include [] rels) None []"

definition find_opts :: "(string \<times> relation_opts) list \<Rightarrow> clause option \<Rightarrow> sort_by list \<Rightarrow> find_options" where
  "find_opts rels w srt = \<lparr>fo_include = Include [] rels, fo_sort = srt, fo_where = w, fo_offset = 0\<rparr>"

definition put_opts :: "include_opts \<Rightarrow> put_options" where
  "put_opts incl = \<lparr>po_include = incl, po_get = Include [] []\<rparr>"

definition no_include :: include_opts where
  "no_include = Include [] []"

subsection \<open>assert.go\<close>

definition expected_account :: "string \<Rightarrow> (string, string) gomap option" where
  "expected_account accountID =
     (if accountID = ''1'' then Some [(''Company'', ''Acme, Inc.''), (''ContactEmail'', ''contact@acme.example'')]
      else if accountID = ''2'' then Some [(''Company'', ''Dunder Mifflin''), (''ContactEmail'', ''contact@dundermifflin.example'')]
      else if accountID = ''3'' then Some [(''Company'', ''Explorers, LLC''), (''ContactEmail'', ''dora@explorers.test'')]
      else None)"

definition assertAccountFields :: "gval \<Rightarrow> gval \<Rightarrow> string list \<Rightarrow> bool" where
  "assertAccountFields accountID account fs \<longleftrightarrow>
     accountID = fld account ''ID'' \<and> not_nil (fld account ''Created'') \<and>
     (case expected_account (text_of accountID) of
        None \<Rightarrow> False
      | Some expected \<Rightarrow> list_all (\<lambda>f. VStr (case map_of expected f of Some x \<Rightarrow> x | None \<Rightarrow> []) = fld account f) fs)"

definition assertAccount :: "gval \<Rightarrow> gval \<Rightarrow> bool" where
  "assertAccount accountID account = assertAccountFields accountID account [''Company'', ''ContactEmail'']"

definition assertAddress :: "gval \<Rightarrow> bool" where
  "assertAddress address \<longleftrightarrow>
     not_nil (fld address ''Created'') \<and>
     (if fld address ''ID'' = VStr ''1''
      then fld address ''Street'' = VStr ''123 Loony Lane'' \<and> fld address ''City'' = VStr ''Acmeton'' \<and> fld address ''State'' = VStr ''RI''
      else if fld address ''ID'' = VStr ''2''
      then fld address ''Street'' = VStr ''1725 Slough Avenue'' \<and> fld address ''City'' = VStr ''Scranton'' \<and> fld address ''State'' = VStr ''PA''
      else False)"

definition assertUserAuth :: "gval \<Rightarrow> gval \<Rightarrow> bool" where
  "assertUserAuth userID auth \<longleftrightarrow>
     userID = fld auth ''UserID'' \<and> not_nil (fld auth ''Created'') \<and> userID = VStr ''1'' \<and>
     (if fld auth ''ID'' = VStr ''1'' then fld auth ''Provider'' = VStr ''password'' \<and> fld auth ''Data'' = VStr ''P@ssw0rd!''
      else if fld auth ''ID'' = VStr ''2''
      then fld auth ''Provider'' = VStr ''oauth2'' \<and> fld auth ''Data'' = VStr (CHR ''{'' # CHR 0x22 # ''token'' @ [CHR 0x22] @ '':'' @ [CHR 0x22] @ ''1234'' @ [CHR 0x22] @ ''}'')
      else False)"

section \<open>Delete (delete.go)\<close>

definition DeleteAccount :: "'w orm_queryer \<Rightarrow> 'w \<Rightarrow> bool" where
  "DeleteAccount r w =
     (case zorm_Delete r AccountT [lit AccountMapping [(''ID'', VStr ''1'')]] no_include w of
        (w1, _, e1) \<Rightarrow> no_error e1 \<and>
        (case zorm_Get r AccountT [lit AccountMapping [(''ID'', VStr ''1'')]] no_include w1 of
           (_, _, e2) \<Rightarrow> error_is e2 ErrNotFound))"

definition DeleteAccountByUniqueKey :: "'w orm_queryer \<Rightarrow> 'w \<Rightarrow> bool" where
  "DeleteAccountByUniqueKey r w =
     (case zorm_Delete r AccountT [lit AccountMapping [(''Company'', VStr ''Acme, Inc.'')]] no_include w of
        (w1, _, e1) \<Rightarrow> no_error e1 \<and>
        (case zorm_Get r AccountT [lit AccountMapping [(''ID'', VStr ''1'')]] no_include w1 of
           (_, _, e2) \<Rightarrow> error_is e2 ErrNotFound))"

definition DeleteAccountNotFound :: "'w orm_queryer \<Rightarrow> 'w \<Rightarrow> bool" where
  "DeleteAccountNotFound r w =
     (case zorm_Delete r AccountT [lit AccountMapping [(''ID'', VStr ''999'')]] no_include w of
        (_, _, e1) \<Rightarrow> error_is e1 ErrNotFound)"

definition DeleteMultipleUsers :: "'w orm_queryer \<Rightarrow> 'w \<Rightarrow> bool" where
  "DeleteMultipleUsers r w =
     (case zorm_Delete r UserT [lit UserMapping [(''ID'', VStr ''1'')], lit UserMapping [(''ID'', VStr ''2'')]] no_include w of
        (w1, _, e1) \<Rightarrow> no_error e1 \<and>
        (case zorm_Find r UserT [] 0
                (find_opts [] (Some (elem_In [elem_Field ''ID''] [[elem_Value (VStr ''1'')], [elem_Value (VStr ''2'')]])) []) w1 of
           (_, results, e2) \<Rightarrow> no_error e2 \<and> results = []))"

section \<open>Get (get.go)\<close>

definition GetAccount :: "'w orm_queryer \<Rightarrow> 'w \<Rightarrow> bool" where
  "GetAccount r w =
     (case zorm_Get r AccountT [lit AccountMapping [(''ID'', VStr ''1'')]] no_include w of
        (_, objs, e) \<Rightarrow> no_error e \<and> assertAccount (VStr ''1'') (objs ! 0))"

definition GetAccountFields :: "'w orm_queryer \<Rightarrow> 'w \<Rightarrow> bool" where
  "GetAccountFields r w =
     (case zorm_Get r AccountT [lit AccountMapping [(''ID'', VStr ''1'')]] (Include [''Company''] []) w of
        (_, objs, e) \<Rightarrow> no_error e \<and> assertAccountFields (VStr ''1'') (objs ! 0) [''Company''] \<and>
          fld (objs ! 0) ''Created'' = VTime 0)"

definition GetAccountByUniqueKey :: "'w orm_queryer \<Rightarrow> 'w \<Rightarrow> bool" where
  "GetAccountByUniqueKey r w =
     (case zorm_Get r AccountT [lit AccountMapping [(''Company'', VStr ''Acme, Inc.'')]] no_include w of
        (_, objs, e) \<Rightarrow> no_error e \<and> assertAccount (VStr ''1'') (objs ! 0))"

definition GetAccountByMixed :: "'w orm_queryer \<Rightarrow> 'w \<Rightarrow> bool" where
  "GetAccountByMixed r w =
     (case zorm_Get r AccountT
             [lit AccountMapping [(''Company'', VStr ''Acme, Inc.'')], lit AccountMapping [(''ID'', VStr ''2'')]] no_include w of
        (_, objs, e) \<Rightarrow> no_error e \<and> assertAccount (VStr ''1'') (objs ! 0) \<and> assertAccount (VStr ''2'') (objs ! 1))"

definition GetAccountNotFoundByUniqueKey :: "'w orm_queryer \<Rightarrow> 'w \<Rightarrow> bool" where
  "GetAccountNotFoundByUniqueKey r w =
     (case zorm_Get r AccountT [lit AccountMapping [(''Company'', VStr ''NonExistent Company'')]] no_include w of
        (_, _, e) \<Rightarrow> error_is e ErrNotFound)"

definition GetUser :: "'w orm_queryer \<Rightarrow> 'w \<Rightarrow> bool" where
  "GetUser r w =
     (case zorm_Get r UserT [lit UserMapping [(''ID'', VStr ''1'')]] no_include w of
        (_, objs, e) \<Rightarrow> no_error e \<and>
          fld (objs ! 0) ''ID'' = VStr ''1'' \<and> fld (objs ! 0) ''AccountID'' = VStr ''1'' \<and> not_nil (fld (objs ! 0) ''Created'') \<and>
          \<not> not_nil (fld (objs ! 0) ''Modified'') \<and> fld (objs ! 0) ''FirstName'' = VStr ''Daffy'')"

definition GetUserToOneRelation :: "'w orm_queryer \<Rightarrow> 'w \<Rightarrow> bool" where
  "GetUserToOneRelation r w =
     (case zorm_Get r UserT [lit UserMapping [(''ID'', VStr ''1'')]] (Include [] [(''Account'', rel [])]) w of
        (_, objs, e) \<Rightarrow> no_error e \<and> fld (objs ! 0) ''ID'' = VStr ''1'' \<and> not_nil (fld (objs ! 0) ''Account'') \<and>
          assertAccount (fld (objs ! 0) ''AccountID'') (fld (objs ! 0) ''Account''))"

definition GetUserMultipleToOneRelations :: "'w orm_queryer \<Rightarrow> 'w \<Rightarrow> bool" where
  "GetUserMultipleToOneRelations r w =
     (case zorm_Get r UserT [lit UserMapping [(''ID'', VStr ''2'')]] (Include [] [(''Account'', rel []), (''Address'', rel [])]) w of
        (_, objs, e) \<Rightarrow> no_error e \<and> fld (objs ! 0) ''ID'' = VStr ''2'' \<and>
          not_nil (fld (objs ! 0) ''Account'') \<and> assertAccount (VStr ''2'') (fld (objs ! 0) ''Account'') \<and>
          not_nil (fld (objs ! 0) ''Address'') \<and> assertAddress (fld (objs ! 0) ''Address''))"

definition GetUserToManyRelation :: "'w orm_queryer \<Rightarrow> 'w \<Rightarrow> bool" where
  "GetUserToManyRelation r w =
     (case zorm_Get r UserT [lit UserMapping [(''ID'', VStr ''1'')]]
             (Include [] [(''Auths'', RelationOpts no_include None [elem_Desc (elem_Field ''ID'')])]) w of
        (_, objs, e) \<Rightarrow> no_error e \<and> fld (objs ! 0) ''ID'' = VStr ''1'' \<and> not_nil (fld (objs ! 0) ''Auths'') \<and>
          length (elems (objs ! 0) ''Auths'') = 2 \<and> slice_is_sorted (by_field ''ID'' True) (elems (objs ! 0) ''Auths''))"

definition GetUserFilteredRelation :: "'w orm_queryer \<Rightarrow> 'w \<Rightarrow> bool" where
  "GetUserFilteredRelation r w =
     (case zorm_Get r UserT [lit UserMapping [(''ID'', VStr ''1'')]]
             (Include [] [(''Auths'', RelationOpts no_include
                (Some (elem_Eq (elem_Field ''Provider'') (elem_Value (VStr ''password'')))) [])]) w of
        (_, objs, e) \<Rightarrow> no_error e \<and> not_nil (fld (objs ! 0) ''Auths'') \<and> length (elems (objs ! 0) ''Auths'') = 1 \<and>
          assertUserAuth (fld (objs ! 0) ''ID'') (elems (objs ! 0) ''Auths'' ! 0))"

definition GetUserAllRelations :: "'w orm_queryer \<Rightarrow> 'w \<Rightarrow> bool" where
  "GetUserAllRelations r w =
     (case zorm_Get r UserT [lit UserMapping [(''ID'', VStr ''1'')]]
             (Include [] [(''Account'', rel []), (''Address'', rel []), (''Auths'', rel [])]) w of
        (_, objs, e) \<Rightarrow> no_error e \<and> fld (objs ! 0) ''ID'' = VStr ''1'' \<and>
          not_nil (fld (objs ! 0) ''Account'') \<and> assertAccount (fld (objs ! 0) ''AccountID'') (fld (objs ! 0) ''Account'') \<and>
          not_nil (fld (objs ! 0) ''Address'') \<and> assertAddress (fld (objs ! 0) ''Address'') \<and>
          not_nil (fld (objs ! 0) ''Auths'') \<and> length (elems (objs ! 0) ''Auths'') = 2 \<and>
          assertUserAuth (fld (objs ! 0) ''ID'') (elems (objs ! 0) ''Auths'' ! 0) \<and>
          assertUserAuth (fld (objs ! 0) ''ID'') (elems (objs ! 0) ''Auths'' ! 1))"

section \<open>Find (find.go)\<close>

definition FindAccounts :: "'w orm_queryer \<Rightarrow> 'w \<Rightarrow> bool" where
  "FindAccounts r w =
     (case zorm_Find r AccountT [] 2 (find_opts [] None []) w of
        (_, lst, e) \<Rightarrow> no_error e \<and> length lst = 2 \<and>
          fld (lst ! 0) ''ID'' = VStr ''1'' \<and> not_nil (fld (lst ! 0) ''Created'') \<and> not_nil (fld (lst ! 0) ''Modified'') \<and>
          fld (lst ! 0) ''Company'' = VStr ''Acme, Inc.'' \<and>
          fld (lst ! 1) ''ID'' = VStr ''2'' \<and> not_nil (fld (lst ! 1) ''Created'') \<and> \<not> not_nil (fld (lst ! 1) ''Modified'') \<and>
          fld (lst ! 1) ''Company'' = VStr ''Dunder Mifflin'')"

definition FindAccountsDeep :: "'w orm_queryer \<Rightarrow> 'w \<Rightarrow> bool" where
  "FindAccountsDeep r w =
     (case zorm_Find r AccountT [] 2
             (find_opts [(''Users'', rel [(''Account'', rel []), (''Address'', rel []), (''Auths'', rel [])])] None []) w of
        (_, lst, e) \<Rightarrow> no_error e \<and> length lst = 2)"

definition FindUsersWithNilRelation :: "'w orm_queryer \<Rightarrow> 'w \<Rightarrow> bool" where
  "FindUsersWithNilRelation r w =
     (case zorm_Find r UserT [] 10 (find_opts [(''Account'', rel []), (''Address'', rel [])] None []) w of
        (_, lst, e) \<Rightarrow> no_error e \<and> 2 \<le> length lst \<and>
          list_all (\<lambda>user. not_nil (fld user ''Account'') \<and> assertAccount (fld user ''AccountID'') (fld user ''Account'') \<and>
             (fld user ''Address'' = VNilPtr \<or> assertAddress (fld user ''Address''))) lst \<and>
          list_ex (\<lambda>user. fld user ''Address'' = VNilPtr) lst \<and> list_ex (\<lambda>user. fld user ''Address'' \<noteq> VNilPtr) lst)"

definition state_is_PA :: clause where
  "state_is_PA = elem_Eq (elem_Field ''Users.Address.State'') (elem_Value (VStr ''PA''))"

definition FindAccountsViaNestedRelation :: "'w orm_queryer \<Rightarrow> 'w \<Rightarrow> bool" where
  "FindAccountsViaNestedRelation r w =
     (case zorm_Find r AccountT [] 10 (find_opts [] (Some state_is_PA) []) w of
        (_, lst, e) \<Rightarrow> no_error e \<and> length lst = 1)"

text \<open>The smallest state of the users' addresses, empty when there is none.\<close>

definition getMinUserAddressState :: "gval \<Rightarrow> string" where
  "getMinUserAddressState account =
     foldl (\<lambda>minState user.
       let address = fld user ''Address''; state = text_of (fld address ''State'')
       in if address \<noteq> VNilPtr \<and> state \<noteq> [] then (if minState = [] \<or> state < minState then state else minState)
          else minState) [] (elems account ''Users'')"

definition FindAccountsSortedByNestedRelation :: "'w orm_queryer \<Rightarrow> 'w \<Rightarrow> bool" where
  "FindAccountsSortedByNestedRelation r w =
     (case zorm_Find r AccountT [] 10
             (find_opts [(''Users'', rel [(''Address'', rel [])])] None [elem_Asc (elem_Field ''Users.Address.State'')]) w of
        (_, lst, e) \<Rightarrow> no_error e \<and> 2 \<le> length lst \<and>
          list_all (\<lambda>i.
            let current = getMinUserAddressState (lst ! i); next_state = getMinUserAddressState (lst ! (i + 1))
            in current \<noteq> [] \<and> next_state \<noteq> [] \<longrightarrow> current \<le> next_state) [0..<length lst - 1])"

text \<open>\<^verbatim>\<open>user.Address.State\<close> follows the address of every user of the account.\<close>

definition FindAccountsViaNestedRelationWithInclude :: "'w orm_queryer \<Rightarrow> 'w \<Rightarrow> bool" where
  "FindAccountsViaNestedRelationWithInclude r w =
     (case zorm_Find r AccountT [] 10 (find_opts [(''Users'', rel [(''Address'', rel [])])] (Some state_is_PA) []) w of
        (_, lst, e) \<Rightarrow> no_error e \<and> length lst = 1 \<and>
          list_all (\<lambda>account. 1 \<le> length (elems account ''Users'') \<and>
            list_all (\<lambda>user. fld user ''Address'' \<noteq> VNilPtr) (elems account ''Users'') \<and>
            list_ex (\<lambda>user. fld (fld user ''Address'') ''State'' = VStr ''PA'') (elems account ''Users'')) lst)"

definition FindAccountsViaNestedRelationInMethod :: "'w orm_queryer \<Rightarrow> 'w \<Rightarrow> bool" where
  "FindAccountsViaNestedRelationInMethod r w =
     (case zorm_Find r AccountT [] 10
             (find_opts [] (Some (elem_Truthy (newContains (elem_Field ''Users.Address.State'') (elem_Value (VStr ''PA''))))) []) w of
        (_, lst, e) \<Rightarrow> no_error e \<and> length lst = 1)"

definition FindUserFilteredRelation :: "'w orm_queryer \<Rightarrow> 'w \<Rightarrow> bool" where
  "FindUserFilteredRelation r w =
     (case zorm_Find r UserT [] 10
             (find_opts [(''Auths'', RelationOpts no_include
                (Some (elem_Eq (elem_Field ''Provider'') (elem_Value (VStr ''password'')))) [])] None []) w of
        (_, lst, e) \<Rightarrow> no_error e \<and> 2 \<le> length lst \<and>
          list_all (\<lambda>user. list_all (\<lambda>auth. fld auth ''Provider'' = VStr ''password'') (elems user ''Auths'') \<and>
             (fld user ''ID'' = VStr ''1'' \<longrightarrow> length (elems user ''Auths'') = 1)) lst \<and>
          list_ex (\<lambda>user. fld user ''ID'' = VStr ''1'') lst)"

text \<open>The loops of the next two stop at the first user with the id they look for.\<close>

definition FindUserSortedRelation :: "'w orm_queryer \<Rightarrow> 'w \<Rightarrow> bool" where
  "FindUserSortedRelation r w =
     (case zorm_Find r UserT [] 10
             (find_opts [(''Auths'', RelationOpts no_include None [elem_Asc (elem_Field ''Provider'')])] None []) w of
        (_, lst, e) \<Rightarrow> no_error e \<and> 2 \<le> length lst \<and>
          (case List.find (\<lambda>user. fld user ''ID'' = VStr ''1'') lst of
             None \<Rightarrow> False
           | Some user \<Rightarrow> length (elems user ''Auths'') = 2 \<and> slice_is_sorted (by_field ''Provider'' False) (elems user ''Auths'')))"

definition FindUserFilteredAndSortedRelation :: "'w orm_queryer \<Rightarrow> 'w \<Rightarrow> bool" where
  "FindUserFilteredAndSortedRelation r w =
     (case zorm_Find r UserT [] 10
             (find_opts [(''Auths'', RelationOpts no_include
                (Some (elem_Truthy (newContains (elem_Field ''Provider'') (elem_Value (VStr ''pass'')))))
                [elem_Desc (elem_Field ''Provider'')])] None []) w of
        (_, lst, e) \<Rightarrow> no_error e \<and>
          (case List.find (\<lambda>user. fld user ''ID'' = VStr ''2'') lst of
             None \<Rightarrow> False
           | Some user \<Rightarrow> length (elems user ''Auths'') = 2 \<and> slice_is_sorted (by_field ''Provider'' True) (elems user ''Auths'')))"

section \<open>Put (put.go)\<close>

definition PutAccountNew :: "'w orm_queryer \<Rightarrow> 'w \<Rightarrow> bool" where
  "PutAccountNew r w =
     (case zorm_Put r AccountT [lit AccountMapping [(''Company'', VStr ''NewCo'')]] (put_opts no_include) w of
        (_, objs, e) \<Rightarrow> no_error e \<and> \<not> is_zero (fld (objs ! 0) ''ID'') \<and> not_nil (fld (objs ! 0) ''Created'') \<and>
          \<not> not_nil (fld (objs ! 0) ''Modified'') \<and> fld (objs ! 0) ''Company'' = VStr ''NewCo'')"

definition PutAccountUpdateUniqueKey :: "'w orm_queryer \<Rightarrow> 'w \<Rightarrow> bool" where
  "PutAccountUpdateUniqueKey r w =
     (case zorm_Put r AccountT [lit AccountMapping [(''Company'', VStr ''Acme, Inc.''), (''ContactEmail'', VStr ''updated@acme.example'')]]
             (put_opts no_include) w of
        (_, objs, e) \<Rightarrow> no_error e \<and> \<not> is_zero (fld (objs ! 0) ''ID'') \<and> not_nil (fld (objs ! 0) ''Modified'') \<and>
          fld (objs ! 0) ''ContactEmail'' = VStr ''updated@acme.example'')"

definition PutAccountInsertByUniqueKey :: "'w orm_queryer \<Rightarrow> 'w \<Rightarrow> bool" where
  "PutAccountInsertByUniqueKey r w =
     (case zorm_Put r AccountT [lit AccountMapping [(''Company'', VStr ''NewCo''), (''ContactEmail'', VStr ''contact@newco.test'')]]
             (put_opts no_include) w of
        (_, objs, e) \<Rightarrow> no_error e \<and> \<not> is_zero (fld (objs ! 0) ''ID'') \<and> \<not> is_zero (fld (objs ! 0) ''Created''))"

definition PutUserFields :: "'w orm_queryer \<Rightarrow> 'w \<Rightarrow> bool" where
  "PutUserFields r w =
     (case zorm_Put r UserT [lit UserMapping [(''ID'', VStr ''1''), (''FirstName'', VStr ''Duffy''), (''AccountID'', VStr ''2'')]]
             (put_opts (Include [''FirstName''] [])) w of
        (_, objs, e) \<Rightarrow> no_error e \<and> fld (objs ! 0) ''FirstName'' = VStr ''Duffy'' \<and> fld (objs ! 0) ''AccountID'' = VStr ''2'')"

definition PutUserWithNewAccount :: "'w orm_queryer \<Rightarrow> 'w \<Rightarrow> bool" where
  "PutUserWithNewAccount r w =
     (case zorm_Put r UserT
             [lit UserMapping [(''FirstName'', VStr ''CascadeUser''), (''Account'', lit AccountMapping [(''Company'', VStr ''CascadeTestCo'')])]]
             (put_opts (Include [] [(''Account'', rel [])])) w of
        (_, objs, e) \<Rightarrow> no_error e \<and> \<not> is_zero (fld (objs ! 0) ''ID'') \<and> \<not> is_zero (fld (objs ! 0) ''AccountID'') \<and>
          not_nil (fld (objs ! 0) ''Account'') \<and> fld (fld (objs ! 0) ''Account'') ''Company'' = VStr ''CascadeTestCo'' \<and>
          \<not> is_zero (fld (fld (objs ! 0) ''Account'') ''Created''))"

definition PutAccountWithNewUsers :: "'w orm_queryer \<Rightarrow> 'w \<Rightarrow> bool" where
  "PutAccountWithNewUsers r w =
     (case zorm_Put r AccountT
             [lit AccountMapping [(''Company'', VStr ''MultiUserCo''),
                (''Users'', VSlice [lit UserMapping [(''FirstName'', VStr ''User1'')], lit UserMapping [(''FirstName'', VStr ''User2'')]])]]
             (put_opts (Include [] [(''Users'', rel [])])) w of
        (_, objs, e) \<Rightarrow> no_error e \<and> \<not> is_zero (fld (objs ! 0) ''ID'') \<and> length (elems (objs ! 0) ''Users'') = 2 \<and>
          list_all (\<lambda>user. \<not> is_zero (fld user ''ID'') \<and> fld (objs ! 0) ''ID'' = fld user ''AccountID'') (elems (objs ! 0) ''Users''))"

definition authsInclude :: "clause option \<Rightarrow> include_opts" where
  "authsInclude w = Include [] [(''Auths'', RelationOpts no_include w [])]"

text \<open>\<open>None\<close> is a test that has ended.\<close>

definition getUserWithAuths :: "'w orm_queryer \<Rightarrow> string \<Rightarrow> 'w \<Rightarrow> ('w \<times> gval) option" where
  "getUserWithAuths r userID w =
     (case zorm_Get r UserT [lit UserMapping [(''ID'', VStr userID)]] (authsInclude None) w of
        (w1, objs, e) \<Rightarrow> if no_error e then Some (w1, objs ! 0) else None)"

definition authsByProvider :: "gval list \<Rightarrow> (string, gval) gomap" where
  "authsByProvider auths = foldl (\<lambda>m auth. map_put (text_of (fld auth ''Provider'')) auth m) [] auths"

text \<open>A field of the entry of a provider; following the nil pointer of a missing one is \<open>None\<close>.\<close>

definition auth_fld :: "(string, gval) gomap \<Rightarrow> string \<Rightarrow> string \<Rightarrow> gval option" where
  "auth_fld m provider f = map_option (\<lambda>a. fld a f) (map_of m provider)"

text \<open>What the tests of \<^verbatim>\<open>PutToManyRelationSync\<close> share: user 1 is read with two authentications, gets new ones and is put
  with the relation; \<open>verify\<close> gets the authentications read first, the objects after the put, and the user read again.\<close>

definition sync_auths ::
  "((string, gval) gomap \<Rightarrow> gval list option) \<Rightarrow> clause option \<Rightarrow>
   ((string, gval) gomap \<Rightarrow> gval list \<Rightarrow> gval \<Rightarrow> bool) \<Rightarrow> 'w orm_queryer \<Rightarrow> 'w \<Rightarrow> bool" where
  "sync_auths new flt verify r w =
     (case getUserWithAuths r ''1'' w of
        None \<Rightarrow> False
      | Some (w1, user) \<Rightarrow>
          length (elems user ''Auths'') = 2 \<and>
          (let originalAuths = authsByProvider (elems user ''Auths'')
           in case new originalAuths of
                None \<Rightarrow> False
              | Some auths \<Rightarrow>
                  (case zorm_Put r UserT [set_fld user ''Auths'' (VSlice auths)] (put_opts (authsInclude flt)) w1 of
                     (w2, objs, e) \<Rightarrow> no_error e \<and>
                     (case getUserWithAuths r ''1'' w2 of
                        None \<Rightarrow> False
                      | Some (_, user2) \<Rightarrow> verify originalAuths objs user2))))"

definition provider_is :: "string \<Rightarrow> clause" where
  "provider_is p = elem_Eq (elem_Field ''Provider'') (elem_Value (VStr p))"

definition UserAuthsDeletesOrphansWithFilter :: "'w orm_queryer \<Rightarrow> 'w \<Rightarrow> bool" where
  "UserAuthsDeletesOrphansWithFilter =
     sync_auths (\<lambda>_. Some []) (Some (provider_is ''password''))
       (\<lambda>_ _ user2. length (elems user2 ''Auths'') = 1 \<and> fld (elems user2 ''Auths'' ! 0) ''Provider'' = VStr ''oauth2'')"

definition UserAuthsEmptySliceDeletesAll :: "'w orm_queryer \<Rightarrow> 'w \<Rightarrow> bool" where
  "UserAuthsEmptySliceDeletesAll = sync_auths (\<lambda>_. Some []) None (\<lambda>_ _ user2. elems user2 ''Auths'' = [])"

definition UserAuthsUpdatesExistingAndDeletesOrphans :: "'w orm_queryer \<Rightarrow> 'w \<Rightarrow> bool" where
  "UserAuthsUpdatesExistingAndDeletesOrphans =
     sync_auths
       (\<lambda>orig. case auth_fld orig ''password'' ''ID'' of
          None \<Rightarrow> None
        | Some i \<Rightarrow> Some
            [lit UserAuthMapping [(''ID'', i), (''Provider'', VStr ''password''), (''Data'', VStr ''updated-hash'')],
             lit UserAuthMapping [(''Provider'', VStr ''sso''), (''Data'', VStr ''new-sso-data'')]])
       None
       (\<lambda>_ objs user2. length (elems (objs ! 0) ''Auths'') = 2 \<and> length (elems user2 ''Auths'') = 2 \<and>
          (let auths = authsByProvider (elems user2 ''Auths'')
           in auth_fld auths ''password'' ''Data'' = Some (VStr ''updated-hash'') \<and>
              auth_fld auths ''sso'' ''Data'' = Some (VStr ''new-sso-data'') \<and> map_of auths ''oauth2'' = None))"

definition UserAuthsUpdateFieldOnly :: "'w orm_queryer \<Rightarrow> 'w \<Rightarrow> bool" where
  "UserAuthsUpdateFieldOnly =
     sync_auths
       (\<lambda>orig. case (auth_fld orig ''password'' ''ID'', auth_fld orig ''oauth2'' ''ID'', auth_fld orig ''oauth2'' ''Data'') of
          (Some i, Some j, Some x) \<Rightarrow> Some
            [lit UserAuthMapping [(''ID'', i), (''Provider'', VStr ''password''), (''Data'', VStr ''new-password-hash'')],
             lit UserAuthMapping [(''ID'', j), (''Provider'', VStr ''oauth2''), (''Data'', x)]]
        | _ \<Rightarrow> None)
       None
       (\<lambda>orig _ user2. length (elems user2 ''Auths'') = 2 \<and>
          (let auths = authsByProvider (elems user2 ''Auths'')
           in map_of auths ''password'' \<noteq> None \<and> map_of auths ''oauth2'' \<noteq> None \<and>
              auth_fld orig ''password'' ''ID'' = auth_fld auths ''password'' ''ID'' \<and>
              auth_fld auths ''password'' ''Data'' = Some (VStr ''new-password-hash'') \<and>
              auth_fld orig ''oauth2'' ''ID'' = auth_fld auths ''oauth2'' ''ID'' \<and>
              auth_fld orig ''oauth2'' ''Data'' = auth_fld auths ''oauth2'' ''Data''))"

definition UserAuthsInsertNewWithFilter :: "'w orm_queryer \<Rightarrow> 'w \<Rightarrow> bool" where
  "UserAuthsInsertNewWithFilter =
     sync_auths (\<lambda>_. Some [lit UserAuthMapping [(''Provider'', VStr ''sso''), (''Data'', VStr ''new-sso-token'')]])
       (Some (provider_is ''sso''))
       (\<lambda>orig _ user2. length (elems user2 ''Auths'') = 3 \<and>
          (let auths = authsByProvider (elems user2 ''Auths'')
           in map_of auths ''password'' \<noteq> None \<and> map_of auths ''oauth2'' \<noteq> None \<and>
              auth_fld orig ''password'' ''ID'' = auth_fld auths ''password'' ''ID'' \<and>
              auth_fld orig ''oauth2'' ''ID'' = auth_fld auths ''oauth2'' ''ID'' \<and>
              (\<exists>i. auth_fld auths ''sso'' ''ID'' = Some i \<and> \<not> is_zero i) \<and>
              auth_fld auths ''sso'' ''Data'' = Some (VStr ''new-sso-token'')))"

section \<open>The suite\<close>

text \<open>Every test gets a world of its own from the setup.\<close>

definition RunFindTests :: "'w orm_queryer \<Rightarrow> 'w \<Rightarrow> bool" where
  "RunFindTests r w \<longleftrightarrow> list_all (\<lambda>test. test r w)
     [FindAccounts, FindAccountsDeep, FindUsersWithNilRelation, FindAccountsViaNestedRelation,
      FindAccountsSortedByNestedRelation, FindAccountsViaNestedRelationWithInclude, FindAccountsViaNestedRelationInMethod,
      FindUserFilteredRelation, FindUserSortedRelation, FindUserFilteredAndSortedRelation]"

definition RunGetTests :: "'w orm_queryer \<Rightarrow> 'w \<Rightarrow> bool" where
  "RunGetTests r w \<longleftrightarrow> list_all (\<lambda>test. test r w)
     [GetAccount, GetAccountFields, GetAccountByUniqueKey, GetAccountByMixed, GetAccountNotFoundByUniqueKey, GetUser,
      GetUserToOneRelation, GetUserMultipleToOneRelations, GetUserToManyRelation, GetUserFilteredRelation, GetUserAllRelations]"

definition RunPutTests :: "'w orm_queryer \<Rightarrow> 'w \<Rightarrow> bool" where
  "RunPutTests r w \<longleftrightarrow> list_all (\<lambda>test. test r w)
     [PutAccountNew, PutAccountUpdateUniqueKey, PutAccountInsertByUniqueKey, PutUserFields, PutUserWithNewAccount,
      PutAccountWithNewUsers, UserAuthsDeletesOrphansWithFilter, UserAuthsEmptySliceDeletesAll,
      UserAuthsUpdatesExistingAndDeletesOrphans, UserAuthsUpdateFieldOnly, UserAuthsInsertNewWithFilter]"

definition RunDeleteTests :: "'w orm_queryer \<Rightarrow> 'w \<Rightarrow> bool" where
  "RunDeleteTests r w \<longleftrightarrow> list_all (\<lambda>test. test r w)
     [DeleteAccount, DeleteAccountByUniqueKey, DeleteAccountNotFound, DeleteMultipleUsers]"

end
