(* ===== verification/Zormtest_Laws.thy ===== *)
theory Zormtest_Laws
  imports Zormtest_Suite Zormsql_Repo_Laws
begin

text \<open>
  \<^verbatim>\<open>Delete\<close> and \<^verbatim>\<open>Get\<close> together: what has been deleted is not found any more. With that, the repository of
  \<^verbatim>\<open>zormsql\<close> passes the suite's test of deletion on every database where the deletion itself succeeds.
\<close>

section \<open>Getting what is not there\<close>

definition key_where :: "lookup_key \<Rightarrow> clause" where
  "key_where key = InC (map FieldE (lk_fields key)) [map ValueE (lk_values key)]"

lemma validate_ptr [simp]:
  "validateListOfPtr (Some (TSlice (TPtr t))) = Inr (TPtr t)"
  "validatePtrToListOfPtr (Some (TPtr (TSlice (TPtr t)))) = Inr (TPtr t)"
  by (simp_all add: validateListOfPtr_def validatePtrToListOfPtr_def)

lemma find_nothing:
  assumes "map_of (cfg_mappings cfg) (typeID (TPtr t)) = Some m"
    and "buildSelectQueryPlan cfg (re_driver env) m fs rels w srts (int n) off = Inr plan"
    and "re_query env db (fst (plan_query (re_driver env) plan)) (snd (plan_query (re_driver env) plan)) (pl_target plan) = Inr ([], None)"
  shows "repo_Find (find_env_at env db) cfg (Some (TPtr (TSlice (TPtr t)))) [] n
    \<lparr>fo_include = Include fs rels, fo_sort = srts, fo_where = w, fo_offset = off\<rparr> = Inr []"
  using assms by (simp add: repo_Find_def repo_find_def find_env_at_def recover_in_def process_def Let_def)

lemma get_absent:
  assumes "map_of (cfg_mappings cfg) (typeID (TPtr t)) = Some m"
    and "findPopulatedLookupKey (re_json env) m (deref v) = Inr (Some key)"
    and "\<And>g. mset (re_range env g) = mset g"
    and "buildSelectQueryPlan cfg (re_driver env) m [] rels (Some (key_where key)) [] 1 0 = Inr plan"
    and "re_query env db (fst (plan_query (re_driver env) plan)) (snd (plan_query (re_driver env) plan)) (pl_target plan) = Inr ([], None)"
  shows "\<exists>e. repo_Get env cfg db (Some (TSlice (TPtr t))) [v] (Include [] rels) = ([v], Inl e) \<and> is_sentinel ''not found'' e"
proof -
  let ?g = "\<lparr>kg_keyFields = lk_fields key, kg_keys = [key], kg_objMap = [(lk_valuesKey key, 0)]\<rparr>"
  have groups: "group_objects (re_json env) m [v] 0 [] = Inr [(lk_groupKey key, ?g)]"
    using assms(2) by simp
  have range: "re_range env [(lk_groupKey key, ?g)] = [(lk_groupKey key, ?g)]"
    using assms(3) [of "[(lk_groupKey key, ?g)]"] by simp
  have w: "get_where ?g = key_where key" by (simp add: get_where_def key_where_def)
  note found = find_nothing [OF assms(1), where n = 1, simplified, OF assms(4,5)]
  have grp: "get_group env cfg (TPtr t) rels db ([v], [], 0) ?g = (([v], [], 0), Inr ())"
    using found by (simp add: get_group_def w Let_def)
  have "repo_get env cfg db (Some (TSlice (TPtr t))) [v] (Include [] rels) =
    ([v], Inl (wrap_err (''expected '' @ nat_str 1 @ '' rows found, but only got '' @ nat_str 0) ErrNotFound))"
    using groups assms(1) by (simp add: repo_get_def range grp del: group_objects.simps)
  then show ?thesis
    by (simp add: repo_Get_def recover_run_def recover_in_def wrap_err_def ErrNotFound_def)
qed

section \<open>After a deletion\<close>

text \<open>What the database does for a query by this key: without a row of these key values it finds nothing.\<close>

definition misses_absent ::
  "'d repo_env \<Rightarrow> config \<Rightarrow> mapping \<Rightarrow> (string \<times> relation_opts) list \<Rightarrow> lookup_key \<Rightarrow> ('d \<Rightarrow> row list) \<Rightarrow> column list \<Rightarrow> bool" where
  "misses_absent env cfg m rels key rows cols \<longleftrightarrow>
     (\<exists>plan. buildSelectQueryPlan cfg (re_driver env) m [] rels (Some (key_where key)) [] 1 0 = Inr plan \<and>
        (\<forall>db. (\<forall>r \<in> set (rows db). \<not> row_matches cols (lk_values key) r) \<longrightarrow>
           re_query env db (fst (plan_query (re_driver env) plan)) (snd (plan_query (re_driver env) plan)) (pl_target plan) =
             Inr ([], None)))"

lemma gone_after_delete:
  assumes del: "repo_Delete env cfg db (Some (TSlice (TPtr t))) objs incl = ((db', objs'), Inr ())" "objs \<noteq> []"
    and map: "map_of (cfg_mappings cfg) (typeID (TPtr t)) = Some m"
      "plain_fields m" "primaryKeyFields m = Inr pkf" "pkf \<noteq> []"
    and sql: "delete_runs env m rows (update_columns m pkf)" "misses_absent env cfg m rels key rows (update_columns m pkf)"
    and range: "\<And>g. mset (re_range env g) = mset g"
    and key: "findPopulatedLookupKey (re_json env) m (deref v) = Inr (Some key)"
      "u \<in> set objs'" "lk_values key = field_values (deref u) pkf"
  shows "\<exists>e. repo_Get env cfg db' (Some (TSlice (TPtr t))) [v] (Include [] rels) = ([v], Inl e) \<and> is_sentinel ''not found'' e"
proof -
  let ?sel = "\<lambda>r. list_ex (\<lambda>v. row_matches (update_columns m pkf) (field_values (deref v) pkf) r) objs'"
  have "rows db' = filter (\<lambda>r. \<not> ?sel r) (rows db)"
    using deleted_rows [OF del validate_ptr(1) map sql(1)] by blast
  then have gone: "\<forall>r \<in> set (rows db'). \<not> row_matches (update_columns m pkf) (lk_values key) r"
    using key(2) by (auto simp: key(3) list_ex_iff)
  obtain plan where plan: "buildSelectQueryPlan cfg (re_driver env) m [] rels (Some (key_where key)) [] 1 0 = Inr plan"
    "re_query env db' (fst (plan_query (re_driver env) plan)) (snd (plan_query (re_driver env) plan)) (pl_target plan) = Inr ([], None)"
    using sql(2) gone unfolding misses_absent_def by blast
  show ?thesis by (rule get_absent [OF map(1) key(1) range plan])
qed

text \<open>C12: What is deleted is gone. After \<^verbatim>\<open>Delete\<close> has succeeded, \<^verbatim>\<open>Get\<close> on the database it leaves does not find an
  object with the primary key of any of the deleted ones: it fails with \<^verbatim>\<open>ErrNotFound\<close>, whatever relations are asked
  for, and leaves the object as it is.\<close>

theorem deleted_is_gone:
  assumes del: "repo_Delete env cfg db (Some (TSlice (TPtr t))) objs incl = ((db', objs'), Inr ())" "objs \<noteq> []"
    and map: "map_of (cfg_mappings cfg) (typeID (TPtr t)) = Some m"
      "plain_fields m" "primaryKeyFields m = Inr pkf" "pkf \<noteq> []"
    and sql: "delete_runs env m rows (update_columns m pkf)" "misses_absent env cfg m rels key rows (update_columns m pkf)"
    and range: "\<And>g. mset (re_range env g) = mset g"
    and key: "findPopulatedLookupKey (re_json env) m (deref v) = Inr (Some key)"
      "u \<in> set objs'" "lk_values key = field_values (deref u) pkf"
  shows "\<exists>e. repo_Get env cfg db' (Some (TSlice (TPtr t))) [v] (Include [] rels) = ([v], Inl e) \<and> is_sentinel ''not found'' e"
  by (rule gone_after_delete [OF assms])

text \<open>User 7 is deleted from a table of two users and cannot be read again.\<close>

definition ex_gone_key :: lookup_key where
  "ex_gone_key = (case findPopulatedLookupKey ex_json UserMapping (deref (hd ex_stubs)) of Inr (Some k) \<Rightarrow> k)"

lemma ex_gone_misses: "misses_absent table_env zormtest_cfg UserMapping [] ex_gone_key (\<lambda>db. db) ids_cols"
proof -
  let ?build = "buildSelectQueryPlan zormtest_cfg (re_driver table_env) UserMapping [] [] (Some (key_where ex_gone_key)) [] 1 0"
  have "case ?build of Inl _ \<Rightarrow> False | Inr plan \<Rightarrow> snd (plan_query (re_driver table_env) plan) = [VStr ''7'']"
    by code_simp
  then obtain plan where plan: "?build = Inr plan" "snd (plan_query (re_driver table_env) plan) = [VStr ''7'']"
    by (cases ?build) auto
  have k: "lk_values ex_gone_key = [VStr ''7'']" by code_simp
  have m: "row_matches ids_cols [VStr ''7''] r \<longleftrightarrow> map_of r ''id'' = Some (VStr ''7'')" for r
    by (simp add: row_matches_def ids_cols)
  have "re_query table_env db q [VStr ''7''] target = Inr ([], None)"
    if "\<forall>r \<in> set db. \<not> row_matches ids_cols [VStr ''7''] r" for db q target
    using that by (simp add: table_env_def m filter_empty_conv)
  then show ?thesis unfolding misses_absent_def k using plan by metis
qed

theorem deleted_is_gone_witness:
  "\<exists>db' objs'. repo_Delete table_env zormtest_cfg two_users (Some (TSlice (ptr_type UserMapping))) [hd ex_stubs] (Include [] []) =
       ((db', objs'), Inr ()) \<and>
     (\<exists>e. repo_Get table_env zormtest_cfg db' (Some (TSlice (ptr_type UserMapping))) [hd ex_stubs] (Include [] []) =
        ([hd ex_stubs], Inl e) \<and> is_sentinel ''not found'' e)"
proof -
  let ?t = "TStruct zormtest_pkg ''User''"
  have ty: "ptr_type UserMapping = TPtr ?t" by code_simp
  let ?run = "repo_Delete table_env zormtest_cfg two_users (Some (TSlice (TPtr ?t))) [hd ex_stubs] (Include [] [])"
  have "snd ?run = Inr ()" by code_simp
  then have run: "?run = ((fst (fst ?run), snd (fst ?run)), Inr ())" by (metis prod.collapse)
  have pf: "plain_fields UserMapping" by code_simp
  have pk: "primaryKeyFields UserMapping = Inr [''ID'']" by code_simp
  have key: "findPopulatedLookupKey (re_json table_env) UserMapping (deref (hd ex_stubs)) = Inr (Some ex_gone_key)"
    by code_simp
  have "map (\<lambda>u. field_values (deref u) [''ID'']) (snd (fst ?run)) = [lk_values ex_gone_key]" by code_simp
  then obtain u where u: "u \<in> set (snd (fst ?run))" "lk_values ex_gone_key = field_values (deref u) [''ID'']"
    by (cases "snd (fst ?run)") auto
  have range: "mset (re_range table_env g) = mset g" for g by (simp add: table_env_def users_env_def)
  from deleted_is_gone [OF run _ zormtest_mapping(2) pf pk _ table_env_deletes [unfolded ids_cols_def]
      ex_gone_misses [unfolded ids_cols_def] range key u]
  show ?thesis unfolding ty using run by blast
qed

section \<open>The suite's tests of deletion\<close>

text \<open>The account the test asks for, and its key: the primary key, whatever the JSON encoder makes of it.\<close>

definition account_1 :: gval where
  "account_1 = lit AccountMapping [(''ID'', VStr ''1'')]"

lemma DeleteAccount_zormsql:
  fixes env :: "'d repo_env" and rows :: "'d \<Rightarrow> row list"
  defines "r \<equiv> zormsql_queryer env zormtest_cfg"
  assumes "snd (snd (zorm_Delete r AccountT [account_1] no_include db)) = Inr ()"
    and "list_ex (\<lambda>u. fld u ''ID'' = VStr ''1'') (fst (snd (zorm_Delete r AccountT [account_1] no_include db)))"
    and "delete_runs env AccountMapping rows (update_columns AccountMapping [''ID''])"
    and "findPopulatedLookupKey (re_json env) AccountMapping (deref account_1) = Inr (Some key)" "lk_values key = [VStr ''1'']"
    and "misses_absent env zormtest_cfg AccountMapping [] key rows (update_columns AccountMapping [''ID''])"
    and "\<And>g. mset (re_range env g) = mset g"
  shows "DeleteAccount r db"
proof -
  obtain db' objs' x where del: "repo_Delete env zormtest_cfg db (Some (TSlice (TPtr AccountT))) [account_1] (Include [] []) = ((db', objs'), x)"
    by (metis surj_pair)
  have x: "x = Inr ()" and ex: "list_ex (\<lambda>u. fld u ''ID'' = VStr ''1'') objs'"
    using assms(2,3) del by (simp_all add: r_def zorm_Delete_def zormsql_queryer_def no_include_def)
  then obtain u where u: "u \<in> set objs'" "fld u ''ID'' = VStr ''1''" by (auto simp: list_ex_iff)
  have "field_values (deref u) [''ID''] = [VStr ''1'']"
    using u(2) by (cases u) (simp_all add: fld_def field_values_def split: option.splits)
  then have k: "lk_values key = field_values (deref u) [''ID'']" using assms(6) by simp
  have pf: "plain_fields AccountMapping" by code_simp
  have pk: "primaryKeyFields AccountMapping = Inr [''ID'']" by code_simp
  have mp: "map_of (cfg_mappings zormtest_cfg) (typeID (TPtr AccountT)) = Some AccountMapping"
    unfolding AccountT_def by (rule zormtest_mapping(1))
  obtain e where "repo_Get env zormtest_cfg db' (Some (TSlice (TPtr AccountT))) [account_1] (Include [] []) = ([account_1], Inl e)"
    "is_sentinel ''not found'' e"
    using gone_after_delete [OF del [unfolded x] _ mp pf pk _ assms(4,7,8,5) u(1) k] by blast
  then show ?thesis
    using del x by (simp add: DeleteAccount_def r_def zorm_Delete_def zorm_Get_def zormsql_queryer_def no_include_def
        no_error_def error_is_def ErrNotFound_def flip: account_1_def)
qed

end
