(* ===== verification/Zormsql_Put_Get.thy ===== *)
theory Zormsql_Put_Get
  imports Zormtest_Laws Zormsql_Find_Types
begin

text \<open>
  \<^verbatim>\<open>Put\<close> and \<^verbatim>\<open>Get\<close> of \<^verbatim>\<open>go/zorm/zormsql/repo.go\<close> together: what was put is what a later get reads. The update goes
  through \<open>Zormsql_Write\<close>, the select through the plan and the loading of its row.
\<close>

section \<open>Reading one row\<close>

text \<open>A value a field of its type can hold as it is: pointers in pointer fields, plain values elsewhere.\<close>

definition fits :: "mapping \<Rightarrow> string \<Rightarrow> gval \<Rightarrow> bool" where
  "fits m f x \<longleftrightarrow> (case struct_field m f of None \<Rightarrow> False | Some ty \<Rightarrow> is_TPtr ty = is_ptr_val x)"

text \<open>What \<^verbatim>\<open>Scan\<close> leaves for a row of the table: every column is scanned into a pointer to a value of the type the
  value was stored from. \<open>missing\<close> is what the database has in columns the map of the row does not mention.\<close>

definition scanned_row :: "(string \<Rightarrow> gval) \<Rightarrow> qstructure \<Rightarrow> row \<Rightarrow> scanned list" where
  "scanned_row missing s r =
     map (\<lambda>c. ScPlain (case map_of r (c_name c) of Some v \<Rightarrow> v | None \<Rightarrow> missing (c_name c))) (st_primaryKey s @ st_columns s)"

lemma fits_column_value:
  assumes "row ! i = ScPlain x" "fits m f x" "struct_field m f = Some ty"
  shows "column_value row i ty = Inr x"
  using assms by (cases x) (auto simp: column_value_def fits_def)

lemma load_fields_panics: "load_fields m row off fs v = Inl e \<Longrightarrow> is_panic e"
proof (induction m row off fs v rule: load_fields.induct)
  case (2 m row off f fs v)
  have "convertNullableValue x ty = Inl e \<Longrightarrow> is_panic e" for x ty
    by (cases "(x, ty)" rule: convertNullableValue.cases) (auto split: gotype.splits if_splits gval.splits)
  then show ?case using 2 by (auto simp: bind_res_Inl split: option.splits if_splits)
qed simp

text \<open>The structure of a select without relations: names and columns side by side.\<close>

lemma structure_columns:
  assumes "mapStructure cfg m tbl [] [] [] = Inr s"
  shows "st_relations s = [] \<and>
    list_all2 (\<lambda>f c. map_of (colMap m) f = Some (c_name c)) (st_primaryKeyFields s @ st_fields s) (st_primaryKey s @ st_columns s) \<and>
    set (allFields m) \<subseteq> set (st_primaryKeyFields s @ st_fields s)"
proof -
  from assms obtain pkf cts where cts: "map_res (mapStructure_field m tbl []) (pkf @ allFields m) = Inr cts"
    and s: "st_relations s = []" "st_primaryKeyFields s @ st_fields s = pkf @ allFields m"
      "st_primaryKey s @ st_columns s = map fst cts"
    by (auto simp: bind_res_Inr Let_def resolve_def)
  from cts have "list_all2 (\<lambda>f ct. mapStructure_field m tbl [] f = Inr ct) (pkf @ allFields m) cts"
    unfolding map_res_Inr .
  then have "list_all2 (\<lambda>f ct. map_of (colMap m) f = Some (c_name (fst ct))) (pkf @ allFields m) cts"
    by (rule list_all2_mono) (auto simp: mapStructure_field_def split: option.splits)
  then show ?thesis unfolding s by (simp add: list_all2_map2)
qed

lemma last_occurrence: "x \<in> set xs \<Longrightarrow> \<exists>i < length xs. xs ! i = x \<and> x \<notin> set (drop (Suc i) xs)"
proof (induction xs)
  case (Cons y xs)
  show ?case
  proof (cases "x \<in> set xs")
    case True
    with Cons.IH obtain i where "i < length xs" "xs ! i = x" "x \<notin> set (drop (Suc i) xs)" by blast
    then show ?thesis by (intro exI [of _ "Suc i"]) simp
  next
    case False
    with Cons.prems show ?thesis by (intro exI [of _ 0]) simp
  qed
qed simp

lemma loaded_row:
  assumes load: "plan_load slug m s (scanned_row missing s r) (new_struct m, []) = Inr (u, prev)"
    and s: "mapStructure cfg m tbl [] [] [] = Inr s"
    and f: "f \<in> set (allFields m)" "map_of (colMap m) f = Some n" "map_of r n = Some x" "fits m f x"
  shows "struct_get u f = Some x"
proof -
  let ?row = "scanned_row missing s r"
  obtain tbl' cols fs ts pk pkfs pkts rels where st: "s = Structure tbl' cols fs ts pk pkfs pkts rels" by (cases s)
  note cols = structure_columns [OF s]
  then have rels: "rels = []" by (simp add: st)
  obtain v where v: "load_fields m ?row 0 (pkfs @ fs) (new_struct m) = Inr v"
    and u: "u = v"
    using load load_fields_panics [of m ?row 0 "pkfs @ fs" "new_struct m"]
    unfolding st rels plan_load_def by (cases "load_fields m ?row 0 (pkfs @ fs) (new_struct m)")
      (auto simp: st rels split: error.splits)
  obtain i where i: "i < length (pkfs @ fs)" "(pkfs @ fs) ! i = f" "f \<notin> set (drop (Suc i) (pkfs @ fs))"
    using last_occurrence [of f "pkfs @ fs"] cols f(1) by (auto simp: st)
  have "map_of (colMap m) ((pkfs @ fs) ! i) = Some (c_name ((pk @ cols) ! i))" "i < length (pk @ cols)"
    using cols i(1) by (auto simp: st list_all2_conv_all_nth)
  then have "?row ! i = ScPlain x" using f(2,3) i(2) by (simp add: scanned_row_def st del: map_append)
  moreover have "struct_get (new_struct m) f \<noteq> None" using f(4) by (auto simp: new_struct_get fits_def split: option.splits)
  ultimately show ?thesis
    using load_fields_value [OF v i(1)] i(2,3) fits_column_value [of ?row i x m f] f(4) unfolding u by auto
qed

lemma process_one_row:
  assumes "process srt sprint slug n m s [] [Inr row] = Inr lst" "st_relations s = []"
  shows "\<exists>u prev. plan_load slug m s row (new_struct m, []) = Inr (u, prev) \<and> lst = [VPtr u]"
proof -
  obtain tbl' cols fs ts pk pkfs pkts where st: "s = Structure tbl' cols fs ts pk pkfs pkts []"
    using assms(2) by (cases s) auto
  show ?thesis
    using assms(1) by (auto simp: process_def bind_res_Inr Let_def sort_target_def st split: if_splits)
qed

section \<open>The select of a get\<close>

lemma simple_paths_need_nothing: "list_all isSimpleField ps \<Longrightarrow> fold_res (ensure_one cfg m) rels ps = Inr rels"
  by (induction ps) (auto simp: ensure_one_def)

lemma key_plan:
  assumes "buildSelectQueryPlan cfg d m [] [] (Some (key_where k)) [] n off = Inr plan" "list_all isSimpleField (lk_fields k)"
  shows "mapStructure cfg m \<lparr>t_name = m_table m, t_alias = ''$''\<rparr> [] [] [] = Inr (pl_structure plan)"
proof -
  have "concat (map elem_paths (map FieldE fs)) = fs" for fs by (induction fs) auto
  moreover have "concat (map elem_paths (map ValueE vs)) = []" for vs by (induction vs) auto
  ultimately have "field_paths (Some (key_where k)) [] = lk_fields k"
    by (simp add: field_paths_def extractFieldPaths_def key_where_def del: map_map)
  with assms show ?thesis
    by (auto simp: buildSelectQueryPlan_def bind_res_Inr wrap_res_Inr Let_def ensureRelationsForFieldPaths_def
        simple_paths_need_nothing simp del: mapStructure.simps split: if_splits)
qed

lemma get_one:
  assumes get: "repo_Get env cfg db (Some (TSlice (TPtr t))) [w] (Include [] rels) = ([w'], Inr ())"
    and map: "map_of (cfg_mappings cfg) (typeID (TPtr t)) = Some m"
    and key: "findPopulatedLookupKey (re_json env) m (deref w) = Inr (Some k)"
    and range: "\<And>g. mset (re_range env g) = mset g"
  shows "\<exists>f. repo_find (find_env_at env db) cfg (Some (TPtr (TSlice (TPtr t)))) [] 1
      \<lparr>fo_include = Include [] rels, fo_sort = [], fo_where = Some (key_where k), fo_offset = 0\<rparr> = Inr [f] \<and> w' = VPtr (deref f)"
proof -
  let ?g = "\<lparr>kg_keyFields = lk_fields k, kg_keys = [k], kg_objMap = [(lk_valuesKey k, 0)]\<rparr>"
  have w: "get_where ?g = key_where k" by (simp add: get_where_def key_where_def)
  have "re_range env [(lk_groupKey k, ?g)] = [(lk_groupKey k, ?g)]" using range [of "[(lk_groupKey k, ?g)]"] by simp
  moreover have "group_objects (re_json env) m [w] 0 [] = Inr [(lk_groupKey k, ?g)]" using key by simp
  moreover have "repo_get env cfg db (Some (TSlice (TPtr t))) [w] (Include [] rels) = ([w'], Inr ())"
    using get by (simp add: repo_Get_def recover_run_Inr)
  ultimately have run: "\<exists>fs. get_group env cfg (TPtr t) rels db ([w], [], 0) ?g = (([w'], fs, 1), Inr ())"
    by (elim repo_get_ok) (auto simp: map run_then_Inr simp del: group_objects.simps)
  then obtain lst where lst: "repo_Find (find_env_at env db) cfg (Some (TPtr (TSlice (TPtr t)))) [] 1
      \<lparr>fo_include = Include [] rels, fo_sort = [], fo_where = Some (key_where k), fo_offset = 0\<rparr> = Inr lst"
    and st: "fold_run (store_found (re_json env) [] ?g) [w] lst = ([w'], Inr ())" "length lst = 1"
    by (auto simp: get_group_def w Let_def split: sum.splits prod.splits)
  then obtain f where f: "lst = [f]" by (auto simp: length_Suc_conv)
  with st have "store_found (re_json env) [] ?g [w] f = ([w'], Inr ())" by (auto simp: run_then_Inr)
  then have "w' = VPtr (deref f)" by (rule store_foundE) (auto split: if_splits)
  with lst f show ?thesis by (simp add: repo_Find_def recover_in_Inr)
qed

section \<open>The update of a put\<close>

lemma colMap_defined: "f \<in> set (allFields m) \<Longrightarrow> \<exists>n. map_of (colMap m) f = Some n"
proof -
  have "map_of (fold (\<lambda>c cm. map_put (cm_field c) (cm_name c) cm) cs cm) f \<noteq> None \<longleftrightarrow>
      map_of cm f \<noteq> None \<or> f \<in> cm_field ` set cs" for cs :: "col_map list" and cm
    by (induction cs arbitrary: cm) (auto simp del: not_None_eq)
  from this [of "m_columns m" "[]"] show "f \<in> set (allFields m) \<Longrightarrow> \<exists>n. map_of (colMap m) f = Some n"
    by (simp add: colMap_def allFields_def)
qed

lemma row_set_values:
  assumes "length cols = length vs"
  shows "n \<notin> c_name ` set cols \<Longrightarrow> map_of (row_set cols vs r) n = map_of r n"
    and "distinct (map c_name cols) \<Longrightarrow> i < length cols \<Longrightarrow> map_of (row_set cols vs r) (c_name (cols ! i)) = Some (vs ! i)"
proof -
  have other: "n \<notin> c_name ` set cols \<Longrightarrow> map_of (row_set cols vs r) n = map_of r n"
    if "length cols = length vs" for cols :: "column list" and vs r n
    using that by (induction cols vs arbitrary: r rule: list_induct2) (auto simp: row_set_def)
  then show "n \<notin> c_name ` set cols \<Longrightarrow> map_of (row_set cols vs r) n = map_of r n" using assms by blast
  show "distinct (map c_name cols) \<Longrightarrow> i < length cols \<Longrightarrow> map_of (row_set cols vs r) (c_name (cols ! i)) = Some (vs ! i)"
    using assms
  proof (induction cols vs arbitrary: r i rule: list_induct2)
    case (Cons c cols v vs)
    have step: "row_set (c # cols) (v # vs) r = row_set cols vs (map_put (c_name c) v r)" by (simp add: row_set_def)
    show ?case
    proof (cases i)
      case 0
      then show ?thesis using Cons.prems(1) other [OF Cons.hyps, of "c_name c" "map_put (c_name c) v r"] by (simp add: step)
    next
      case (Suc j)
      then show ?thesis using Cons.prems Cons.IH [of j "map_put (c_name c) v r"] by (simp add: step)
    qed
  qed simp
qed

lemma put_updates:
  assumes put: "repo_Put env cfg db (Some (TSlice (TPtr t))) [VPtr x] \<lparr>po_include = Include flds [], po_get = gt\<rparr> =
      ((db', objs'), Inr ())"
    and map: "map_of (cfg_mappings cfg) (typeID (TPtr t)) = Some m"
    and key: "findPopulatedLookupKey (re_json env) m x = Inr (Some k)"
    and ur: "update_runs env m rows (update_columns m (updateFields m flds)) (key_columns m (lk_fields k))"
    and pl: "plain_fields m" "updateFields m flds \<noteq> []"
    and known: "list_ex (row_matches (key_columns m (lk_fields k)) (field_values x (lk_fields k))) (rows db)"
  shows "rows db' = map (\<lambda>r. if row_matches (key_columns m (lk_fields k)) (field_values x (lk_fields k)) r
        then row_set (update_columns m (updateFields m flds)) (field_values x (updateFields m flds)) r else r) (rows db) \<and>
      length (filter (row_matches (key_columns m (lk_fields k)) (field_values x (lk_fields k))) (rows db)) = 1"
proof -
  have "categorizeRelationsForPut cfg m [] = Inr ([], [])" by (simp add: categorizeRelationsForPut_def)
  with put map obtain pkf x' where "putSingleModel env cfg m pkf flds (db, x) = ((db', x'), Inr ())"
    by (auto simp: repo_Put_def recover_run_Inr repo_put_def put_model_def put_relations_def Let_def wrap_res_Inr
        run_then_Inr split: sum.splits prod.splits if_splits)
  then obtain n where up: "repo_update env cfg m (lk_fields k) flds x db = (db', Inr n) \<or>
      n = 0 \<and> repo_update env cfg m (lk_fields k) flds x db = (fst (repo_update env cfg m (lk_fields k) flds x db), Inr n)"
    using key by (auto simp: putSingleModel_def split: sum.splits prod.splits if_splits)
  define d where "d = fst (repo_update env cfg m (lk_fields k) flds x db)"
  from up have u: "repo_update env cfg m (lk_fields k) flds x db = (d, Inr n)" and d: "n = 0 \<or> d = db'"
    unfolding d_def by auto
  note rows = repo_update_rows [OF u ur pl]
  have "filter (row_matches (key_columns m (lk_fields k)) (field_values x (lk_fields k))) (rows db) \<noteq> []"
    using known by (auto simp: list_ex_iff filter_empty_conv)
  then have "n = 1" "d = db'" using rows d by (cases "filter (row_matches (key_columns m (lk_fields k)) (field_values x (lk_fields k))) (rows db)"; auto)+
  then show ?thesis using rows by auto
qed

text \<open>What SQL says of the select of a get by one key, when at most one row has it: that row, scanned.\<close>

definition select_runs :: "'d repo_env \<Rightarrow> config \<Rightarrow> mapping \<Rightarrow> lookup_key \<Rightarrow> ('d \<Rightarrow> row list) \<Rightarrow> (string \<Rightarrow> gval) \<Rightarrow> bool" where
  "select_runs env cfg m k rows missing \<longleftrightarrow>
     (\<forall>plan db. buildSelectQueryPlan cfg (re_driver env) m [] [] (Some (key_where k)) [] 1 0 = Inr plan \<longrightarrow>
        (let found = filter (row_matches (key_columns m (lk_fields k)) (lk_values k)) (rows db) in
         length found \<le> 1 \<longrightarrow>
         re_query env db (fst (plan_query (re_driver env) plan)) (snd (plan_query (re_driver env) plan)) (pl_target plan) =
           Inr (map (\<lambda>r. Inr (scanned_row missing (pl_structure plan) r)) found, None)))"

lemma get_reads_row:
  assumes get: "repo_Get env cfg db (Some (TSlice (TPtr t))) [w] (Include [] []) = ([w'], Inr ())"
    and map: "map_of (cfg_mappings cfg) (typeID (TPtr t)) = Some m"
    and key: "findPopulatedLookupKey (re_json env) m (deref w) = Inr (Some k)" "list_all isSimpleField (lk_fields k)"
    and range: "\<And>g. mset (re_range env g) = mset g"
    and sr: "select_runs env cfg m k rows missing"
    and one: "filter (row_matches (key_columns m (lk_fields k)) (lk_values k)) (rows db) = [r]"
  shows "\<exists>u. w' = VPtr u \<and> (\<forall>f n x. f \<in> set (allFields m) \<longrightarrow> map_of (colMap m) f = Some n \<longrightarrow> map_of r n = Some x \<longrightarrow>
     fits m f x \<longrightarrow> struct_get u f = Some x)"
proof -
  from get_one [OF get map key(1) range] obtain f where
    find: "repo_find (find_env_at env db) cfg (Some (TPtr (TSlice (TPtr t)))) [] 1
      \<lparr>fo_include = Include [] [], fo_sort = [], fo_where = Some (key_where k), fo_offset = 0\<rparr> = Inr [f]"
    and w': "w' = VPtr (deref f)" by blast
  from find map obtain plan rws where
    plan: "buildSelectQueryPlan cfg (re_driver env) m [] [] (Some (key_where k)) [] 1 0 = Inr plan"
    and rws: "re_query env db (fst (plan_query (re_driver env) plan)) (snd (plan_query (re_driver env) plan)) (pl_target plan) = Inr rws"
    and pr: "process (re_sort env) (re_sprint env) (re_slug env) 1 m (pl_structure plan) [] (fst rws) = Inr [f]"
    by (auto simp: repo_find_def find_env_at_def bind_res_Inr wrap_res_Inr Let_def split: option.splits)
  note str = key_plan [OF plan key(2)]
  have "fst rws = [Inr (scanned_row missing (pl_structure plan) r)]"
    using sr [unfolded select_runs_def, rule_format, OF plan, of db] rws by (simp add: one Let_def)
  with pr have "process (re_sort env) (re_sprint env) (re_slug env) 1 m (pl_structure plan) []
      [Inr (scanned_row missing (pl_structure plan) r)] = Inr [f]" by simp
  moreover have "st_relations (pl_structure plan) = []" using structure_columns [OF str] by (rule conjunct1)
  ultimately obtain u prev where
    "plan_load (re_slug env) m (pl_structure plan) (scanned_row missing (pl_structure plan) r) (new_struct m, []) = Inr (u, prev)"
    and "f = VPtr u" using process_one_row by blast
  with loaded_row [OF _ str] show ?thesis unfolding w' by auto
qed

text \<open>C8: What was put is what a get reads. After \<^verbatim>\<open>Put\<close> of an object the table knows by its key has succeeded, a
  \<^verbatim>\<open>Get\<close> by that key gives an object that has, in every updatable field of the request, the value that was put.\<close>

theorem put_then_get:
  assumes put: "repo_Put env cfg db (Some (TSlice (TPtr t))) [VPtr x] \<lparr>po_include = Include flds [], po_get = gt\<rparr> =
      ((db', objs'), Inr ())"
    and get: "repo_Get env cfg db' (Some (TSlice (TPtr t))) [w] (Include [] []) = ([w'], Inr ())"
    and map: "map_of (cfg_mappings cfg) (typeID (TPtr t)) = Some m" "plain_fields m" "updateFields m flds \<noteq> []"
    and key: "findPopulatedLookupKey (re_json env) m x = Inr (Some k)"
      "findPopulatedLookupKey (re_json env) m (deref w) = Inr (Some k)" "list_all isSimpleField (lk_fields k)"
    and known: "list_ex (row_matches (key_columns m (lk_fields k)) (lk_values k)) (rows db)"
    and sql: "update_runs env m rows (update_columns m (updateFields m flds)) (key_columns m (lk_fields k))"
      "select_runs env cfg m k rows missing" "\<And>g. mset (re_range env g) = mset g"
    and columns: "distinct (map c_name (update_columns m (updateFields m flds)))"
      "c_name ` set (update_columns m (updateFields m flds)) \<inter> c_name ` set (key_columns m (lk_fields k)) = {}"
    and fit: "\<And>f. f \<in> set (updateFields m flds) \<Longrightarrow> \<exists>y. struct_get x f = Some y \<and> fits m f y"
  shows "\<exists>u. w' = VPtr u \<and> (\<forall>f \<in> set (updateFields m flds). struct_get u f = struct_get x f)"
proof -
  let ?fs = "updateFields m flds" and ?keys = "key_columns m (lk_fields k)"
  let ?cols = "update_columns m ?fs" and ?sel = "row_matches (key_columns m (lk_fields k)) (lk_values k)"
  let ?set = "row_set ?cols (field_values x ?fs)"
  have "map (struct_get x) (lk_fields k) = map Some (lk_values k)"
    using lookup_key_is_first_usable [OF key(1)] by (simp add: key_of_def)
  then have vals: "field_values x (lk_fields k) = lk_values k"
    by (simp add: field_values_def list_eq_iff_nth_eq)
  note up = put_updates [OF put map(1) key(1) sql(1) map(2,3), unfolded vals, OF known]
  have len: "length ?cols = length (field_values x ?fs)" by (simp add: update_columns_def field_values_def)
  have same: "map_of (?set r) (c_name c) = map_of r (c_name c)" if "c \<in> set ?keys" for c r
    using that columns(2) by (intro row_set_values(1) [OF len]) blast
  have keeps: "?sel (?set r) = ?sel r" for r
    unfolding row_matches_def by (intro list.rel_cong refl) (simp add: same)
  obtain r where r: "filter ?sel (rows db) = [r]" using up by (auto simp: length_Suc_conv)
  have "filter ?sel (rows db') = map ?set (filter ?sel (rows db))"
    using up by (simp add: filter_map comp_def keeps if_distrib cong: map_cong)
  with r have one: "filter ?sel (rows db') = [?set r]" by simp
  from get_reads_row [OF get map(1) key(2,3) sql(3,2) one] obtain u where w': "w' = VPtr u"
    and u: "f \<in> set (allFields m) \<Longrightarrow> map_of (colMap m) f = Some n \<Longrightarrow> map_of (?set r) n = Some y \<Longrightarrow> fits m f y \<Longrightarrow>
      struct_get u f = Some y" for f n y by blast
  have "struct_get u f = struct_get x f" if f: "f \<in> set ?fs" for f
  proof -
    obtain i where i: "i < length ?fs" "?fs ! i = f" using f by (auto simp: in_set_conv_nth)
    obtain y where y: "struct_get x f = Some y" "fits m f y" using fit [OF f] by blast
    have mem: "f \<in> set (allFields m)" using updateFields_columns [OF f] by (auto simp: allFields_def)
    then obtain n where n: "map_of (colMap m) f = Some n" using colMap_defined by blast
    have "c_name (?cols ! i) = n" using i n by (simp add: update_columns_def Let_def)
    moreover have "field_values x ?fs ! i = y" using i y by (simp add: field_values_def)
    ultimately have "map_of (?set r) n = Some y" using row_set_values(2) [OF len columns(1), of i r] i(1) by (auto simp: update_columns_def)
    from u [OF mem n this y(2)] y(1) show ?thesis by simp
  qed
  with w' show ?thesis by blast
qed

text \<open>A users table that updates and selects by id; the columns its rows do not mention hold what they were created
  with.\<close>

definition ex_missing :: "string \<Rightarrow> gval" where
  "ex_missing n = (if n = ''created'' then VTime 5 else if n = ''account_id'' then VStr ''1'' else VNilPtr)"

definition round_env :: "row list repo_env" where
  "round_env = users_env\<lparr>
     re_query := (\<lambda>db q vs target.
       let cols = (if length target = 7
         then [''id'', ''id'', ''created'', ''modified'', ''account_id'', ''user_address_id'', ''first_name'']
         else [''id'', ''first_name'', ''id''])
       in Inr (map (\<lambda>r. Inr (map (\<lambda>n. ScPlain (case map_of r n of Some v \<Rightarrow> v | None \<Rightarrow> ex_missing n)) cols))
            (filter (\<lambda>r. list_ex (\<lambda>v. map_of r ''id'' = Some v) vs) db), None)),
     re_slug := ex_slug\<rparr>"

lemma round_env_selects: "select_runs round_env zormtest_cfg UserMapping ex_gone_key (\<lambda>db. db) ex_missing"
  unfolding select_runs_def Let_def
proof (intro allI impI)
  fix plan :: select_plan and db :: "row list"
  let ?build = "buildSelectQueryPlan zormtest_cfg (re_driver round_env) UserMapping [] [] (Some (key_where ex_gone_key)) [] 1 0"
  let ?s = "pl_structure plan"
  assume "?build = Inr plan"
  moreover have "case ?build of Inl _ \<Rightarrow> False | Inr plan \<Rightarrow> snd (plan_query (re_driver round_env) plan) = [VStr ''7''] \<and>
      length (pl_target plan) = 7 \<and> map c_name (st_primaryKey (pl_structure plan) @ st_columns (pl_structure plan)) =
        [''id'', ''id'', ''created'', ''modified'', ''account_id'', ''user_address_id'', ''first_name'']" by code_simp
  ultimately have plan: "snd (plan_query (re_driver round_env) plan) = [VStr ''7'']" "length (pl_target plan) = 7"
    "map c_name (st_primaryKey ?s @ st_columns ?s) =
      [''id'', ''id'', ''created'', ''modified'', ''account_id'', ''user_address_id'', ''first_name'']" by simp_all
  have k: "row_matches (key_columns UserMapping (lk_fields ex_gone_key)) (lk_values ex_gone_key) =
      (\<lambda>r. map_of r ''id'' = Some (VStr ''7''))"
  proof -
    have "key_columns UserMapping (lk_fields ex_gone_key) = [\<lparr>c_table = bare_table UserMapping, c_name = ''id'', c_alias = []\<rparr>]"
      "lk_values ex_gone_key = [VStr ''7'']" by code_simp+
    then show ?thesis by (simp add: row_matches_def fun_eq_iff)
  qed
  have "scanned_row ex_missing ?s r = map (\<lambda>n. ScPlain (case map_of r n of Some v \<Rightarrow> v | None \<Rightarrow> ex_missing n))
      (map c_name (st_primaryKey ?s @ st_columns ?s))" for r
    by (simp add: scanned_row_def comp_def)
  then show "re_query round_env db (fst (plan_query (re_driver round_env) plan)) (snd (plan_query (re_driver round_env) plan))
      (pl_target plan) = Inr (map (\<lambda>r. Inr (scanned_row ex_missing ?s r))
        (filter (row_matches (key_columns UserMapping (lk_fields ex_gone_key)) (lk_values ex_gone_key)) db), None)"
    unfolding plan(1,3) k by (simp add: round_env_def Let_def plan(2))
qed

lemma one_result: "snd p = Inr () \<and> length (fst p) = 1 \<Longrightarrow> \<exists>x. p = ([x], Inr ())"
  by (cases p) (auto simp: length_Suc_conv)

theorem put_then_get_witness:
  "\<exists>db' objs' u.
     repo_Put round_env zormtest_cfg two_users (Some (TSlice (ptr_type UserMapping))) [VPtr ex_known_user]
       \<lparr>po_include = Include [''FirstName''] [], po_get = Include [] []\<rparr> = ((db', objs'), Inr ()) \<and>
     repo_Get round_env zormtest_cfg db' (Some (TSlice (ptr_type UserMapping))) [hd ex_stubs] (Include [] []) = ([VPtr u], Inr ()) \<and>
     struct_get u ''FirstName'' = Some (VStr ''Eve'')"
proof -
  let ?t = "TStruct zormtest_pkg ''User''"
  have ty: "ptr_type UserMapping = TPtr ?t" by code_simp
  let ?put = "repo_Put round_env zormtest_cfg two_users (Some (TSlice (TPtr ?t))) [VPtr ex_known_user]
       \<lparr>po_include = Include [''FirstName''] [], po_get = Include [] []\<rparr>"
  let ?get = "repo_Get round_env zormtest_cfg (fst (fst ?put)) (Some (TSlice (TPtr ?t))) [hd ex_stubs] (Include [] [])"
  have "snd ?put = Inr ()" by code_simp
  then have put: "?put = ((fst (fst ?put), snd (fst ?put)), Inr ())" by (metis prod.collapse)
  have "snd ?get = Inr () \<and> length (fst ?get) = 1" by code_simp
  from one_result [OF this] obtain w' where get: "?get = ([w'], Inr ())" by (rule exE)
  have pf: "plain_fields UserMapping" by code_simp
  have up: "updateFields UserMapping [''FirstName''] = [''FirstName'']" by code_simp
  have key: "findPopulatedLookupKey (re_json round_env) UserMapping ex_known_user = Inr (Some ex_gone_key)"
    "findPopulatedLookupKey (re_json round_env) UserMapping (deref (hd ex_stubs)) = Inr (Some ex_gone_key)"
    "list_all isSimpleField (lk_fields ex_gone_key)" by code_simp+
  have known: "list_ex (row_matches (key_columns UserMapping (lk_fields ex_gone_key)) (lk_values ex_gone_key)) two_users" by code_simp
  have "lk_fields ex_gone_key = [''ID'']" by code_simp
  then have ur: "update_runs round_env UserMapping (\<lambda>db. db) (update_columns UserMapping (updateFields UserMapping [''FirstName'']))
      (key_columns UserMapping (lk_fields ex_gone_key))"
    by (auto simp: up update_runs_def round_env_def users_env_def users_exec_def users_ucols_def users_keys_def Let_def)
  have range: "mset (re_range round_env g) = mset g" for g by (simp add: round_env_def users_env_def)
  have cols: "distinct (map c_name (update_columns UserMapping (updateFields UserMapping [''FirstName''])))"
    "c_name ` set (update_columns UserMapping (updateFields UserMapping [''FirstName''])) \<inter>
     c_name ` set (key_columns UserMapping (lk_fields ex_gone_key)) = {}" by code_simp+
  have fit: "\<exists>y. struct_get ex_known_user f = Some y \<and> fits UserMapping f y" if "f \<in> set (updateFields UserMapping [''FirstName''])" for f
  proof -
    have "struct_get ex_known_user ''FirstName'' = Some (VStr ''Eve'') \<and> fits UserMapping ''FirstName'' (VStr ''Eve'')" by code_simp
    then show ?thesis using that by (auto simp: up)
  qed
  have eve: "struct_get ex_known_user ''FirstName'' = Some (VStr ''Eve'')" by code_simp
  from put_then_get [OF put get zormtest_mapping(2) pf _ key known ur round_env_selects range cols fit] obtain u where
    "w' = VPtr u" "struct_get u ''FirstName'' = Some (VStr ''Eve'')" using eve by (auto simp: up)
  then show ?thesis unfolding ty using put get by blast
qed

end
