(* ===== verification/Zamqp_Utilization.thy ===== *)
theory Zamqp_Utilization
  imports Zamqp_Consumer Go_Values
begin

text \<open>
  The goroutine of \<^verbatim>\<open>Start\<close> in \<^verbatim>\<open>go/zamqp/direct_consumer.go\<close> that reports, every second, the share of the workers
  that are in a handler, beside the goroutines of \<open>Zamqp_Consumer\<close>. Instants are nanoseconds.
\<close>

text \<open>The first report waits for a full second of the clock.\<close>

definition initial_delay :: "int \<Rightarrow> int \<Rightarrow> int" where
  "initial_delay interval now =
     (let lastInterval = now - now mod interval; nextInterval = lastInterval + interval in nextInterval - now)"

text \<open>\<^verbatim>\<open>100*(float64(busy)/float64(concurrency))\<close>; the quotient of two zeros is not a number. The rounding of
  floating point is left out.\<close>

definition utilization :: "nat \<Rightarrow> 'd consumer \<Rightarrow> gofloat" where
  "utilization n s =
     (if n = 0 then (if busyCounter s = 0 then NaN else if 0 < busyCounter s then PosInf else NegInf)
      else Finite (100 * (of_int (busyCounter s) / of_nat n)))"

text \<open>\<^verbatim>\<open>time.After\<close> is waited for whatever the context does; the loop ends with the process context.\<close>

datatype ticker = Delayed | Ticking | Stopped

inductive monitored_step :: "nat \<Rightarrow> 'd consumer \<times> ticker \<times> gofloat list \<Rightarrow> 'd consumer \<times> ticker \<times> gofloat list \<Rightarrow> bool" for n where
  consumer_moves: "\<not> crashed s \<Longrightarrow> consumer_step n s s' \<or> environment_step s s' \<Longrightarrow> monitored_step n (s, t, gs) (s', t, gs)"
| delay_over: "\<not> crashed s \<Longrightarrow> monitored_step n (s, Delayed, gs) (s, Ticking, gs)"
| tick: "\<not> crashed s \<Longrightarrow> monitored_step n (s, Ticking, gs) (s, Ticking, gs @ [utilization n s])"
| ticker_stops: "\<not> crashed s \<Longrightarrow> processDone s \<Longrightarrow> monitored_step n (s, Ticking, gs) (s, Stopped, gs)"

inductive_cases monitored_stepE: "monitored_step n (s, t, gs) x"

lemma initial_delay:
  assumes "0 < interval"
  shows "0 < initial_delay interval now \<and> initial_delay interval now \<le> interval \<and>
         (now + initial_delay interval now) mod interval = 0"
proof -
  have e: "initial_delay interval now = interval - now mod interval" by (simp add: initial_delay_def)
  have "now + (interval - now mod interval) = interval * (now div interval + 1)"
    using mult_div_mod_eq [of interval now] by (simp add: algebra_simps)
  then have "(now + (interval - now mod interval)) mod interval = 0" by simp
  then show ?thesis unfolding e using pos_mod_bound [OF assms, of now] pos_mod_sign [OF assms, of now] by simp
qed

lemma monitored_reachable:
  "(monitored_step n)\<^sup>*\<^sup>* (started_consumer, Delayed, []) (s, t, gs) \<Longrightarrow> reachable n s"
proof (induction "(s, t, gs)" arbitrary: s t gs rule: rtranclp_induct)
  case base
  then show ?case by (simp add: reachable.start)
next
  case (step x)
  obtain s' t' gs' where x: "x = (s', t', gs')" by (cases x) auto
  with step.hyps(3) have "reachable n s'" by blast
  with step.hyps(2) show ?case unfolding x
    by (elim monitored_stepE) (auto intro: reachable.own reachable.environment)
qed

text \<open>The utilization of a reachable consumer\<close>

definition percentage :: "gofloat \<Rightarrow> bool" where
  "percentage g \<longleftrightarrow> (\<exists>x. g = Finite x \<and> 0 \<le> x \<and> x \<le> 100)"

lemma utilization_percentage:
  assumes "reachable n s" "0 < n"
  shows "percentage (utilization n s)"
proof -
  have b: "0 \<le> busyCounter s" "busyCounter s \<le> int n"
    using reachable_inv [OF assms(1)] busy_workers_le [of n "workers s"] by (simp_all add: consumer_inv_def accounts_inv_def)
  then have "(0 :: rat) \<le> of_int (busyCounter s)" "(of_int (busyCounter s) :: rat) \<le> of_nat n"
    by simp (metis b(2) of_int_le_iff of_int_of_nat_eq)
  then show ?thesis using assms(2) by (auto simp: percentage_def utilization_def divide_le_eq)
qed

text \<open>Whatever the goroutines do, handlers that panic and workers that are replaced included, what is reported lies
  between 0 and 100; with no worker at all it is no number.\<close>

theorem gauges_are_percentages:
  assumes "(monitored_step n)\<^sup>*\<^sup>* (started_consumer, Delayed, []) (s, t, gs)" "0 < n"
  shows "\<forall>g \<in> set gs. percentage g"
  using assms(1)
proof (induction "(s, t, gs)" arbitrary: s t gs rule: rtranclp_induct)
  case base
  then show ?case by simp
next
  case (step x)
  obtain s' t' gs' where x: "x = (s', t', gs')" by (cases x) auto
  with step.hyps(3) have g: "\<forall>g \<in> set gs'. percentage g" by blast
  have "reachable n s'" using step.hyps(1) unfolding x by (rule monitored_reachable)
  from step.hyps(2) show ?case unfolding x
    by (elim monitored_stepE) (use g utilization_percentage [OF \<open>reachable n s'\<close> assms(2)] in auto)
qed

lemma no_workers_no_number: "reachable 0 s \<Longrightarrow> utilization 0 s = NaN"
  using reachable_inv [of 0 s] busy_workers_le [of 0 "workers s"]
  by (simp add: utilization_def consumer_inv_def accounts_inv_def)

end
