(* ===== verification/Zstats_Context.thy ===== *)
theory Zstats_Context
  imports Zstats Zlog
begin

text \<open>
  The values a context carries: \<^verbatim>\<open>Context\<close> and \<^verbatim>\<open>FromContext\<close> of \<^verbatim>\<open>go/zstats/context.go\<close>, and \<^verbatim>\<open>Context\<close> of
  \<^verbatim>\<open>go/zlog/context.go\<close>. The two packages use keys of types of their own, so a context is a record with one place
  for each. The text of \<^verbatim>\<open>debug.Stack\<close> is an argument.
\<close>

record go_context =
  cv_log :: "nat option"
  cv_stats :: "nat option"

definition log_Context :: "go_context \<Rightarrow> nat \<Rightarrow> go_context" where
  "log_Context ctx l = ctx\<lparr>cv_log := Some l\<rparr>"

definition stats_Context :: "go_context \<Rightarrow> nat \<Rightarrow> go_context" where
  "stats_Context ctx s = ctx\<lparr>cv_stats := Some s\<rparr>"

text \<open>A stack shorter than a thousand bytes loses its last one; the slice of an empty one would panic.\<close>

definition stack_part :: "string \<Rightarrow> string res" where
  "stack_part st =
     (let n = (if length st < 1000 then int (length st) - 1 else 1000)
      in if n < 0 then Inl (Panic ''slice bounds out of range'') else Inr (take (nat n) st))"

text \<open>Without a stats object there is a warning and a new object that reports nothing.\<close>

definition stats_FromContext :: "string \<Rightarrow> go_context \<Rightarrow> ('v, 'w) loggers \<Rightarrow> 'x stats_store \<Rightarrow> 'w \<Rightarrow>
    (('v, 'w) loggers \<times> 'x stats_store \<times> 'w) \<times> nat res" where
  "stats_FromContext st ctx h store w =
     (case cv_stats ctx of
        Some s \<Rightarrow> ((h, store, w), Inr s)
      | None \<Rightarrow>
     (case stack_part st of
        Inl e \<Rightarrow> ((h, store, w), Inl e)
      | Inr part \<Rightarrow>
          (let (h', l) = log_FromContext (cv_log ctx) h;
               w' = log_Warn (h' ! l) (''stats requested from context, but no stats are have been set: '' @ part) w;
               (store', s) = NewStats NewNullAdapter store
           in ((h', store', w'), Inr s))))"

lemma contexts_are_apart [simp]:
  "cv_stats (log_Context ctx l) = cv_stats ctx" "cv_log (stats_Context ctx s) = cv_log ctx"
  "cv_stats (stats_Context ctx s) = Some s" "cv_log (log_Context ctx l) = Some l"
  by (simp_all add: log_Context_def stats_Context_def)

text \<open>What was put into a context comes out of it, also of the contexts made from it by adding a logger.\<close>

lemma stats_in_context: "stats_FromContext st (log_Context (stats_Context ctx s) l) h store w = ((h, store, w), Inr s)"
  by (simp add: stats_FromContext_def)

text \<open>The object made for a context without one leaves those that exist alone and drops whatever is reported through it.\<close>

lemma stats_without_context:
  assumes "cv_stats ctx = None" "stats_FromContext st ctx h store w = ((h', store', w'), Inr s)"
  shows "take (length store) store' = store \<and> s = length store \<and> stats_Count (store' ! s) name v x = (x, Inr ()) \<and>
         stats_Gauge (store' ! s) name v x = (x, Inr ()) \<and> stats_Timer (store' ! s) name cb x = cb x"
  using assms
  by (auto simp: stats_FromContext_def NewStats_def stats_Count_def stats_Gauge_def stats_Timer_def NewNullAdapter_def
      Let_def split: sum.splits prod.splits)

end
