(* ===== verification/Zprometheus_Server.thy ===== *)
theory Zprometheus_Server
  imports Zapi
begin

text \<open>
  How the metrics of \<^verbatim>\<open>go/zstats/zprometheus/zprometheus.go\<close> are served: \<^verbatim>\<open>metricsHandler\<close> over a writer that
  commits the status with the first byte, and \<^verbatim>\<open>Start\<close> with its two goroutines as a step relation. What
  \<^verbatim>\<open>Gather\<close> returns, the bytes an encoder writes for a family before it returns, and listening on an address are
  arguments.
\<close>

section \<open>The handler\<close>

text \<open>\<^verbatim>\<open>http.ResponseWriter\<close>: \<open>hw_sent\<close> is the status line and the headers once they are out; later changes of the
  headers and a second status are ignored.\<close>

record response_writer =
  hw_headers :: headers
  hw_sent :: "(int \<times> headers) option"
  hw_body :: string

definition new_writer :: response_writer where
  "new_writer = \<lparr>hw_headers = [], hw_sent = None, hw_body = []\<rparr>"

definition header_set :: "string \<Rightarrow> string \<Rightarrow> response_writer \<Rightarrow> response_writer" where
  "header_set k v w = w\<lparr>hw_headers := map_put (canonical_key k) [v] (hw_headers w)\<rparr>"

definition write_header :: "int \<Rightarrow> response_writer \<Rightarrow> response_writer" where
  "write_header status w = (case hw_sent w of Some _ \<Rightarrow> w | None \<Rightarrow> w\<lparr>hw_sent := Some (status, hw_headers w)\<rparr>)"

definition write_bytes :: "string \<Rightarrow> response_writer \<Rightarrow> response_writer" where
  "write_bytes b w = (if b = [] then w else (write_header 200 w)\<lparr>hw_body := hw_body w @ b\<rparr>)"

definition http_Error :: "string \<Rightarrow> int \<Rightarrow> response_writer \<Rightarrow> response_writer" where
  "http_Error message status w =
     (let w1 = w\<lparr>hw_headers := filter (\<lambda>(k, _). k \<noteq> ''Content-Length'') (hw_headers w)\<rparr>;
          w2 = header_set ''X-Content-Type-Options'' ''nosniff'' (header_set ''Content-Type'' ''text/plain; charset=utf-8'' w1)
      in write_bytes (message @ [CHR 0x0A]) (write_header status w2))"

text \<open>The encoder gives the bytes it has written and the error it returns.\<close>

fun encode_families :: "('f \<Rightarrow> string \<times> error option) \<Rightarrow> 'f list \<Rightarrow> response_writer \<Rightarrow> response_writer" where
  "encode_families encode [] w = w"
| "encode_families encode (mf # mfs) w =
     (case encode mf of
        (b, None) \<Rightarrow> encode_families encode mfs (write_bytes b w)
      | (b, Some e) \<Rightarrow> http_Error (''error encoding metrics: '' @ error_text e) 500 (write_bytes b w))"

definition metricsHandler :: "'f list res \<Rightarrow> ('f \<Rightarrow> string \<times> error option) \<Rightarrow> string \<Rightarrow> response_writer \<Rightarrow> response_writer" where
  "metricsHandler gathered encode contentType w =
     (case gathered of
        Inl e \<Rightarrow> http_Error (''error gathering metrics: '' @ error_text e) 500 w
      | Inr mfs \<Rightarrow> encode_families encode mfs (header_set ''Content-Type'' contentType w))"

text \<open>What the client gets: nothing sent by the handler means 200 without a body.\<close>

definition writer_status :: "response_writer \<Rightarrow> int" where
  "writer_status w = (case hw_sent w of None \<Rightarrow> 200 | Some (status, _) \<Rightarrow> status)"

lemma write_bytes_sent [simp]: "b \<noteq> [] \<Longrightarrow> hw_sent (write_bytes b w) = hw_sent (write_header 200 w)"
  by (simp add: write_bytes_def)

lemma write_header_twice: "hw_sent w = Some x \<Longrightarrow> write_header status w = w"
  by (simp add: write_header_def)

lemma writer_body [simp]:
  "hw_body (write_bytes b w) = hw_body w @ b" "hw_body (write_header s w) = hw_body w"
  "hw_body (header_set k v w) = hw_body w" "hw_body (http_Error m s w) = hw_body w @ m @ [CHR 0x0A]"
  by (auto simp: write_bytes_def write_header_def header_set_def http_Error_def Let_def split: option.splits)

lemma error_status:
  "writer_status (http_Error m s w) = (case hw_sent w of None \<Rightarrow> s | Some (status, _) \<Rightarrow> status)"
  by (auto simp: http_Error_def writer_status_def write_bytes_def write_header_def header_set_def Let_def split: option.splits)

text \<open>Without an error the body is the families, in order.\<close>

lemma all_encoded:
  "\<forall>mf \<in> set mfs. snd (encode mf) = None \<Longrightarrow>
   hw_body (encode_families encode mfs w) = hw_body w @ concat (map (fst \<circ> encode) mfs)"
  by (induction mfs arbitrary: w) (auto split: prod.splits option.splits)

lemma gathering_fails: "writer_status (metricsHandler (Inl e) encode ct new_writer) = 500"
  by (simp add: metricsHandler_def error_status new_writer_def)

text \<open>The error of a family is a 500 only if nothing was written before it; otherwise the answer is a 200 whose body ends
  in the text of the error.\<close>

lemma sent_stays: "hw_sent w = Some x \<Longrightarrow> hw_sent (encode_families encode mfs w) = Some x"
proof (induction mfs arbitrary: w)
  case (Cons mf mfs)
  have e: "hw_sent (write_bytes b w) = Some x" for b using Cons.prems by (simp add: write_bytes_def write_header_def)
  then have "hw_sent (http_Error m s (write_bytes b w)) = Some x" for m s b
    by (simp add: http_Error_def write_bytes_def write_header_def header_set_def Let_def)
  then show ?case using Cons.IH [OF e] by (auto split: prod.splits option.splits)
qed simp

theorem late_error_is_a_success:
  assumes "encode mf = (b, None)" "b \<noteq> []" "\<forall>f \<in> set mfs. snd (encode f) = None" "encode bad = (b', Some e)"
  shows "writer_status (metricsHandler (Inr (mf # mfs @ bad # rest)) encode ct new_writer) = 200 \<and>
         hw_body (metricsHandler (Inr (mf # mfs @ bad # rest)) encode ct new_writer) =
           concat (map (fst \<circ> encode) (mf # mfs)) @ b' @ ''error encoding metrics: '' @ error_text e @ [CHR 0x0A]"
proof -
  let ?w = "write_bytes b (header_set ''Content-Type'' ct new_writer)"
  obtain hs where "hw_sent ?w = Some (200, hs)"
    using assms(2) by (auto simp: write_header_def header_set_def new_writer_def)
  then have "hw_sent (encode_families encode (mfs @ bad # rest) ?w) = Some (200, hs)" by (rule sent_stays)
  moreover have "hw_body (encode_families encode (mfs @ bad # rest) w) =
      hw_body w @ concat (map (fst \<circ> encode) mfs) @ b' @ ''error encoding metrics: '' @ error_text e @ [CHR 0x0A]" for w
    using assms(3,4) by (induction mfs arbitrary: w) (auto split: prod.splits option.splits)
  ultimately show ?thesis
    using assms(1) by (simp add: metricsHandler_def writer_status_def) (simp add: new_writer_def)
qed

section \<open>The server\<close>

text \<open>\<open>pm_ended\<close> is what \<^verbatim>\<open>Serve\<close> has returned, \<open>pm_shutdown\<close> what \<^verbatim>\<open>Shutdown\<close> has (nobody looks at it), \<open>pm_log\<close> the
  lines logged.\<close>

record metrics_server =
  pm_cancelled :: bool
  pm_closing :: bool
  pm_requests :: nat
  pm_ended :: "error option"
  pm_shutdown :: "unit res option"
  pm_log :: "string list"

definition new_metrics_server :: metrics_server where
  "new_metrics_server =
     \<lparr>pm_cancelled = False, pm_closing = False, pm_requests = 0, pm_ended = None, pm_shutdown = None, pm_log = []\<rparr>"

definition prometheus_Start :: "(string \<Rightarrow> unit res) \<Rightarrow> string \<Rightarrow> metrics_server res" where
  "prometheus_Start listen addr =
     bind_res (wrap_res (''failed to listen on '' @ addr) (listen addr)) (\<lambda>_. Inr new_metrics_server)"

lemma started: "prometheus_Start listen addr = Inr s \<Longrightarrow> s = new_metrics_server"
  by (cases "listen addr") (simp_all add: prometheus_Start_def)

definition serve_returns :: "error \<Rightarrow> metrics_server \<Rightarrow> metrics_server" where
  "serve_returns e s =
     s\<lparr>pm_ended := Some e, pm_log := pm_log s @ [''failed to start Prometheus metrics server: '' @ error_text e]\<rparr>"

text \<open>By its documentation \<^verbatim>\<open>Serve\<close> never returns without an error, and ends with \<^verbatim>\<open>ErrServerClosed\<close> once a shutdown has
  begun; \<^verbatim>\<open>Shutdown\<close> waits for the open requests or for the end of the context it is given. Here it is given the
  context whose end has started it.\<close>

inductive metrics_step :: "metrics_server \<Rightarrow> metrics_server \<Rightarrow> bool" where
  cancel: "metrics_step s (s\<lparr>pm_cancelled := True\<rparr>)"
| accept: "pm_ended s = None \<Longrightarrow> \<not> pm_closing s \<Longrightarrow> metrics_step s (s\<lparr>pm_requests := pm_requests s + 1\<rparr>)"
| answer: "0 < pm_requests s \<Longrightarrow> metrics_step s (s\<lparr>pm_requests := pm_requests s - 1\<rparr>)"
| serve_fails: "pm_ended s = None \<Longrightarrow> \<not> pm_closing s \<Longrightarrow> metrics_step s (serve_returns e s)"
| serve_closed: "pm_ended s = None \<Longrightarrow> pm_closing s \<Longrightarrow> metrics_step s (serve_returns (Sentinel ''http: Server closed'') s)"
| shutdown_begins: "pm_cancelled s \<Longrightarrow> \<not> pm_closing s \<Longrightarrow> metrics_step s (s\<lparr>pm_closing := True\<rparr>)"
| shutdown_idle: "pm_closing s \<Longrightarrow> pm_shutdown s = None \<Longrightarrow> pm_requests s = 0 \<Longrightarrow> metrics_step s (s\<lparr>pm_shutdown := Some (Inr ())\<rparr>)"
| shutdown_gives_up: "pm_closing s \<Longrightarrow> pm_shutdown s = None \<Longrightarrow> pm_cancelled s \<Longrightarrow>
    metrics_step s (s\<lparr>pm_shutdown := Some (Inl (Sentinel ''context canceled''))\<rparr>)"

inductive_cases metrics_stepE: "metrics_step s s'"

text \<open>One line for each end of \<^verbatim>\<open>Serve\<close>, and it always says that the server failed to start.\<close>

lemma every_end_is_logged:
  assumes "prometheus_Start listen addr = Inr s0" "metrics_step\<^sup>*\<^sup>* s0 s"
  shows "pm_log s = (case pm_ended s of None \<Rightarrow> [] | Some e \<Rightarrow> [''failed to start Prometheus metrics server: '' @ error_text e])"
  using assms(2)
proof (induction rule: rtranclp_induct)
  case base
  then show ?case using started [OF assms(1)] by (simp add: new_metrics_server_def)
next
  case (step t u)
  from step.hyps(2) step.IH show ?case by (elim metrics_stepE) (auto simp: serve_returns_def)
qed

text \<open>The context of the shutdown has ended before it begins, so it need not wait: it can give up with any number of
  requests open.\<close>

lemma accept_many:
  "pm_ended s = None \<Longrightarrow> \<not> pm_closing s \<Longrightarrow> metrics_step\<^sup>*\<^sup>* s (s\<lparr>pm_requests := pm_requests s + n\<rparr>)"
proof (induction n)
  case (Suc n)
  let ?t = "s\<lparr>pm_requests := pm_requests s + n\<rparr>"
  have "metrics_step ?t (?t\<lparr>pm_requests := pm_requests ?t + 1\<rparr>)" using Suc.prems by (intro metrics_step.accept) simp_all
  then show ?case using Suc by (auto intro: rtranclp.rtrancl_into_rtrancl)
qed simp

theorem shutdown_does_not_wait:
  assumes "prometheus_Start listen addr = Inr s0"
  shows "\<exists>s. metrics_step\<^sup>*\<^sup>* s0 s \<and> pm_shutdown s = Some (Inl (Sentinel ''context canceled'')) \<and> pm_requests s = n"
proof -
  let ?s1 = "s0\<lparr>pm_requests := pm_requests s0 + n\<rparr>"
  let ?s2 = "?s1\<lparr>pm_cancelled := True\<rparr>"
  let ?s3 = "?s2\<lparr>pm_closing := True\<rparr>"
  have s0: "pm_requests s0 = 0" "pm_ended s0 = None" "\<not> pm_closing s0" "pm_shutdown s0 = None"
    using started [OF assms] by (simp_all add: new_metrics_server_def)
  have "metrics_step\<^sup>*\<^sup>* s0 ?s1" using s0 by (intro accept_many)
  moreover have "metrics_step ?s1 ?s2" by (rule metrics_step.cancel)
  moreover have "metrics_step ?s2 ?s3" using s0 by (intro metrics_step.shutdown_begins) simp_all
  moreover have "metrics_step ?s3 (?s3\<lparr>pm_shutdown := Some (Inl (Sentinel ''context canceled''))\<rparr>)"
    using s0 by (intro metrics_step.shutdown_gives_up) simp_all
  ultimately have "metrics_step\<^sup>*\<^sup>* s0 (?s3\<lparr>pm_shutdown := Some (Inl (Sentinel ''context canceled''))\<rparr>)"
    by (meson rtranclp.rtrancl_into_rtrancl)
  moreover have "pm_requests ?s3 = n" using s0(1) by simp
  ultimately show ?thesis by (intro exI [of _ "?s3\<lparr>pm_shutdown := Some (Inl (Sentinel ''context canceled''))\<rparr>"]) simp
qed

end
