(* ===== verification/Spec2Isabelle.thy ===== *)
theory Spec2Isabelle
  imports Zwarn Zfunc Zsort Zcache Zorm Zsql Zapi_Laws Zormsql_Mapping_Laws Zormsql_Visitors_Laws
    Zormsql_Plan_Query Zormsql_Find_Laws Zormsql_Find_Types Zormsql_Transaction
    Zamqp_Laws Zamqp_Consumer Ztime_Laws Zprometheus_Laws Zsql_Connection Zencodeio Zsig
    Zapi_Lifecycle Zapi_Paths Zaspect_Laws Zhttpclient Zormsql_Put_Get
    Zamqp_Utilization Zstats_Context Zprometheus_Server
begin

text \<open>
  A verification library for \<^verbatim>\<open>zote\<close>, a toolkit of Go packages for services. The library models
  the packages that carry logic of their own and proves what makes each of them correct.

  \<^bold>\<open>The program.\<close> The heart of \<^verbatim>\<open>zote\<close> is an object-relational mapper. A query is described in
  an abstract language (\<^verbatim>\<open>zelement\<close>: elements, clauses, sorts). \<^verbatim>\<open>zorm\<close> defines the options of
  the repository operations and pages through repositories. \<^verbatim>\<open>zorm/zormsql\<close> implements a
  repository over \<^verbatim>\<open>zsql\<close>: mappings say which table, columns, keys and relations belong to a
  struct; a select plan turns options into joins, SQL text and bound values; the rows that come
  back are loaded into objects and their relations. \<^verbatim>\<open>zsql\<close> has the driver interface (MySQL and
  SQLite), transactions and query helpers. Beside the mapper there are an HTTP server
  (\<^verbatim>\<open>zapi\<close>) and client (\<^verbatim>\<open>zhttpclient\<close>), consumers and publishers of messages (\<^verbatim>\<open>zamqp\<close>), a read-through cache
  (\<^verbatim>\<open>zcache\<close>), dates and times with their text forms (\<^verbatim>\<open>ztime\<close>), statistics (\<^verbatim>\<open>zstats\<close>), logging
  (\<^verbatim>\<open>zlog\<close>), configuration of commands and signals (\<^verbatim>\<open>zcmd\<close>, \<^verbatim>\<open>zsig\<close>), encoders of streams
  (\<^verbatim>\<open>zencodeio\<close>), warnings (\<^verbatim>\<open>zwarn\<close>) and helpers (\<^verbatim>\<open>zfunc\<close>, \<^verbatim>\<open>zreflect\<close>).

  \<^bold>\<open>Theories.\<close>

  \<^item> \<open>Zote_Prelude\<close>, \<open>Go_Strings\<close>, \<open>Go_Values\<close>, \<open>Go_Url\<close>: errors and results, loops that stop at the first
    error, Go maps, strings, the values and types that reflection sees
    (\<^verbatim>\<open>go/zreflect/zreflect.go\<close>), and escaping and joining of paths.
  \<^item> \<open>Zfunc\<close>, \<open>Zwarn\<close>: \<^verbatim>\<open>go/zfunc\<close>, \<^verbatim>\<open>go/zwarn\<close>.
  \<^item> \<open>Zelement\<close>, \<open>Zsort\<close>: \<^verbatim>\<open>go/zelement\<close> and its subpackages; sorting of objects in memory over the
    locale \<open>go_sort\<close>, the contract of \<^verbatim>\<open>sort.Slice\<close>.
  \<^item> \<open>Zcache\<close>: \<^verbatim>\<open>go/zcache\<close>. The locale \<open>cache_contract\<close> is what a reader relies on; the redis
    provider gives it (locale \<open>redis\<close>, a sublocale).
  \<^item> \<open>Zorm\<close>: \<^verbatim>\<open>go/zorm\<close>: field lists with negation, \<^verbatim>\<open>FindAll\<close>, \<^verbatim>\<open>GetChunked\<close> over the locale
    \<open>paged_rows\<close>.
  \<^item> \<open>Zsql\<close>: \<^verbatim>\<open>go/zsql\<close> with the drivers \<^verbatim>\<open>zmysql\<close> and \<^verbatim>\<open>zsqlite3\<close>; the locales \<open>sql_driver\<close>,
    \<open>plain_methods\<close> (drivers) and \<open>tx_store\<close> (transactional databases).
  \<^item> \<open>Zormsql_Mapping\<close>, \<open>Zormsql_Mapping_Laws\<close>: \<^verbatim>\<open>mapping.go\<close>, \<^verbatim>\<open>primitives.go\<close> and part of
    \<^verbatim>\<open>helpers.go\<close>. \<open>mapStructure\<close> builds the tree of columns and scan targets of a select.
  \<^item> \<open>Zormtest_Models\<close>: the models and mappings of \<^verbatim>\<open>zormtest\<close>, the configuration of the examples.
  \<^item> \<open>Zormsql_Resolver\<close>: \<^verbatim>\<open>field_resolver.go\<close>, \<^verbatim>\<open>field_path_extractor.go\<close>.
  \<^item> \<open>Zormsql_Visitors\<close>, \<open>Zormsql_Visitors_Laws\<close>: the where, element and sort visitors; the locale
    \<open>quiet_rendering\<close> extends \<open>sql_driver\<close> by an environment of names.
  \<^item> \<open>Zormsql_Plan\<close>, \<open>Zormsql_Plan_Joins\<close>, \<open>Zormsql_Plan_Query\<close>: \<^verbatim>\<open>select_query_plan.go\<close> up to the
    SQL text.
  \<^item> \<open>Zormsql_Find\<close>, \<open>Zormsql_Find_Laws\<close>: loading rows, grouping them into objects, sorting
    relations, and \<^verbatim>\<open>Find\<close> of \<^verbatim>\<open>repo.go\<close>.
  \<^item> \<open>Zormsql_Write\<close>, \<open>Zormsql_Repo\<close>: \<^verbatim>\<open>repo.go\<close>: \<^verbatim>\<open>insert\<close>, \<^verbatim>\<open>update\<close>, \<^verbatim>\<open>deleteByPK\<close>, the upsert of one model;
    \<^verbatim>\<open>Get\<close>, \<^verbatim>\<open>Put\<close> with its cascades and \<^verbatim>\<open>Delete\<close>, over a database with a query and an exec call.
  \<^item> \<open>Zormsql_Write_Laws\<close>, \<open>Zormsql_Upsert\<close>, \<open>Zormsql_Get_Laws\<close>, \<open>Zormsql_Repo_Laws\<close>: what these operations
    do to the statements sent, to a table and to the objects handed in. \<open>Zormsql_Put_Get\<close>: a put followed by a get.
  \<^item> \<open>Zormsql_Transaction\<close>: \<^verbatim>\<open>NewRepository\<close>, \<^verbatim>\<open>Begin\<close>, \<^verbatim>\<open>Commit\<close>, \<^verbatim>\<open>Rollback\<close> and a Put in a transaction.
  \<^item> \<open>Zormtest_Suite\<close>, \<open>Zormtest_Laws\<close>: \<^verbatim>\<open>zormtest/get.go\<close>, \<^verbatim>\<open>find.go\<close>, \<^verbatim>\<open>put.go\<close>, \<^verbatim>\<open>delete.go\<close>: the
    scenarios every repository has to pass, as programs over a record of repository operations
    (\<open>orm_queryer\<close>); the operations of \<open>Zormsql_Repo\<close> are one such record.
  \<^item> \<open>Zapi\<close>, \<open>Zapi_Laws\<close>: \<^verbatim>\<open>go/zapi\<close>. \<open>Zapi_Lifecycle\<close>: \<^verbatim>\<open>ListenAndServe\<close> and \<^verbatim>\<open>Shutdown\<close> with the
    requests in flight, as a step relation. \<open>Zapi_Paths\<close>: \<^verbatim>\<open>RenderPathf\<close>.
    \<open>Zhttpclient\<close>: \<^verbatim>\<open>go/zhttpclient\<close>.
  \<^item> \<open>Zamqp\<close>, \<open>Zamqp_Laws\<close>: \<^verbatim>\<open>go/zamqp\<close>: declarations, messages and their encoding, publishing with
    confirmation, and the answers of a delivery, over the calls of the AMQP client.
  \<^item> \<open>Zamqp_Consumer\<close>: \<^verbatim>\<open>direct_consumer.go\<close>: starting as a function, then the goroutines of \<^verbatim>\<open>Start\<close> as a
    step relation over their channels, with reachable states, an invariant and a measure. \<open>Zamqp_Utilization\<close>: its report of busy workers.

  \<^item> \<open>Go_Calendar\<close>, \<open>Go_Time\<close>: what the code uses of Go's \<^verbatim>\<open>time\<close> package: the Gregorian calendar (days to
    civil dates and back), normalisation of out-of-range months and days, zones, formats, parsing.
  \<^item> \<open>Ztime\<close>, \<open>Ztime_Laws\<close>: \<^verbatim>\<open>go/ztime\<close>: dates, months, times, unix times, resolutions, zones.
  \<^item> \<open>Zstats\<close>: \<^verbatim>\<open>go/zstats\<close> with the null and the statsd adapter. \<open>Zprometheus\<close>,
    \<open>Zprometheus_Laws\<close>: the prometheus adapter as a state with one vector for each metric name and
    a step for each report. \<open>Zprometheus_Server\<close>: the handler and the server of its metrics.
    \<open>Zstats_Context\<close>: loggers and stats in contexts.
  \<^item> \<open>Zlog\<close>: \<^verbatim>\<open>go/zlog\<close>, \<^verbatim>\<open>zlogrus\<close>. \<open>Zsql_Connection\<close>: \<^verbatim>\<open>go/zsql/logging.go\<close>, \<^verbatim>\<open>json.go\<close> and
    \<^verbatim>\<open>NewConnection\<close>, over the connections of \<open>Zsql\<close> and the loggers of \<open>Zlog\<close>.
  \<^item> \<open>Zencodeio\<close>: \<^verbatim>\<open>go/zencodeio\<close>. \<open>Zcmd\<close>: \<^verbatim>\<open>go/zcmd\<close>: flags, aspects, environment, configuration files
    and \<^verbatim>\<open>RunArgs\<close>. \<open>Zaspect\<close>, \<open>Zaspect_Laws\<close>: the aspects with which commands declare and read the
    options of the server, the databases, the caches, the brokers, logging and statistics
    (\<^verbatim>\<open>zapicmd\<close>, \<^verbatim>\<open>zsqlcmd\<close>, \<^verbatim>\<open>zmysql\<close>, \<^verbatim>\<open>zsqlite3\<close>, \<^verbatim>\<open>zredis\<close>, \<^verbatim>\<open>zamqpcmd\<close>, \<^verbatim>\<open>zlogcmd\<close>, \<^verbatim>\<open>zstatscmd\<close>,
    \<^verbatim>\<open>zts\<close>), and the addresses they build from them.
    \<open>Zsig\<close>: \<^verbatim>\<open>go/zsig\<close>, the listener goroutine and its channels as a step relation.
  \<^item> \<open>Zormsql_Find_Types\<close>: the objects that \<^verbatim>\<open>Find\<close> builds are values of the Go types they are
    declared with.

  \<^bold>\<open>How the code is modelled.\<close> A Go error is a value of \<open>error\<close>, a fallible function returns
  \<open>error + 'a\<close>; a panic is an error that is not wrapped on its way up, and the deferred
  \<^verbatim>\<open>recover\<close> of the code turns it into a plain one. A struct is a record, an interface closed in
  the repository a datatype, an interface open to clients a record of functions or an argument. A
  map is an association list whose order is the iteration order of one run. Values reached by
  reflection are trees (\<open>gval\<close>); where the code updates an object through a pointer it has
  stored, the model takes the object out, updates it and puts it back. The database, redis,
  \<^verbatim>\<open>encoding/json\<close> and \<^verbatim>\<open>sort.Slice\<close> are arguments, with their documented behaviour as
  hypotheses or locale assumptions, each shown to hold for a concrete instance.

  \<^bold>\<open>What is shown.\<close> SQL: bound values never reach the text, and every placeholder has its value, for
  single clauses and whole selects; every table a clause mentions is joined, under one alias.
  Structures: columns and scan targets stay aligned through every level; loading a row reads each
  field from its own column whatever relations are NULL; rows are grouped by runs of equal keys.
  Put: foreign keys are filled and never overwritten, lookup keys are chosen in order, relations
  are split by the side of their foreign key, and both sides of a relation are linked after the put.
  Writing: every statement of a Put or a Delete has a value for each placeholder; a put of one model
  is an upsert of its row, a delete a filter of the rows, a get refreshes every object or fails; what
  was put is what a get reads; in a transaction nothing is durable before the commit; an object that was deleted is not found again.
  Paging returns and visits every row. Transactions are
  all or nothing for callbacks that return. The cache returns only what was stored or loaded. The
  server dispatches by the table of mounted paths, asks every route on the way for authorization
  and always answers. Messages: a delivery is answered once, a retried message is never lost, the
  consumer loses no delivery and its shutdown ends and leaves nothing behind, unless a handler
  panics in it. Time: dates, months, times and unix times survive their JSON forms, and months are
  added as on a line of months. Statistics: every vector of the prometheus adapter carries the label
  names of its last report, and a report with a label never seen before loses the counts; the
  utilization a consumer reports is a percentage; an error late in an answer with metrics leaves its status 200. A logging
  connection gives the results of the connection it wraps. An encoder made into a decoder yields what
  was written. Signals: a terminating signal ends the process once, and its message can be lost.
  Commands: a client reads only options its aspect has declared, the options of two services never
  meet, and the address of a broker determines the options it was built from. A path made from
  parameters is their segments below the root, character for character. A server that has
  returned from Shutdown has no request in flight; a second Shutdown panics. The HTTP client that
  is told to be secure sends nothing over a plain connection.

  \<^bold>\<open>Termination.\<close> Loops over data are recursive functions. The two paging loops can run forever
  when the page size is zero; they are partial functions into \<open>option\<close>, and their theorems state
  that they return. No fuel is used.

  \<^bold>\<open>Not modelled.\<close> Statistics and log lines reported inside the modelled functions, and the packages
  \<^verbatim>\<open>zhal\<close>, \<^verbatim>\<open>zbuild\<close> and \<^verbatim>\<open>zutil\<close> are left out: they are input and output or a few accessors over
  third-party values. What third-party code and the network do is an argument of the definitions
  that use it: dialling, opening a database, the connection string of the MySQL driver, JSON
  quoting, the time zone database, and the clients of redis, prometheus, statsd, logrus and the
  command line library.
\<close>

end
